(* ===== verification/Prelude.thy ===== *)
theory Prelude
  imports Main "HOL-Library.Word" "HOL-Library.Monad_Syntax"
begin

text \<open>
  What every component of the model shares: the C integer types, one allocated
  object of C memory as a list of bytes with bounds-checked \<open>memcpy\<close>-style access
  (\<open>None\<close> is undefined behaviour), little-endian scalars, the interface of a struct
  layout (locale \<open>layout\<close>: what a field-by-field encoding promises to the code
  that reads and writes structs inside byte buffers), NUL-terminated strings, and the
  environment of a call (the clock and the allocator).
\<close>

unbundle bit_operations_syntax

named_theorems mem_simps \<open>facts on bounds-checked memory access\<close>

section \<open>Integer types and buffers\<close>

type_synonym u8_t = "8 word"
type_synonym u16_t = "16 word"
type_synonym u32_t = "32 word"
type_synonym u64_t = "64 word"
type_synonym buf = "8 word list"

text \<open>
  \<open>memcpy\<close> out of and into one object: reading or writing past its end is
  undefined, hence \<open>None\<close>.
\<close>

definition rd :: "buf \<Rightarrow> nat \<Rightarrow> nat \<Rightarrow> buf option" where
  "rd b off n = (if off + n \<le> length b then Some (take n (drop off b)) else None)"

definition wr :: "buf \<Rightarrow> nat \<Rightarrow> buf \<Rightarrow> buf option" where
  "wr b off d = (if off + length d \<le> length b
                 then Some (take off b @ d @ drop (off + length d) b) else None)"

lemma rd_length: "rd b off n = Some d \<Longrightarrow> length d = n"
  by (auto simp: rd_def split: if_splits)

lemma wr_length: "wr b off d = Some b' \<Longrightarrow> length b' = length b"
  by (auto simp: wr_def split: if_splits)

lemma rd_total [mem_simps]: "off + n \<le> length b \<Longrightarrow> rd b off n = Some (take n (drop off b))"
  by (simp add: rd_def)

lemma wr_total [mem_simps]: "off + length d \<le> length b \<Longrightarrow>
    wr b off d = Some (take off b @ d @ drop (off + length d) b)"
  by (simp add: wr_def)

lemma rd_None_iff: "rd b off n = None \<longleftrightarrow> length b < off + n"
  by (auto simp: rd_def)

lemma rd_wr_same: "wr b off d = Some b' \<Longrightarrow> rd b' off (length d) = Some d"
  by (auto simp: rd_def wr_def split: if_splits)

lemma rd_wr_before: "wr b off d = Some b' \<Longrightarrow> i + n \<le> off \<Longrightarrow> rd b' i n = rd b i n"
  by (auto simp: rd_def wr_def min_def drop_take split: if_splits)

lemma rd_wr_after:
  assumes "wr b off d = Some b'" and "off + length d \<le> i"
  shows "rd b' i n = rd b i n"
proof -
  from assms have b': "b' = take off b @ d @ drop (off + length d) b"
    and le: "off + length d \<le> length b"
    by (auto simp: wr_def split: if_splits)
  from assms(2) le have "drop i b' = drop i b"
    by (simp add: b' drop_append add.commute)
  moreover have "length b' = length b" using le by (simp add: b')
  ultimately show ?thesis by (simp add: rd_def)
qed

lemmas rd_wr_disjoint = rd_wr_before rd_wr_after

lemma wr_rd_id: "rd b off n = Some d \<Longrightarrow> wr b off d = Some b"
  by (auto simp: rd_def wr_def split: if_splits)
     (metis append_take_drop_id drop_drop add.commute)

lemma rd_append_right: "rd (a @ b) (length a + i) n = rd b i n"
  by (simp add: rd_def)

lemma rd_append_left: "off + n \<le> length a \<Longrightarrow> rd (a @ b) off n = rd a off n"
  by (simp add: rd_def)

lemma wr_append_exact: "length old = length d \<Longrightarrow> wr (a @ old @ c) (length a) d = Some (a @ d @ c)"
  by (simp add: wr_def)

section \<open>Little-endian scalars\<close>

fun enc_le :: "nat \<Rightarrow> nat \<Rightarrow> buf" where
  "enc_le 0 x = []"
| "enc_le (Suc n) x = word_of_nat x # enc_le n (x div 256)"

fun dec_le :: "buf \<Rightarrow> nat" where
  "dec_le [] = 0"
| "dec_le (b # bs) = unat b + 256 * dec_le bs"

lemma length_enc_le [simp]: "length (enc_le n x) = n"
  by (induction n arbitrary: x) auto

lemma dec_enc_le: "dec_le (enc_le n x) = x mod 256 ^ n"
proof (induction n arbitrary: x)
  case (Suc n)
  have "unat (word_of_nat x :: 8 word) = x mod 256"
    by (simp add: unat_of_nat)
  with Suc show ?case
    by (simp add: mod_mult2_eq add.commute)
qed simp

lemma dec_le_bound: "dec_le bs < 256 ^ length bs"
proof (induction bs)
  case (Cons b bs)
  have "unat b < 256" using unsigned_less [where 'a=nat, of b] by simp
  with Cons show ?case by simp
qed simp

lemma enc_dec_le: "length bs = n \<Longrightarrow> enc_le n (dec_le bs) = bs"
proof (induction bs arbitrary: n)
  case (Cons b bs)
  have b: "unat b < 256" using unsigned_less [where 'a=nat, of b] by simp
  have w: "(word_of_nat (unat b + 256 * dec_le bs) :: 8 word) = b"
    by (rule unsigned_word_eqI [where 'a=nat]) (use b in \<open>simp add: unat_of_nat del: of_nat_add of_nat_mult\<close>)
  from b have "(unat b + 256 * dec_le bs) div 256 = dec_le bs" by simp
  with Cons w show ?case by (cases n) (simp_all del: of_nat_add of_nat_mult)
qed simp

text \<open>A scalar field of \<open>n\<close> bytes at offset \<open>off\<close> of an encoded struct.\<close>

definition slice :: "nat \<Rightarrow> nat \<Rightarrow> buf \<Rightarrow> buf" where
  "slice off n bs = take n (drop off bs)"

definition enc_w :: "nat \<Rightarrow> 'a::len word \<Rightarrow> buf" where
  "enc_w n w = enc_le n (unat w)"

definition dec_w :: "buf \<Rightarrow> 'a::len word" where
  "dec_w bs = word_of_nat (dec_le bs)"

lemma length_enc_w [simp]: "length (enc_w n w) = n"
  by (simp add: enc_w_def)

lemma dec_enc_w: "LENGTH('a::len) = 8 * n \<Longrightarrow> dec_w (enc_w n (w :: 'a word)) = w"
  using unsigned_less [where 'a=nat, of w] by (simp add: dec_w_def enc_w_def dec_enc_le power_mult)

lemma enc_dec_w: "LENGTH('a::len) = 8 * n \<Longrightarrow> length bs = n \<Longrightarrow> enc_w n (dec_w bs :: 'a word) = bs"
  using dec_le_bound [of bs]
  by (simp add: dec_w_def enc_w_def unat_of_nat power_mult enc_dec_le)

lemma dec_enc_w8 [simp]: "dec_w (enc_w (Suc 0) (w :: 8 word)) = w"
  and dec_enc_w24 [simp]: "dec_w (enc_w 3 (w' :: 24 word)) = w'"
  and dec_enc_w32 [simp]: "dec_w (enc_w 4 (x :: 32 word)) = x"
  and dec_enc_w64 [simp]: "dec_w (enc_w 8 (y :: 64 word)) = y"
  by (simp_all add: dec_enc_w)

lemma enc_dec_w8 [simp]: "length bs = Suc 0 \<Longrightarrow> enc_w (Suc 0) (dec_w bs :: 8 word) = bs"
  and enc_dec_w24 [simp]: "length bs = 3 \<Longrightarrow> enc_w 3 (dec_w bs :: 24 word) = bs"
  and enc_dec_w32 [simp]: "length bs = 4 \<Longrightarrow> enc_w 4 (dec_w bs :: 32 word) = bs"
  and enc_dec_w64 [simp]: "length bs = 8 \<Longrightarrow> enc_w 8 (dec_w bs :: 64 word) = bs"
  by (simp_all add: enc_dec_w)

lemma slice_0 [simp]: "slice 0 n (x @ y) = x" if "length x = n"
  using that by (simp add: slice_def)

lemma slice_skip [simp]: "slice off n (x @ y) = slice (off - length x) n y" if "length x \<le> off"
  using that by (simp add: slice_def)

lemma slice_all: "length x = n \<Longrightarrow> slice 0 n x = x"
  by (simp add: slice_def)

lemma length_slice [simp]: "off + n \<le> length bs \<Longrightarrow> length (slice off n bs) = n"
  by (simp add: slice_def)

lemma slice_glue: "slice off n bs @ drop (off + n) bs = drop off bs"
  by (simp add: slice_def) (metis append_take_drop_id drop_drop add.commute)

lemma slice_join: "slice off n bs @ slice (off + n) m bs = slice off (n + m) bs"
  by (simp add: slice_def take_add add.commute [of off])

lemma slice_joinI: "off' = off + n \<Longrightarrow> slice off n bs @ slice off' m bs = slice off (n + m) bs"
  by (simp add: slice_join)

section \<open>Unsigned word arithmetic\<close>

text \<open>When the mathematical result fits, the machine result is the mathematical one.\<close>

lemma unat_lt_exp: "unat (w :: 'a::len word) < 2 ^ LENGTH('a)"
  by (rule unsigned_less)

lemma unat_Suc_less: "i < n \<Longrightarrow> unat (i + 1) = Suc (unat i)" for i n :: "'a::len word"
proof -
  assume "i < n"
  then have "Suc (unat i) < 2 ^ LENGTH('a)"
    using unat_lt_exp [of n] unfolding word_less_nat_alt by linarith
  then show ?thesis by (simp add: unat_word_ariths)
qed

lemma unat_add_fit: "unat a + unat b < 2 ^ LENGTH('a) \<Longrightarrow> unat (a + b) = unat a + unat b"
  for a b :: "'a::len word"
  by (simp add: unat_word_ariths)

lemma unat_mult_fit: "unat a * unat b < 2 ^ LENGTH('a) \<Longrightarrow> unat (a * b) = unat a * unat b"
  for a b :: "'a::len word"
  by (simp add: unat_word_ariths)

lemma unat_sub_fit: "unat b \<le> unat a \<Longrightarrow> unat (a - b) = unat a - unat b"
  for a b :: "'a::len word"
  by (simp add: unat_sub word_le_nat_alt)

lemma unat_ucast_fit: "unat a < 2 ^ LENGTH('b) \<Longrightarrow> unat (ucast a :: 'b::len word) = unat a"
  for a :: "'a::len word"
  by (simp add: unsigned_ucast_eq take_bit_nat_eq_self)

lemma unat_ucast_up: "LENGTH('a) \<le> LENGTH('b) \<Longrightarrow> unat (ucast a :: 'b::len word) = unat a"
  for a :: "'a::len word"
  by (rule unat_ucast_fit) (rule less_le_trans [OF unat_lt_exp], simp)

lemma unat_ucast_32_64 [simp]: "unat (ucast (a :: u32_t) :: u64_t) = unat a"
  by (rule unat_ucast_up) simp

lemma unat_word_of_nat_fit: "n < 2 ^ LENGTH('a) \<Longrightarrow> unat (word_of_nat n :: 'a::len word) = n"
  by (simp add: unat_of_nat take_bit_nat_eq_self)

lemma sint_of_nat_fit: "n < 2 ^ (LENGTH('a) - 1) \<Longrightarrow> sint (word_of_nat n :: 'a::len word) = int n"
proof -
  assume n: "n < 2 ^ (LENGTH('a) - 1)"
  have "sint (word_of_nat n :: 'a word) = signed_take_bit (LENGTH('a) - 1) (int n)"
    by (simp add: signed_of_nat)
  also have "\<dots> = int n"
  proof (rule signed_take_bit_int_eq_self)
    have "- (2 ^ (LENGTH('a) - 1)) \<le> (0 :: int)" by simp
    then show "- (2 ^ (LENGTH('a) - 1)) \<le> int n" by linarith
    have "int n < int (2 ^ (LENGTH('a) - 1))" using n by (simp only: of_nat_less_iff)
    then show "int n < 2 ^ (LENGTH('a) - 1)" by (simp only: of_nat_power of_nat_numeral)
  qed
  finally show ?thesis .
qed

lemma ucast_word_of_nat: "n < 2 ^ LENGTH('a) \<Longrightarrow> ucast (word_of_nat n :: 'a::len word) = (word_of_nat n :: 'b::len word)"
  by (simp add: unsigned_of_nat take_bit_nat_eq_self)

section \<open>The interface of a struct layout\<close>

definition get_at :: "nat \<Rightarrow> (buf \<Rightarrow> 'a) \<Rightarrow> buf \<Rightarrow> nat \<Rightarrow> 'a option" where
  "get_at sz dec b off = map_option dec (rd b off sz)"

definition put_at :: "('a \<Rightarrow> buf) \<Rightarrow> buf \<Rightarrow> nat \<Rightarrow> 'a \<Rightarrow> buf option" where
  "put_at enc b off x = wr b off (enc x)"

text \<open>
  The code casts a byte pointer to a struct pointer and reads or assigns fields through
  it. What it relies on is that a struct has one size, and that its bytes and its fields
  determine each other.
\<close>

locale layout =
  fixes enc :: "'a \<Rightarrow> buf" and dec :: "buf \<Rightarrow> 'a" and sz :: nat
  assumes len_enc [simp]: "length (enc x) = sz"
    and dec_enc [simp]: "dec (enc x) = x"
    and enc_dec: "length bs = sz \<Longrightarrow> enc (dec bs) = bs"
begin

lemma enc_inj: "enc x = enc y \<longleftrightarrow> x = y"
  by (metis dec_enc)

lemma put_length: "put_at enc b off x = Some b' \<Longrightarrow> length b' = length b"
  by (simp add: put_at_def wr_length)

lemma put_some: "off + sz \<le> length b \<Longrightarrow>
    put_at enc b off x = Some (take off b @ enc x @ drop (off + sz) b)"
  by (simp add: put_at_def wr_def)

lemma put_none_iff: "put_at enc b off x = None \<longleftrightarrow> length b < off + sz"
  by (auto simp: put_at_def wr_def)

lemma get_none_iff: "get_at sz dec b off = None \<longleftrightarrow> length b < off + sz"
  by (auto simp: get_at_def rd_def)

lemma get_put_same: "put_at enc b off x = Some b' \<Longrightarrow> get_at sz dec b' off = Some x"
  by (metis get_at_def put_at_def rd_wr_same len_enc option.simps(9) dec_enc)

lemma get_put_other: "put_at enc b off x = Some b' \<Longrightarrow> i + sz \<le> off \<or> off + sz \<le> i \<Longrightarrow>
    get_at sz dec b' i = get_at sz dec b i"
  by (auto simp: get_at_def put_at_def rd_wr_before rd_wr_after)

lemma put_get_id: "get_at sz dec b off = Some x \<Longrightarrow> put_at enc b off x = Some b"
  by (auto simp: get_at_def put_at_def enc_dec rd_length intro: wr_rd_id)

lemma get_enc_append: "get_at sz dec (a @ enc x @ c) (length a) = Some x"
  by (simp add: get_at_def rd_def)

lemma get_enc_head: "get_at sz dec (enc x @ c) 0 = Some x"
  by (simp add: get_at_def rd_def)

lemma put_enc_append: "put_at enc (a @ enc x @ c) (length a) y = Some (a @ enc y @ c)"
  by (simp add: put_at_def wr_append_exact)

lemma put_enc_head: "put_at enc (enc x @ c) 0 y = Some (enc y @ c)"
  by (simp add: put_at_def wr_def)

lemma get_prefix: "off + sz \<le> length a \<Longrightarrow> get_at sz dec (a @ c) off = get_at sz dec a off"
  by (simp add: get_at_def rd_append_left)

lemma decode_ex: "length bs = sz \<Longrightarrow> \<exists>x. bs = enc x"
  using enc_dec by metis

end

section \<open>NUL-terminated strings\<close>

text \<open>
  A C string is given by its bytes before the terminating NUL. \<open>strcmp_at\<close> is
  \<open>strcmp(b + off, s) == 0\<close>: it reads byte by byte and stops at the first
  difference, so bytes after a difference need not exist.
\<close>

definition byte_at :: "buf \<Rightarrow> nat \<Rightarrow> u8_t option" where
  "byte_at b i = (if i < length b then Some (b ! i) else None)"

fun strcmp_at :: "buf \<Rightarrow> nat \<Rightarrow> buf \<Rightarrow> bool option" where
  "strcmp_at b off [] = map_option (\<lambda>x. x = 0) (byte_at b off)"
| "strcmp_at b off (c # cs) =
     (case byte_at b off of None \<Rightarrow> None
      | Some x \<Rightarrow> if x = c then strcmp_at b (Suc off) cs else Some False)"

text \<open>The C string that starts at an offset: the bytes up to the first NUL.\<close>

definition cstr_at :: "buf \<Rightarrow> nat \<Rightarrow> buf option" where
  "cstr_at b off = (if off < length b \<and> 0 \<in> set (drop off b)
                    then Some (takeWhile (\<lambda>x. x \<noteq> 0) (drop off b)) else None)"

lemma strcmp_at_cstr:
  "cstr_at b off = Some s \<Longrightarrow> 0 \<notin> set t \<Longrightarrow> strcmp_at b off t = Some (s = t)"
proof (induction t arbitrary: off s)
  case Nil
  then have "drop off b \<noteq> []" and "off < length b" by (auto simp: cstr_at_def split: if_splits)
  then obtain x xs where d: "drop off b = x # xs" and "b ! off = x"
    by (metis Cons_nth_drop_Suc)
  with Nil show ?case by (auto simp: cstr_at_def byte_at_def split: if_splits)
next
  case (Cons c cs)
  then have off: "off < length b" by (auto simp: cstr_at_def split: if_splits)
  have d: "drop off b = b ! off # drop (Suc off) b" using off by (simp add: Cons_nth_drop_Suc)
  show ?case
  proof (cases "b ! off = c")
    case True
    with Cons.prems d have z: "0 \<in> set (drop (Suc off) b)" and nz: "b ! off \<noteq> 0"
      by (auto simp: cstr_at_def split: if_splits)
    then have "Suc off < length b" by (metis drop_all empty_iff empty_set not_le)
    with z have "cstr_at b (Suc off) = Some (takeWhile (\<lambda>x. x \<noteq> 0) (drop (Suc off) b))"
      by (simp add: cstr_at_def)
    moreover from Cons.prems(1) d nz
    have "s = b ! off # takeWhile (\<lambda>x. x \<noteq> 0) (drop (Suc off) b)"
      by (auto simp: cstr_at_def split: if_splits)
    ultimately show ?thesis using Cons.IH Cons.prems(2) True off
      by (simp add: byte_at_def)
  next
    case False
    with Cons.prems d off show ?thesis
      by (auto simp: cstr_at_def byte_at_def split: if_splits)
  qed
qed

lemma cstr_at_append: "0 \<notin> set s \<Longrightarrow> cstr_at (a @ s @ 0 # c) (length a) = Some s"
  by (simp add: cstr_at_def takeWhile_append)

section \<open>The environment of a call\<close>

text \<open>
  \<open>now\<close> is what \<open>time(NULL)\<close> returns during a call, \<open>malloc n\<close> what the
  allocator returns for \<open>n\<close> bytes: \<open>None\<close> for a NULL pointer, otherwise an object
  with whatever bytes it happens to hold.
\<close>

record env =
  now :: u64_t
  malloc :: "nat \<Rightarrow> buf option"

definition malloc_ok :: "env \<Rightarrow> bool" where
  "malloc_ok E \<longleftrightarrow> (\<forall>n. \<exists>b. malloc E n = Some b \<and> length b = n)"

lemma malloc_okE: assumes "malloc_ok E" obtains b where "malloc E n = Some b" "length b = n"
  using assms unfolding malloc_ok_def by blast

text \<open>An allocator that hands out zeroed memory: it satisfies \<open>malloc_ok\<close>.\<close>

definition calm_env :: env where
  "calm_env = \<lparr>now = 1277000000, malloc = (\<lambda>n. Some (replicate n 0))\<rparr>"

lemma calm_env_ok [simp]: "malloc_ok calm_env"
  by (simp add: calm_env_def malloc_ok_def)

text \<open>A computation that gives a result has done so step by step.\<close>

lemma bindE: assumes "x \<bind> f = Some y" obtains a where "x = Some a" "f a = Some y"
  using assms by (cases x) auto

end
