(* ===== verification/CfsTypes.thy ===== *)
theory CfsTypes
  imports Prelude
begin

text \<open>
  The on-disk structures of the control node's file system (\<open>c_node/fs/cfs.h\<close>,
  \<open>type.h\<close>): constants, the structs as records (field names carry a prefix per
  struct), their byte layouts on x86-64, and the interpretation of the \<open>layout\<close>
  interface for each of them. Reserved bytes are kept as one word of the same width,
  \<open>char fstype[16]\<close> as the 128-bit word with these bytes, \<open>u32_t ip[NR_COPY]\<close> as
  a triple.
\<close>

unbundle bit_operations_syntax

section \<open>Constants\<close>

definition MAX_FILENAME :: nat where "MAX_FILENAME = 256"
definition NR_COPY :: nat where "NR_COPY = 3"
definition BLOCKSIZE :: u64_t where "BLOCKSIZE = 16 * 1024 * 1024"
definition S_DIR :: u8_t where "S_DIR = 0x1"
definition S_FIL :: u8_t where "S_FIL = 0x2"

definition S_IRD :: u8_t where "S_IRD = 0x8"
definition S_IWR :: u8_t where "S_IWR = 0x4"
definition S_ORD :: u8_t where "S_ORD = 0x2"
definition S_OWR :: u8_t where "S_OWR = 0x1"
definition S_IRW :: u8_t where "S_IRW = (S_IRD OR S_IWR)"
definition S_ORW :: u8_t where "S_ORW = (S_ORD OR S_OWR)"
definition S_ALL :: u8_t where "S_ALL = (S_IRW OR S_ORW)"
definition INITMODE :: u8_t where "INITMODE = (S_IRW OR S_ORD)"

definition SBP_O_RDONLY :: u8_t where "SBP_O_RDONLY = 0x01"
definition SBP_O_WRONLY :: u8_t where "SBP_O_WRONLY = 0x02"
definition SBP_O_RDWR :: u8_t where "SBP_O_RDWR = 0x04"
definition SBP_O_CREAT :: u8_t where "SBP_O_CREAT = 0x08"

definition BYTSPERSEC :: u32_t where "BYTSPERSEC = 512"
definition FREESEC :: u32_t where "FREESEC = 0"
definition ENDSEC :: u32_t where "ENDSEC = NOT 0"
definition EXIST :: u8_t where "EXIST = 0x1"
definition INIT_MAX :: u32_t where "INIT_MAX = 32 * 1024"

lemma ENDSEC_max: "ENDSEC = - 1"
  by (simp add: ENDSEC_def)

lemma END_neq_FREE [simp]: "ENDSEC \<noteq> FREESEC" "FREESEC \<noteq> ENDSEC"
  by (simp_all add: ENDSEC_def FREESEC_def)

lemma small_neq_ENDSEC: "unat x < 4294967295 \<Longrightarrow> x \<noteq> ENDSEC"
  by (auto simp: ENDSEC_max unsigned_minus_1_eq_mask mask_eq_exp_minus_1)

lemma num_neq_ENDSEC [simp]: "0 \<noteq> ENDSEC" "1 \<noteq> ENDSEC" "2 \<noteq> ENDSEC"
    "ENDSEC \<noteq> 0" "ENDSEC \<noteq> 1" "ENDSEC \<noteq> 2"
  using small_neq_ENDSEC [of 0] small_neq_ENDSEC [of 1] small_neq_ENDSEC [of 2] by auto

lemma BLOCKSIZE_val: "BLOCKSIZE = 16777216"
  by (simp add: BLOCKSIZE_def)

lemma unat_BLOCKSIZE [simp]: "unat BLOCKSIZE = 16777216"
  by (simp add: BLOCKSIZE_val)

lemmas mode_defs = S_IRD_def S_IWR_def S_ORD_def S_OWR_def S_IRW_def S_ORW_def S_ALL_def
  INITMODE_def

section \<open>Structs\<close>

record sb_t =
  sb_fstype :: "128 word"
  sb_bytsPerSec :: u32_t
  sb_totSecNum :: u32_t
  sb_fatSecNum :: u32_t
  sb_fatNum :: u32_t
  sb_maxBlockNum :: u64_t

record file_entry =
  fe_name :: u64_t
  fe_fb :: u32_t
  fe_type :: u8_t
  fe_reserve :: "24 word"

record file_meta =
  fm_uid :: u32_t
  fm_count :: u32_t
  fm_flen :: u64_t
  fm_c_time :: u64_t
  fm_r_time :: u64_t
  fm_w_time :: u64_t
  fm_strbase :: u64_t
  fm_strlen :: u64_t
  fm_blocks :: u32_t
  fm_flags :: u8_t
  fm_reserve :: "24 word"

type_synonym ip_array = "u32_t \<times> u32_t \<times> u32_t"

record file_block =
  bl_block_num :: u64_t
  bl_offset :: u32_t
  bl_length :: u32_t
  bl_ip :: ip_array
  bl_flags :: u8_t
  bl_reserve :: "24 word"

record sendblock =
  sd_block_num :: u64_t
  sd_offset :: u32_t
  sd_length :: u32_t
  sd_ip :: ip_array

record c_stat_t =
  st_size :: u64_t
  st_atime :: u64_t
  st_mtime :: u64_t
  st_ctime :: u64_t
  st_owner :: u32_t
  st_mode :: u8_t

text \<open>
  The in-memory disk. The C object \<open>dt_buf\<close> is the superblock sector (the \<open>sb_t\<close> and
  the rest of its sector, \<open>sb_pad\<close>), the FAT at \<open>fat_p\<close> and the data sectors at
  \<open>data\<close>; the three regions are kept apart here, and an access that leaves its region
  is \<open>None\<close>.
\<close>

record dtree =
  sb :: sb_t
  sb_pad :: buf
  fat_p :: "u32_t list"
  data :: buf
  dt_size :: u32_t
  in_size :: u32_t
  dt_max :: u32_t
  in_max :: u32_t
  in_buf :: buf

abbreviation bps :: "dtree \<Rightarrow> u32_t" where
  "bps d \<equiv> sb_bytsPerSec (sb d)"

section \<open>Byte layouts\<close>

definition enc_ips :: "ip_array \<Rightarrow> buf" where
  "enc_ips = (\<lambda>(a, b, c). enc_w 4 a @ enc_w 4 b @ enc_w 4 c)"

definition dec_ips :: "buf \<Rightarrow> ip_array" where
  "dec_ips bs = (dec_w (slice 0 4 bs), dec_w (slice 4 4 bs), dec_w (slice 8 4 bs))"

definition enc_sb :: "sb_t \<Rightarrow> buf" where
  "enc_sb s = enc_w 16 (sb_fstype s) @ enc_w 4 (sb_bytsPerSec s) @ enc_w 4 (sb_totSecNum s)
     @ enc_w 4 (sb_fatSecNum s) @ enc_w 4 (sb_fatNum s) @ enc_w 8 (sb_maxBlockNum s)"

definition dec_sb :: "buf \<Rightarrow> sb_t" where
  "dec_sb bs = \<lparr>sb_fstype = dec_w (slice 0 16 bs), sb_bytsPerSec = dec_w (slice 16 4 bs),
     sb_totSecNum = dec_w (slice 20 4 bs), sb_fatSecNum = dec_w (slice 24 4 bs),
     sb_fatNum = dec_w (slice 28 4 bs), sb_maxBlockNum = dec_w (slice 32 8 bs)\<rparr>"

definition enc_entry :: "file_entry \<Rightarrow> buf" where
  "enc_entry e = enc_w 8 (fe_name e) @ enc_w 4 (fe_fb e) @ enc_w 1 (fe_type e)
     @ enc_w 3 (fe_reserve e)"

definition dec_entry :: "buf \<Rightarrow> file_entry" where
  "dec_entry bs = \<lparr>fe_name = dec_w (slice 0 8 bs), fe_fb = dec_w (slice 8 4 bs),
     fe_type = dec_w (slice 12 1 bs), fe_reserve = dec_w (slice 13 3 bs)\<rparr>"

definition enc_meta :: "file_meta \<Rightarrow> buf" where
  "enc_meta m = enc_w 4 (fm_uid m) @ enc_w 4 (fm_count m) @ enc_w 8 (fm_flen m)
     @ enc_w 8 (fm_c_time m) @ enc_w 8 (fm_r_time m) @ enc_w 8 (fm_w_time m)
     @ enc_w 8 (fm_strbase m) @ enc_w 8 (fm_strlen m) @ enc_w 4 (fm_blocks m)
     @ enc_w 1 (fm_flags m) @ enc_w 3 (fm_reserve m)"

definition dec_meta :: "buf \<Rightarrow> file_meta" where
  "dec_meta bs = \<lparr>fm_uid = dec_w (slice 0 4 bs), fm_count = dec_w (slice 4 4 bs),
     fm_flen = dec_w (slice 8 8 bs), fm_c_time = dec_w (slice 16 8 bs),
     fm_r_time = dec_w (slice 24 8 bs), fm_w_time = dec_w (slice 32 8 bs),
     fm_strbase = dec_w (slice 40 8 bs), fm_strlen = dec_w (slice 48 8 bs),
     fm_blocks = dec_w (slice 56 4 bs), fm_flags = dec_w (slice 60 1 bs),
     fm_reserve = dec_w (slice 61 3 bs)\<rparr>"

definition enc_fblock :: "file_block \<Rightarrow> buf" where
  "enc_fblock b = enc_w 8 (bl_block_num b) @ enc_w 4 (bl_offset b) @ enc_w 4 (bl_length b)
     @ enc_ips (bl_ip b) @ enc_w 1 (bl_flags b) @ enc_w 3 (bl_reserve b)"

definition dec_fblock :: "buf \<Rightarrow> file_block" where
  "dec_fblock bs = \<lparr>bl_block_num = dec_w (slice 0 8 bs), bl_offset = dec_w (slice 8 4 bs),
     bl_length = dec_w (slice 12 4 bs), bl_ip = dec_ips (slice 16 12 bs),
     bl_flags = dec_w (slice 28 1 bs), bl_reserve = dec_w (slice 29 3 bs)\<rparr>"

lemma slice_slice: "i + n \<le> m \<Longrightarrow> slice i n (slice off m bs) = slice (off + i) n bs"
  by (simp add: slice_def drop_take min_def add.commute)

lemma length_enc_ips [simp]: "length (enc_ips x) = 12"
  by (cases x) (simp add: enc_ips_def)

lemma dec_enc_ips [simp]: "dec_ips (enc_ips x) = x"
  by (cases x) (simp add: enc_ips_def dec_ips_def slice_all)

lemma enc_dec_ips: "length bs = 12 \<Longrightarrow> enc_ips (dec_ips bs) = bs"
  by (simp add: enc_ips_def dec_ips_def slice_joinI slice_all)

text \<open>Each struct has the \<open>layout\<close> its byte encoding gives it.\<close>

interpretation sb: layout enc_sb dec_sb 40
  by unfold_locales
     (simp_all add: enc_sb_def dec_sb_def slice_all slice_joinI dec_enc_w enc_dec_w)

interpretation entry: layout enc_entry dec_entry 16
  by unfold_locales (simp_all add: enc_entry_def dec_entry_def slice_all slice_joinI)

interpretation meta: layout enc_meta dec_meta 64
  by unfold_locales (simp_all add: enc_meta_def dec_meta_def slice_all slice_joinI)

interpretation fblock: layout enc_fblock dec_fblock 32
  by unfold_locales
     (simp_all add: enc_fblock_def dec_fblock_def slice_all slice_joinI enc_dec_ips)

interpretation u32: layout "enc_w 4 :: u32_t \<Rightarrow> buf" dec_w 4
  by unfold_locales simp_all

section \<open>Struct access\<close>

abbreviation "get_meta \<equiv> get_at 64 dec_meta"
abbreviation "put_meta \<equiv> put_at enc_meta"
abbreviation "get_entry \<equiv> get_at 16 dec_entry"
abbreviation "put_entry \<equiv> put_at enc_entry"
abbreviation "get_fblock \<equiv> get_at 32 dec_fblock"
abbreviation "put_fblock \<equiv> put_at enc_fblock"

text \<open>\<open>sizeof\<close> of the structs, as the code computes with them (type \<open>size_t\<close>).\<close>

abbreviation szof_meta :: u64_t where "szof_meta \<equiv> 64"
abbreviation szof_entry :: u64_t where "szof_entry \<equiv> 16"
abbreviation szof_fblock :: u64_t where "szof_fblock \<equiv> 32"

end
