(* ===== verification/CfsUtil.thy ===== *)
theory CfsUtil
  imports CfsTypes
begin

text \<open>
  The leaf helpers of \<open>c_node/fs/cfs.c\<close>: permission and ownership checks, the
  round-robin choice of replica addresses and block allocation, rounding division and
  the splitting of a path into parent and file name.
\<close>

unbundle bit_operations_syntax

section \<open>Permission and ownership\<close>

definition opR :: u8_t where "opR = 0x2"
definition opW :: u8_t where "opW = 0x1"

text \<open>The C result is an \<open>int\<close> that the callers test against zero.\<close>

definition permission_check :: "u32_t \<Rightarrow> file_meta \<Rightarrow> u8_t \<Rightarrow> u8_t" where
  "permission_check uid meta op =
     (let oid = fm_uid meta;
          fmode = fm_flags meta AND S_ALL;
          uid = (if uid = 0 then oid else uid)
      in if uid = oid \<and> op = opR then fmode AND S_IRD
         else if uid = oid \<and> op = opW then fmode AND S_IWR
         else if uid \<noteq> oid \<and> op = opR then fmode AND S_ORD
         else if uid \<noteq> oid \<and> op = opW then fmode AND S_OWR
         else 0)"

definition own_check :: "u32_t \<Rightarrow> u32_t \<Rightarrow> bool" where
  "own_check uid oid = (if uid = 0 then True else uid = oid)"

definition is_dir_empty :: "file_meta \<Rightarrow> bool" where
  "is_dir_empty meta = (\<not> (fm_strbase meta > 2 * szof_entry))"

text \<open>What a user may do, as bits of the mode the owner chose.\<close>

definition mode_grants :: "u8_t \<Rightarrow> bool \<Rightarrow> bool \<Rightarrow> bool" where
  "mode_grants mode owner write =
     bit mode (if owner then (if write then 2 else 3) else (if write then 0 else 1))"

lemma mode_masks: "S_ALL = mask 4" "S_IRD = push_bit 3 1" "S_IWR = push_bit 2 1"
    "S_ORD = push_bit 1 1" "S_OWR = push_bit 0 1"
  by (simp_all add: mode_defs mask_eq_decr_exp)

lemma and_single_bit: "(w AND mask 4) AND push_bit n 1 \<noteq> 0 \<longleftrightarrow> bit w n"
  if "n < 4" for w :: u8_t
proof -
  have "(w AND mask 4) AND push_bit n 1 = (if bit w n then push_bit n 1 else 0)"
    by (rule bit_eqI) (use that in \<open>auto simp: bit_simps\<close>)
  moreover have "push_bit n (1 :: u8_t) \<noteq> 0"
    using that by (auto simp: bit_eq_iff bit_simps intro!: exI [of _ n])
  ultimately show ?thesis by simp
qed

lemma mode_bit_tests:
  "(w AND S_ALL) AND S_IRD \<noteq> 0 \<longleftrightarrow> bit w 3" "(w AND S_ALL) AND S_IWR \<noteq> 0 \<longleftrightarrow> bit w 2"
  "(w AND S_ALL) AND S_ORD \<noteq> 0 \<longleftrightarrow> bit w 1" "(w AND S_ALL) AND S_OWR \<noteq> 0 \<longleftrightarrow> bit w 0"
  using and_single_bit [of 3 w] and_single_bit [of 2 w] and_single_bit [of 1 w]
    and_single_bit [of 0 w] by (simp_all only: mode_masks)

lemma permission_check_bits:
  "permission_check uid meta (if w then opW else opR) \<noteq> 0
     \<longleftrightarrow> mode_grants (fm_flags meta) (uid = 0 \<or> uid = fm_uid meta) w"
  by (cases w; cases "uid = 0"; cases "uid = fm_uid meta")
     (simp_all add: permission_check_def mode_grants_def mode_bit_tests opR_def opW_def Let_def)

text \<open>
  Access decisions: \<open>permission_check\<close> grants an operation exactly when the mode has
  the owner bit (for the owner and for user 0, who counts as the owner of every file) or
  the other-users bit (for everybody else); any other operation code is refused.
\<close>
lemma permission_check_spec:
  "(permission_check uid meta opR \<noteq> 0
      \<longleftrightarrow> mode_grants (fm_flags meta) (uid = 0 \<or> uid = fm_uid meta) False)
   \<and> (permission_check uid meta opW \<noteq> 0
      \<longleftrightarrow> mode_grants (fm_flags meta) (uid = 0 \<or> uid = fm_uid meta) True)
   \<and> (op \<notin> {opR, opW} \<longrightarrow> permission_check uid meta op = 0)"
  using permission_check_bits [of uid meta True] permission_check_bits [of uid meta False]
  by (simp add: permission_check_def Let_def)

section \<open>Rounding division\<close>

definition up_div :: "u64_t \<Rightarrow> u64_t \<Rightarrow> u64_t" where
  "up_div a b = (a + b - 1) div b"

lemma unat_up_div:
  assumes "0 < unat b" and "unat a + unat b < 2 ^ 64"
  shows "unat (up_div a b) = (unat a + unat b - 1) div unat b"
proof -
  have ab: "unat (a + b) = unat a + unat b"
    using assms(2) by (simp add: unat_word_ariths)
  have "1 \<le> a + b"
    using assms(1) ab by (simp add: word_le_nat_alt)
  then have "unat (a + b - 1) = unat a + unat b - 1"
    using ab by (simp add: unat_sub)
  then show ?thesis by (simp add: up_div_def unat_div)
qed

section \<open>Replica placement and block allocation\<close>

text \<open>
  \<open>gen_ip_index\<close> keeps a \<open>static int\<close>; it is passed in and returned. Incrementing it
  past \<open>INT_MAX\<close> and a zero \<open>mx\<close> are undefined.
\<close>

definition gen_ip_index :: "int \<Rightarrow> int \<Rightarrow> (int \<times> int) option" where
  "gen_ip_index i mx = (if mx = 0 \<or> i \<ge> 2 ^ 31 - 1 then None else Some (i mod mx, i + 1))"

definition ip_get :: "nat \<Rightarrow> ip_array \<Rightarrow> u32_t" where
  "ip_get k = (\<lambda>(a, b, c). if k = 0 then a else if k = 1 then b else c)"

definition ip_set :: "nat \<Rightarrow> u32_t \<Rightarrow> ip_array \<Rightarrow> ip_array" where
  "ip_set k x = (\<lambda>(a, b, c). if k = 0 then (x, b, c) else if k = 1 then (a, x, c) else (a, b, x))"

definition blank_block :: file_block where
  "blank_block = \<lparr>bl_block_num = 0, bl_offset = 0, bl_length = 0, bl_ip = (0, 0, 0),
     bl_flags = 0, bl_reserve = 0\<rparr>"

function alloc_ips :: "u32_t list \<Rightarrow> int \<Rightarrow> nat \<Rightarrow> int \<Rightarrow> file_block \<Rightarrow> (file_block \<times> int) option" where
  "alloc_ips ips mx i ctr block =
     (if i < NR_COPY then do {
        (ix, ctr) \<leftarrow> gen_ip_index ctr mx;
        ip \<leftarrow> (if 0 \<le> ix \<and> nat ix < length ips then Some (ips ! nat ix) else None);
        if i \<noteq> 0 \<and> ip = ip_get 0 (bl_ip block) then Some (block, ctr)
        else alloc_ips ips mx (Suc i) ctr (block\<lparr>bl_ip := ip_set i ip (bl_ip block)\<rparr>)
      } else Some (block, ctr))"
  by pat_completeness auto
termination by (relation "measure (\<lambda>(ips, mx, i, ctr, block). NR_COPY - i)") auto

declare alloc_ips.simps [simp del]

definition alloc_block :: "dtree \<Rightarrow> int \<Rightarrow> u32_t list \<Rightarrow> int \<Rightarrow> (file_block \<times> dtree \<times> int) option" where
  "alloc_block dt ctr ips mx = do {
     (block, ctr) \<leftarrow> alloc_ips ips mx 0 ctr blank_block;
     let n = sb_maxBlockNum (sb dt);
     let block = block\<lparr>bl_block_num := n, bl_offset := 0, bl_flags := bl_flags block OR EXIST\<rparr>;
     Some (block, dt\<lparr>sb := (sb dt)\<lparr>sb_maxBlockNum := n + 1\<rparr>\<rparr>, ctr)
   }"

text \<open>The address that the \<open>k\<close>-th call from counter \<open>ctr\<close> picks out of \<open>ips\<close>.\<close>

definition pick_ip :: "u32_t list \<Rightarrow> int \<Rightarrow> nat \<Rightarrow> u32_t" where
  "pick_ip ips ctr k = ips ! nat ((ctr + int k) mod int (length ips))"

lemma pick_ip_eq_iff:
  assumes "distinct ips" and "0 < length ips"
  shows "pick_ip ips ctr j = pick_ip ips ctr i \<longleftrightarrow> int (length ips) dvd int j - int i"
proof -
  let ?n = "int (length ips)"
  have b: "0 \<le> (ctr + int k) mod ?n" "nat ((ctr + int k) mod ?n) < length ips" for k
    using assms(2) by (simp_all add: nat_less_iff)
  have "pick_ip ips ctr j = pick_ip ips ctr i \<longleftrightarrow> (ctr + int j) mod ?n = (ctr + int i) mod ?n"
    using assms(1) b by (simp add: pick_ip_def nth_eq_iff_index_eq eq_nat_nat_iff)
  then show ?thesis by (simp add: mod_eq_dvd_iff)
qed

lemma alloc_ips_step:
  assumes "0 < length ips" and "0 \<le> ctr" and "ctr + int i < 2 ^ 31 - 1" and "i < NR_COPY"
  shows "alloc_ips ips (int (length ips)) i (ctr + int i) block =
    (if i \<noteq> 0 \<and> pick_ip ips ctr i = ip_get 0 (bl_ip block) then Some (block, ctr + int (Suc i))
     else alloc_ips ips (int (length ips)) (Suc i) (ctr + int (Suc i))
            (block\<lparr>bl_ip := ip_set i (pick_ip ips ctr i) (bl_ip block)\<rparr>))"
proof -
  have "nat ((ctr + int i) mod int (length ips)) < length ips"
    using assms(1) by (simp add: nat_less_iff)
  with assms show ?thesis
    by (subst alloc_ips.simps) (simp add: gen_ip_index_def pick_ip_def algebra_simps)
qed

lemma alloc_ips_done: "NR_COPY \<le> i \<Longrightarrow> alloc_ips ips mx i ctr block = Some (block, ctr)"
  by (subst alloc_ips.simps) simp

lemma dvd_small: "(n::int) dvd 1 \<longleftrightarrow> n = 1" "n dvd 2 \<longleftrightarrow> n = 1 \<or> n = 2" if "0 < n"
proof -
  show "n dvd 1 \<longleftrightarrow> n = 1" using that by auto
  show "n dvd 2 \<longleftrightarrow> n = 1 \<or> n = 2"
    using that zdvd_imp_le [of n 2] by auto
qed

text \<open>
  Replica placement: with distinct addresses of data nodes, \<open>alloc_block\<close> gives a new
  block the next unused block number and as many replicas as there are addresses, at most
  three; they are the next ones in round-robin order, so no two of them are on the same
  node, and the unused slots stay 0.
\<close>
lemma alloc_block_replicas:
  assumes "distinct ips" and "ips \<noteq> []" and "0 \<le> ctr" and "ctr < 2 ^ 31 - 3"
  shows "\<exists>block ctr'. alloc_block dt ctr ips (int (length ips)) =
       Some (block, dt\<lparr>sb := (sb dt)\<lparr>sb_maxBlockNum := sb_maxBlockNum (sb dt) + 1\<rparr>\<rparr>, ctr')
     \<and> bl_block_num block = sb_maxBlockNum (sb dt) \<and> bit (bl_flags block) 0
     \<and> (\<forall>k<3. ip_get k (bl_ip block) = (if k < length ips then pick_ip ips ctr k else 0))
     \<and> (\<forall>j<3. \<forall>k<3. j \<noteq> k \<and> j < length ips \<and> k < length ips
           \<longrightarrow> ip_get j (bl_ip block) \<noteq> ip_get k (bl_ip block))"
proof -
  let ?n = "int (length ips)"
  have n: "0 < ?n" using assms(2) by simp
  note step = alloc_ips_step [OF _ assms(3), of ips]
  have eq: "pick_ip ips ctr j = pick_ip ips ctr i \<longleftrightarrow> ?n dvd int j - int i" for i j
    using pick_ip_eq_iff assms(1,2) by blast
  define ip where "ip = (if ?n = 1 then (pick_ip ips ctr 0, 0, 0)
     else if ?n = 2 then (pick_ip ips ctr 0, pick_ip ips ctr 1, 0)
     else (pick_ip ips ctr 0, pick_ip ips ctr 1, pick_ip ips ctr 2))"
  have run: "\<exists>c. alloc_ips ips ?n 0 ctr blank_block = Some (blank_block\<lparr>bl_ip := ip\<rparr>, c)"
    using step [of 0 blank_block] step [of 1] step [of 2] assms(2,4) eq [of 1 0] eq [of 2 0] n
    by (auto simp: NR_COPY_def alloc_ips_done dvd_small blank_block_def ip_get_def
          ip_set_def ip_def numeral_2_eq_2)
  then obtain c where c: "alloc_ips ips ?n 0 ctr blank_block = Some (blank_block\<lparr>bl_ip := ip\<rparr>, c)" ..
  let ?b = "blank_block\<lparr>bl_ip := ip, bl_block_num := sb_maxBlockNum (sb dt), bl_offset := 0,
              bl_flags := EXIST\<rparr>"
  have three: "length ips = 1 \<or> length ips = 2 \<or> 3 \<le> length ips"
  proof -
    have "length ips \<noteq> 0" using assms(2) by simp
    then show ?thesis by linarith
  qed
  have ips: "\<forall>k<3. ip_get k ip = (if k < length ips then pick_ip ips ctr k else 0)"
    using three by (auto simp: ip_def ip_get_def less_Suc_eq numeral_3_eq_3 numeral_2_eq_2)
  have "\<not> ?n dvd int j - int k" if "j < 3" "k < 3" "j \<noteq> k" "j < length ips" "k < length ips" for j k
  proof
    assume "?n dvd int j - int k"
    then have "?n \<le> \<bar>int j - int k\<bar>" using that(3) by (intro zdvd_imp_le) auto
    with that show False by linarith
  qed
  with ips eq have "\<forall>j<3. \<forall>k<3. j \<noteq> k \<and> j < length ips \<and> k < length ips \<longrightarrow> ip_get j ip \<noteq> ip_get k ip"
    by auto
  with c ips show ?thesis
    by (intro exI [of _ ?b] exI [of _ c]) (simp add: alloc_block_def blank_block_def EXIST_def Let_def)
qed

section \<open>Splitting a path\<close>

abbreviation SLASH :: u8_t where "SLASH \<equiv> 47"

text \<open>
  A path is the bytes before its NUL. The loop remembers the last slash that does not
  end the path, and cuts off a slash that does; the code then writes a NUL over the
  remembered slash, so that \<open>path\<close> becomes the parent and the rest is the name.
\<close>

function gf_scan :: "nat \<Rightarrow> nat \<Rightarrow> buf \<Rightarrow> int \<Rightarrow> buf \<times> int" where
  "gf_scan len i path lst =
     (if i < len then
        if path ! i = SLASH then
          if i \<noteq> len - 1 then gf_scan len (Suc i) path (int i)
          else gf_scan len (Suc i) (path[i := 0]) lst
        else gf_scan len (Suc i) path lst
      else (path, lst))"
  by pat_completeness auto
termination by (relation "measure (\<lambda>(len, i, path, lst). len - i)") auto

declare gf_scan.simps [simp del]

definition cstr :: "buf \<Rightarrow> buf" where
  "cstr b = takeWhile (\<lambda>x. x \<noteq> 0) b"

definition get_filename_from_path :: "buf \<Rightarrow> (buf \<times> buf) option" where
  "get_filename_from_path path =
     (let (path, lst) = gf_scan (length path) 0 path (-1)
      in if lst = -1 then None
         else let path = path[nat lst := 0]
              in Some (cstr path, cstr (drop (nat lst + 1) path)))"

lemma gf_scan_skip:
  "i \<le> j \<Longrightarrow> j \<le> len \<Longrightarrow> \<forall>k. i \<le> k \<and> k < j \<longrightarrow> path ! k \<noteq> SLASH \<Longrightarrow>
     gf_scan len i path lst = gf_scan len j path lst"
proof (induction "j - i" arbitrary: i)
  case (Suc n)
  then have "i < len" and "path ! i \<noteq> SLASH" by auto
  then have "gf_scan len i path lst = gf_scan len (Suc i) path lst"
    by (subst gf_scan.simps) simp
  also have "\<dots> = gf_scan len j path lst"
    using Suc by (intro Suc.hyps) auto
  finally show ?case .
qed simp

lemma gf_scan_prefix:
  "i \<le> j \<Longrightarrow> j < len \<Longrightarrow> \<exists>lst'. gf_scan len i path lst = gf_scan len j path lst'"
proof (induction "j - i" arbitrary: i lst)
  case (Suc n)
  then have "\<exists>l. gf_scan len i path lst = gf_scan len (Suc i) path l"
    by (subst gf_scan.simps) auto
  with Suc show ?case by (metis Suc_diff_Suc Suc_leI diff_Suc_1 zero_less_Suc zero_less_diff)
qed auto

lemma cstr_no_nul [simp]: "0 \<notin> set s \<Longrightarrow> cstr s = s"
  by (auto simp: cstr_def takeWhile_eq_all_conv)

lemma cstr_cut [simp]: "0 \<notin> set s \<Longrightarrow> cstr (s @ 0 # t) = s"
  by (simp add: cstr_def takeWhile_append)

lemma gf_scan_last_component:
  assumes "path = p @ SLASH # nm" and "nm \<noteq> []" and "SLASH \<notin> set nm"
  shows "gf_scan (length path) 0 path (-1) = (path, int (length p))"
proof -
  let ?n = "length path" and ?i = "length p"
  have i: "?i < ?n" "?i \<noteq> ?n - 1" using assms(1,2) by (cases nm; simp)+
  obtain l where "gf_scan ?n 0 path (-1) = gf_scan ?n ?i path l"
    using gf_scan_prefix [of 0 ?i ?n path "-1"] i by auto
  also have "\<dots> = gf_scan ?n (Suc ?i) path (int ?i)"
    using i assms(1) by (subst gf_scan.simps) (simp add: nth_append)
  also have "\<dots> = gf_scan ?n ?n path (int ?i)"
    using assms by (intro gf_scan_skip) (auto simp: nth_append nth_Cons in_set_conv_nth split: nat.splits)
  also have "\<dots> = (path, int ?i)" by (subst gf_scan.simps) simp
  finally show ?thesis .
qed

lemma gf_scan_trailing_slash:
  assumes "path = p @ SLASH # nm @ [SLASH]" and "nm \<noteq> []" and "SLASH \<notin> set nm"
  shows "gf_scan (length path) 0 path (-1) = (p @ SLASH # nm @ [0], int (length p))"
proof -
  let ?n = "length path" and ?i = "length p" and ?j = "length p + 1 + length nm"
  have i: "?i < ?n" "?i \<noteq> ?n - 1" using assms(1,2) by (cases nm; simp)+
  obtain l where "gf_scan ?n 0 path (-1) = gf_scan ?n ?i path l"
    using gf_scan_prefix [of 0 ?i ?n path "-1"] i by auto
  also have "\<dots> = gf_scan ?n (Suc ?i) path (int ?i)"
    using i assms(1) by (subst gf_scan.simps) (simp add: nth_append)
  also have "\<dots> = gf_scan ?n ?j path (int ?i)"
    using assms by (intro gf_scan_skip) (auto simp: nth_append nth_Cons in_set_conv_nth split: nat.splits)
  also have "\<dots> = gf_scan ?n (Suc ?j) (path[?j := 0]) (int ?i)"
    using assms(1) by (subst gf_scan.simps) (simp add: nth_append)
  also have "\<dots> = (path[?j := 0], int ?i)"
    using assms(1) by (subst gf_scan.simps) simp
  also have "path[?j := 0] = p @ SLASH # nm @ [0]"
    using assms(1) by (simp add: list_update_append)
  finally show ?thesis .
qed

text \<open>
  Path splitting: for a path made of a parent, a slash, a non-empty name without
  slashes and possibly one more slash, \<open>get_filename_from_path\<close> returns exactly that
  parent and that name.
\<close>
lemma get_filename_from_path_splits:
  assumes "0 \<notin> set p" and "0 \<notin> set nm" and "SLASH \<notin> set nm" and "nm \<noteq> []"
    and "tail = [] \<or> tail = [SLASH]"
  shows "get_filename_from_path (p @ SLASH # nm @ tail) = Some (p, nm)"
proof (cases "tail = []")
  case True
  with assms gf_scan_last_component [of "p @ SLASH # nm" p nm] show ?thesis
    by (simp add: get_filename_from_path_def)
next
  case False
  with assms gf_scan_trailing_slash [of "p @ SLASH # nm @ [SLASH]" p nm] show ?thesis
    by (simp add: get_filename_from_path_def)
qed

lemma get_filename_no_slash:
  assumes "SLASH \<notin> set path" shows "get_filename_from_path path = None"
proof -
  have "gf_scan (length path) 0 path (-1) = gf_scan (length path) (length path) path (-1)"
    using assms by (intro gf_scan_skip) (auto simp: in_set_conv_nth)
  then show ?thesis by (simp add: get_filename_from_path_def gf_scan.simps)
qed

end
