(* ===== verification/CfsFat.thy ===== *)
theory CfsFat
  imports CfsUtil
begin

text \<open>
  The allocation table and the sectors of the in-memory disk (\<open>c_node/fs/cfs.c\<close>):
  freeing a chain, finding a free sector, growing the disk, and reading and writing a
  file sector by sector. A loop of the code that need not end is a
  \<^theory_text>\<open>partial_function\<close>; \<open>None\<close> is undefined behaviour or a loop that does not end.
\<close>

unbundle bit_operations_syntax

section \<open>The operations of the code\<close>

definition fat_set :: "u32_t list \<Rightarrow> u32_t \<Rightarrow> u32_t \<Rightarrow> u32_t list option" where
  "fat_set fat i v = (if unat i < length fat then Some (fat[unat i := v]) else None)"

partial_function (option) reset_fat :: "u32_t \<Rightarrow> u32_t list \<Rightarrow> u32_t list option" where
  "reset_fat fat_num fat =
     (if fat_num \<noteq> ENDSEC then
        if unat fat_num < length fat
        then reset_fat (fat ! unat fat_num) (fat[unat fat_num := FREESEC])
        else None
      else Some fat)"

function next_free_fat :: "u32_t \<Rightarrow> u32_t list \<Rightarrow> u32_t \<Rightarrow> u32_t option" where
  "next_free_fat i fat fat_num =
     (if i < fat_num then
        if unat i < length fat then
          if fat ! unat i = FREESEC then Some i else next_free_fat (i + 1) fat fat_num
        else None
      else Some (- 1))"
  by pat_completeness auto
termination
  by (relation "measure (\<lambda>(i, fat, fat_num). unat fat_num - unat i)")
     (auto simp: unat_Suc_less word_less_nat_alt)

declare next_free_fat.simps [simp del]

text \<open>
  \<open>extend\<close> returns 1 when the disk is already large enough (which is also what it sees
  when doubling the 32-bit size wrapped around to 0), -9 when the allocator fails, and
  otherwise 0 with the superblock, the FAT and the data copied into the larger object.
\<close>

definition extend :: "env \<Rightarrow> dtree \<Rightarrow> u64_t \<Rightarrow> (int \<times> dtree) option" where
  "extend E dt newsize =
     (let bytsPerSec = bps dt in
      if bytsPerSec = 0 then None else
      let totSecNum = (ucast (newsize div ucast bytsPerSec) :: u32_t);
          fatSize = (ucast ((ucast totSecNum :: u64_t) * 4) :: u32_t);
          fatSecNum = (fatSize + bytsPerSec - 1) div bytsPerSec
      in
      if ucast (dt_size dt) \<ge> newsize then Some (1, dt) else
      case malloc E (unat newsize) of
        None \<Rightarrow> Some (- 9, dt)
      | Some buf \<Rightarrow>
          let s = (sb dt)\<lparr>sb_totSecNum := totSecNum, sb_fatSecNum := fatSecNum,
                sb_fatNum := ucast ((newsize - ucast fatSize - ucast bytsPerSec)
                                     div ucast bytsPerSec)\<rparr>;
              fatBytes = unat (fatSecNum * bytsPerSec);
              oldFatBytes = unat (sb_fatSecNum (sb dt) * bytsPerSec);
              olddata_len = unat (dt_size dt - bytsPerSec - sb_fatSecNum (sb dt) * bytsPerSec);
              dataOff = unat bytsPerSec + fatBytes
          in
          if 40 \<le> unat bytsPerSec \<and> dataOff \<le> length buf
             \<and> oldFatBytes = 4 * length (fat_p dt) \<and> oldFatBytes \<le> fatBytes then do {
            old \<leftarrow> rd (data dt) 0 olddata_len;
            dat \<leftarrow> wr (drop dataOff buf) 0 old;
            Some (0, dt\<lparr>sb := s, sb_pad := replicate (unat bytsPerSec - 40) 0,
              fat_p := fat_p dt @ replicate ((fatBytes - oldFatBytes) div 4) FREESEC,
              data := dat, dt_size := ucast newsize, dt_max := ucast newsize\<rparr>)
          } else None)"

text \<open>The loop that looks for a free sector and doubles the disk until there is one.\<close>

partial_function (option) find_free :: "env \<Rightarrow> dtree \<Rightarrow> u32_t \<Rightarrow> (u32_t \<times> dtree) option" where
  "find_free E dt base = do {
     next \<leftarrow> next_free_fat base (fat_p dt) (sb_fatNum (sb dt));
     if next \<noteq> - 1 then Some (next, dt)
     else do {
       (_, dt) \<leftarrow> extend E dt (ucast (dt_size dt * 2));
       find_free E dt base
     }
   }"

partial_function (option) writefile_loop ::
  "env \<Rightarrow> u32_t \<Rightarrow> u32_t \<Rightarrow> buf \<Rightarrow> dtree \<Rightarrow> u32_t \<Rightarrow> u32_t \<Rightarrow> u64_t \<Rightarrow> dtree option" where
  "writefile_loop E bytsPerSec blocks dat dt i fat_index sz =
     (if i < blocks then do {
        let len = (ucast (if sz < ucast bytsPerSec then sz else ucast bytsPerSec) :: 32 word);
        chunk \<leftarrow> rd dat (unat (i * bytsPerSec)) (unat (scast len :: u64_t));
        data' \<leftarrow> wr (data dt) (unat (fat_index * bytsPerSec)) chunk;
        fat \<leftarrow> fat_set (fat_p dt) fat_index ENDSEC;
        let dt = dt\<lparr>data := data', fat_p := fat\<rparr>;
        let i = i + 1;
        if i \<ge> blocks then Some dt
        else do {
          (next, dt) \<leftarrow> find_free E dt fat_index;
          fat \<leftarrow> fat_set (fat_p dt) fat_index next;
          writefile_loop E bytsPerSec blocks dat (dt\<lparr>fat_p := fat\<rparr>) i next
            (sz - ucast bytsPerSec)
        }
      } else Some dt)"

definition do_writefile :: "env \<Rightarrow> dtree \<Rightarrow> u32_t \<Rightarrow> buf \<Rightarrow> u64_t \<Rightarrow> dtree option" where
  "do_writefile E dt fb dat sz = do {
     meta \<leftarrow> get_meta dat 0;
     fat \<leftarrow> reset_fat fb (fat_p dt);
     writefile_loop E (bps dt) (fm_blocks meta) dat (dt\<lparr>fat_p := fat\<rparr>) 0 fb sz
   }"

partial_function (option) readfile_loop ::
  "dtree \<Rightarrow> u32_t \<Rightarrow> buf \<Rightarrow> u32_t \<Rightarrow> u32_t \<Rightarrow> buf option" where
  "readfile_loop dt bytsPerSec dat i fat_num =
     (if fat_num \<noteq> ENDSEC then do {
        sec \<leftarrow> rd (data dt) (unat (fat_num * bytsPerSec)) (unat bytsPerSec);
        dat \<leftarrow> wr dat (unat (i * bytsPerSec)) sec;
        if unat fat_num < length (fat_p dt)
        then readfile_loop dt bytsPerSec dat (i + 1) (fat_p dt ! unat fat_num)
        else None
      } else Some dat)"

definition do_readfile :: "dtree \<Rightarrow> u32_t \<Rightarrow> buf \<Rightarrow> buf option" where
  "do_readfile dt fb dat = readfile_loop dt (bps dt) dat 0 fb"

text \<open>\<open>memcpy(&meta, dt->data + fb*bytsPerSec, sizeof(file_meta_t))\<close>, and back.\<close>

definition read_meta :: "dtree \<Rightarrow> u32_t \<Rightarrow> file_meta option" where
  "read_meta dt fb = get_meta (data dt) (unat (fb * bps dt))"

definition write_meta :: "dtree \<Rightarrow> u32_t \<Rightarrow> file_meta \<Rightarrow> dtree option" where
  "write_meta dt fb m =
     map_option (\<lambda>d. dt\<lparr>data := d\<rparr>) (put_meta (data dt) (unat (fb * bps dt)) m)"

end
