(* ===== verification/CfsGeom.thy ===== *)
theory CfsGeom
  imports CfsFat
begin

text \<open>
  The reference view of the allocation table and the disk: the chain of sectors a table
  entry starts, what freeing a chain does, what the search for a free sector returns, the
  geometry every disk of the program has, frames (which sectors an operation leaves alone)
  and the growth of the disk.
\<close>

unbundle bit_operations_syntax

section \<open>Chains\<close>

text \<open>\<open>chain fat fb xs\<close>: following the table from \<open>fb\<close> visits \<open>xs\<close> and then ends.\<close>

fun chain :: "u32_t list \<Rightarrow> u32_t \<Rightarrow> nat list \<Rightarrow> bool" where
  "chain fat fb [] \<longleftrightarrow> fb = ENDSEC"
| "chain fat fb (x # xs) \<longleftrightarrow>
     fb \<noteq> ENDSEC \<and> unat fb = x \<and> x < length fat \<and> chain fat (fat ! x) xs"

lemma chain_unique: "chain fat fb xs \<Longrightarrow> chain fat fb ys \<Longrightarrow> xs = ys"
proof (induction xs arbitrary: fb ys)
  case Nil
  then show ?case by (cases ys) auto
next
  case (Cons x xs)
  then show ?case by (cases ys) auto
qed

lemma chain_suffix: "chain fat fb (us @ x # vs) \<Longrightarrow> \<exists>f. unat f = x \<and> chain fat f (x # vs)"
  by (induction us arbitrary: fb) auto

lemma chain_distinct: "chain fat fb xs \<Longrightarrow> distinct xs"
proof (induction xs arbitrary: fb)
  case (Cons x xs)
  show ?case
  proof (cases "x \<in> set xs")
    case True
    then obtain us vs where xs: "xs = us @ x # vs" by (auto dest: split_list)
    with Cons.prems have c: "chain fat (fat ! x) (us @ x # vs)" by simp
    then obtain f where "unat f = x" "chain fat f (x # vs)" using chain_suffix by blast
    then have "chain fat (fat ! x) vs" by simp
    from chain_unique [OF c this] have "length (us @ x # vs) = length vs" by simp
    then show ?thesis by simp
  next
    case False
    with Cons show ?thesis by auto
  qed
qed simp

lemma chain_bound: "chain fat fb xs \<Longrightarrow> x \<in> set xs \<Longrightarrow> x < length fat"
  by (induction xs arbitrary: fb) auto

lemma chain_cong:
  "chain fat fb xs \<Longrightarrow> length fat \<le> length fat' \<Longrightarrow> \<forall>x\<in>set xs. fat' ! x = fat ! x \<Longrightarrow>
     chain fat' fb xs"
  by (induction xs arbitrary: fb) auto

definition frees :: "nat list \<Rightarrow> u32_t list \<Rightarrow> u32_t list" where
  "frees xs fat = fold (\<lambda>x f. f[x := FREESEC]) xs fat"

lemma length_frees [simp]: "length (frees xs fat) = length fat"
  by (induction xs arbitrary: fat) (auto simp: frees_def)

lemma nth_frees: "i < length fat \<Longrightarrow> frees xs fat ! i = (if i \<in> set xs then FREESEC else fat ! i)"
  by (induction xs arbitrary: fat) (auto simp: frees_def nth_list_update)

lemma reset_fat_chain: "chain fat fb xs \<Longrightarrow> reset_fat fb fat = Some (frees xs fat)"
proof (induction xs arbitrary: fb fat)
  case Nil
  then show ?case by (subst reset_fat.simps) (simp add: frees_def)
next
  case (Cons x xs)
  from Cons.prems have "x \<notin> set xs" using chain_distinct by fastforce
  with Cons.prems have "chain (fat[x := FREESEC]) (fat ! x) xs"
    by (auto simp: nth_list_update intro!: chain_cong [of fat])
  with Cons.IH Cons.prems show ?case
    by (subst reset_fat.simps) (simp add: frees_def)
qed

section \<open>Searching the table\<close>

lemma next_free_fat_found:
  "next_free_fat i fat n = Some j \<Longrightarrow> unat n \<le> length fat \<Longrightarrow> j \<noteq> - 1 \<Longrightarrow>
     i \<le> j \<and> j < n \<and> fat ! unat j = FREESEC \<and> (\<forall>k. unat i \<le> k \<and> k < unat j \<longrightarrow> fat ! k \<noteq> FREESEC)"
proof (induction i fat n rule: next_free_fat.induct)
  case (1 i fat n)
  show ?case
  proof (cases "i < n \<and> fat ! unat i \<noteq> FREESEC")
    case True
    with 1 have IH: "i + 1 \<le> j" "j < n" "fat ! unat j = FREESEC"
      "\<forall>k. unat (i + 1) \<le> k \<and> k < unat j \<longrightarrow> fat ! k \<noteq> FREESEC"
      by (auto simp: next_free_fat.simps [of i] split: if_splits)
    have Si: "unat (i + 1) = Suc (unat i)" using True by (simp add: unat_Suc_less [of i n])
    have "\<forall>k. unat i \<le> k \<and> k < unat j \<longrightarrow> fat ! k \<noteq> FREESEC"
      using IH(4) True Si by (metis Suc_leI le_neq_implies_less)
    with IH(1-3) Si show ?thesis by (simp add: word_le_nat_alt)
  next
    case False
    with 1 show ?thesis
      by (auto simp: next_free_fat.simps [of i] word_less_nat_alt split: if_splits)
  qed
qed

lemma next_free_fat_total: "unat n \<le> length fat \<Longrightarrow> \<exists>j. next_free_fat i fat n = Some j"
proof (induction i fat n rule: next_free_fat.induct)
  case (1 i fat n)
  then show ?case by (subst next_free_fat.simps) (auto simp: word_less_nat_alt)
qed

lemma next_free_fat_none:
  "next_free_fat i fat n = Some (- 1) \<Longrightarrow> unat n \<le> length fat \<Longrightarrow>
     \<forall>k. unat i \<le> k \<and> k < unat n \<longrightarrow> fat ! k \<noteq> FREESEC"
proof (induction i fat n rule: next_free_fat.induct)
  case (1 i fat n)
  show ?case
  proof (cases "i < n")
    case True
    have m1: "i \<noteq> - 1" using True word_n1_ge [of n] by auto
    from True 1 m1 have nz: "fat ! unat i \<noteq> FREESEC"
      and IH: "\<forall>k. unat (i + 1) \<le> k \<and> k < unat n \<longrightarrow> fat ! k \<noteq> FREESEC"
      by (auto simp: next_free_fat.simps [of i] split: if_splits)
    then show ?thesis using True by (metis Suc_leI le_neq_implies_less unat_Suc_less)
  next
    case False
    then show ?thesis by (auto simp: word_less_nat_alt)
  qed
qed

section \<open>Geometry\<close>

abbreviation nsec :: "dtree \<Rightarrow> nat" where "nsec dt \<equiv> unat (sb_fatNum (sb dt))"
abbreviation secsz :: "dtree \<Rightarrow> nat" where "secsz dt \<equiv> unat (bps dt)"

text \<open>
  The sizes of the regions of a disk of \<open>tot\<close> sectors: one for the superblock, as many as
  the table of \<open>tot\<close> entries takes, the rest for data; table entries that name no data
  sector are free.
\<close>

definition wf_geom :: "dtree \<Rightarrow> bool" where
  "wf_geom dt \<longleftrightarrow>
     (let B = secsz dt; tot = unat (sb_totSecNum (sb dt)); fs = unat (sb_fatSecNum (sb dt))
      in 64 \<le> B \<and> 4 dvd B \<and> unat (dt_size dt) = tot * B \<and> fs = (4 * tot + B - 1) div B
         \<and> fs + 1 < tot \<and> nsec dt = tot - 1 - fs \<and> 4 * length (fat_p dt) = fs * B
         \<and> length (data dt) = nsec dt * B
         \<and> (\<forall>i. nsec dt \<le> i \<and> i < length (fat_p dt) \<longrightarrow> fat_p dt ! i = FREESEC))"

definition sector :: "dtree \<Rightarrow> nat \<Rightarrow> buf" where
  "sector dt x = take (secsz dt) (drop (x * secsz dt) (data dt))"

lemma ceil_div_ge: "0 < B \<Longrightarrow> y \<le> ((y + B - 1) div B) * (B::nat)"
proof -
  assume B: "0 < B"
  have "(y + B - 1) div B * B + (y + B - 1) mod B = y + B - 1" by simp
  moreover have "(y + B - 1) mod B < B" using B by simp
  ultimately show ?thesis using B by linarith
qed

lemma wf_geomD:
  assumes "wf_geom dt"
  shows "64 \<le> secsz dt" "4 dvd secsz dt" "secsz dt < 2147483648"
    "nsec dt \<le> length (fat_p dt)" "length (data dt) = nsec dt * secsz dt"
    "length (data dt) < 4294967296" "0 < nsec dt" "nsec dt < 67108864"
    "\<And>i. nsec dt \<le> i \<Longrightarrow> i < length (fat_p dt) \<Longrightarrow> fat_p dt ! i = FREESEC"
proof -
  let ?B = "secsz dt" and ?tot = "unat (sb_totSecNum (sb dt))" and ?fs = "unat (sb_fatSecNum (sb dt))"
  from assms have w: "64 \<le> ?B" "4 dvd ?B" "unat (dt_size dt) = ?tot * ?B"
    "?fs = (4 * ?tot + ?B - 1) div ?B" "?fs + 1 < ?tot" "nsec dt = ?tot - 1 - ?fs"
    "4 * length (fat_p dt) = ?fs * ?B" "length (data dt) = nsec dt * ?B"
    "\<forall>i. nsec dt \<le> i \<and> i < length (fat_p dt) \<longrightarrow> fat_p dt ! i = FREESEC"
    by (auto simp: wf_geom_def Let_def)
  have sz: "?tot * ?B < 4294967296" using unat_lt_exp [of "dt_size dt"] w(3) by simp
  have "2 * ?B \<le> ?tot * ?B" using w(5) by (intro mult_le_mono1) simp
  with sz show "?B < 2147483648" by linarith
  have "4 * ?tot \<le> ?fs * ?B" using w(1,4) ceil_div_ge [of ?B "4 * ?tot"] by simp
  then show "nsec dt \<le> length (fat_p dt)" using w(6,7) by linarith
  have "nsec dt * ?B \<le> ?tot * ?B" using w(6) by (intro mult_le_mono1) simp
  with sz w(8) show "length (data dt) < 4294967296" by linarith
  have "?tot * 64 \<le> ?tot * ?B" using w(1) by simp
  with sz w(6) show "nsec dt < 67108864" by linarith
  show "64 \<le> ?B" "4 dvd ?B" "length (data dt) = nsec dt * ?B" "0 < nsec dt"
    "\<And>i. nsec dt \<le> i \<Longrightarrow> i < length (fat_p dt) \<Longrightarrow> fat_p dt ! i = FREESEC"
    using w by auto
qed

lemma sector_offset:
  assumes "wf_geom dt" and "unat fb < nsec dt"
  shows "unat (fb * bps dt) = unat fb * secsz dt" "unat fb * secsz dt + secsz dt \<le> length (data dt)"
proof -
  have "Suc (unat fb) * secsz dt \<le> nsec dt * secsz dt" using assms(2) by (intro mult_le_mono1) simp
  then show le: "unat fb * secsz dt + secsz dt \<le> length (data dt)"
    using wf_geomD(5) [OF assms(1)] by simp
  with wf_geomD(6) [OF assms(1)] have "unat fb * secsz dt < 4294967296" by linarith
  then show "unat (fb * bps dt) = unat fb * secsz dt" by (simp add: unat_mult_fit)
qed

lemma length_sector: "wf_geom dt \<Longrightarrow> x < nsec dt \<Longrightarrow> length (sector dt x) = secsz dt"
  using wf_geomD(5) [of dt] mult_le_mono1 [of "Suc x" "nsec dt" "secsz dt"]
  by (simp add: sector_def)

section \<open>Frames\<close>

text \<open>
  \<open>upd S dt dt'\<close>: \<open>dt'\<close> is a disk of at least the same size that agrees with \<open>dt\<close> on the
  table entries and the contents of all sectors outside \<open>S\<close>; sectors that are new are free.
\<close>

definition upd :: "nat set \<Rightarrow> dtree \<Rightarrow> dtree \<Rightarrow> bool" where
  "upd S dt dt' \<longleftrightarrow> wf_geom dt' \<and> bps dt' = bps dt \<and> nsec dt \<le> nsec dt'
     \<and> sb_maxBlockNum (sb dt') = sb_maxBlockNum (sb dt)
     \<and> (\<forall>x<nsec dt. x \<notin> S \<longrightarrow> fat_p dt' ! x = fat_p dt ! x \<and> sector dt' x = sector dt x)
     \<and> (\<forall>x. nsec dt \<le> x \<and> x < nsec dt' \<and> x \<notin> S \<longrightarrow> fat_p dt' ! x = FREESEC)"

lemma updD:
  assumes "upd S dt dt'"
  shows "wf_geom dt'" "bps dt' = bps dt" "nsec dt \<le> nsec dt'"
    "sb_maxBlockNum (sb dt') = sb_maxBlockNum (sb dt)"
    "\<And>x. x < nsec dt \<Longrightarrow> x \<notin> S \<Longrightarrow> fat_p dt' ! x = fat_p dt ! x"
    "\<And>x. x < nsec dt \<Longrightarrow> x \<notin> S \<Longrightarrow> sector dt' x = sector dt x"
    "\<And>x. nsec dt \<le> x \<Longrightarrow> x < nsec dt' \<Longrightarrow> x \<notin> S \<Longrightarrow> fat_p dt' ! x = FREESEC"
  using assms by (auto simp: upd_def)

lemma upd_refl [simp]: "wf_geom dt \<Longrightarrow> upd S dt dt"
  by (auto simp: upd_def)

lemma upd_mono: "upd S dt dt' \<Longrightarrow> S \<subseteq> T \<Longrightarrow> upd T dt dt'"
  unfolding upd_def by blast

lemma upd_trans: "upd S dt dt1 \<Longrightarrow> upd T dt1 dt2 \<Longrightarrow> upd (S \<union> T) dt dt2"
  unfolding upd_def by (auto simp: not_less) (metis not_less order_less_le_trans)+

lemma upd_fat_update:
  assumes "wf_geom dt" and "x < nsec dt"
  shows "upd {x} dt (dt\<lparr>fat_p := (fat_p dt)[x := v]\<rparr>)"
  using assms by (auto simp: upd_def wf_geom_def sector_def Let_def nth_list_update)

lemma upd_frees:
  assumes "wf_geom dt" shows "upd (set xs) dt (dt\<lparr>fat_p := frees xs (fat_p dt)\<rparr>)"
  using assms wf_geomD(4) [OF assms]
  by (auto simp: upd_def wf_geom_def sector_def Let_def nth_frees)

lemma sector_write:
  assumes "wf_geom dt" and "unat fb < nsec dt" and "length c \<le> secsz dt"
  shows "\<exists>d. wr (data dt) (unat (fb * bps dt)) c = Some d \<and> upd {unat fb} dt (dt\<lparr>data := d\<rparr>)
     \<and> sector (dt\<lparr>data := d\<rparr>) (unat fb) = c @ drop (length c) (sector dt (unat fb))"
proof -
  let ?B = "secsz dt" and ?o = "unat fb * secsz dt"
  note off = sector_offset [OF assms(1,2)]
  define d where "d = take ?o (data dt) @ c @ drop (?o + length c) (data dt)"
  have wr: "wr (data dt) (unat (fb * bps dt)) c = Some d"
    using off assms(3) by (simp add: wr_def d_def)
  have ld: "length d = length (data dt)" using wr by (rule wr_length)
  have self: "take ?B (drop ?o d) = c @ drop (length c) (sector dt (unat fb))"
  proof -
    have "drop ?o d = c @ drop (?o + length c) (data dt)" using off by (simp add: d_def)
    then have "take ?B (drop ?o d) = c @ take (?B - length c) (drop (?o + length c) (data dt))"
      using assms(3) by simp
    then show ?thesis by (simp add: sector_def drop_take add.commute)
  qed
  have other: "take ?B (drop (x * ?B) d) = take ?B (drop (x * ?B) (data dt))"
    if "x < nsec dt" "x \<noteq> unat fb" for x
  proof -
    have x: "x * ?B + ?B \<le> length (data dt)"
      using that(1) wf_geomD(5) [OF assms(1)] mult_le_mono1 [of "Suc x" "nsec dt" ?B] by simp
    have "x * ?B + ?B \<le> ?o \<or> ?o + ?B \<le> x * ?B"
      using that(2) mult_le_mono1 [of "Suc x" "unat fb" ?B] mult_le_mono1 [of "Suc (unat fb)" x ?B]
      by (cases "x < unat fb") auto
    then have "rd d (x * ?B) ?B = rd (data dt) (x * ?B) ?B"
      using rd_wr_before [OF wr, of "x * ?B" ?B] rd_wr_after [OF wr, of "x * ?B" ?B] off assms(3)
      by auto
    with x ld show ?thesis by (simp add: rd_def)
  qed
  have "upd {unat fb} dt (dt\<lparr>data := d\<rparr>)"
    using assms(1) ld other by (auto simp: upd_def wf_geom_def sector_def Let_def)
  with wr self show ?thesis by (auto simp: sector_def)
qed

section \<open>Growing the disk\<close>

lemma ceil_div_le: "0 < B \<Longrightarrow> y \<le> k * B \<Longrightarrow> (y + B - 1) div B \<le> (k::nat)"
proof -
  assume "0 < B" "y \<le> k * B"
  then have "y + B - 1 < Suc k * B" by simp
  then have "(y + B - 1) div B < Suc k" by (rule less_mult_imp_div_less)
  then show ?thesis by simp
qed

lemma ceil_div_sub:
  assumes "0 < B" and "y \<le> k * B"
  shows "(k * B - y) div B = k - (y + B - 1) div (B::nat)"
proof -
  let ?c = "(y + B - 1) div B"
  have c: "y \<le> ?c * B" "?c \<le> k" using ceil_div_ge ceil_div_le assms by auto
  have "?c * B \<le> y + B - 1" by simp
  moreover have "k * B = ?c * B + (k - ?c) * B"
    using c(2) by (simp add: add_mult_distrib [symmetric])
  ultimately have "(k - ?c) * B \<le> k * B - y" "k * B - y < (k - ?c) * B + B"
    using c(1) assms(1) by linarith+
  then show ?thesis
    using assms(1) by (intro div_nat_eqI) (auto simp: mult.commute)
qed

lemma geom_double:
  fixes B tot fs fs' :: nat
  assumes "64 \<le> B" and "fs = (4 * tot + B - 1) div B" and "fs + 1 < tot"
    and "fs' = (8 * tot + B - 1) div B"
  shows "fs \<le> fs'" "fs' \<le> 2 * fs" "8 * tot \<le> (2 * tot - 1) * B" "fs' * B \<le> 8 * tot + B"
proof -
  show "fs \<le> fs'" using assms by (auto intro!: div_le_mono)
  have "4 * tot \<le> fs * B" using ceil_div_ge [of B "4 * tot"] assms by simp
  then have "8 * tot \<le> 2 * fs * B" by linarith
  then show "fs' \<le> 2 * fs" unfolding assms(4) by (intro ceil_div_le) (use assms(1) in simp_all)
  have "tot * 64 \<le> (2 * tot - 1) * B" using assms(1,3) by (intro mult_le_mono) auto
  then show "8 * tot \<le> (2 * tot - 1) * B" by simp
  have "fs' * B \<le> 8 * tot + B - 1" using assms by simp
  then show "fs' * B \<le> 8 * tot + B" by simp
qed

text \<open>The numbers that \<open>extend\<close> computes when the size doubles.\<close>

lemma extend_words:
  fixes d b :: u32_t and tot fs fs' :: nat
  assumes b: "64 \<le> unat b" and d: "unat d = tot * unat b" "unat d < 2147483648"
    and fs: "fs = (4 * tot + unat b - 1) div unat b" "fs + 1 < tot" "fs' = (8 * tot + unat b - 1) div unat b"
  defines "new \<equiv> ucast (d * 2) :: u64_t"
  defines "T \<equiv> ucast (new div ucast b) :: u32_t"
  defines "FS \<equiv> ucast ((ucast T :: u64_t) * 4) :: u32_t"
  defines "F \<equiv> (FS + b - 1) div b"
  shows "unat new = 2 * tot * unat b" "unat T = 2 * tot" "unat F = fs'" "unat (F * b) = fs' * unat b"
    and "unat (ucast ((new - ucast FS - ucast b) div ucast b) :: u32_t) = 2 * tot - 1 - fs'"
    and "unat (ucast new :: u32_t) = 2 * tot * unat b"
proof -
  define B where "B = unat b"
  note g = geom_double [OF b fs]
  have tB: "tot * B < 2147483648" using d by (simp add: B_def)
  have t64: "tot * 64 \<le> tot * B" using b by (simp add: B_def)
  have t: "tot < 33554432" using t64 tB by linarith
  have t8: "8 * tot \<le> 2 * tot * B" using t64 by linarith
  have BB: "2 * B \<le> tot * B" using fs(2) by (intro mult_le_mono1) simp
  have n: "unat new = 2 * tot * B"
    using d(1) tB unat_mult_fit [of d 2] by (simp add: new_def mult.commute B_def)
  then show "unat new = 2 * tot * unat b" by (simp add: B_def)
  have "2 * tot * B < 4294967296" using tB by linarith
  then show "unat (ucast new :: u32_t) = 2 * tot * unat b" using n by (simp add: unat_ucast_fit B_def)
  have "unat (new div ucast b) = 2 * tot" using n b by (simp add: unat_div B_def)
  then show T: "unat T = 2 * tot" using t by (simp add: T_def unat_ucast_fit)
  then have "unat ((ucast T :: u64_t) * 4) = 8 * tot" using t by (simp add: unat_mult_fit)
  then have FS: "unat FS = 8 * tot" using t by (simp add: FS_def unat_ucast_fit)
  have "8 * tot + B < 4294967296" using t64 tB BB by linarith
  then have "unat (FS + b) = 8 * tot + B" using FS by (simp add: unat_add_fit B_def)
  then have "unat (FS + b - 1) = 8 * tot + B - 1" using b by (simp add: unat_sub_fit B_def)
  then show F: "unat F = fs'" by (simp add: F_def unat_div fs(3) B_def)
  have "fs' * B \<le> 8 * tot + B" using g(4) by (simp add: B_def)
  then have "fs' * B < 4294967296" using t64 tB BB by linarith
  then show "unat (F * b) = fs' * unat b" using F by (simp add: unat_mult_fit B_def)
  have 8: "unat (new - ucast FS) = 2 * tot * B - 8 * tot" using n FS t8 by (simp add: unat_sub_fit)
  have "8 * tot + B \<le> 2 * tot * B" using t64 BB by linarith
  then have "unat (new - ucast FS - ucast b) = 2 * tot * B - 8 * tot - B"
    using 8 by (simp add: unat_sub_fit B_def)
  also have "\<dots> = (2 * tot - 1) * B - 8 * tot" by (simp add: diff_mult_distrib)
  finally have "unat ((new - ucast FS - ucast b) div ucast b) = 2 * tot - 1 - fs'"
    using ceil_div_sub [of B "8 * tot" "2 * tot - 1"] g(3) b by (simp add: unat_div fs(3) B_def)
  then show "unat (ucast ((new - ucast FS - ucast b) div ucast b) :: u32_t) = 2 * tot - 1 - fs'"
    using t by (simp add: unat_ucast_fit)
qed

text \<open>A disk with twice the sectors, the old table and the old data in front.\<close>

lemma grown_upd:
  assumes wf: "wf_geom dt" and tot: "tot = unat (sb_totSecNum (sb dt))" and fs': "fs' = (8 * tot + secsz dt - 1) div secsz dt"
    and s': "sb dt' = (sb dt)\<lparr>sb_totSecNum := T, sb_fatSecNum := F, sb_fatNum := N\<rparr>"
    and n: "unat T = 2 * tot" "unat F = fs'" "unat N = 2 * tot - 1 - fs'" "unat (dt_size dt') = 2 * tot * secsz dt"
    and fat: "fat_p dt' = fat_p dt @ replicate ((fs' * secsz dt - unat (sb_fatSecNum (sb dt)) * secsz dt) div 4) FREESEC"
    and dat: "data dt' = data dt @ tail" "length (data dt') = (2 * tot - 1 - fs') * secsz dt"
  shows "upd {} dt dt'" and "2 * nsec dt < nsec dt'"
proof -
  define B fs where "B = secsz dt" and "fs = unat (sb_fatSecNum (sb dt))"
  note defs = B_def tot fs_def
  from wf have w: "64 \<le> B" "4 dvd B" "fs = (4 * tot + B - 1) div B" "fs + 1 < tot" "nsec dt = tot - 1 - fs"
    "4 * length (fat_p dt) = fs * B" "length (data dt) = nsec dt * B"
    "\<forall>i. nsec dt \<le> i \<and> i < length (fat_p dt) \<longrightarrow> fat_p dt ! i = FREESEC"
    by (auto simp: wf_geom_def Let_def defs)
  note g = geom_double [OF w(1,3,4) fs' [folded B_def]]
  have B': "secsz dt' = B" by (simp add: s' B_def)
  have ns': "nsec dt' = 2 * tot - 1 - fs'" using n(3) by (simp add: s')
  show more: "2 * nsec dt < nsec dt'" using w(4,5) g(2) ns' by simp
  have lf: "4 * length (fat_p dt') = fs' * B"
  proof -
    have "fs * B \<le> fs' * B" using g(1) by (rule mult_le_mono1)
    moreover have "4 dvd fs' * B - fs * B" using w(2) by (simp add: dvd_diff_nat)
    ultimately show ?thesis using w(6) by (simp add: fat flip: B_def fs_def)
  qed
  have wf': "wf_geom dt'"
    unfolding wf_geom_def Let_def B'
  proof (intro conjI allI impI)
    show "unat (dt_size dt') = unat (sb_totSecNum (sb dt')) * B" using n(1,4) by (simp add: s' B_def)
    show "unat (sb_fatSecNum (sb dt')) = (4 * unat (sb_totSecNum (sb dt')) + B - 1) div B"
      using n(1,2) by (simp add: s' fs' flip: B_def)
    show "unat (sb_fatSecNum (sb dt')) + 1 < unat (sb_totSecNum (sb dt'))" using n(1,2) g(2) w(4) by (simp add: s')
    show "nsec dt' = unat (sb_totSecNum (sb dt')) - 1 - unat (sb_fatSecNum (sb dt'))" using n ns' by (simp add: s')
    show "4 * length (fat_p dt') = unat (sb_fatSecNum (sb dt')) * B" using lf n(2) by (simp add: s')
    show "length (data dt') = nsec dt' * B" using dat(2) ns' by (simp add: B_def)
    fix i assume "nsec dt' \<le> i \<and> i < length (fat_p dt')"
    then have "nsec dt \<le> i" "i < length (fat_p dt')" using more by auto
    then show "fat_p dt' ! i = FREESEC" using w(8) by (simp add: fat nth_append)
  qed (use w(1,2) in simp_all)
  have "sector dt' x = sector dt x" if "x < nsec dt" for x
  proof -
    have "x * B + B \<le> nsec dt * B" using that mult_le_mono1 [of "Suc x" "nsec dt" B] by simp
    with w(7) show ?thesis by (simp add: sector_def dat(1) B' flip: B_def)
  qed
  moreover have "fat_p dt' ! x = (if x < nsec dt then fat_p dt ! x else FREESEC)" if "x < nsec dt'" for x
    using that w(8) wf_geomD(4) [OF wf] wf_geomD(4) [OF wf'] by (auto simp: fat nth_append)
  ultimately show "upd {} dt dt'" using more wf' by (auto simp: upd_def s')
qed

lemma extend_ok:
  assumes wf: "wf_geom dt" and E: "malloc_ok E" and sz: "unat (dt_size dt) < 2147483648"
  shows "\<exists>dt'. extend E dt (ucast (dt_size dt * 2)) = Some (0, dt') \<and> upd {} dt dt'
     \<and> 2 * nsec dt < nsec dt'"
proof -
  define B tot fs where "B = secsz dt" and "tot = unat (sb_totSecNum (sb dt))"
    and "fs = unat (sb_fatSecNum (sb dt))"
  note defs = B_def tot_def fs_def
  from wf have w: "64 \<le> B" "unat (dt_size dt) = tot * B"
    "fs = (4 * tot + B - 1) div B" "fs + 1 < tot" "nsec dt = tot - 1 - fs"
    "4 * length (fat_p dt) = fs * B" "length (data dt) = nsec dt * B"
    by (auto simp: wf_geom_def Let_def defs)
  define fs' where "fs' = (8 * tot + B - 1) div B"
  note g = geom_double [OF w(1,3,4) fs'_def]
  define new :: u64_t where "new = ucast (dt_size dt * 2)"
  define T :: u32_t where "T = ucast (new div ucast (bps dt))"
  define FS :: u32_t where "FS = ucast ((ucast T :: u64_t) * 4)"
  define F :: u32_t where "F = (FS + bps dt - 1) div bps dt"
  note n = extend_words [OF w(1,2) [unfolded B_def] sz w(3) [unfolded B_def] w(4) fs'_def [unfolded B_def],
    folded new_def, folded T_def, folded FS_def, folded F_def B_def]
  have tB: "tot * B < 2147483648" using sz w(2) by simp
  have "fs * B \<le> tot * B" using w(4) by (intro mult_le_mono1) simp
  with tB have "fs * B < 4294967296" by linarith
  then have fB: "unat (sb_fatSecNum (sb dt) * bps dt) = fs * B"
    by (simp add: unat_mult_fit fs_def B_def)
  have "tot = 1 + fs + nsec dt" using w(4,5) by simp
  then have "tot * B = B + fs * B + nsec dt * B" by (simp add: add_mult_distrib)
  then have olen: "unat (dt_size dt - bps dt - sb_fatSecNum (sb dt) * bps dt) = nsec dt * B"
    using w(2) fB by (simp add: unat_sub_fit flip: B_def)
  have "2 * tot = 1 + fs' + (2 * tot - 1 - fs')" using g(2) w(4) by simp
  then have new_split: "2 * tot * B = B + fs' * B + (2 * tot - 1 - fs') * B"
    by (metis add_mult_distrib nat_mult_1)
  obtain buf where buf: "malloc E (unat new) = Some buf" "length buf = unat new"
    using E by (rule malloc_okE)
  define rest where "rest = drop (B + fs' * B) buf"
  have lrest: "length rest = (2 * tot - 1 - fs') * B" using buf(2) n(1) new_split by (simp add: rest_def)
  have "nsec dt \<le> 2 * tot - 1 - fs'" using w(4,5) g(2) by simp
  then have fit: "nsec dt * B \<le> (2 * tot - 1 - fs') * B" by (rule mult_le_mono1)
  define dat where "dat = data dt @ drop (nsec dt * B) rest"
  define dt' where "dt' = dt\<lparr>sb := (sb dt)\<lparr>sb_totSecNum := T, sb_fatSecNum := F,
      sb_fatNum := ucast ((new - ucast FS - ucast (bps dt)) div ucast (bps dt))\<rparr>,
      sb_pad := replicate (B - 40) 0,
      fat_p := fat_p dt @ replicate ((fs' * B - fs * B) div 4) FREESEC,
      data := dat, dt_size := ucast new, dt_max := ucast new\<rparr>"
  have r: "rd (data dt) 0 (nsec dt * B) = Some (data dt)" using w(7) by (simp add: rd_def)
  have wr: "wr rest 0 (data dt) = Some dat" using w(7) lrest fit by (simp add: wr_def dat_def)
  have cmp: "\<not> ucast (dt_size dt) \<ge> new" and nz: "bps dt \<noteq> 0"
    using n(1) w(1,2,4) tB by (auto simp: word_le_nat_alt not_le B_def)
  have eq: "extend E dt new = Some (0, dt')"
    unfolding extend_def Let_def
    by (simp only: T_def [symmetric] FS_def [symmetric] F_def [symmetric] if_not_P [OF cmp]
          if_not_P [OF nz] buf(1) option.case n(4) fB olen B_def [symmetric])
       (use buf(2) n(1) new_split w(1,6) g(1) r wr in \<open>simp add: rest_def [symmetric] dt'_def\<close>)
  have "length dat = (2 * tot - 1 - fs') * B" using w(7) lrest fit by (simp add: dat_def)
  then have "length (data dt') = (2 * tot - 1 - fs') * secsz dt" by (simp add: dt'_def B_def)
  moreover have "unat (dt_size dt') = 2 * tot * secsz dt" using n(6) by (simp add: dt'_def B_def)
  ultimately have "upd {} dt dt'" "2 * nsec dt < nsec dt'"
    using grown_upd [OF wf tot_def fs'_def [unfolded B_def] _ n(2,3,5), of dt' "drop (nsec dt * B) rest"]
    by (simp_all add: dt'_def dat_def B_def fs_def)
  with eq show ?thesis by (intro exI [of _ dt']) (simp add: new_def)
qed

end
