(* ===== verification/CfsFiles.thy ===== *)
theory CfsFiles
  imports CfsGeom
begin

text \<open>
  Files on the disk as chains of sectors with contents: \<open>do_writefile\<close> and
  \<open>do_readfile\<close> against this view. Writing ends, stores the buffer, takes only sectors
  that were free, new or the file's own, gives back those no longer needed and leaves
  every other file alone; reading returns the contents.
\<close>

unbundle bit_operations_syntax

section \<open>Finding a free sector\<close>

definition frees_above :: "dtree \<Rightarrow> nat \<Rightarrow> nat set" where
  "frees_above dt b = {x. b < x \<and> x < nsec dt \<and> fat_p dt ! x = FREESEC}"

lemma finite_frees_above [simp]: "finite (frees_above dt b)"
  by (rule finite_subset [of _ "{..<nsec dt}"]) (auto simp: frees_above_def)

lemma find_free_here:
  assumes wf: "wf_geom dt" and base: "unat base < nsec dt" "fat_p dt ! unat base \<noteq> FREESEC"
    and ex: "frees_above dt (unat base) \<noteq> {}"
  shows "\<exists>next. find_free E dt base = Some (next, dt) \<and> unat next \<in> frees_above dt (unat base)
     \<and> (\<forall>x\<in>frees_above dt (unat base). unat next \<le> x)"
proof -
  note le = wf_geomD(4) [OF wf]
  obtain j where j: "next_free_fat base (fat_p dt) (sb_fatNum (sb dt)) = Some j"
    using next_free_fat_total [OF le] by blast
  have "j \<noteq> - 1"
    using next_free_fat_none [OF _ le, of base] ex j by (auto simp: frees_above_def)
  with j have f: "find_free E dt base = Some (j, dt)" by (subst find_free.simps) simp
  from next_free_fat_found [OF j le \<open>j \<noteq> - 1\<close>]
  have j': "base \<le> j" "j < sb_fatNum (sb dt)" "fat_p dt ! unat j = FREESEC"
    "\<forall>k. unat base \<le> k \<and> k < unat j \<longrightarrow> fat_p dt ! k \<noteq> FREESEC" by auto
  with base have "unat base < unat j"
    by (metis le_neq_implies_less word_le_nat_alt)
  with j' have "unat j \<in> frees_above dt (unat base)"
    by (simp add: frees_above_def word_less_nat_alt)
  moreover have "\<forall>x\<in>frees_above dt (unat base). unat j \<le> x"
  proof (intro ballI leI notI)
    fix x assume "x \<in> frees_above dt (unat base)" "x < unat j"
    with j'(4) show False by (auto simp: frees_above_def)
  qed
  ultimately show ?thesis using f by blast
qed

lemma extend_size: "extend E dt n = Some (0, dt') \<Longrightarrow> dt_size dt' = ucast n"
  by (auto simp: extend_def Let_def bind_eq_Some_conv split: if_splits option.splits)

lemma find_free_grow:
  assumes wf: "wf_geom dt" and E: "malloc_ok E" and sz: "unat (dt_size dt) < 2147483648"
    and base: "unat base < nsec dt" "fat_p dt ! unat base \<noteq> FREESEC"
    and none: "frees_above dt (unat base) = {}"
  shows "\<exists>next dt'. find_free E dt base = Some (next, dt') \<and> upd {} dt dt' \<and> unat next = nsec dt
     \<and> 2 * nsec dt < nsec dt' \<and> unat (dt_size dt') = 2 * unat (dt_size dt)"
proof -
  note le = wf_geomD(4) [OF wf]
  obtain j where j: "next_free_fat base (fat_p dt) (sb_fatNum (sb dt)) = Some j"
    using next_free_fat_total [OF le] by blast
  have "j = - 1"
  proof (rule ccontr)
    assume "j \<noteq> - 1"
    from next_free_fat_found [OF j le this] base none show False
      by (auto simp: frees_above_def word_less_nat_alt word_le_nat_alt)
  qed
  obtain dt1 where dt1: "extend E dt (ucast (dt_size dt * 2)) = Some (0, dt1)" "upd {} dt dt1"
    "2 * nsec dt < nsec dt1"
    using extend_ok [OF wf E sz] by blast
  have step: "find_free E dt base = find_free E dt1 base"
    using j \<open>j = - 1\<close> dt1(1) by (subst find_free.simps) simp
  note u = updD [OF dt1(2)]
  have base1: "unat base < nsec dt1" "fat_p dt1 ! unat base \<noteq> FREESEC" using base u(3,5) by auto
  have fa: "frees_above dt1 (unat base) = {nsec dt..<nsec dt1}"
    using none u(3,5,7) base(1) by (auto simp: frees_above_def not_less) (metis not_le)
  then have "nsec dt \<in> frees_above dt1 (unat base)" using dt1(3) by simp
  then obtain nx where nx: "find_free E dt1 base = Some (nx, dt1)" "unat nx \<in> frees_above dt1 (unat base)"
    "unat nx \<le> nsec dt"
    using find_free_here [OF u(1) base1, of E] by blast
  with fa have "unat nx = nsec dt" by auto
  moreover have "unat (dt_size dt1) = 2 * unat (dt_size dt)"
  proof -
    have "unat (ucast (ucast (dt_size dt * 2) :: u64_t) :: u32_t) = unat (dt_size dt * 2)"
      using unat_lt_exp [of "dt_size dt * 2"] by (subst unat_ucast_fit) simp_all
    then show ?thesis
      using extend_size [OF dt1(1)] sz unat_mult_fit [of "dt_size dt" 2] by simp
  qed
  ultimately show ?thesis using nx step dt1 by auto
qed

text \<open>\<open>room n b dt\<close>: there are \<open>n\<close> more sectors to be had, searching upwards from \<open>b\<close>.\<close>

definition room :: "nat \<Rightarrow> nat \<Rightarrow> dtree \<Rightarrow> bool" where
  "room n b dt \<longleftrightarrow> n \<le> card (frees_above dt b)
     \<or> unat (dt_size dt) < 2147483648 \<and> n \<le> nsec dt + 1"

lemma find_free_room:
  assumes wf: "wf_geom dt" and E: "malloc_ok E" and room: "room (Suc n) (unat base) dt"
    and base: "unat base < nsec dt" "fat_p dt ! unat base \<noteq> FREESEC"
  shows "\<exists>next dt'. find_free E dt base = Some (next, dt') \<and> upd {} dt dt'
     \<and> unat base < unat next \<and> unat next < nsec dt' \<and> fat_p dt' ! unat next = FREESEC
     \<and> room n (unat next) (dt'\<lparr>fat_p := (fat_p dt')[unat base := next]\<rparr>)
     \<and> unat (dt_size dt') \<le> 2 * unat (dt_size dt)
     \<and> (Suc n \<le> card (frees_above dt (unat base)) \<longrightarrow> dt_size dt' = dt_size dt)
     \<and> (dt_size dt' = dt_size dt \<and> card (frees_above dt (unat base))
            = Suc (card (frees_above (dt'\<lparr>fat_p := (fat_p dt')[unat base := next]\<rparr>) (unat next)))
        \<or> n \<le> card (frees_above (dt'\<lparr>fat_p := (fat_p dt')[unat base := next]\<rparr>) (unat next)))"
proof (cases "frees_above dt (unat base) = {}")
  case False
  from find_free_here [OF wf base this, of E] obtain nx where
    nx: "find_free E dt base = Some (nx, dt)" "unat nx \<in> frees_above dt (unat base)"
    "\<forall>x\<in>frees_above dt (unat base). unat nx \<le> x" by blast
  let ?d = "dt\<lparr>fat_p := (fat_p dt)[unat base := nx]\<rparr>"
  have "frees_above ?d (unat nx) = frees_above dt (unat base) - {unat nx}"
    using nx(2,3) by (auto simp: frees_above_def nth_list_update)
  then have cd: "card (frees_above dt (unat base)) = Suc (card (frees_above ?d (unat nx)))"
    using nx(2) by (metis card_Suc_Diff1 finite_frees_above)
  with room have "room n (unat nx) ?d" by (auto simp: room_def)
  moreover have "unat base < unat nx" "unat nx < nsec dt" "fat_p dt ! unat nx = FREESEC"
    using nx(2) by (auto simp: frees_above_def)
  ultimately show ?thesis using nx(1) cd wf by (intro exI [of _ nx] exI [of _ dt]) simp
next
  case True
  with room have sz: "unat (dt_size dt) < 2147483648" "Suc n \<le> nsec dt + 1"
    by (auto simp: room_def)
  from find_free_grow [OF wf E sz(1) base True] obtain nx dt' where
    nx: "find_free E dt base = Some (nx, dt')" "upd {} dt dt'" "unat nx = nsec dt"
    "2 * nsec dt < nsec dt'" "unat (dt_size dt') = 2 * unat (dt_size dt)" by blast
  note u = updD [OF nx(2)]
  let ?d = "dt'\<lparr>fat_p := (fat_p dt')[unat base := nx]\<rparr>"
  have "frees_above ?d (unat nx) = {nsec dt <..< nsec dt'}"
    using nx(3) u(7) base(1) by (auto simp: frees_above_def nth_list_update)
  then have "n \<le> card (frees_above ?d (unat nx))" using nx(4) sz(2) by simp
  moreover have "fat_p dt' ! unat nx = FREESEC" using u(7) nx(3,4) by simp
  ultimately show ?thesis
    using nx base(1) True by (intro exI [of _ nx] exI [of _ dt']) (simp add: room_def)
qed

section \<open>Writing a file\<close>

text \<open>The length of the piece the loop copies, as the code computes it through an \<open>int\<close>.\<close>

lemma piece_len:
  fixes s :: u64_t and b :: u32_t
  assumes "unat b < 2147483648"
  shows "unat (scast (ucast (if s < ucast b then s else ucast b) :: 32 word) :: u64_t)
     = min (unat s) (unat b)"
proof -
  define x where "x = (if s < ucast b then s else ucast b :: u64_t)"
  have x: "unat x = min (unat s) (unat b)"
    by (auto simp: x_def word_less_nat_alt)
  then have l: "unat x < 2147483648" using assms by simp
  then have u: "unat (ucast x :: 32 word) = unat x" by (simp add: unat_ucast_fit)
  have "sint (ucast x :: 32 word) = signed_take_bit 31 (int (unat (ucast x :: 32 word)))"
    by (simp only: sint_uint uint_nat) simp
  also have "\<dots> = int (unat x)"
  proof -
    have p: "(2 :: int) ^ 31 = 2147483648" by simp
    have "int (unat x) < 2147483648" "- 2147483648 \<le> int (unat x)" using l by linarith+
    then show ?thesis unfolding u by (intro signed_take_bit_int_eq_self) (simp_all only: p)
  qed
  finally have "sint (ucast x :: 32 word) = int (unat x)" .
  then have "scast (ucast x :: 32 word) = (word_of_nat (unat x) :: u64_t)"
    by (simp add: scast_eq)
  then have "unat (scast (ucast x :: 32 word) :: u64_t) = unat x"
    using l by (simp add: unat_of_nat)
  with x show ?thesis by (simp add: x_def)
qed

text \<open>
  The buffer holds what the loop copies from it: either all blocks, or a last block that is
  cut short by the size.
\<close>

definition covers :: "buf \<Rightarrow> nat \<Rightarrow> nat \<Rightarrow> nat \<Rightarrow> nat \<Rightarrow> bool" where
  "covers dat B n i s \<longleftrightarrow> n * B \<le> length dat
     \<or> (n - 1 - i) * B \<le> s \<and> i * B + s \<le> length dat"

lemma covers_step:
  assumes "covers dat B n i s" and "Suc i < n"
  shows "covers dat B n (Suc i) (s - B)" "s < B \<Longrightarrow> covers dat B n (Suc i) s'"
proof -
  have e: "n - 1 - i = Suc (n - 1 - Suc i)" using assms(2) by simp
  with assms show "covers dat B n (Suc i) (s - B)" by (auto simp: covers_def)
  show "s < B \<Longrightarrow> covers dat B n (Suc i) s'" using assms e by (auto simp: covers_def)
qed

lemma covers_piece:
  assumes "covers dat B n i s" and "i < n" shows "i * B + min s B \<le> length dat"
  using assms(1) mult_le_mono1 [of "Suc i" n B] assms(2) by (auto simp: covers_def)

lemma sector_prefix_write:
  assumes wf: "wf_geom dt" and fi: "unat fi < nsec dt"
    and c: "covers dat (secsz dt) n (unat i) s" "unat i < n" "n * secsz dt < 4294967296"
  shows "\<exists>chunk d. rd dat (unat (i * bps dt)) (min s (secsz dt)) = Some chunk
     \<and> wr (data dt) (unat (fi * bps dt)) chunk = Some d
     \<and> fat_set (fat_p dt) fi v = Some ((fat_p dt)[unat fi := v])
     \<and> upd {unat fi} dt (dt\<lparr>data := d, fat_p := (fat_p dt)[unat fi := v]\<rparr>)
     \<and> take (min s (secsz dt)) (sector (dt\<lparr>data := d, fat_p := (fat_p dt)[unat fi := v]\<rparr>) (unat fi))
         = take (min s (secsz dt)) (drop (unat i * secsz dt) dat)"
proof -
  let ?l = "min s (secsz dt)"
  have "unat i * secsz dt \<le> n * secsz dt" using c(2) by (intro mult_le_mono1) simp
  with c(3) have "unat i * secsz dt < 4294967296" by linarith
  then have o: "unat (i * bps dt) = unat i * secsz dt" by (simp add: unat_mult_fit)
  define chunk where "chunk = take ?l (drop (unat i * secsz dt) dat)"
  have rd: "rd dat (unat (i * bps dt)) ?l = Some chunk"
    using covers_piece [OF c(1,2)] o by (simp add: rd_def chunk_def)
  then have lc: "length chunk = ?l" by (rule rd_length)
  then obtain d where d: "wr (data dt) (unat (fi * bps dt)) chunk = Some d"
    "upd {unat fi} dt (dt\<lparr>data := d\<rparr>)"
    "sector (dt\<lparr>data := d\<rparr>) (unat fi) = chunk @ drop (length chunk) (sector dt (unat fi))"
    using sector_write [OF wf fi, of chunk] by auto
  have "upd {unat fi} (dt\<lparr>data := d\<rparr>) (dt\<lparr>data := d, fat_p := (fat_p dt)[unat fi := v]\<rparr>)"
    using upd_fat_update [of "dt\<lparr>data := d\<rparr>" "unat fi" v] fi updD(1) [OF d(2)] by simp
  with d(2) have "upd {unat fi} dt (dt\<lparr>data := d, fat_p := (fat_p dt)[unat fi := v]\<rparr>)"
    using upd_trans by fastforce
  moreover have "fat_set (fat_p dt) fi v = Some ((fat_p dt)[unat fi := v])"
    using fi wf_geomD(4) [OF wf] by (simp add: fat_set_def)
  moreover have "take ?l (sector (dt\<lparr>data := d, fat_p := (fat_p dt)[unat fi := v]\<rparr>) (unat fi)) = chunk"
    using d(3) lc by (simp add: sector_def)
  ultimately show ?thesis using rd d(1) chunk_def by blast
qed

text \<open>What the sectors of a chain hold after the loop: the bytes of the buffer.\<close>

definition holds :: "dtree \<Rightarrow> nat list \<Rightarrow> buf \<Rightarrow> nat \<Rightarrow> nat \<Rightarrow> bool" where
  "holds dt ys dat i s \<longleftrightarrow> (\<forall>k<length ys.
     take (min (s - k * secsz dt) (secsz dt)) (sector dt (ys ! k))
       = take (min (s - k * secsz dt) (secsz dt)) (drop ((i + k) * secsz dt) dat))"

lemma holds_Cons:
  assumes "take (min s (secsz dt)) (sector dt y) = take (min s (secsz dt)) (drop (i * secsz dt) dat)"
    and "holds dt ys dat (Suc i) s'" and "secsz dt \<le> s \<Longrightarrow> s' = s - secsz dt"
  shows "holds dt (y # ys) dat i s"
  unfolding holds_def
proof (intro allI impI)
  fix k assume k: "k < length (y # ys)"
  show "take (min (s - k * secsz dt) (secsz dt)) (sector dt ((y # ys) ! k))
     = take (min (s - k * secsz dt) (secsz dt)) (drop ((i + k) * secsz dt) dat)"
  proof (cases k)
    case 0
    with assms(1) show ?thesis by simp
  next
    case (Suc j)
    show ?thesis
    proof (cases "secsz dt \<le> s")
      case True
      with assms(3) have "s - k * secsz dt = s' - j * secsz dt" by (simp add: Suc)
      with assms(2) k Suc show ?thesis by (auto simp: holds_def)
    next
      case False
      then have "s - k * secsz dt = 0" by (simp add: Suc)
      then show ?thesis by simp
    qed
  qed
qed

lemma not_ENDSEC: "unat fb < n \<Longrightarrow> n < 67108864 \<Longrightarrow> fb \<noteq> ENDSEC"
  by (rule small_neq_ENDSEC) simp

lemma ENDSEC_not_1 [simp]: "(- 1 :: u32_t) = ENDSEC"
  by (simp add: ENDSEC_max)

lemma frees_above_same:
  assumes "upd {x} dt dt'" and "nsec dt' = nsec dt" and "x \<le> b"
  shows "frees_above dt' b = frees_above dt b"
  using updD(5) [OF assms(1)] assms(2,3) by (auto simp: frees_above_def)

text \<open>One turn of the loop that is not the last: the sector is written and linked to the next free one.\<close>

lemma writefile_step:
  assumes wf: "wf_geom dt" and E: "malloc_ok E" and fi: "unat fi < nsec dt" and bd: "b = bps dt"
    and blocks: "unat blocks = Suc (unat i + Suc n)" "unat blocks * secsz dt < 4294967296"
    and cov: "covers dat (secsz dt) (unat blocks) (unat i) (unat s)" and rm: "room (Suc n) (unat fi) dt"
  shows "\<exists>dt3 nx. writefile_loop E b blocks dat dt i fi s = writefile_loop E b blocks dat dt3 (i + 1) nx (s - ucast b)
     \<and> upd {unat fi} dt dt3 \<and> unat fi < unat nx \<and> unat nx < nsec dt3
     \<and> fat_p dt3 ! unat fi = nx \<and> fat_p dt3 ! unat nx = FREESEC \<and> room n (unat nx) dt3
     \<and> take (min (unat s) (secsz dt)) (sector dt3 (unat fi)) = take (min (unat s) (secsz dt)) (drop (unat i * secsz dt) dat)
     \<and> unat (dt_size dt3) \<le> 2 * unat (dt_size dt)
     \<and> (dt_size dt3 = dt_size dt \<and> card (frees_above dt (unat fi)) = Suc (card (frees_above dt3 (unat nx)))
          \<or> n \<le> card (frees_above dt3 (unat nx)))
     \<and> (Suc n \<le> card (frees_above dt (unat fi)) \<longrightarrow> dt_size dt3 = dt_size dt)"
proof -
  have lt: "i < blocks" "\<not> blocks \<le> i + 1"
    using blocks(1) unat_Suc_less [of i blocks] by (auto simp: word_less_nat_alt word_le_nat_alt)
  from sector_prefix_write [OF wf fi cov _ blocks(2), of ENDSEC] blocks(1)
  obtain chunk d where w: "rd dat (unat (i * b)) (min (unat s) (secsz dt)) = Some chunk"
    "wr (data dt) (unat (fi * b)) chunk = Some d"
    "fat_set (fat_p dt) fi ENDSEC = Some ((fat_p dt)[unat fi := ENDSEC])"
    "upd {unat fi} dt (dt\<lparr>data := d, fat_p := (fat_p dt)[unat fi := ENDSEC]\<rparr>)"
    "take (min (unat s) (secsz dt)) (sector (dt\<lparr>data := d, fat_p := (fat_p dt)[unat fi := ENDSEC]\<rparr>) (unat fi))
       = take (min (unat s) (secsz dt)) (drop (unat i * secsz dt) dat)"
    using bd by auto
  define dt1 where "dt1 = dt\<lparr>data := d, fat_p := (fat_p dt)[unat fi := ENDSEC]\<rparr>"
  note w' = w(4,5) [folded dt1_def]
  have fl: "unat fi < length (fat_p dt)" using fi wf_geomD(4) [OF wf] by simp
  have fi1: "unat fi < nsec dt1" "fat_p dt1 ! unat fi \<noteq> FREESEC" using fi fl by (simp_all add: dt1_def)
  have same: "dt_size dt1 = dt_size dt" "frees_above dt1 (unat fi) = frees_above dt (unat fi)"
    using frees_above_same [OF w'(1)] by (simp_all add: dt1_def)
  have "room (Suc n) (unat fi) dt1" using rm same by (simp add: room_def dt1_def)
  from find_free_room [OF updD(1) [OF w'(1)] E this fi1] obtain nx dt2 where
    f: "find_free E dt1 fi = Some (nx, dt2)" and u2: "upd {} dt1 dt2"
    and nx: "unat fi < unat nx" "unat nx < nsec dt2" "fat_p dt2 ! unat nx = FREESEC"
    and rm2: "room n (unat nx) (dt2\<lparr>fat_p := (fat_p dt2)[unat fi := nx]\<rparr>)"
    and grow: "unat (dt_size dt2) \<le> 2 * unat (dt_size dt1)"
      "dt_size dt2 = dt_size dt1 \<and> card (frees_above dt1 (unat fi))
          = Suc (card (frees_above (dt2\<lparr>fat_p := (fat_p dt2)[unat fi := nx]\<rparr>) (unat nx)))
        \<or> n \<le> card (frees_above (dt2\<lparr>fat_p := (fat_p dt2)[unat fi := nx]\<rparr>) (unat nx))"
      "Suc n \<le> card (frees_above dt1 (unat fi)) \<longrightarrow> dt_size dt2 = dt_size dt1" by blast
  define dt3 where "dt3 = dt2\<lparr>fat_p := (fat_p dt2)[unat fi := nx]\<rparr>"
  have fi2: "unat fi < nsec dt2" "unat fi < length (fat_p dt2)"
    using fi1 updD(1,3) [OF u2] wf_geomD(4) [of dt2] by auto
  have "upd {unat fi} dt2 dt3" unfolding dt3_def using updD(1) [OF u2] fi2(1) by (rule upd_fat_update)
  then have "upd {unat fi} dt dt3" using upd_trans [OF upd_trans [OF w'(1) u2], of "{unat fi}"] by simp
  moreover have "writefile_loop E b blocks dat dt i fi s = writefile_loop E b blocks dat dt3 (i + 1) nx (s - ucast b)"
    using lt w(1-3) f piece_len [of b s] wf_geomD(3) [OF wf] bd fi2(2)
    by (subst writefile_loop.simps) (simp add: Let_def dt1_def fat_set_def dt3_def)
  moreover have "sector dt3 (unat fi) = sector dt1 (unat fi)"
    using updD(6) [OF u2 fi1(1)] by (simp add: dt3_def sector_def)
  moreover have "unat nx < nsec dt3" "fat_p dt3 ! unat fi = nx" "fat_p dt3 ! unat nx = FREESEC" "dt_size dt3 = dt_size dt2"
    using nx fi2(2) by (simp_all add: dt3_def)
  ultimately show ?thesis using nx(1) w'(2) rm2 grow [unfolded same]
    by (intro exI [of _ dt3] exI [of _ nx]) (simp add: dt3_def)
qed

text \<open>
  One run of the loop: with room for the remaining blocks it ends; the sectors it leaves in
  the chain are the first one and sectors that were free or are new, in rising order;
  everything else is as before; and the chain holds the buffer.
\<close>

lemma writefile_loop_spec:
  assumes "wf_geom dt" and "malloc_ok E" and "unat fi < nsec dt" and "b = bps dt"
    and "unat blocks = Suc (unat i + n)" and "unat blocks * secsz dt < 4294967296"
    and "covers dat (secsz dt) (unat blocks) (unat i) (unat s)"
    and "room n (unat fi) dt"
  shows "\<exists>dt' ys. writefile_loop E b blocks dat dt i fi s = Some dt' \<and> upd (set ys) dt dt'
     \<and> chain (fat_p dt') fi ys \<and> length ys = Suc n
     \<and> (\<forall>y\<in>set (tl ys). unat fi < y \<and> (y < nsec dt \<longrightarrow> fat_p dt ! y = FREESEC))
     \<and> (\<forall>y\<in>set ys. y < nsec dt' \<and> fat_p dt' ! y \<noteq> FREESEC)
     \<and> holds dt' ys dat (unat i) (unat s)
     \<and> unat (dt_size dt') \<le> 2 * unat (dt_size dt)
     \<and> (n \<le> card (frees_above dt (unat fi)) \<longrightarrow> dt_size dt' = dt_size dt)"
  using assms
proof (induction n arbitrary: dt i fi s)
  case (0 dt i fi s)
  note wf = "0.prems"(1)
  have lt: "i < blocks" "\<not> i + 1 < blocks"
    using "0.prems"(5) unat_Suc_less [of i blocks] by (auto simp: word_less_nat_alt)
  from sector_prefix_write [OF wf "0.prems"(3,7) _ "0.prems"(6), of ENDSEC] "0.prems"(5)
  obtain chunk d where w: "rd dat (unat (i * b)) (min (unat s) (secsz dt)) = Some chunk"
    "wr (data dt) (unat (fi * b)) chunk = Some d"
    "fat_set (fat_p dt) fi ENDSEC = Some ((fat_p dt)[unat fi := ENDSEC])"
    "upd {unat fi} dt (dt\<lparr>data := d, fat_p := (fat_p dt)[unat fi := ENDSEC]\<rparr>)"
    "take (min (unat s) (secsz dt)) (sector (dt\<lparr>data := d, fat_p := (fat_p dt)[unat fi := ENDSEC]\<rparr>) (unat fi))
       = take (min (unat s) (secsz dt)) (drop (unat i * secsz dt) dat)"
    using "0.prems"(4) by auto
  let ?dt1 = "dt\<lparr>data := d, fat_p := (fat_p dt)[unat fi := ENDSEC]\<rparr>"
  have run: "writefile_loop E b blocks dat dt i fi s = Some ?dt1"
    using lt w(1-3) piece_len [of b s] wf_geomD(3) [OF wf] "0.prems"(4)
    by (subst writefile_loop.simps) (simp add: Let_def not_less)
  have "fi \<noteq> ENDSEC" using "0.prems"(3) wf_geomD(8) [OF wf] by (rule not_ENDSEC)
  moreover have "unat fi < length (fat_p dt)" using "0.prems"(3) wf_geomD(4) [OF wf] by simp
  moreover have "holds ?dt1 [unat fi] dat (unat i) (unat s)"
    using w(5) by (simp add: holds_def)
  ultimately show ?case
    using run w(4) "0.prems"(3) by (intro exI [of _ ?dt1] exI [of _ "[unat fi]"]) auto
next
  case (Suc n dt i fi s)
  note wf = Suc.prems(1) and bd = Suc.prems(4) and fi = Suc.prems(3)
  have "i < blocks" using Suc.prems(5) by (simp add: word_less_nat_alt)
  then have i1: "unat (i + 1) = Suc (unat i)" by (rule unat_Suc_less)
  from writefile_step [OF wf Suc.prems(2) fi bd Suc.prems(5-8)] obtain dt3 nx where
    run: "writefile_loop E b blocks dat dt i fi s = writefile_loop E b blocks dat dt3 (i + 1) nx (s - ucast b)"
    and u: "upd {unat fi} dt dt3" and nx: "unat fi < unat nx" "unat nx < nsec dt3"
      "fat_p dt3 ! unat fi = nx" "fat_p dt3 ! unat nx = FREESEC" and rm: "room n (unat nx) dt3"
    and sec: "take (min (unat s) (secsz dt)) (sector dt3 (unat fi))
       = take (min (unat s) (secsz dt)) (drop (unat i * secsz dt) dat)"
    and grow: "unat (dt_size dt3) \<le> 2 * unat (dt_size dt)"
      "dt_size dt3 = dt_size dt \<and> card (frees_above dt (unat fi)) = Suc (card (frees_above dt3 (unat nx)))
        \<or> n \<le> card (frees_above dt3 (unat nx))"
      "Suc n \<le> card (frees_above dt (unat fi)) \<longrightarrow> dt_size dt3 = dt_size dt" by blast
  note uD = updD [OF u]
  have sB: "secsz dt \<le> unat s \<Longrightarrow> unat (s - ucast b) = unat s - secsz dt"
    by (simp add: unat_sub_fit bd)
  have cov: "covers dat (secsz dt3) (unat blocks) (unat (i + 1)) (unat (s - ucast b))"
    using covers_step [OF Suc.prems(7)] Suc.prems(5) sB i1 uD(2) by (cases "secsz dt \<le> unat s") auto
  have "\<exists>dt' ys. writefile_loop E b blocks dat dt3 (i + 1) nx (s - ucast b) = Some dt'
     \<and> upd (set ys) dt3 dt' \<and> chain (fat_p dt') nx ys \<and> length ys = Suc n
     \<and> (\<forall>y\<in>set (tl ys). unat nx < y \<and> (y < nsec dt3 \<longrightarrow> fat_p dt3 ! y = FREESEC))
     \<and> (\<forall>y\<in>set ys. y < nsec dt' \<and> fat_p dt' ! y \<noteq> FREESEC)
     \<and> holds dt' ys dat (unat (i + 1)) (unat (s - ucast b))
     \<and> unat (dt_size dt') \<le> 2 * unat (dt_size dt3)
     \<and> (n \<le> card (frees_above dt3 (unat nx)) \<longrightarrow> dt_size dt' = dt_size dt3)"
    using uD(1,2) Suc.prems(2,5,6) nx(2) bd i1 cov rm by (intro Suc.IH) auto
  then obtain dt' ys where ih: "writefile_loop E b blocks dat dt3 (i + 1) nx (s - ucast b) = Some dt'"
    "upd (set ys) dt3 dt'" "chain (fat_p dt') nx ys" "length ys = Suc n"
    "\<forall>y\<in>set (tl ys). unat nx < y \<and> (y < nsec dt3 \<longrightarrow> fat_p dt3 ! y = FREESEC)"
    "\<forall>y\<in>set ys. y < nsec dt' \<and> fat_p dt' ! y \<noteq> FREESEC"
    "holds dt' ys dat (unat (i + 1)) (unat (s - ucast b))"
    "unat (dt_size dt') \<le> 2 * unat (dt_size dt3)"
    "n \<le> card (frees_above dt3 (unat nx)) \<longrightarrow> dt_size dt' = dt_size dt3" by blast
  have size: "unat (dt_size dt') \<le> 2 * unat (dt_size dt)"
    "Suc n \<le> card (frees_above dt (unat fi)) \<longrightarrow> dt_size dt' = dt_size dt"
    using grow ih(8,9) by auto
  note uih = updD [OF ih(2)]
  from ih(3,4) have ys: "ys = unat nx # tl ys" by (cases ys) auto
  have above: "unat fi < y \<and> (y < nsec dt3 \<longrightarrow> fat_p dt3 ! y = FREESEC)" if "y \<in> set ys" for y
    using that nx(1,4) ih(5) by (subst (asm) ys) auto
  then have fn: "unat fi \<notin> set ys" by blast
  have freed: "fat_p dt ! y = FREESEC" if "y \<in> set ys" "y < nsec dt" for y
    using above [OF that(1)] that(2) uD(3) uD(5) [OF that(2)] by auto
  have fi3: "unat fi < nsec dt3" using fi uD(3) by simp
  have fat_fi: "fat_p dt' ! unat fi = nx" and sec_fi: "sector dt' (unat fi) = sector dt3 (unat fi)"
    using uih(5,6) [OF fi3 fn] nx(3) by simp_all
  have "chain (fat_p dt') fi (unat fi # ys)"
    using ih(3) fat_fi fi3 uih(1,3) wf_geomD(4,8) [OF uih(1)] not_ENDSEC [of fi "nsec dt'"] by auto
  moreover have "upd (set (unat fi # ys)) dt dt'" using upd_trans [OF u ih(2)] by simp
  moreover have "holds dt' (unat fi # ys) dat (unat i) (unat s)"
    using sec sec_fi ih(7) i1 sB uih(2) uD(2)
    by (intro holds_Cons [of _ _ _ _ _ _ "unat (s - ucast b)"]) auto
  moreover have "unat fi < nsec dt' \<and> fat_p dt' ! unat fi \<noteq> FREESEC"
    using fat_fi nx(1) fi3 uih(3) by (auto simp: FREESEC_def)
  ultimately show ?case
    using size run ih(1,4,6) above freed
    by (intro exI [of _ dt'] exI [of _ "unat fi # ys"]) auto
qed

section \<open>Files\<close>

definition file_at :: "dtree \<Rightarrow> u32_t \<Rightarrow> nat list \<Rightarrow> bool" where
  "file_at dt fb xs \<longleftrightarrow> chain (fat_p dt) fb xs \<and> xs \<noteq> []
     \<and> (\<forall>x\<in>set xs. x < nsec dt \<and> fat_p dt ! x \<noteq> FREESEC)"

definition content :: "dtree \<Rightarrow> nat list \<Rightarrow> buf" where
  "content dt xs = concat (map (sector dt) xs)"

lemma content_Nil [simp]: "content dt [] = []"
  and content_Cons [simp]: "content dt (x # xs) = sector dt x @ content dt xs"
  by (simp_all add: content_def)

lemma length_content:
  "wf_geom dt \<Longrightarrow> \<forall>x\<in>set xs. x < nsec dt \<Longrightarrow> length (content dt xs) = length xs * secsz dt"
  by (induction xs) (auto simp: length_sector)

lemma upd_file_at:
  assumes "upd S dt dt'" and "file_at dt fb xs" and "set xs \<inter> S = {}"
  shows "file_at dt' fb xs" "content dt' xs = content dt xs"
proof -
  note u = updD [OF assms(1)]
  have x: "fat_p dt' ! x = fat_p dt ! x" "sector dt' x = sector dt x" "x < nsec dt'"
    if "x \<in> set xs" for x
    using that assms(2,3) u(3) u(5,6) [of x] by (auto simp: file_at_def)
  have "chain fat fb zs \<Longrightarrow> \<forall>z\<in>set zs. fat_p dt' ! z = fat ! z \<and> z < nsec dt' \<Longrightarrow>
      chain (fat_p dt') fb zs" for fat zs fb
    using wf_geomD(4) [OF u(1)] by (induction zs arbitrary: fb) auto
  with x assms(2) have "chain (fat_p dt') fb xs" by (auto simp: file_at_def)
  with assms(2) x show "file_at dt' fb xs" by (auto simp: file_at_def)
  show "content dt' xs = content dt xs"
    using x(2) by (auto simp: content_def intro!: arg_cong [of _ _ concat])
qed

lemma readfile_loop_chain:
  assumes "wf_geom dt" and "chain (fat_p dt) fb xs" and "\<forall>x\<in>set xs. x < nsec dt"
    and "(unat i + length xs) * secsz dt \<le> length dat" and "length dat < 4294967296"
  shows "readfile_loop dt (bps dt) dat i fb = Some (take (unat i * secsz dt) dat @ content dt xs
      @ drop ((unat i + length xs) * secsz dt) dat)"
  using assms
proof (induction xs arbitrary: i fb dat)
  case Nil
  then show ?case by (subst readfile_loop.simps) simp
next
  case (Cons x xs)
  let ?B = "secsz dt"
  note wf = Cons.prems(1)
  from Cons.prems have fb: "unat fb = x" "unat fb < nsec dt" "fb \<noteq> ENDSEC" "x < length (fat_p dt)"
    by auto
  have rd: "rd (data dt) (unat (fb * bps dt)) ?B = Some (sector dt x)"
    using sector_offset [OF wf fb(2)] fb(1) by (simp add: rd_def sector_def)
  have ls: "length (sector dt x) = ?B" using length_sector [OF wf, of x] fb by simp
  have le: "unat i * ?B + ?B + length xs * ?B \<le> length dat"
    using Cons.prems(4) by (simp add: add_mult_distrib)
  then have "unat i * ?B < 4294967296" using Cons.prems(5) by linarith
  then have o: "unat (i * bps dt) = unat i * ?B" by (simp add: unat_mult_fit)
  define d where "d = take (unat i * ?B) dat @ sector dt x @ drop (unat i * ?B + ?B) dat"
  have wr: "wr dat (unat (i * bps dt)) (sector dt x) = Some d"
    using o le ls by (simp add: wr_def d_def)
  have "unat i * 64 \<le> unat i * ?B" using wf_geomD(1) [OF wf] by simp
  with le Cons.prems(5) have "unat i < 67108864" by linarith
  then have i1: "unat (i + 1) = Suc (unat i)" by (simp add: unat_add_fit)
  have ld: "length d = length dat" using wr by (rule wr_length)
  have "readfile_loop dt (bps dt) d (i + 1) (fat_p dt ! x) =
      Some (take (unat (i + 1) * ?B) d @ content dt xs @ drop ((unat (i + 1) + length xs) * ?B) d)"
    using Cons.prems le ld i1 by (intro Cons.IH) (auto simp: add_mult_distrib)
  moreover have "take (unat (i + 1) * ?B) d = take (unat i * ?B) dat @ sector dt x"
    using le ls i1 by (simp add: d_def)
  moreover have "drop ((unat (i + 1) + length xs) * ?B) d
      = drop ((unat i + length (x # xs)) * ?B) dat"
    using le ls i1 by (simp add: d_def add_mult_distrib add.commute add.left_commute)
  ultimately show ?case
    using fb rd wr by (subst readfile_loop.simps) simp
qed

lemma do_readfile_file:
  assumes "wf_geom dt" and "file_at dt fb xs" and "length xs * secsz dt \<le> length dat"
    and "length dat < 4294967296"
  shows "do_readfile dt fb dat = Some (content dt xs @ drop (length xs * secsz dt) dat)"
  using readfile_loop_chain [of dt fb xs 0 dat] assms by (simp add: do_readfile_def file_at_def)

lemma holds_content:
  assumes "holds dt ys dat i s" and "\<forall>y\<in>set ys. length (sector dt y) = secsz dt"
  shows "take (min s (length ys * secsz dt)) (content dt ys)
     = take (min s (length ys * secsz dt)) (drop (i * secsz dt) dat)"
  using assms
proof (induction ys arbitrary: i s)
  case (Cons y ys)
  let ?B = "secsz dt"
  have hd: "take (min s ?B) (sector dt y) = take (min s ?B) (drop (i * ?B) dat)"
    using Cons.prems(1) by (auto simp: holds_def)
  have tl: "holds dt ys dat (Suc i) (s - ?B)"
    unfolding holds_def
  proof (intro allI impI)
    fix k assume "k < length ys"
    then show "take (min (s - ?B - k * ?B) ?B) (sector dt (ys ! k))
        = take (min (s - ?B - k * ?B) ?B) (drop ((Suc i + k) * ?B) dat)"
      using Cons.prems(1) [unfolded holds_def, rule_format, of "Suc k"] by simp
  qed
  show ?case
  proof (cases "?B \<le> s")
    case True
    have m: "min s (length (y # ys) * ?B) = ?B + min (s - ?B) (length ys * ?B)"
      using True by simp
    have sec: "sector dt y = take ?B (drop (i * ?B) dat)"
      using hd True Cons.prems(2) by simp
    have "take (min s (length (y # ys) * ?B)) (content dt (y # ys))
       = sector dt y @ take (min (s - ?B) (length ys * ?B)) (content dt ys)"
      unfolding m using Cons.prems(2) by simp
    also have "\<dots> = take ?B (drop (i * ?B) dat)
        @ take (min (s - ?B) (length ys * ?B)) (drop ?B (drop (i * ?B) dat))"
      using Cons.IH [OF tl] Cons.prems(2) sec by (simp add: add.commute)
    also have "\<dots> = take (min s (length (y # ys) * ?B)) (drop (i * ?B) dat)"
      unfolding m by (simp only: take_add)
    finally show ?thesis .
  next
    case False
    with hd Cons.prems(2) show ?thesis by (simp add: min_def)
  qed
qed simp

lemma do_writefile_file:
  assumes wf: "wf_geom dt" and E: "malloc_ok E" and fl: "file_at dt fb xs"
    and m: "get_meta dat 0 = Some m" "0 < unat (fm_blocks m)"
    and fit: "unat (fm_blocks m) * secsz dt < 4294967296"
    and cov: "covers dat (secsz dt) (unat (fm_blocks m)) 0 (unat s)"
    and room: "unat (dt_size dt) < 2147483648" "unat (fm_blocks m) \<le> nsec dt + 2"
  shows "\<exists>dt' ys. do_writefile E dt fb dat s = Some dt' \<and> file_at dt' fb ys
     \<and> length ys = unat (fm_blocks m) \<and> upd (set xs \<union> set ys) dt dt'
     \<and> (\<forall>y\<in>set ys. y \<in> set xs \<or> (y < nsec dt \<longrightarrow> fat_p dt ! y = FREESEC))
     \<and> (\<forall>x\<in>set xs - set ys. fat_p dt' ! x = FREESEC)
     \<and> take (min (unat s) (length ys * secsz dt)) (content dt' ys)
         = take (min (unat s) (length ys * secsz dt)) dat
     \<and> unat (dt_size dt') \<le> 2 * unat (dt_size dt)"
proof -
  let ?n = "unat (fm_blocks m) - 1"
  define dt0 where "dt0 = dt\<lparr>fat_p := frees xs (fat_p dt)\<rparr>"
  from fl have ch: "chain (fat_p dt) fb xs" and ne: "xs \<noteq> []"
    and xs: "\<forall>x\<in>set xs. x < nsec dt" by (auto simp: file_at_def)
  from ch ne have fb: "unat fb \<in> set xs" by (cases xs) auto
  have u0: "upd (set xs) dt dt0" unfolding dt0_def by (rule upd_frees [OF wf])
  have n1: "unat (fm_blocks m) = Suc (unat (0 :: u32_t) + ?n)" using m(2) by simp
  have "?n \<le> nsec dt0 + 1" using room(2) unfolding dt0_def by simp
  then have rm: "room ?n (unat fb) dt0" using room(1) by (simp add: room_def dt0_def)
  have "\<exists>dt' ys. writefile_loop E (bps dt) (fm_blocks m) dat dt0 0 fb s = Some dt'
     \<and> upd (set ys) dt0 dt' \<and> chain (fat_p dt') fb ys \<and> length ys = Suc ?n
     \<and> (\<forall>y\<in>set (tl ys). unat fb < y \<and> (y < nsec dt0 \<longrightarrow> fat_p dt0 ! y = FREESEC))
     \<and> (\<forall>y\<in>set ys. y < nsec dt' \<and> fat_p dt' ! y \<noteq> FREESEC)
     \<and> holds dt' ys dat (unat (0 :: u32_t)) (unat s)
     \<and> unat (dt_size dt') \<le> 2 * unat (dt_size dt0)
     \<and> (?n \<le> card (frees_above dt0 (unat fb)) \<longrightarrow> dt_size dt' = dt_size dt0)"
    using updD(1) [OF u0] E n1 rm fb xs fit cov
    by (intro writefile_loop_spec) (auto simp: dt0_def)
  then obtain dt' ys where r: "writefile_loop E (bps dt) (fm_blocks m) dat dt0 0 fb s = Some dt'"
    "upd (set ys) dt0 dt'" "chain (fat_p dt') fb ys" "length ys = Suc ?n"
    "\<forall>y\<in>set (tl ys). unat fb < y \<and> (y < nsec dt0 \<longrightarrow> fat_p dt0 ! y = FREESEC)"
    "\<forall>y\<in>set ys. y < nsec dt' \<and> fat_p dt' ! y \<noteq> FREESEC"
    "holds dt' ys dat 0 (unat s)" "unat (dt_size dt') \<le> 2 * unat (dt_size dt)" by (auto simp: dt0_def)
  note u = updD [OF r(2)]
  have run: "do_writefile E dt fb dat s = Some dt'"
    using r(1) m(1) reset_fat_chain [OF ch] by (simp add: do_writefile_def dt0_def)
  have ne': "ys \<noteq> []" using r(4) by auto
  then have ys: "ys = unat fb # tl ys" using r(3) by (cases ys) auto
  have fl': "file_at dt' fb ys" using r(3,6) ne' by (simp add: file_at_def)
  have up: "upd (set xs \<union> set ys) dt dt'" using u0 r(2) by (rule upd_trans)
  have src: "y \<in> set xs \<or> (y < nsec dt \<longrightarrow> fat_p dt ! y = FREESEC)" if "y \<in> set ys" for y
  proof (cases "y = unat fb")
    case False
    with that r(5) have "y < nsec dt0 \<longrightarrow> fat_p dt0 ! y = FREESEC" by (subst (asm) ys) auto
    then show ?thesis
      using updD(5) [OF u0, of y] by (cases "y \<in> set xs") (auto simp: dt0_def)
  qed (use fb in simp)
  have gone: "fat_p dt' ! x = FREESEC" if "x \<in> set xs - set ys" for x
    using that xs u(5) [of x] wf_geomD(4) [OF wf] by (auto simp: dt0_def nth_frees)
  have "\<forall>y\<in>set ys. length (sector dt' y) = secsz dt'"
    using r(6) length_sector [OF u(1)] by auto
  from holds_content [OF r(7) this] up
  have "take (min (unat s) (length ys * secsz dt)) (content dt' ys)
      = take (min (unat s) (length ys * secsz dt)) dat"
    by (simp add: upd_def)
  with run fl' r(4,8) n1 up src gone show ?thesis by (intro exI [of _ dt'] exI [of _ ys]) auto
qed

section \<open>Properties\<close>

text \<open>A disk of four 64-byte sectors with one file in sector 1, for the witnesses below.\<close>

definition mini_meta :: file_meta where
  "mini_meta = \<lparr>fm_uid = 5, fm_count = 1, fm_flen = 64, fm_c_time = 0, fm_r_time = 0,
     fm_w_time = 0, fm_strbase = 0, fm_strlen = 0, fm_blocks = 1, fm_flags = 0xE,
     fm_reserve = 0\<rparr>"

definition mini_disk :: dtree where
  "mini_disk = \<lparr>sb = \<lparr>sb_fstype = 0, sb_bytsPerSec = 64, sb_totSecNum = 4, sb_fatSecNum = 1,
       sb_fatNum = 2, sb_maxBlockNum = 0\<rparr>,
     sb_pad = replicate 24 0, fat_p = ENDSEC # ENDSEC # replicate 14 FREESEC,
     data = replicate 64 0 @ enc_meta mini_meta, dt_size = 256, in_size = 0, dt_max = 256,
     in_max = 0, in_buf = []\<rparr>"

lemma mini_disk_wf [simp]: "wf_geom mini_disk"
  by (auto simp: wf_geom_def Let_def mini_disk_def nth_Cons')

lemma mini_disk_file [simp]: "file_at mini_disk 1 [1]"
  by (simp add: file_at_def mini_disk_def)

text \<open>
  C38. Freeing a chain: on a chain of the table, \<open>reset_fat\<close> ends, and afterwards exactly
  the entries of the chain are free and all others are as before.
\<close>
theorem reset_fat_frees_chain:
  assumes "chain fat fb xs"
  shows "\<exists>fat'. reset_fat fb fat = Some fat' \<and> length fat' = length fat
     \<and> (\<forall>i<length fat. fat' ! i = (if i \<in> set xs then FREESEC else fat ! i))"
  using reset_fat_chain [OF assms] by (auto simp: nth_frees)

theorem reset_fat_frees_chain_witness:
  "\<exists>fat'. reset_fat 2 [7, ENDSEC, 1] = Some fat' \<and> fat' ! 0 = 7 \<and> fat' ! 1 = FREESEC
     \<and> fat' ! 2 = FREESEC"
proof -
  have "chain [7, ENDSEC, 1] 2 [2, 1]" by simp
  from reset_fat_frees_chain [OF this] obtain fat' where
    f: "reset_fat 2 [7, ENDSEC, 1] = Some fat'"
    "\<And>i. i < 3 \<Longrightarrow> fat' ! i = (if i \<in> {2, 1} then FREESEC else [7, ENDSEC, 1] ! i)" by auto
  from f(2) [of 0] f(2) [of 1] f(2) [of 2] have "fat' ! 0 = 7 \<and> fat' ! 1 = FREESEC \<and> fat' ! 2 = FREESEC"
    by simp
  with f(1) show ?thesis by blast
qed

text \<open>
  C15. Reading what was written: on a disk below 2 GiB, for a buffer that holds its own number
  of blocks (at most two more than the disk has sectors), \<open>do_writefile\<close> ends and
  \<open>do_readfile\<close> then returns, in a buffer large enough, the first \<open>s\<close> bytes of the buffer
  that was written.
\<close>
theorem write_then_read:
  assumes "wf_geom dt" and "malloc_ok E" and "file_at dt fb xs"
    and "get_meta dat 0 = Some m" and "0 < unat (fm_blocks m)"
    and "unat (fm_blocks m) * secsz dt \<le> length buf" and "length buf < 4294967296"
    and "covers dat (secsz dt) (unat (fm_blocks m)) 0 (unat s)"
    and "unat (dt_size dt) < 2147483648" and "unat (fm_blocks m) \<le> nsec dt + 2"
  shows "\<exists>dt' buf'. do_writefile E dt fb dat s = Some dt' \<and> do_readfile dt' fb buf = Some buf'
     \<and> take (min (unat s) (unat (fm_blocks m) * secsz dt)) buf'
         = take (min (unat s) (unat (fm_blocks m) * secsz dt)) dat"
proof -
  obtain dt' ys where w: "do_writefile E dt fb dat s = Some dt'" "file_at dt' fb ys"
    "length ys = unat (fm_blocks m)" "upd (set xs \<union> set ys) dt dt'"
    "take (min (unat s) (length ys * secsz dt)) (content dt' ys)
       = take (min (unat s) (length ys * secsz dt)) dat"
    using do_writefile_file [OF assms(1-5) _ assms(8-10)] assms(6,7) by fastforce
  have r: "do_readfile dt' fb buf = Some (content dt' ys @ drop (length ys * secsz dt') buf)"
    using updD(1,2) [OF w(4)] w(2,3) assms(6,7) by (intro do_readfile_file) auto
  moreover have "length (content dt' ys) = length ys * secsz dt"
    using updD(1,2) [OF w(4)] w(2) length_content [of dt' ys] by (simp add: file_at_def)
  ultimately show ?thesis using w by simp
qed

theorem write_then_read_witness:
  "\<exists>dt' buf'. do_writefile calm_env mini_disk 1 (enc_meta mini_meta) 64 = Some dt'
     \<and> do_readfile dt' 1 (replicate 64 0) = Some buf' \<and> take 64 buf' = enc_meta mini_meta"
proof -
  have g: "get_meta (enc_meta mini_meta) 0 = Some mini_meta"
    using meta.get_enc_head [of mini_meta "[]"] by simp
  have c: "covers (enc_meta mini_meta) (secsz mini_disk) (unat (fm_blocks mini_meta)) 0 (unat (64 :: u64_t))"
    by (simp add: covers_def mini_meta_def mini_disk_def)
  from write_then_read [OF mini_disk_wf calm_env_ok mini_disk_file g _ _ _ c, of "replicate 64 0"]
  show ?thesis by (simp add: mini_meta_def mini_disk_def)
qed

text \<open>
  Writing a file leaves the others alone: under the same conditions, a file whose chain
  shares no sector with the written one keeps its chain and its contents, the table has
  a chain for the written file with as many sectors as the buffer asks for, and the
  sectors it gave up are free.
\<close>
lemma write_keeps_other_files:
  assumes "wf_geom dt" and "malloc_ok E" and "file_at dt fb xs"
    and "get_meta dat 0 = Some m" and "0 < unat (fm_blocks m)"
    and "unat (fm_blocks m) * secsz dt < 4294967296"
    and "covers dat (secsz dt) (unat (fm_blocks m)) 0 (unat s)"
    and "unat (dt_size dt) < 2147483648" and "unat (fm_blocks m) \<le> nsec dt + 2"
    and "file_at dt gb zs" and "set zs \<inter> set xs = {}"
  shows "\<exists>dt' ys. do_writefile E dt fb dat s = Some dt' \<and> wf_geom dt'
     \<and> file_at dt' gb zs \<and> content dt' zs = content dt zs
     \<and> file_at dt' fb ys \<and> length ys = unat (fm_blocks m) \<and> set ys \<inter> set zs = {}
     \<and> (\<forall>x\<in>set xs - set ys. fat_p dt' ! x = FREESEC)"
proof -
  obtain dt' ys where w: "do_writefile E dt fb dat s = Some dt'" "file_at dt' fb ys"
    "length ys = unat (fm_blocks m)" "upd (set xs \<union> set ys) dt dt'"
    "\<forall>y\<in>set ys. y \<in> set xs \<or> (y < nsec dt \<longrightarrow> fat_p dt ! y = FREESEC)"
    "\<forall>x\<in>set xs - set ys. fat_p dt' ! x = FREESEC"
    using do_writefile_file [OF assms(1-9)] by blast
  have "set ys \<inter> set zs = {}" using w(5) assms(10,11) by (auto simp: file_at_def)
  with assms(11) have "set zs \<inter> (set xs \<union> set ys) = {}" by blast
  from upd_file_at [OF w(4) assms(10) this] updD(1) [OF w(4)] w \<open>set ys \<inter> set zs = {}\<close>
  show ?thesis by blast
qed

end
