(* ===== verification/CfsDir.thy ===== *)
theory CfsDir
  imports CfsFiles
begin

text \<open>
  Directories of \<open>c_node/fs/cfs.c\<close>: looking an entry up by name in a directory buffer,
  adding and removing an entry, and resolving a path; and the view of a directory as a
  list of named entries that these operations implement.
\<close>

unbundle bit_operations_syntax

section \<open>The operations of the code\<close>

definition upd_meta :: "buf \<Rightarrow> (file_meta \<Rightarrow> file_meta) \<Rightarrow> buf option" where
  "upd_meta b f = do { m \<leftarrow> get_meta b 0; put_meta b 0 (f m) }"

text \<open>
  The loop compares the address of the current entry for equality with the end of the
  entries; entries and strings are read from the same buffer. The result is the offset of
  the entry, \<open>None\<close> inside for NULL.
\<close>

function find_loop :: "buf \<Rightarrow> nat \<Rightarrow> nat \<Rightarrow> buf \<Rightarrow> nat option option" where
  "find_loop pdata strbase p name =
     (if p \<noteq> 64 + strbase then
        case get_entry pdata p of
          None \<Rightarrow> None
        | Some e \<Rightarrow>
            (case strcmp_at pdata (64 + strbase + unat (fe_name e)) name of
               None \<Rightarrow> None
             | Some True \<Rightarrow> Some (Some p)
             | Some False \<Rightarrow> find_loop pdata strbase (p + 16) name)
      else Some None)"
  by pat_completeness auto
termination
  by (relation "measure (\<lambda>(pdata, strbase, p, name). length pdata - p)")
     (auto simp: get_at_def rd_def split: if_splits)

declare find_loop.simps [simp del]

definition find_entry_by_name :: "buf \<Rightarrow> buf \<Rightarrow> nat option option" where
  "find_entry_by_name pdata name = do {
     meta \<leftarrow> get_meta pdata 0;
     find_loop pdata (unat (fm_strbase meta)) 64 name
   }"

definition do_remove_entry :: "env \<Rightarrow> buf \<Rightarrow> nat \<Rightarrow> (int \<times> buf) option" where
  "do_remove_entry E pdata entry = do {
     meta \<leftarrow> get_meta pdata 0;
     let tmpsize = fm_flen meta - word_of_nat entry;
     case malloc E (unat tmpsize) of
       None \<Rightarrow> Some (- 9, pdata)
     | Some _ \<Rightarrow> do {
         tmp \<leftarrow> rd pdata (entry + 16) (unat tmpsize);
         pdata \<leftarrow> wr pdata entry tmp;
         pdata \<leftarrow> upd_meta pdata (\<lambda>m. m\<lparr>fm_strbase := fm_strbase m - szof_entry,
                    fm_w_time := now E, fm_flen := fm_flen m - szof_entry\<rparr>);
         Some (0, pdata)
       }
   }"

text \<open>
  The two halves of linking a new entry into a copy of its parent directory, as
  \<open>c_open\<close> and \<open>c_mkdir\<close> do it: the old metadata and entries and a slot for the new
  entry; then the old strings and the new name behind them.
\<close>

definition add_slot :: "buf \<Rightarrow> buf \<Rightarrow> file_meta \<Rightarrow> u8_t \<Rightarrow> buf option" where
  "add_slot buf pdata pmeta ty = do {
     old \<leftarrow> rd pdata 0 (unat (szof_meta + fm_strbase pmeta));
     buf \<leftarrow> wr buf 0 old;
     e \<leftarrow> get_entry buf (64 + unat (fm_strbase pmeta));
     put_entry buf (64 + unat (fm_strbase pmeta)) (e\<lparr>fe_name := fm_strlen pmeta, fe_type := ty\<rparr>)
   }"

definition add_name :: "buf \<Rightarrow> buf \<Rightarrow> file_meta \<Rightarrow> buf \<Rightarrow> buf option" where
  "add_name buf pdata pmeta filename = do {
     buf \<leftarrow> upd_meta buf (\<lambda>m. m\<lparr>fm_strbase := fm_strbase m + szof_entry\<rparr>);
     meta \<leftarrow> get_meta buf 0;
     strs \<leftarrow> rd pdata (64 + unat (fm_strbase pmeta)) (unat (fm_strlen pmeta));
     buf \<leftarrow> wr buf (64 + unat (fm_strbase meta)) strs;
     wr buf (64 + unat (fm_strbase meta) + unat (fm_strlen pmeta)) (filename @ [0])
   }"

text \<open>
  The new entry gets the first sector that \<open>initfile\<close> or \<open>initdir\<close> chose (none when they
  fail, which the callers do not check), its name is appended, and the parent's metadata
  accounts for it; \<open>links\<close> is 1 in \<open>c_mkdir\<close> (\<open>meta->count++\<close>) and 0 in \<open>c_open\<close>.
\<close>

definition set_fb :: "buf \<Rightarrow> nat \<Rightarrow> u32_t option \<Rightarrow> buf option" where
  "set_fb buf off fb = (case fb of None \<Rightarrow> Some buf
     | Some x \<Rightarrow> do { e \<leftarrow> get_entry buf off; put_entry buf off (e\<lparr>fe_fb := x\<rparr>) })"

definition link_entry ::
  "buf \<Rightarrow> buf \<Rightarrow> file_meta \<Rightarrow> buf \<Rightarrow> u32_t option \<Rightarrow> u64_t \<Rightarrow> u32_t \<Rightarrow> u32_t \<Rightarrow> buf option" where
  "link_entry buf pdata pmeta filename fb newsize bytsPerSec links =
     (if bytsPerSec = 0 then None else do {
        buf \<leftarrow> set_fb buf (64 + unat (fm_strbase pmeta)) fb;
        buf \<leftarrow> add_name buf pdata pmeta filename;
        upd_meta buf (\<lambda>m. m\<lparr>fm_strlen := fm_strlen m + (word_of_nat (length filename) + 1),
          fm_flen := newsize,
          fm_blocks := ucast ((newsize + ucast bytsPerSec - 1) div ucast bytsPerSec),
          fm_count := fm_count m + links\<rparr>)
      })"

text \<open>
  Resolving a path below a directory. The loop over \<open>cp\<close> cuts the path at its first slash;
  without one the component is the last (the code sees that \<open>path\<close> did not move).
\<close>

function c_find_entry :: "env \<Rightarrow> dtree \<Rightarrow> file_entry \<Rightarrow> buf \<Rightarrow> u32_t \<Rightarrow> (int + file_entry) option" where
  "c_find_entry E dt base path uid = do {
     meta \<leftarrow> read_meta dt (fe_fb base);
     case malloc E (unat (fm_blocks meta * bps dt)) of
       None \<Rightarrow> Some (Inl (- 9))
     | Some buf \<Rightarrow> do {
         buf \<leftarrow> do_readfile dt (fe_fb base) buf;
         let next_base = takeWhile (\<lambda>c. c \<noteq> SLASH) path;
         p \<leftarrow> find_entry_by_name buf next_base;
         case p of
           None \<Rightarrow> Some (Inl 1)
         | Some off \<Rightarrow> do {
             e \<leftarrow> get_entry buf off;
             if SLASH \<notin> set path then Some (Inr e)
             else if fe_type e = S_DIR
             then c_find_entry E dt e (tl (dropWhile (\<lambda>c. c \<noteq> SLASH) path)) uid
             else Some (Inl 1)
           }
       }
   }"
  by pat_completeness auto
termination
proof (relation "measure (\<lambda>(E, dt, base, path, uid). length path)", goal_cases)
  case (2 E dt base path uid meta buf buf' next_base p off e)
  then have "dropWhile (\<lambda>c. c \<noteq> SLASH) path \<noteq> []" by auto
  moreover have "length (dropWhile (\<lambda>c. c \<noteq> SLASH) path) \<le> length path"
    by (rule length_dropWhile_le)
  ultimately show ?case by (cases "dropWhile (\<lambda>c. c \<noteq> SLASH) path") auto
qed simp

declare c_find_entry.simps [simp del]

definition c_lookup :: "env \<Rightarrow> dtree \<Rightarrow> buf \<Rightarrow> u32_t \<Rightarrow> (int + file_entry) option" where
  "c_lookup E dt path uid = do {
     let path = (case path of c # cs \<Rightarrow> if c = SLASH then cs else path | [] \<Rightarrow> []);
     root_entry \<leftarrow> get_entry (data dt) 0;
     if path = [] then Some (Inr root_entry) else c_find_entry E dt root_entry path uid
   }"

end
