(* ===== verification/CfsDirSpec.thy ===== *)
theory CfsDirSpec
  imports CfsDir
begin

text \<open>
  Directory buffers against their abstraction. A directory is its metadata, a list of
  entries and a pool of names (\<open>enc_dir\<close>); \<open>wf_dir\<close> says that the metadata describes
  them. Each operation of \<open>CfsDir\<close> is shown to be the list operation it stands for, and the
  buffers with their operations are an instance of the interface \<open>name_table\<close>, whose
  lemmas are what path operations need to know of a directory.
\<close>

unbundle bit_operations_syntax

section \<open>A directory as a list of named entries\<close>

fun idx :: "('a \<Rightarrow> bool) \<Rightarrow> 'a list \<Rightarrow> nat option" where
  "idx P [] = None"
| "idx P (x # xs) = (if P x then Some 0 else map_option Suc (idx P xs))"

lemma idx_None: "idx P xs = None \<longleftrightarrow> (\<forall>x\<in>set xs. \<not> P x)"
  by (induction xs) auto

lemma idx_Some: "idx P xs = Some i \<Longrightarrow> i < length xs \<and> P (xs ! i) \<and> (\<forall>j<i. \<not> P (xs ! j))"
proof (induction xs arbitrary: i)
  case (Cons x xs)
  then show ?case by (auto split: if_splits simp: nth_Cons split: nat.splits)
qed simp

definition enc_entries :: "file_entry list \<Rightarrow> buf" where
  "enc_entries es = concat (map enc_entry es)"

definition enc_dir :: "file_meta \<Rightarrow> file_entry list \<Rightarrow> buf \<Rightarrow> buf" where
  "enc_dir m es pool = enc_meta m @ enc_entries es @ pool"

lemma enc_entries_simps [simp]:
  "enc_entries [] = []" "enc_entries (e # es) = enc_entry e @ enc_entries es"
  "enc_entries (es @ es') = enc_entries es @ enc_entries es'"
  "length (enc_entries es) = 16 * length es"
  by (auto simp: enc_entries_def) (induction es, auto)

lemma length_enc_dir [simp]: "length (enc_dir m es pool) = 64 + 16 * length es + length pool"
  by (simp add: enc_dir_def)

definition ent_name :: "buf \<Rightarrow> file_entry \<Rightarrow> buf" where
  "ent_name pool e = the (cstr_at pool (unat (fe_name e)))"

definition named :: "buf \<Rightarrow> file_entry \<Rightarrow> bool" where
  "named pool e \<longleftrightarrow> (\<exists>s. cstr_at pool (unat (fe_name e)) = Some s)"

text \<open>
  The fields of the metadata that describe a directory agree with its entries and
  strings, and every entry names a string.
\<close>

definition wf_dir :: "file_meta \<Rightarrow> file_entry list \<Rightarrow> buf \<Rightarrow> bool" where
  "wf_dir m es pool \<longleftrightarrow> unat (fm_strbase m) = 16 * length es \<and> unat (fm_strlen m) = length pool
     \<and> unat (fm_flen m) = 64 + 16 * length es + length pool \<and> (\<forall>e\<in>set es. named pool e)"

lemma cstr_at_inside:
  assumes "cstr_at pool o' = Some s"
  shows "cstr_at (a @ pool @ c) (length a + o') = Some s" "cstr_at (pool @ c) o' = Some s"
proof -
  from assms have o: "o' < length pool" "0 \<in> set (drop o' pool)" and
    s: "s = takeWhile (\<lambda>x. x \<noteq> 0) (drop o' pool)" by (auto simp: cstr_at_def split: if_splits)
  have "takeWhile (\<lambda>x. x \<noteq> 0) (drop o' pool @ c) = s"
    using o(2) s by (simp add: takeWhile_append1 [where x = 0])
  with o show "cstr_at (a @ pool @ c) (length a + o') = Some s" "cstr_at (pool @ c) o' = Some s"
    by (auto simp: cstr_at_def)
qed

lemma named_append: "named pool e \<Longrightarrow> named (pool @ c) e \<and> ent_name (pool @ c) e = ent_name pool e"
  unfolding named_def ent_name_def by (metis cstr_at_inside(2) option.sel)

lemma find_loop_spec:
  assumes "length pre = p" and "64 + strbase = p + 16 * length es"
    and "\<forall>e\<in>set es. named pool e" and "0 \<notin> set name"
  shows "find_loop (pre @ enc_entries es @ pool @ rest) strbase p name
     = Some (map_option (\<lambda>i. p + 16 * i) (idx (\<lambda>e. ent_name pool e = name) es))"
  using assms
proof (induction es arbitrary: pre p)
  case Nil
  then show ?case by (subst find_loop.simps) simp
next
  case (Cons e es)
  let ?b = "pre @ enc_entries (e # es) @ pool @ rest"
  have g: "get_entry ?b p = Some e"
    using entry.get_enc_append [of pre e "enc_entries es @ pool @ rest"] Cons.prems(1) by simp
  obtain s where s: "cstr_at pool (unat (fe_name e)) = Some s"
    using Cons.prems(3) by (auto simp: named_def)
  have at: "64 + strbase + unat (fe_name e) = length (pre @ enc_entries (e # es)) + unat (fe_name e)"
    using Cons.prems(1,2) by simp
  have "cstr_at ?b (64 + strbase + unat (fe_name e)) = Some s"
    unfolding at using cstr_at_inside(1) [OF s, of "pre @ enc_entries (e # es)" rest]
    by (simp del: enc_entries_simps)
  then have cmp: "strcmp_at ?b (64 + strbase + unat (fe_name e)) name = Some (ent_name pool e = name)"
    using strcmp_at_cstr [OF _ Cons.prems(4)] s by (simp add: ent_name_def)
  have "find_loop ((pre @ enc_entry e) @ enc_entries es @ pool @ rest) strbase (p + 16) name
      = Some (map_option (\<lambda>i. p + 16 + 16 * i) (idx (\<lambda>e. ent_name pool e = name) es))"
    using Cons.prems by (intro Cons.IH) auto
  moreover have "p \<noteq> 64 + strbase" using Cons.prems(2) by simp
  moreover have "find_loop ?b strbase p name = (if p \<noteq> 64 + strbase then
        case get_entry ?b p of None \<Rightarrow> None
        | Some e \<Rightarrow> (case strcmp_at ?b (64 + strbase + unat (fe_name e)) name of
               None \<Rightarrow> None
             | Some True \<Rightarrow> Some (Some p)
             | Some False \<Rightarrow> find_loop ?b strbase (p + 16) name)
      else Some None)"
    by (rule find_loop.simps)
  ultimately show ?case
    unfolding g cmp option.case by (simp add: option.map_comp o_def add.assoc split: bool.split)
qed

lemma get_meta_enc_dir [simp]: "get_meta (enc_dir m es pool @ rest) 0 = Some m"
  by (simp add: enc_dir_def meta.get_enc_head)

lemma find_entry_by_name_dir:
  assumes "wf_dir m es pool" and "0 \<notin> set name"
  shows "find_entry_by_name (enc_dir m es pool @ rest) name
     = Some (map_option (\<lambda>i. 64 + 16 * i) (idx (\<lambda>e. ent_name pool e = name) es))"
  using assms find_loop_spec [of "enc_meta m" 64 "unat (fm_strbase m)" es pool name rest]
  by (simp add: find_entry_by_name_def wf_dir_def) (simp add: enc_dir_def)

lemma get_entry_enc_dir:
  assumes "i < length es"
  shows "get_entry (enc_dir m es pool @ rest) (64 + 16 * i) = Some (es ! i)"
proof -
  have "enc_dir m es pool @ rest = (enc_meta m @ enc_entries (take i es)) @ enc_entry (es ! i)
      @ (enc_entries (drop (Suc i) es) @ pool @ rest)"
    using id_take_nth_drop [OF assms] by (metis append.assoc enc_dir_def enc_entries_simps(2,3))
  then show ?thesis
    using entry.get_enc_append [of "enc_meta m @ enc_entries (take i es)" "es ! i"] assms by simp
qed

section \<open>Removing an entry\<close>

lemma do_remove_entry_dir:
  assumes wf: "wf_dir m es pool" and i: "i < length es" and E: "malloc_ok E"
    and rest: "16 \<le> length rest"
  shows "do_remove_entry E (enc_dir m es pool @ rest) (64 + 16 * i) =
    Some (0, enc_dir (m\<lparr>fm_strbase := fm_strbase m - 16, fm_w_time := now E, fm_flen := fm_flen m - 16\<rparr>)
      (take i es @ drop (Suc i) es) pool @ take 16 rest @ rest)"
proof -
  let ?b = "enc_dir m es pool @ rest" and ?off = "64 + 16 * i"
  let ?pre = "enc_meta m @ enc_entries (take i es)"
  let ?tl = "enc_entries (drop (Suc i) es) @ pool"
  have b: "?b = ?pre @ enc_entry (es ! i) @ ?tl @ rest"
    using id_take_nth_drop [OF i] by (metis append.assoc enc_dir_def enc_entries_simps(2,3))
  have lp: "length ?pre = ?off" using i by simp
  have ltl: "length ?tl = 16 * (length es - Suc i) + length pool" by simp
  have fl: "unat (fm_flen m) = ?off + 16 + length ?tl"
    using wf i by (simp add: wf_dir_def)
  have "unat (word_of_nat ?off :: u64_t) = ?off"
    using fl unat_lt_exp [of "fm_flen m"] by (intro unat_word_of_nat_fit) simp
  then have ts: "unat (fm_flen m - word_of_nat ?off) = 16 + length ?tl"
    using fl by (subst unat_sub_fit) simp_all
  obtain junk where "malloc E (unat (fm_flen m - word_of_nat ?off)) = Some junk"
    using E by (rule malloc_okE)
  moreover have "rd ?b (?off + 16) (16 + length ?tl) = Some (?tl @ take 16 rest)"
    using lp rest unfolding b by (simp add: rd_def)
  moreover have "wr ?b ?off (?tl @ take 16 rest) = Some (?pre @ ?tl @ take 16 rest @ rest)"
    using lp rest unfolding b by (simp add: wr_def min_def)
  moreover have "?pre @ ?tl @ take 16 rest @ rest
      = enc_meta m @ (enc_entries (take i es) @ ?tl @ take 16 rest @ rest)" by simp
  ultimately show ?thesis
    using ts by (simp add: do_remove_entry_def upd_meta_def meta.get_enc_head meta.put_enc_head enc_dir_def)
qed

lemma do_remove_entry_overread:
  assumes wf: "wf_dir m es pool" and i: "i < length es" and E: "malloc_ok E"
    and rest: "length rest < 16"
  shows "do_remove_entry E (enc_dir m es pool @ rest) (64 + 16 * i) = None"
proof -
  let ?off = "64 + 16 * i"
  have fl: "unat (fm_flen m) = ?off + 16 + (16 * (length es - Suc i) + length pool)"
    using wf i by (simp add: wf_dir_def)
  have "unat (word_of_nat ?off :: u64_t) = ?off"
    using fl unat_lt_exp [of "fm_flen m"] by (intro unat_word_of_nat_fit) simp
  then have "unat (fm_flen m - word_of_nat ?off) = 16 + (16 * (length es - Suc i) + length pool)"
    using fl by (subst unat_sub_fit) simp_all
  moreover obtain junk where "malloc E (unat (fm_flen m - word_of_nat ?off)) = Some junk"
    using E by (rule malloc_okE)
  moreover have "rd (enc_dir m es pool @ rest) (?off + 16)
      (16 + (16 * (length es - Suc i) + length pool)) = None"
    using i rest by (simp add: rd_None_iff)
  ultimately show ?thesis by (simp add: do_remove_entry_def)
qed

section \<open>Adding an entry\<close>

lemma add_slot_dir:
  assumes wf: "wf_dir m es pool" and len: "length buf = length (enc_dir m es pool) + 16 + k"
  shows "\<exists>e. add_slot buf (enc_dir m es pool @ rest) m ty =
    Some (enc_meta m @ enc_entries (es @ [e\<lparr>fe_name := fm_strlen m, fe_type := ty\<rparr>])
      @ drop (64 + 16 * length es + 16) buf)"
proof -
  let ?h = "enc_meta m @ enc_entries es"
  have "64 + 16 * length es < 2 ^ 64"
    using wf unat_lt_exp [of "fm_flen m"] by (simp add: wf_dir_def)
  then have sz: "unat (szof_meta + fm_strbase m) = length ?h"
    using wf by (subst unat_add_fit) (simp_all add: wf_dir_def)
  have rd: "rd (enc_dir m es pool @ rest) 0 (length ?h) = Some ?h"
    by (simp add: rd_def enc_dir_def)
  have wr: "wr buf 0 ?h = Some (?h @ drop (length ?h) buf)"
    using len by (simp add: wr_def)
  have "length (take 16 (drop (length ?h) buf)) = 16" using len by simp
  then obtain e where e: "take 16 (drop (length ?h) buf) = enc_entry e"
    using entry.decode_ex by blast
  have split: "?h @ drop (length ?h) buf = ?h @ enc_entry e @ drop (length ?h + 16) buf"
    using e by (metis append_take_drop_id drop_drop add.commute)
  have at: "64 + unat (fm_strbase m) = length ?h" using wf by (simp add: wf_dir_def)
  have "add_slot buf (enc_dir m es pool @ rest) m ty =
    Some (?h @ enc_entry (e\<lparr>fe_name := fm_strlen m, fe_type := ty\<rparr>) @ drop (length ?h + 16) buf)"
    unfolding add_slot_def sz at rd Option.bind.bind_lunit wr split
      entry.get_enc_append entry.put_enc_append by simp
  then show ?thesis by (intro exI [of _ e]) simp
qed

lemma add_name_dir:
  assumes wf: "wf_dir m es pool" and len: "length tail = length pool + length nm + 1"
    and fit: "unat (fm_flen m) + 16 < 2 ^ 64"
  shows "add_name (enc_meta m @ enc_entries (es @ [e]) @ tail) (enc_dir m es pool @ rest) m nm =
    Some (enc_dir (m\<lparr>fm_strbase := fm_strbase m + 16\<rparr>) (es @ [e]) (pool @ nm @ [0]))"
proof -
  let ?m = "m\<lparr>fm_strbase := fm_strbase m + 16\<rparr>"
  let ?h = "enc_meta ?m @ enc_entries (es @ [e])"
  have sb: "unat (fm_strbase m + 16) = 16 * length es + 16"
    using wf fit by (subst unat_add_fit) (simp_all add: wf_dir_def)
  have lh: "64 + unat (fm_strbase ?m) = length ?h" using sb by simp
  have rd: "rd (enc_dir m es pool @ rest) (64 + unat (fm_strbase m)) (unat (fm_strlen m)) = Some pool"
    using wf by (simp add: rd_def enc_dir_def wf_dir_def)
  have w1: "wr (?h @ tail) (length ?h) pool = Some (?h @ pool @ drop (length pool) tail)"
    using len by (simp add: wr_def)
  have w2: "wr (?h @ pool @ drop (length pool) tail) (length ?h + length pool) (nm @ [0])
     = Some (?h @ pool @ nm @ [0])"
    using len by (simp add: wr_def)
  show ?thesis
    using rd w1 w2 lh wf
    by (simp add: add_name_def upd_meta_def meta.get_enc_head meta.put_enc_head enc_dir_def wf_dir_def)
qed

lemma wf_dir_extended:
  assumes wf: "wf_dir m es pool" and nm: "0 \<notin> set nm"
    and fit: "unat (fm_flen m) + 16 + length nm + 1 < 2 ^ 64"
    and e: "fe_name e = fm_strlen m"
    and m': "fm_strbase m' = fm_strbase m + 16"
      "fm_strlen m' = fm_strlen m + (word_of_nat (length nm) + 1)"
      "unat (fm_flen m') = unat (fm_flen m) + 16 + length nm + 1"
  shows "wf_dir m' (es @ [e]) (pool @ nm @ [0])"
    "map (ent_name (pool @ nm @ [0])) (es @ [e]) = map (ent_name pool) es @ [nm]"
proof -
  have sb: "unat (fm_strbase m + 16) = 16 * length es + 16"
    using wf fit by (subst unat_add_fit) (simp_all add: wf_dir_def)
  have l: "unat (word_of_nat (length nm) :: u64_t) = length nm"
    using fit by (intro unat_word_of_nat_fit) simp
  then have l1: "unat (word_of_nat (length nm) + 1 :: u64_t) = length nm + 1"
    using fit by (subst unat_add_fit) simp_all
  then have sl: "unat (fm_strlen m + (word_of_nat (length nm) + 1)) = length pool + length nm + 1"
    using wf fit by (subst unat_add_fit) (simp_all add: wf_dir_def)
  have "cstr_at (pool @ nm @ [0]) (length pool) = Some nm"
    using nm by (rule cstr_at_append [of nm pool "[]", simplified])
  then have new: "named (pool @ nm @ [0]) e" "ent_name (pool @ nm @ [0]) e = nm"
    using e wf by (auto simp: named_def ent_name_def wf_dir_def)
  have old: "named (pool @ nm @ [0]) x" "ent_name (pool @ nm @ [0]) x = ent_name pool x"
    if "x \<in> set es" for x
    using that wf named_append [of pool x] by (auto simp: wf_dir_def)
  show "wf_dir m' (es @ [e]) (pool @ nm @ [0])"
    using wf sb sl m' new(1) old(1) by (auto simp: wf_dir_def)
  show "map (ent_name (pool @ nm @ [0])) (es @ [e]) = map (ent_name pool) es @ [nm]"
    using new(2) old(2) by simp
qed

definition grown_meta :: "file_meta \<Rightarrow> u64_t \<Rightarrow> buf \<Rightarrow> u32_t \<Rightarrow> u32_t \<Rightarrow> file_meta" where
  "grown_meta m newsize nm bytsPerSec links = m\<lparr>fm_strbase := fm_strbase m + 16,
     fm_strlen := fm_strlen m + (word_of_nat (length nm) + 1), fm_flen := newsize,
     fm_blocks := ucast ((newsize + ucast bytsPerSec - 1) div ucast bytsPerSec),
     fm_count := fm_count m + links\<rparr>"

lemma link_entry_dir:
  assumes wf: "wf_dir m es pool" and len: "length buf = length (enc_dir m es pool) + 16 + length nm + 1"
    and nm: "0 \<notin> set nm" and fit: "unat newsize = unat (fm_flen m) + 16 + length nm + 1"
    and B: "B \<noteq> 0"
  shows "\<exists>e. do { b \<leftarrow> add_slot buf (enc_dir m es pool @ rest) m ty;
      link_entry b (enc_dir m es pool @ rest) m nm (Some f) newsize B links }
        = Some (enc_dir (grown_meta m newsize nm B links) (es @ [e]) (pool @ nm @ [0]))
     \<and> fe_name e = fm_strlen m \<and> fe_fb e = f \<and> fe_type e = ty"
proof -
  let ?d = "enc_dir m es pool @ rest" and ?h = "enc_meta m @ enc_entries es"
  have fit': "unat (fm_flen m) + 16 < 2 ^ 64" using fit unat_lt_exp [of newsize] by simp
  obtain e0 where s: "add_slot buf ?d m ty = Some (?h @ enc_entry
      (e0\<lparr>fe_name := fm_strlen m, fe_type := ty\<rparr>) @ drop (64 + 16 * length es + 16) buf)"
    using add_slot_dir [OF wf, of buf "length nm + 1" rest ty] len by auto
  define e where "e = e0\<lparr>fe_name := fm_strlen m, fe_type := ty, fe_fb := f\<rparr>"
  define tl where "tl = drop (64 + 16 * length es + 16) buf"
  have at: "64 + unat (fm_strbase m) = length ?h" using wf by (simp add: wf_dir_def)
  have fb: "set_fb (?h @ enc_entry (e0\<lparr>fe_name := fm_strlen m, fe_type := ty\<rparr>) @ tl)
      (64 + unat (fm_strbase m)) (Some f) = Some (enc_meta m @ enc_entries (es @ [e]) @ tl)"
    unfolding set_fb_def at option.case entry.get_enc_append Option.bind.bind_lunit
      entry.put_enc_append by (simp add: e_def)
  have "length tl = length pool + length nm + 1" using len by (simp add: tl_def)
  from add_name_dir [OF wf this fit', of e rest] have n: "add_name (enc_meta m @ enc_entries (es @ [e]) @ tl) ?d m nm =
    Some (enc_dir (m\<lparr>fm_strbase := fm_strbase m + 16\<rparr>) (es @ [e]) (pool @ nm @ [0]))" .
  show ?thesis
    unfolding s Option.bind.bind_lunit link_entry_def if_not_P [OF B] fb [unfolded tl_def] n [unfolded tl_def]
    by (intro exI [of _ e])
       (simp add: upd_meta_def enc_dir_def meta.get_enc_head meta.put_enc_head grown_meta_def e_def)
qed

section \<open>Directories as name tables\<close>

text \<open>
  What the operations on paths rely on: a table of names that finds what was inserted and
  nothing else. \<open>fits\<close> is the room an insertion needs, \<open>slack\<close> what a deletion needs.
\<close>

locale name_table =
  fixes find :: "'d \<Rightarrow> 'n \<Rightarrow> 'e option"
    and ins :: "'d \<Rightarrow> 'n \<Rightarrow> 'e \<Rightarrow> 'd option"
    and del :: "'d \<Rightarrow> 'n \<Rightarrow> 'd option"
    and ok :: "'d \<Rightarrow> bool" and fits :: "'d \<Rightarrow> 'n \<Rightarrow> bool" and slack :: "'d \<Rightarrow> bool"
  assumes ins_law: "ok d \<Longrightarrow> fits d n \<Longrightarrow> find d n = None \<Longrightarrow>
      \<exists>d'. ins d n e = Some d' \<and> ok d' \<and> find d' = (find d)(n \<mapsto> e)"
    and del_law: "ok d \<Longrightarrow> slack d \<Longrightarrow> find d n \<noteq> None \<Longrightarrow>
      \<exists>d'. del d n = Some d' \<and> ok d' \<and> find d' = (find d)(n := None)"
begin

lemma ins_del:
  assumes "ok d" and "fits d n" and "find d n = None"
  shows "\<exists>d1. ins d n e = Some d1 \<and> find d1 n = Some e
     \<and> (slack d1 \<longrightarrow> (\<exists>d2. del d1 n = Some d2 \<and> ok d2 \<and> find d2 = find d))"
proof -
  from ins_law [OF assms, of e] obtain d1 where
    1: "ins d n e = Some d1" "ok d1" "find d1 = (find d)(n \<mapsto> e)" by blast
  then have "find d1 n \<noteq> None" by simp
  with 1 assms(3) show ?thesis using del_law [of d1 n] by (auto simp: fun_upd_idem)
qed

lemma rename:
  assumes "ok d" and "slack d" and "find d a = Some e" and "find d b = None"
    and "\<And>d1. del d a = Some d1 \<Longrightarrow> fits d1 b"
  shows "\<exists>d1 d2. del d a = Some d1 \<and> ins d1 b e = Some d2 \<and> ok d2
     \<and> find d2 = (find d)(a := None, b \<mapsto> e)"
proof -
  from del_law [OF assms(1,2), of a] assms(3) obtain d1 where
    1: "del d a = Some d1" "ok d1" "find d1 = (find d)(a := None)" by auto
  moreover have "find d1 b = None" using 1(3) assms(4) by simp
  ultimately show ?thesis using ins_law [of d1 b e] assms(5) by auto
qed

end

definition dir_lookup :: "buf \<Rightarrow> buf \<Rightarrow> (u32_t \<times> u8_t) option" where
  "dir_lookup b n = (if 0 \<in> set n then None else
     case find_entry_by_name b n of
       Some (Some off) \<Rightarrow> map_option (\<lambda>e. (fe_fb e, fe_type e)) (get_entry b off)
     | _ \<Rightarrow> None)"

text \<open>The directory as the next operation reads it back: padded to whole sectors.\<close>

definition dir_insert :: "buf \<Rightarrow> buf \<Rightarrow> u32_t \<times> u8_t \<Rightarrow> buf option" where
  "dir_insert b n e = do {
     m \<leftarrow> get_meta b 0;
     let newsize = fm_flen m + 16 + word_of_nat (length n) + 1;
     buf \<leftarrow> add_slot (replicate (unat newsize) 0) b m (snd e);
     b' \<leftarrow> link_entry buf b m n (Some (fst e)) newsize BYTSPERSEC 0;
     Some (b' @ replicate ((512 - length b' mod 512) mod 512) 0)
   }"

definition dir_delete :: "env \<Rightarrow> buf \<Rightarrow> buf \<Rightarrow> buf option" where
  "dir_delete E b n = do {
     p \<leftarrow> find_entry_by_name b n;
     off \<leftarrow> p;
     map_option snd (do_remove_entry E b off)
   }"

definition names :: "buf \<Rightarrow> file_entry list \<Rightarrow> (buf \<times> (u32_t \<times> u8_t)) list" where
  "names pool es = map (\<lambda>e. (ent_name pool e, (fe_fb e, fe_type e))) es"

definition dir_ok :: "buf \<Rightarrow> bool" where
  "dir_ok b \<longleftrightarrow> (\<exists>m es pool rest. b = enc_dir m es pool @ rest \<and> wf_dir m es pool
     \<and> distinct (map fst (names pool es)))"

definition dir_fits :: "buf \<Rightarrow> buf \<Rightarrow> bool" where
  "dir_fits b n \<longleftrightarrow> 0 \<notin> set n
     \<and> (\<exists>m. get_meta b 0 = Some m \<and> unat (fm_flen m) + 17 + length n < 2 ^ 64)"

definition dir_slack :: "env \<Rightarrow> buf \<Rightarrow> bool" where
  "dir_slack E b \<longleftrightarrow> malloc_ok E \<and> (\<exists>m. get_meta b 0 = Some m \<and> unat (fm_flen m) + 16 \<le> length b)"

lemma ent_name_no_nul: "named pool e \<Longrightarrow> 0 \<notin> set (ent_name pool e)"
  by (auto simp: named_def ent_name_def cstr_at_def dest: set_takeWhileD split: if_splits)

lemma map_of_idx: "map_of (map (\<lambda>e. (f e, g e)) es) n
    = map_option (\<lambda>i. g (es ! i)) (idx (\<lambda>e. f e = n) es)"
  by (induction es) (auto simp: option.map_comp o_def)

lemma dir_lookup_names:
  assumes "wf_dir m es pool"
  shows "dir_lookup (enc_dir m es pool @ rest) n = map_of (names pool es) n"
proof (cases "0 \<in> set n")
  case True
  have "n \<notin> fst ` set (names pool es)"
    using True assms ent_name_no_nul by (force simp: names_def wf_dir_def)
  then have "map_of (names pool es) n = None" by (simp add: map_of_eq_None_iff)
  with True show ?thesis by (simp add: dir_lookup_def)
next
  case False
  show ?thesis
  proof (cases "idx (\<lambda>e. ent_name pool e = n) es")
    case None
    with False show ?thesis
      by (simp add: dir_lookup_def find_entry_by_name_dir [OF assms] names_def map_of_idx)
  next
    case (Some i)
    with False idx_Some [OF Some] show ?thesis
      by (simp add: dir_lookup_def find_entry_by_name_dir [OF assms] names_def map_of_idx
            get_entry_enc_dir)
  qed
qed

lemma map_of_remove_nth:
  "distinct (map fst xs) \<Longrightarrow> i < length xs \<Longrightarrow>
     map_of (take i xs @ drop (Suc i) xs) = (map_of xs)(fst (xs ! i) := None)"
proof (induction xs arbitrary: i)
  case (Cons x xs)
  show ?case
  proof (cases i)
    case 0
    with Cons.prems show ?thesis
      by (cases x) (auto simp: fun_eq_iff map_of_eq_None_iff)
  next
    case (Suc j)
    with Cons.prems have "fst x \<noteq> fst (xs ! j)" by (auto dest: nth_mem)
    with Suc Cons show ?thesis by (cases x) (auto simp: fun_upd_twist)
  qed
qed simp

lemma names_append [simp]: "names pool (es @ es') = names pool es @ names pool es'"
  and names_nth: "i < length es \<Longrightarrow> names pool es ! i
      = (ent_name pool (es ! i), (fe_fb (es ! i), fe_type (es ! i)))"
  and length_names [simp]: "length (names pool es) = length es"
  and names_take: "take i (names pool es) = names pool (take i es)"
  and names_drop: "drop i (names pool es) = names pool (drop i es)"
  by (simp_all add: names_def take_map drop_map)

lemma dir_insert_law:
  assumes "dir_ok b" and "dir_fits b n" and "dir_lookup b n = None"
  shows "\<exists>b'. dir_insert b n e = Some b' \<and> dir_ok b' \<and> dir_lookup b' = (dir_lookup b)(n \<mapsto> e)"
proof -
  from assms(1) obtain m es pool rest where b: "b = enc_dir m es pool @ rest"
    and wf: "wf_dir m es pool" and d: "distinct (map fst (names pool es))"
    by (auto simp: dir_ok_def)
  have m: "get_meta b 0 = Some m" by (simp add: b)
  with assms(2) have nz: "0 \<notin> set n" and fit: "unat (fm_flen m) + 17 + length n < 2 ^ 64"
    by (auto simp: dir_fits_def)
  define ns where "ns = fm_flen m + 16 + word_of_nat (length n) + 1"
  have "unat (word_of_nat (length n) :: u64_t) = length n" using fit by (intro unat_word_of_nat_fit) simp
  moreover have "unat (fm_flen m + 16) = unat (fm_flen m) + 16" using fit by (subst unat_add_fit) simp_all
  ultimately have "unat (fm_flen m + 16 + word_of_nat (length n)) = unat (fm_flen m) + 16 + length n"
    using fit by (subst unat_add_fit) simp_all
  then have ns: "unat ns = unat (fm_flen m) + 16 + length n + 1"
    using fit unfolding ns_def by (subst unat_add_fit) simp_all
  have B: "BYTSPERSEC \<noteq> 0" by (simp add: BYTSPERSEC_def)
  have len: "length (replicate (unat ns) (0::8 word)) = length (enc_dir m es pool) + 16 + length n + 1"
    using ns wf by (simp add: wf_dir_def)
  let ?m = "grown_meta m ns n BYTSPERSEC 0"
  from link_entry_dir [OF wf len nz ns B, of rest "snd e" "fst e" 0] obtain x buf where
    x: "add_slot (replicate (unat ns) 0) b m (snd e) = Some buf"
    "link_entry buf b m n (Some (fst e)) ns BYTSPERSEC 0
      = Some (enc_dir ?m (es @ [x]) (pool @ n @ [0]))"
    "fe_name x = fm_strlen m" "fe_fb x = fst e" "fe_type x = snd e"
    unfolding b by (auto simp: bind_eq_Some_conv)
  obtain r where r: "dir_insert b n e = Some (enc_dir ?m (es @ [x]) (pool @ n @ [0]) @ r)"
    unfolding dir_insert_def m Let_def Option.bind.bind_lunit ns_def [symmetric] x(1,2) by blast
  have wf': "wf_dir ?m (es @ [x]) (pool @ n @ [0])"
    and nm: "map (ent_name (pool @ n @ [0])) (es @ [x]) = map (ent_name pool) es @ [n]"
    using wf_dir_extended [OF wf nz _ x(3), of ?m] ns fit by (simp_all add: grown_meta_def)
  have names': "names (pool @ n @ [0]) (es @ [x]) = names pool es @ [(n, e)]"
    using nm x(4,5) by (auto simp: names_def)
  have look: "dir_lookup b k = map_of (names pool es) k" for k
    unfolding b by (rule dir_lookup_names [OF wf])
  have "n \<notin> fst ` set (names pool es)"
    using assms(3) by (simp add: look map_of_eq_None_iff)
  then have "distinct (map fst (names (pool @ n @ [0]) (es @ [x])))"
    unfolding names' using d by simp
  with wf' have "dir_ok (enc_dir ?m (es @ [x]) (pool @ n @ [0]) @ r)"
    unfolding dir_ok_def by blast
  moreover have "dir_lookup (enc_dir ?m (es @ [x]) (pool @ n @ [0]) @ r) k = ((dir_lookup b)(n \<mapsto> e)) k" for k
    unfolding dir_lookup_names [OF wf'] names'
    using assms(3) by (auto simp: look map_add_def split: option.split)
  ultimately show ?thesis using r by (intro exI conjI ext) auto
qed

lemma wf_dir_removed:
  assumes "wf_dir m es pool" and "i < length es"
  shows "wf_dir (m\<lparr>fm_strbase := fm_strbase m - 16, fm_w_time := t, fm_flen := fm_flen m - 16\<rparr>)
    (take i es @ drop (Suc i) es) pool"
proof -
  have l: "16 * length es = 16 + 16 * (length es - 1)" "1 \<le> length es" using assms(2) by simp_all
  have "unat (fm_strbase m - 16) = 16 * (length es - 1)" "unat (fm_flen m - 16) = unat (fm_flen m) - 16"
    using assms(1) l by (auto simp: wf_dir_def unat_sub_fit)
  with assms l(2) show ?thesis
    by (auto simp: wf_dir_def dest: in_set_takeD in_set_dropD)
qed

lemma dir_delete_law:
  assumes "dir_ok b" and "dir_slack E b" and "dir_lookup b n \<noteq> None"
  shows "\<exists>b'. dir_delete E b n = Some b' \<and> dir_ok b' \<and> dir_lookup b' = (dir_lookup b)(n := None)"
proof -
  from assms(1) obtain m es pool rest where b: "b = enc_dir m es pool @ rest"
    and wf: "wf_dir m es pool" and d: "distinct (map fst (names pool es))"
    by (auto simp: dir_ok_def)
  have E: "malloc_ok E" using assms(2) by (simp add: dir_slack_def)
  have rest: "16 \<le> length rest"
    using assms(2) wf by (auto simp: dir_slack_def b wf_dir_def)
  have nz: "0 \<notin> set n" using assms(3) by (auto simp: dir_lookup_def)
  from assms(3) obtain i where i: "idx (\<lambda>e. ent_name pool e = n) es = Some i"
    unfolding b dir_lookup_names [OF wf] by (auto simp: names_def map_of_idx)
  from idx_Some [OF i] have il: "i < length es" "ent_name pool (es ! i) = n" by auto
  let ?m = "m\<lparr>fm_strbase := fm_strbase m - 16, fm_w_time := now E, fm_flen := fm_flen m - 16\<rparr>"
  let ?es = "take i es @ drop (Suc i) es"
  let ?b = "enc_dir ?m ?es pool @ take 16 rest @ rest"
  have del: "dir_delete E b n = Some ?b"
    unfolding b dir_delete_def find_entry_by_name_dir [OF wf nz] i
    by (simp add: do_remove_entry_dir [OF wf il(1) E rest])
  have wf': "wf_dir ?m ?es pool" using wf il(1) by (rule wf_dir_removed)
  have nm: "names pool ?es = take i (names pool es) @ drop (Suc i) (names pool es)"
    by (simp add: names_take names_drop)
  have "distinct (map fst (names pool ?es))"
    using distinct_take [OF d, of i] distinct_drop [OF d, of "Suc i"]
      set_take_disj_set_drop_if_distinct [OF d, of i "Suc i"]
    unfolding nm by (simp add: take_map [symmetric] drop_map [symmetric] del: set_map)
  with wf' have "dir_ok ?b" unfolding dir_ok_def by blast
  moreover have "dir_lookup ?b k = (if k = n then None else dir_lookup b k)" for k
    unfolding dir_lookup_names [OF wf'] nm map_of_remove_nth [OF d, simplified length_names, OF il(1)]
    using il by (simp add: b dir_lookup_names [OF wf] names_nth)
  ultimately show ?thesis using del by (auto simp: fun_eq_iff)
qed

interpretation dir: name_table dir_lookup dir_insert "dir_delete E" dir_ok dir_fits "dir_slack E" for E
  using dir_insert_law dir_delete_law by unfold_locales blast+

section \<open>Properties\<close>

text \<open>A directory with the entries \<open>.\<close>, \<open>..\<close> and \<open>a\<close>, for the witnesses below.\<close>

definition sample_meta :: file_meta where
  "sample_meta = mini_meta\<lparr>fm_flen := 119, fm_strbase := 48, fm_strlen := 7\<rparr>"

definition sample_entries :: "file_entry list" where
  "sample_entries =
    [\<lparr>fe_name = 0, fe_fb = 1, fe_type = S_DIR, fe_reserve = 0\<rparr>,
     \<lparr>fe_name = 2, fe_fb = 1, fe_type = S_DIR, fe_reserve = 0\<rparr>,
     \<lparr>fe_name = 5, fe_fb = 2, fe_type = S_FIL, fe_reserve = 0\<rparr>]"

definition sample_pool :: buf where "sample_pool = [46, 0, 46, 46, 0, 97, 0]"

lemma sample_wf: "wf_dir sample_meta sample_entries sample_pool"
  by (auto simp: wf_dir_def sample_meta_def mini_meta_def sample_entries_def sample_pool_def
      named_def cstr_at_def)

lemma sample_names: "map (ent_name sample_pool) sample_entries = [[46], [46, 46], [97]]"
  by (simp add: sample_entries_def sample_pool_def ent_name_def cstr_at_def)

text \<open>
  C25. Removing an entry: \<open>do_remove_entry\<close> on the \<open>i\<close>-th entry of a well-formed directory
  gives the well-formed directory without that entry, with the same names otherwise --
  provided that at least 16 bytes follow the directory in its buffer. With fewer, its
  first \<open>memcpy\<close> reads past the end of the buffer.
\<close>
theorem do_remove_entry_refines:
  assumes "wf_dir m es pool" and "i < length es" and "malloc_ok E"
  shows "(16 \<le> length rest \<longrightarrow> (\<exists>m'. do_remove_entry E (enc_dir m es pool @ rest) (64 + 16 * i) =
        Some (0, enc_dir m' (take i es @ drop (Suc i) es) pool @ take 16 rest @ rest)
      \<and> wf_dir m' (take i es @ drop (Suc i) es) pool \<and> fm_w_time m' = now E))
    \<and> (length rest < 16 \<longrightarrow>
      do_remove_entry E (enc_dir m es pool @ rest) (64 + 16 * i) = None)"
  using do_remove_entry_dir [OF assms, of rest] do_remove_entry_overread [OF assms, of rest]
    wf_dir_removed [OF assms(1,2), of "now E"] by auto

theorem do_remove_entry_refines_witness:
  "(\<exists>b. do_remove_entry calm_env (enc_dir sample_meta sample_entries sample_pool @ replicate 16 0) 96
      = Some (0, b))
   \<and> do_remove_entry calm_env (enc_dir sample_meta sample_entries sample_pool @ replicate 9 0) 96 = None"
  using do_remove_entry_refines [OF sample_wf _ calm_env_ok, of 2 "replicate 16 0"]
    do_remove_entry_refines [OF sample_wf _ calm_env_ok, of 2 "replicate 9 0"]
  by (auto simp: sample_entries_def)

text \<open>
  C24. Linking an entry: what \<open>c_open\<close> and \<open>c_mkdir\<close> build in the new buffer -- for any
  contents it happens to have -- is the well-formed directory with one more entry, of
  the given type and first sector, under the new name, behind the old entries, whose
  names are unchanged.
\<close>
theorem link_entry_refines:
  assumes "wf_dir m es pool" and "0 \<notin> set nm" and "B \<noteq> 0"
    and "length buf = length (enc_dir m es pool) + 16 + length nm + 1"
    and "unat newsize = unat (fm_flen m) + 16 + length nm + 1"
  shows "\<exists>b m' e. add_slot buf (enc_dir m es pool @ rest) m ty = Some b
     \<and> link_entry b (enc_dir m es pool @ rest) m nm (Some f) newsize B links
         = Some (enc_dir m' (es @ [e]) (pool @ nm @ [0]))
     \<and> fe_fb e = f \<and> fe_type e = ty \<and> wf_dir m' (es @ [e]) (pool @ nm @ [0])
     \<and> fm_count m' = fm_count m + links
     \<and> map (ent_name (pool @ nm @ [0])) (es @ [e]) = map (ent_name pool) es @ [nm]"
proof -
  let ?m = "grown_meta m newsize nm B links"
  from link_entry_dir [OF assms(1,4,2,5,3), of rest ty f links] obtain e b where
    e: "add_slot buf (enc_dir m es pool @ rest) m ty = Some b"
    "link_entry b (enc_dir m es pool @ rest) m nm (Some f) newsize B links
         = Some (enc_dir ?m (es @ [e]) (pool @ nm @ [0]))"
    "fe_name e = fm_strlen m" "fe_fb e = f" "fe_type e = ty"
    by (auto simp: bind_eq_Some_conv)
  have "unat (fm_flen m) + 16 + length nm + 1 < 2 ^ 64"
    using assms(5) unat_lt_exp [of newsize] by simp
  from wf_dir_extended [OF assms(1,2) this e(3), of ?m] assms(5) e show ?thesis
    by (intro exI [of _ b] exI [of _ ?m] exI [of _ e]) (simp add: grown_meta_def)
qed

theorem link_entry_refines_witness:
  "\<exists>b m' e. add_slot (replicate 137 0) (enc_dir sample_meta sample_entries sample_pool) sample_meta S_FIL = Some b
     \<and> link_entry b (enc_dir sample_meta sample_entries sample_pool) sample_meta [98] (Some 3) 137 512 0
         = Some (enc_dir m' (sample_entries @ [e]) (sample_pool @ [98, 0])) \<and> fe_fb e = 3"
  using link_entry_refines [OF sample_wf, of "[98]" 512 "replicate 137 0" 137 "[]" S_FIL 3 0]
  by (fastforce simp: sample_entries_def sample_pool_def sample_meta_def mini_meta_def)

end
