(* ===== verification/CfsPath.thy ===== *)
theory CfsPath
  imports CfsDirSpec
begin

text \<open>
  Directories on the disk and path resolution: \<open>dir_at\<close> says which directory the chain of
  sectors from a first sector holds, \<open>resolves\<close> is the walk along the components of a path
  over such directories, and \<open>c_find_entry\<close> and \<open>c_lookup\<close> compute that walk.
\<close>

unbundle bit_operations_syntax

section \<open>Directories on the disk and paths\<close>

definition dir_at :: "dtree \<Rightarrow> u32_t \<Rightarrow> file_meta \<Rightarrow> file_entry list \<Rightarrow> buf \<Rightarrow> bool" where
  "dir_at dt fb m es pool \<longleftrightarrow> (\<exists>xs rest. file_at dt fb xs \<and> unat (fm_blocks m) = length xs
     \<and> content dt xs = enc_dir m es pool @ rest \<and> wf_dir m es pool)"

lemma file_at_fit:
  assumes "wf_geom dt" and "file_at dt fb xs" shows "length xs * secsz dt < 4294967296"
proof -
  from assms(2) have "distinct xs" "set xs \<subseteq> {..<nsec dt}"
    using chain_distinct by (auto simp: file_at_def)
  then have "length xs \<le> nsec dt"
    by (metis card_mono distinct_card finite_lessThan card_lessThan)
  then have "length xs * secsz dt \<le> length (data dt)"
    using wf_geomD(5) [OF assms(1)] by simp
  with wf_geomD(6) [OF assms(1)] show ?thesis by linarith
qed

lemma file_head:
  assumes wf: "wf_geom dt" and fl: "file_at dt fb xs" and c: "content dt xs = a @ b" "length a = 64"
  shows "rd (data dt) (unat (fb * bps dt)) 64 = Some a"
proof -
  from fl have fb: "unat fb < nsec dt" and xs: "xs = unat fb # tl xs"
    by (cases xs; auto simp: file_at_def)+
  note off = sector_offset [OF wf fb]
  have s: "sector dt (unat fb) @ content dt (tl xs) = a @ b" using c(1) by (subst (asm) xs) simp
  have "length (sector dt (unat fb)) = secsz dt" "64 \<le> secsz dt"
    using length_sector [OF wf fb] wf_geomD(1) [OF wf] .
  with arg_cong [OF s, of "take 64"] c(2) have "take 64 (sector dt (unat fb)) = a" by simp
  then have "take 64 (drop (unat fb * secsz dt) (data dt)) = a"
    using \<open>64 \<le> secsz dt\<close> by (simp add: sector_def min_def)
  with off \<open>64 \<le> secsz dt\<close> show ?thesis by (simp add: rd_def)
qed

lemma file_read_meta:
  assumes "wf_geom dt" and "file_at dt fb xs" and "content dt xs = enc_meta m @ b"
  shows "read_meta dt fb = Some m"
  using file_head [OF assms] by (simp add: read_meta_def get_at_def)

lemma dir_at_reads:
  assumes wf: "wf_geom dt" and d: "dir_at dt fb m es pool"
  shows "read_meta dt fb = Some m"
    and "length b = unat (fm_blocks m * bps dt) \<Longrightarrow>
      \<exists>rest. do_readfile dt fb b = Some (enc_dir m es pool @ rest)"
proof -
  from d obtain xs rest where f: "file_at dt fb xs" "unat (fm_blocks m) = length xs"
    "content dt xs = enc_dir m es pool @ rest" "wf_dir m es pool" by (auto simp: dir_at_def)
  show "read_meta dt fb = Some m"
    using file_read_meta [OF wf f(1), of m] f(3) by (simp add: enc_dir_def)
  note fit = file_at_fit [OF wf f(1)]
  assume "length b = unat (fm_blocks m * bps dt)"
  then have "length b = length xs * secsz dt" using fit f(2) by (simp add: unat_mult_fit)
  with do_readfile_file [OF wf f(1), of b] fit f(3) show "\<exists>rest. do_readfile dt fb b = Some (enc_dir m es pool @ rest)"
    by auto
qed

text \<open>The first entry with a name, as the search finds it.\<close>

definition ent_of :: "buf \<Rightarrow> file_entry list \<Rightarrow> buf \<Rightarrow> file_entry option" where
  "ent_of pool es n = find (\<lambda>e. ent_name pool e = n) es"

lemma ent_of_idx: "ent_of pool es n = map_option ((!) es) (idx (\<lambda>e. ent_name pool e = n) es)"
  unfolding ent_of_def by (induction es) (auto simp: option.map_comp o_def)

lemma find_entry_by_name_ent:
  assumes "wf_dir m es pool" and "0 \<notin> set n"
  shows "ent_of pool es n = None \<Longrightarrow> find_entry_by_name (enc_dir m es pool @ rest) n = Some None"
    and "ent_of pool es n = Some e \<Longrightarrow> \<exists>i<length es. es ! i = e \<and> ent_name pool e = n
      \<and> find_entry_by_name (enc_dir m es pool @ rest) n = Some (Some (64 + 16 * i))
      \<and> get_entry (enc_dir m es pool @ rest) (64 + 16 * i) = Some e"
proof -
  note f = find_entry_by_name_dir [OF assms, of rest]
  show "ent_of pool es n = None \<Longrightarrow> find_entry_by_name (enc_dir m es pool @ rest) n = Some None"
    using f by (simp add: ent_of_idx)
  assume "ent_of pool es n = Some e"
  then obtain i where i: "idx (\<lambda>e. ent_name pool e = n) es = Some i" "es ! i = e"
    by (auto simp: ent_of_idx)
  from idx_Some [OF i(1)] have "i < length es" "ent_name pool e = n" using i(2) by auto
  with f i get_entry_enc_dir [of i es m pool rest] show "\<exists>i<length es. es ! i = e \<and> ent_name pool e = n
      \<and> find_entry_by_name (enc_dir m es pool @ rest) n = Some (Some (64 + 16 * i))
      \<and> get_entry (enc_dir m es pool @ rest) (64 + 16 * i) = Some e"
    by (intro exI [of _ i]) simp
qed

text \<open>Path components, and the walk along them over the directories of the disk.\<close>

function components :: "buf \<Rightarrow> buf list" where
  "components p = (case dropWhile (\<lambda>c. c \<noteq> SLASH) p of
      [] \<Rightarrow> [p]
    | _ # r \<Rightarrow> takeWhile (\<lambda>c. c \<noteq> SLASH) p # components r)"
  by pat_completeness auto
termination
proof (relation "measure length", goal_cases)
  case (2 p x r)
  then show ?case using length_dropWhile_le [of "\<lambda>c. c \<noteq> SLASH" p] by simp
qed simp

declare components.simps [simp del]

inductive resolves :: "dtree \<Rightarrow> file_entry \<Rightarrow> buf list \<Rightarrow> int + file_entry \<Rightarrow> bool" for dt where
  missing: "dir_at dt (fe_fb b) m es pool \<Longrightarrow> ent_of pool es n = None \<Longrightarrow>
     resolves dt b (n # ns) (Inl 1)"
| found: "dir_at dt (fe_fb b) m es pool \<Longrightarrow> ent_of pool es n = Some e \<Longrightarrow>
     resolves dt b [n] (Inr e)"
| not_dir: "dir_at dt (fe_fb b) m es pool \<Longrightarrow> ent_of pool es n = Some e \<Longrightarrow> fe_type e \<noteq> S_DIR \<Longrightarrow>
     ns \<noteq> [] \<Longrightarrow> resolves dt b (n # ns) (Inl 1)"
| step: "dir_at dt (fe_fb b) m es pool \<Longrightarrow> ent_of pool es n = Some e \<Longrightarrow> fe_type e = S_DIR \<Longrightarrow>
     ns \<noteq> [] \<Longrightarrow> resolves dt e ns r \<Longrightarrow> resolves dt b (n # ns) r"

inductive_cases resolves_NilE: "resolves dt b [] r"

lemma dropWhile_no_slash: "SLASH \<notin> set p \<Longrightarrow> dropWhile (\<lambda>c. c \<noteq> SLASH) p = []"
  by (simp add: dropWhile_eq_Nil_conv) blast

lemma components_last: "SLASH \<notin> set p \<Longrightarrow> components p = [p]"
  by (subst components.simps) (simp add: dropWhile_no_slash)

lemma components_step: "SLASH \<in> set p \<Longrightarrow> components p
    = takeWhile (\<lambda>c. c \<noteq> SLASH) p # components (tl (dropWhile (\<lambda>c. c \<noteq> SLASH) p))"
  by (subst components.simps) (auto split: list.split simp: dropWhile_eq_Nil_conv)

lemma components_not_Nil [simp]: "components p \<noteq> []"
  by (cases "SLASH \<in> set p") (simp_all add: components_last components_step)

lemma takeWhile_no_slash: "SLASH \<notin> set p \<Longrightarrow> takeWhile (\<lambda>c. c \<noteq> SLASH) p = p"
  by (simp add: takeWhile_eq_all_conv) blast

lemma components_ConsD:
  assumes "n # ns = components p"
  shows "takeWhile (\<lambda>c. c \<noteq> SLASH) p = n" "ns = [] \<longleftrightarrow> SLASH \<notin> set p"
    "SLASH \<in> set p \<Longrightarrow> ns = components (tl (dropWhile (\<lambda>c. c \<noteq> SLASH) p))"
  using assms
  by (cases "SLASH \<in> set p"; simp add: components_last components_step takeWhile_no_slash)+

text \<open>One level of \<open>c_find_entry\<close> in a directory on the disk.\<close>

lemma c_find_entry_level:
  assumes wf: "wf_geom dt" and E: "malloc_ok E" and d: "dir_at dt (fe_fb b) m es pool"
    and p: "0 \<notin> set path"
  shows "c_find_entry E dt b path uid =
    (case ent_of pool es (takeWhile (\<lambda>c. c \<noteq> SLASH) path) of None \<Rightarrow> Some (Inl 1)
     | Some e \<Rightarrow> if SLASH \<notin> set path then Some (Inr e)
         else if fe_type e = S_DIR
         then c_find_entry E dt e (tl (dropWhile (\<lambda>c. c \<noteq> SLASH) path)) uid
         else Some (Inl 1))"
proof -
  obtain b0 where b0: "malloc E (unat (fm_blocks m * bps dt)) = Some b0"
    "length b0 = unat (fm_blocks m * bps dt)" using E by (rule malloc_okE)
  from dir_at_reads [OF wf d] b0(2) obtain rest where
    r: "read_meta dt (fe_fb b) = Some m" "do_readfile dt (fe_fb b) b0 = Some (enc_dir m es pool @ rest)"
    by blast
  from d have wd: "wf_dir m es pool" by (auto simp: dir_at_def)
  let ?n = "takeWhile (\<lambda>c. c \<noteq> SLASH) path"
  have n: "0 \<notin> set ?n" using p by (auto dest: set_takeWhileD)
  show ?thesis
  proof (cases "ent_of pool es ?n")
    case None
    with find_entry_by_name_ent(1) [OF wd n None] b0(1) r show ?thesis
      by (subst c_find_entry.simps) (simp only: Option.bind.bind_lunit option.case Let_def)
  next
    case (Some e)
    from find_entry_by_name_ent(2) [OF wd n this, of rest] obtain i where
      "find_entry_by_name (enc_dir m es pool @ rest) ?n = Some (Some (64 + 16 * i))"
      "get_entry (enc_dir m es pool @ rest) (64 + 16 * i) = Some e" by blast
    with Some b0(1) r show ?thesis
      by (subst c_find_entry.simps) (simp only: Option.bind.bind_lunit option.case Let_def)
  qed
qed

lemma c_find_entry_resolves:
  assumes "resolves dt b cs r" and "wf_geom dt" and "malloc_ok E"
    and "cs = components path" and "0 \<notin> set path"
  shows "c_find_entry E dt b path uid = Some r"
  using assms
proof (induction arbitrary: path rule: resolves.induct)
  case (missing b m es pool n ns path)
  show ?case
    using c_find_entry_level [OF missing.prems(1,2) missing.hyps(1) missing.prems(4)]
      components_ConsD(1) [OF missing.prems(3)] missing.hyps(2) by simp
next
  case (found b m es pool n e path)
  show ?case
    using c_find_entry_level [OF found.prems(1,2) found.hyps(1) found.prems(4)]
      components_ConsD(1,2) [OF found.prems(3)] found.hyps(2) by simp
next
  case (not_dir b m es pool n e ns path)
  show ?case
    using c_find_entry_level [OF not_dir.prems(1,2) not_dir.hyps(1) not_dir.prems(4)]
      components_ConsD(1,2) [OF not_dir.prems(3)] not_dir.hyps(2-4) by simp
next
  case (step b m es pool n e ns r path)
  note p = components_ConsD [OF step.prems(3)]
  have sl: "SLASH \<in> set path" using p(2) step.hyps(4) by blast
  have "0 \<notin> set (tl (dropWhile (\<lambda>c. c \<noteq> SLASH) path))"
  proof
    assume "0 \<in> set (tl (dropWhile (\<lambda>c. c \<noteq> SLASH) path))"
    then have "0 \<in> set (dropWhile (\<lambda>c. c \<noteq> SLASH) path)"
      by (cases "dropWhile (\<lambda>c. c \<noteq> SLASH) path") simp_all
    with step.prems(4) show False by (blast dest: set_dropWhileD)
  qed
  from step.IH [OF step.prems(1,2) p(3) [OF sl] this] show ?case
    using c_find_entry_level [OF step.prems(1,2) step.hyps(1) step.prems(4)]
      p(1) sl step.hyps(2,3) by simp
qed

section \<open>Properties\<close>

text \<open>
  A disk of six 128-byte data sectors: the root entry in sector 0, the root directory with
  the file \<open>a\<close> in sector 1, the metadata of \<open>a\<close> in sector 2.
\<close>

definition pad128 :: "buf \<Rightarrow> buf" where "pad128 b = b @ replicate (128 - length b) 0"

definition root_entry :: file_entry where
  "root_entry = \<lparr>fe_name = 0, fe_fb = 1, fe_type = S_DIR, fe_reserve = 0\<rparr>"

definition sample_disk :: dtree where
  "sample_disk = \<lparr>sb = \<lparr>sb_fstype = 0, sb_bytsPerSec = 128, sb_totSecNum = 8, sb_fatSecNum = 1,
       sb_fatNum = 6, sb_maxBlockNum = 0\<rparr>,
     sb_pad = replicate 88 0, fat_p = replicate 3 ENDSEC @ replicate 29 FREESEC,
     data = pad128 (enc_entry root_entry)
       @ pad128 (enc_dir sample_meta sample_entries sample_pool)
       @ pad128 (enc_meta mini_meta) @ replicate 384 0,
     dt_size = 1024, in_size = 0, dt_max = 1024, in_max = 0, in_buf = []\<rparr>"

lemma length_pad128: "length b \<le> 128 \<Longrightarrow> length (pad128 b) = 128"
  by (simp add: pad128_def)

lemma sample_lengths: "length (pad128 (enc_entry root_entry)) = 128"
    "length (pad128 (enc_dir sample_meta sample_entries sample_pool)) = 128"
    "length (pad128 (enc_meta mini_meta)) = 128"
  by (simp_all add: length_pad128 sample_entries_def sample_pool_def)

lemma sample_disk_wf: "wf_geom sample_disk"
  by (auto simp: wf_geom_def Let_def sample_disk_def nth_append sample_lengths)

lemma sample_disk_files: "file_at sample_disk 1 [1]" "file_at sample_disk 2 [2]"
  by (auto simp: file_at_def sample_disk_def nth_append)

lemma sample_disk_content:
  "content sample_disk [1] = pad128 (enc_dir sample_meta sample_entries sample_pool)"
  "content sample_disk [2] = pad128 (enc_meta mini_meta)"
  by (simp_all add: sector_def sample_disk_def sample_lengths)

lemma sample_dir_at: "dir_at sample_disk 1 sample_meta sample_entries sample_pool"
  unfolding dir_at_def
  by (intro exI [of _ "[1]"] exI [of _ "replicate 9 0"])
     (use sample_disk_files sample_disk_content sample_wf in
       \<open>simp_all add: sample_meta_def mini_meta_def pad128_def sample_entries_def sample_pool_def\<close>)

lemma sample_root: "get_entry (data sample_disk) 0 = Some root_entry"
  by (simp add: sample_disk_def pad128_def entry.get_enc_head)

lemma sample_resolves:
  "resolves sample_disk root_entry [[97]] (Inr \<lparr>fe_name = 5, fe_fb = 2, fe_type = S_FIL, fe_reserve = 0\<rparr>)"
proof (rule resolves.found)
  show "dir_at sample_disk (fe_fb root_entry) sample_meta sample_entries sample_pool"
    using sample_dir_at by (simp add: root_entry_def)
  show "ent_of sample_pool sample_entries [97]
      = Some \<lparr>fe_name = 5, fe_fb = 2, fe_type = S_FIL, fe_reserve = 0\<rparr>"
    by (simp add: ent_of_def sample_entries_def ent_name_def sample_pool_def cstr_at_def)
qed

text \<open>
  C19. Path resolution: when the walk over the directories of the disk along the components
  of a path has an outcome -- an entry, or \<open>not found\<close> because a name is missing or a
  component in the middle is not a directory -- then \<open>c_lookup\<close> returns that outcome,
  for the path with and without its leading slash and for every user; \<open>/\<close> is the root.
\<close>
theorem c_lookup_resolves:
  assumes "wf_geom dt" and "malloc_ok E" and "get_entry (data dt) 0 = Some root"
    and "0 \<notin> set path" and "path \<noteq> []" and "resolves dt root (components path) r"
  shows "c_lookup E dt (SLASH # path) uid = Some r
     \<and> (hd path \<noteq> SLASH \<longrightarrow> c_lookup E dt path uid = Some r)
     \<and> c_lookup E dt [SLASH] uid = Some (Inr root)"
  using c_find_entry_resolves [OF assms(6,1,2) refl assms(4), of uid] assms(3,5)
  by (cases path) (auto simp: c_lookup_def)

theorem c_lookup_resolves_witness:
  "c_lookup calm_env sample_disk [SLASH, 97] 7
     = Some (Inr \<lparr>fe_name = 5, fe_fb = 2, fe_type = S_FIL, fe_reserve = 0\<rparr>)"
  using c_lookup_resolves [OF sample_disk_wf calm_env_ok sample_root, of "[97]"] sample_resolves
  by (simp add: components_last)

end
