(* ===== verification/CfsMk.thy ===== *)
theory CfsMk
  imports CfsPath
begin

text \<open>
  Making files, directories and disks (\<open>initfile\<close>, \<open>initdir\<close>, \<open>do_mkcfs\<close> of
  \<open>c_node/fs/cfs.c\<close>) and moving a disk between memory and the host's files (\<open>open_disk\<close>,
  \<open>save_disk\<close>, \<open>load_file\<close>, \<open>save_file\<close>): the new objects are well formed, and a disk that
  is saved and opened again is the same disk.
\<close>

unbundle bit_operations_syntax

section \<open>New files and directories\<close>

text \<open>
  Both functions end with the same loop over the sectors as \<open>do_writefile\<close>. The result is
  the C return value and the first sector put into the entry, none when \<open>malloc\<close> failed.
\<close>

definition new_meta :: "env \<Rightarrow> u32_t \<Rightarrow> u8_t \<Rightarrow> u32_t \<Rightarrow> file_meta" where
  "new_meta E uid mode blocks = \<lparr>fm_uid = uid, fm_count = 1, fm_flen = 0, fm_c_time = now E,
     fm_r_time = now E, fm_w_time = now E, fm_strbase = 0, fm_strlen = 0, fm_blocks = blocks,
     fm_flags = mode, fm_reserve = 0\<rparr>"

definition initfile ::
  "env \<Rightarrow> dtree \<Rightarrow> u32_t \<Rightarrow> u8_t \<Rightarrow> (int \<times> u32_t option \<times> dtree) option" where
  "initfile E dt uid mode = (case malloc E 64 of
       None \<Rightarrow> Some (- 9, None, dt)
     | Some _ \<Rightarrow> do {
         (fat_index, dt) \<leftarrow> find_free E dt 0;
         if bps dt = 0 then None else do {
           let count = (ucast ((szof_meta + ucast (bps dt) - 1) div ucast (bps dt)) :: u32_t);
           dt \<leftarrow> writefile_loop E (bps dt) count (enc_meta (new_meta E uid mode count)) dt 0
                  fat_index szof_meta;
           Some (0, Some fat_index, dt)
         }
       })"

text \<open>
  The directory gets the entries \<open>.\<close> and \<open>..\<close>; \<open>parent\<close> is \<open>None\<close> when the caller passes
  the same entry as the new directory and as its parent (the root).
\<close>

definition dots_pool :: buf where "dots_pool = [46, 0, 46, 46, 0]"

definition new_dir_meta :: "env \<Rightarrow> u32_t \<Rightarrow> u32_t \<Rightarrow> file_meta" where
  "new_dir_meta E uid blocks = (new_meta E uid INITMODE blocks)\<lparr>fm_count := 3, fm_flen := 101,
     fm_strbase := 32, fm_strlen := 5\<rparr>"

definition dot_entries :: "u32_t \<Rightarrow> u32_t \<Rightarrow> file_entry list" where
  "dot_entries fb pfb = [\<lparr>fe_name = 0, fe_fb = fb, fe_type = S_DIR, fe_reserve = 0\<rparr>,
     \<lparr>fe_name = 2, fe_fb = pfb, fe_type = S_DIR, fe_reserve = 0\<rparr>]"

definition initdir ::
  "env \<Rightarrow> dtree \<Rightarrow> u32_t \<Rightarrow> u32_t option \<Rightarrow> (int \<times> u32_t option \<times> dtree) option" where
  "initdir E dt uid parent = (case malloc E 101 of
       None \<Rightarrow> Some (- 9, None, dt)
     | Some _ \<Rightarrow> do {
         (fat_index, dt) \<leftarrow> find_free E dt 0;
         if bps dt = 0 then None else do {
           let count = (ucast ((101 + ucast (bps dt) - 1 :: u64_t) div ucast (bps dt)) :: u32_t);
           let buf = enc_meta (new_dir_meta E uid count)
                 @ enc_entries (dot_entries fat_index (case parent of None \<Rightarrow> fat_index | Some p \<Rightarrow> p))
                 @ dots_pool;
           dt \<leftarrow> writefile_loop E (bps dt) count buf dt 0 fat_index 101;
           Some (0, Some fat_index, dt)
         }
       })"

section \<open>The disk image\<close>

definition enc_fat :: "u32_t list \<Rightarrow> buf" where
  "enc_fat fat = concat (map (enc_w 4) fat)"

fun dec_fat :: "nat \<Rightarrow> buf \<Rightarrow> u32_t list" where
  "dec_fat 0 b = []"
| "dec_fat (Suc n) b = dec_w (take 4 b) # dec_fat n (drop 4 b)"

text \<open>The bytes of \<open>dt_buf\<close>, and the regions \<open>open_disk\<close> points \<open>sb\<close>, \<open>fat_p\<close> and \<open>data\<close> into.\<close>

definition image :: "dtree \<Rightarrow> buf" where
  "image dt = enc_sb (sb dt) @ sb_pad dt @ enc_fat (fat_p dt) @ data dt"

definition regions :: "buf \<Rightarrow> dtree option" where
  "regions b = (let s = (dec_sb (take 40 b))\<lparr>sb_bytsPerSec := BYTSPERSEC\<rparr>;
        fatBytes = unat (BYTSPERSEC * sb_fatSecNum s)
      in if 512 + fatBytes \<le> length b
         then Some \<lparr>sb = s, sb_pad = take 472 (drop 40 b),
           fat_p = dec_fat (fatBytes div 4) (drop 512 b), data = drop (512 + fatBytes) b,
           dt_size = 0, in_size = 0, dt_max = 0, in_max = 0, in_buf = []\<rparr>
         else None)"

definition do_mkcfs :: "env \<Rightarrow> dtree \<Rightarrow> buf \<Rightarrow> u32_t \<Rightarrow> u32_t \<Rightarrow> dtree option" where
  "do_mkcfs E dt dt_buf sz bytsPerSec =
     (if bytsPerSec = 0 then None else
      let totSecNum = sz div bytsPerSec;
          fatSize = (ucast ((ucast totSecNum :: u64_t) * 4) :: u32_t);
          fatSecNum = (fatSize + bytsPerSec - 1) div bytsPerSec;
          s = \<lparr>sb_fstype = dec_w ([99, 102, 115] @ replicate 13 0), sb_bytsPerSec = bytsPerSec,
               sb_totSecNum = totSecNum, sb_fatSecNum = fatSecNum,
               sb_fatNum = (sz - fatSize - bytsPerSec) div bytsPerSec, sb_maxBlockNum = 0\<rparr>;
          fatBytes = unat (fatSecNum * bytsPerSec);
          dataOff = unat bytsPerSec + fatBytes
      in if 40 \<le> unat bytsPerSec \<and> dataOff \<le> length dt_buf then do {
           fat \<leftarrow> fat_set (replicate (fatBytes div 4) 0) 0 ENDSEC;
           let dt = dt\<lparr>sb := s, sb_pad := take (unat bytsPerSec - 40) (drop 40 dt_buf),
                 fat_p := fat, data := drop dataOff dt_buf\<rparr>;
           (_, fb, dt) \<leftarrow> initdir E dt 0 None;
           let root_entry = \<lparr>fe_name = 0, fe_fb = (case fb of None \<Rightarrow> 0 | Some x \<Rightarrow> x),
                 fe_type = S_DIR, fe_reserve = 0\<rparr>;
           d \<leftarrow> put_entry (data dt) 0 root_entry;
           Some (dt\<lparr>data := d\<rparr>)
         } else None)"

section \<open>Host files\<close>

text \<open>
  The host's files are a map from names to contents. \<open>short asked left\<close> says how \<open>read\<close>
  behaves: \<open>None\<close> an error, otherwise how many bytes it would like to give (it gives at
  least one, at most what was asked for and what is left). \<open>wrote\<close> is the result of
  \<open>write\<close>, \<open>None\<close> for an error.
\<close>

type_synonym host = "buf \<Rightarrow> buf option"
type_synonym reader = "nat \<Rightarrow> nat \<Rightarrow> nat option"

text \<open>\<open>got\<close>: how many bytes a \<open>read\<close> returns behind the first one.\<close>

definition got :: "u32_t \<Rightarrow> buf \<Rightarrow> buf \<Rightarrow> nat \<Rightarrow> nat" where
  "got mx acc rest k = min (min (k - 1) (unat mx - length acc - 1)) (length rest)"

function load_loop ::
  "env \<Rightarrow> reader \<Rightarrow> u32_t \<Rightarrow> buf \<Rightarrow> buf \<Rightarrow> (buf \<times> u32_t) option option" where
  "load_loop E short mx acc [] = Some (Some (acc, mx))"
| "load_loop E short mx acc (r # rest) =
     (if length acc = unat mx then Some (Some (acc, mx)) else
      case short (unat mx - length acc) (Suc (length rest)) of
        None \<Rightarrow> Some None
      | Some k \<Rightarrow>
          if length acc + Suc (got mx acc rest k) = unat mx then
            if mx * 2 = 0 then None else
            if malloc E (unat (mx * 2)) = None then Some None
            else load_loop E short (mx * 2) (acc @ r # take (got mx acc rest k) rest)
                   (drop (got mx acc rest k) rest)
          else load_loop E short mx (acc @ r # take (got mx acc rest k) rest)
                 (drop (got mx acc rest k) rest))"
  by pat_completeness auto
termination
  by (relation "measure (\<lambda>(E, short, mx, acc, rest). length rest)") auto

declare load_loop.simps [simp del]

definition load_file :: "env \<Rightarrow> reader \<Rightarrow> host \<Rightarrow> buf \<Rightarrow> (buf \<times> u32_t) option option" where
  "load_file E short files filename = (case files filename of
       None \<Rightarrow> Some None
     | Some contents \<Rightarrow>
         (case malloc E (unat INIT_MAX) of
            None \<Rightarrow> Some None
          | Some _ \<Rightarrow> load_loop E short INIT_MAX [] contents))"

definition save_file :: "nat option \<Rightarrow> bool \<Rightarrow> buf \<Rightarrow> u32_t \<Rightarrow> buf \<Rightarrow> host \<Rightarrow> (int \<times> host) option" where
  "save_file wrote openable b sz filename files =
     (if \<not> openable then Some (- 1, files) else
      let old = (case files filename of None \<Rightarrow> [] | Some c \<Rightarrow> c) in
      case wrote of
        None \<Rightarrow> Some (- 1, files(filename \<mapsto> old))
      | Some n \<Rightarrow> do {
          out \<leftarrow> rd b 0 (unat sz);
          let n = min n (unat sz);
          Some (if n = unat sz then 0 else - 1, files(filename \<mapsto> take n out @ drop n old))
        })"

definition open_disk :: "env \<Rightarrow> reader \<Rightarrow> host \<Rightarrow> buf \<Rightarrow> buf \<Rightarrow> dtree option option" where
  "open_disk E short files dt_name in_name =
     (if malloc E 56 = None then Some None else do {
        l \<leftarrow> load_file E short files dt_name;
        i \<leftarrow> load_file E short files in_name;
        case (case l of Some (b, mx) \<Rightarrow> Some (b, mx, False)
              | None \<Rightarrow> map_option (\<lambda>b. (b, INIT_MAX, True)) (malloc E (unat INIT_MAX))) of
          None \<Rightarrow> Some None
        | Some (dt_buf, dt_mx, needmkfs) \<Rightarrow>
            (case (case i of Some x \<Rightarrow> Some x
                   | None \<Rightarrow> map_option (\<lambda>b. (b, INIT_MAX)) (malloc E (unat INIT_MAX))) of
               None \<Rightarrow> Some None
             | Some (inb, in_mx) \<Rightarrow>
                 let sizes = (\<lambda>dt. dt\<lparr>dt_size := word_of_nat (length dt_buf),
                       in_size := word_of_nat (length inb), dt_max := dt_mx,
                       in_max := in_mx, in_buf := inb\<rparr>)
                 in if needmkfs then do {
                      dt \<leftarrow> do_mkcfs E (sizes \<lparr>sb = dec_sb [], sb_pad = [], fat_p = [], data = [],
                          dt_size = 0, in_size = 0, dt_max = 0, in_max = 0, in_buf = []\<rparr>)
                          dt_buf dt_mx BYTSPERSEC;
                      Some (Some dt)
                    } else do {
                      dt \<leftarrow> regions dt_buf;
                      Some (Some (sizes dt))
                    })
      })"

definition save_disk ::
  "nat option \<times> bool \<Rightarrow> nat option \<times> bool \<Rightarrow> dtree \<Rightarrow> buf \<Rightarrow> buf \<Rightarrow> host \<Rightarrow> (int \<times> host) option" where
  "save_disk w1 w2 dt dt_name in_name files = do {
     (ret, files) \<leftarrow> save_file (fst w1) (snd w1) (image dt) (dt_size dt) dt_name files;
     if ret < 0 then Some (- 1, files) else do {
       (ret, files) \<leftarrow> save_file (fst w2) (snd w2) (in_buf dt) (in_size dt) in_name files;
       if ret < 0 then Some (- 1, files) else Some (0, files)
     }
   }"

section \<open>New objects are well formed\<close>

text \<open>A disk in use: 512-byte sectors, and the sector of the root entry is taken.\<close>

definition in_use :: "dtree \<Rightarrow> bool" where
  "in_use dt \<longleftrightarrow> wf_geom dt \<and> bps dt = 512 \<and> fat_p dt ! 0 \<noteq> FREESEC"

lemma in_useD: "in_use dt \<Longrightarrow> wf_geom dt" "in_use dt \<Longrightarrow> bps dt = 512"
    "in_use dt \<Longrightarrow> fat_p dt ! 0 \<noteq> FREESEC"
  by (simp_all add: in_use_def)

lemma in_use_upd: "in_use dt \<Longrightarrow> upd S dt dt' \<Longrightarrow> 0 \<notin> S \<Longrightarrow> in_use dt'"
  using updD(1,2) [of S dt dt'] updD(5) [of S dt dt' 0] wf_geomD(7) [of dt]
  by (simp add: in_use_def)

lemma alloc_sector:
  assumes u: "in_use dt" and E: "malloc_ok E" and sz: "unat (dt_size dt) < 2147483648"
  shows "\<exists>fb dt1. find_free E dt 0 = Some (fb, dt1) \<and> upd {} dt dt1 \<and> unat fb < nsec dt1
     \<and> unat fb \<noteq> 0 \<and> (unat fb < nsec dt \<longrightarrow> fat_p dt ! unat fb = FREESEC)
     \<and> unat (dt_size dt1) \<le> 2 * unat (dt_size dt)"
proof -
  note wf = in_useD(1) [OF u]
  have "room (Suc 0) (unat (0 :: u32_t)) dt" using sz by (simp add: room_def)
  from find_free_room [OF wf E this] wf_geomD(7) [OF wf] in_useD(3) [OF u] obtain fb dt1 where
    f: "find_free E dt 0 = Some (fb, dt1)" "upd {} dt dt1" "0 < unat fb" "unat fb < nsec dt1"
    "fat_p dt1 ! unat fb = FREESEC" "unat (dt_size dt1) \<le> 2 * unat (dt_size dt)" by auto
  with updD(5) [OF f(2), of "unat fb"] show ?thesis by auto
qed

lemma fill_sector:
  assumes wf: "wf_geom dt" and E: "malloc_ok E" and fb: "unat fb < nsec dt" and B: "bps dt = 512"
    and b: "unat s = length b" "length b \<le> 512"
  shows "\<exists>dt'. writefile_loop E 512 1 b dt 0 fb s = Some dt' \<and> upd {unat fb} dt dt'
     \<and> file_at dt' fb [unat fb] \<and> take (length b) (content dt' [unat fb]) = b"
proof -
  have c: "covers b (secsz dt) (unat (1 :: u32_t)) (unat (0 :: u32_t)) (unat s)"
    using b by (simp add: covers_def)
  obtain dt' ys where r: "writefile_loop E 512 1 b dt 0 fb s = Some dt'" "upd (set ys) dt dt'"
    "chain (fat_p dt') fb ys" "length ys = Suc 0" "\<forall>y\<in>set ys. y < nsec dt' \<and> fat_p dt' ! y \<noteq> FREESEC"
    "holds dt' ys b (unat (0 :: u32_t)) (unat s)"
    using writefile_loop_spec [OF wf E fb B [symmetric], of 1 0 0 b s] c B by (auto simp: room_def)
  have ys: "ys = [unat fb]" using r(3,4) by (cases ys) auto
  have "\<forall>y\<in>set ys. length (sector dt' y) = secsz dt'"
    using r(5) length_sector updD(1) [OF r(2)] by blast
  with holds_content [OF r(6) this] b updD(2) [OF r(2)] B
  have "take (length b) (content dt' [unat fb]) = b" by (simp add: ys)
  with r show ?thesis by (auto simp: ys file_at_def)
qed

lemma fill_sector_size:
  "writefile_loop E B 1 b dt 0 fb s = Some dt' \<Longrightarrow> dt_size dt' = dt_size dt"
  by (subst (asm) writefile_loop.simps) (auto simp: bind_eq_Some_conv Let_def)

lemma count_one: "x \<le> 512 \<Longrightarrow> 0 < unat x \<Longrightarrow> unat (ucast ((x + 512 - 1 :: u64_t) div 512) :: u32_t) = 1"
proof -
  assume x: "x \<le> 512" "0 < unat x"
  then have x': "unat x \<le> 512" by (simp add: word_le_nat_alt)
  have "x + 512 - 1 = x + 511" by simp
  moreover have "unat (x + 511) = unat x + 511" using x' by (subst unat_add_fit) simp_all
  ultimately have "unat (x + 512 - 1) = unat x + 511" by metis
  then have "unat ((x + 512 - 1) div 512) = 1"
    unfolding unat_div using x(2) x' by (simp add: div_nat_eqI)
  then show ?thesis by (simp add: unat_ucast_fit)
qed

lemma word_1: "unat (w :: 'a::len word) = 1 \<Longrightarrow> w = 1"
  by (metis unat_1 unsigned_word_eqI)

lemma file_meta_prefix:
  assumes "wf_geom dt" and "file_at dt fb xs" and "take (length (enc_meta m @ b)) (content dt xs) = enc_meta m @ b"
  shows "content dt xs = (enc_meta m @ b) @ drop (length (enc_meta m @ b)) (content dt xs)"
    "read_meta dt fb = Some m"
proof -
  show *: "content dt xs = (enc_meta m @ b) @ drop (length (enc_meta m @ b)) (content dt xs)"
    using assms(3) by (metis append_take_drop_id)
  then show "read_meta dt fb = Some m"
    using file_read_meta [OF assms(1,2), of m] by (metis append.assoc)
qed

lemma initfile_ok:
  assumes u: "in_use dt" and E: "malloc_ok E" and sz: "unat (dt_size dt) < 2147483648"
  shows "\<exists>fb dt'. initfile E dt uid mode = Some (0, Some fb, dt') \<and> upd {unat fb} dt dt' \<and> unat fb \<noteq> 0
     \<and> unat (dt_size dt') \<le> 2 * unat (dt_size dt)
     \<and> (unat fb < nsec dt \<longrightarrow> fat_p dt ! unat fb = FREESEC) \<and> file_at dt' fb [unat fb]
     \<and> read_meta dt' fb = Some (new_meta E uid mode 1)"
proof -
  obtain fb dt1 where a: "find_free E dt 0 = Some (fb, dt1)" "upd {} dt dt1" "unat fb < nsec dt1"
    "unat fb \<noteq> 0" "unat fb < nsec dt \<longrightarrow> fat_p dt ! unat fb = FREESEC"
    "unat (dt_size dt1) \<le> 2 * unat (dt_size dt)"
    using alloc_sector [OF assms] by blast
  note u1 = updD(1,2) [OF a(2)]
  have B: "bps dt1 = 512" using u1(2) in_useD(2) [OF u] by simp
  have c: "(ucast ((szof_meta + 512 - 1 :: u64_t) div 512) :: u32_t) = 1"
    by (rule word_1, rule count_one) (simp_all add: word_le_nat_alt)
  obtain dt' where w: "writefile_loop E 512 1 (enc_meta (new_meta E uid mode 1)) dt1 0 fb 64 = Some dt'"
    "upd {unat fb} dt1 dt'" "file_at dt' fb [unat fb]"
    "take 64 (content dt' [unat fb]) = enc_meta (new_meta E uid mode 1)"
    using fill_sector [OF u1(1) E a(3) B, of 64 "enc_meta (new_meta E uid mode 1)"] by auto
  obtain junk where j: "malloc E 64 = Some junk" using E by (rule malloc_okE)
  have "initfile E dt uid mode = Some (0, Some fb, dt')"
    using j a(1) c w(1) B by (simp add: initfile_def Let_def)
  moreover have "upd {unat fb} dt dt'" using upd_trans [OF a(2) w(2)] by simp
  moreover have "read_meta dt' fb = Some (new_meta E uid mode 1)"
    using file_meta_prefix(2) [OF updD(1) [OF w(2)] w(3), of _ "[]"] w(4) by simp
  moreover have "unat (dt_size dt') \<le> 2 * unat (dt_size dt)"
    using fill_sector_size [OF w(1)] a(6) by simp
  ultimately show ?thesis using a(4,5) w(3) by blast
qed

lemma new_dir_wf: "wf_dir (new_dir_meta E uid n) (dot_entries fb pfb) dots_pool"
  by (auto simp: wf_dir_def new_dir_meta_def new_meta_def dot_entries_def dots_pool_def named_def cstr_at_def)

lemma new_dir_names: "names dots_pool (dot_entries fb pfb)
    = [([46], (fb, S_DIR)), ([46, 46], (pfb, S_DIR))]"
  by (simp add: names_def dot_entries_def dots_pool_def ent_name_def cstr_at_def)

lemma initdir_ok:
  assumes u: "in_use dt" and E: "malloc_ok E" and sz: "unat (dt_size dt) < 2147483648"
  shows "\<exists>fb dt'. initdir E dt uid parent = Some (0, Some fb, dt') \<and> upd {unat fb} dt dt' \<and> unat fb \<noteq> 0
     \<and> unat (dt_size dt') \<le> 2 * unat (dt_size dt)
     \<and> (unat fb < nsec dt \<longrightarrow> fat_p dt ! unat fb = FREESEC)
     \<and> file_at dt' fb [unat fb] \<and> (\<exists>dt1. find_free E dt 0 = Some (fb, dt1))
     \<and> dir_at dt' fb (new_dir_meta E uid 1) (dot_entries fb (case parent of None \<Rightarrow> fb | Some p \<Rightarrow> p)) dots_pool"
proof -
  obtain fb dt1 where a: "find_free E dt 0 = Some (fb, dt1)" "upd {} dt dt1" "unat fb < nsec dt1"
    "unat fb \<noteq> 0" "unat fb < nsec dt \<longrightarrow> fat_p dt ! unat fb = FREESEC"
    "unat (dt_size dt1) \<le> 2 * unat (dt_size dt)"
    using alloc_sector [OF assms] by blast
  note u1 = updD(1,2) [OF a(2)]
  have B: "bps dt1 = 512" using u1(2) in_useD(2) [OF u] by simp
  have c: "(ucast ((101 + 512 - 1 :: u64_t) div 512) :: u32_t) = 1"
    by (rule word_1, rule count_one) (simp_all add: word_le_nat_alt)
  define es where "es = dot_entries fb (case parent of None \<Rightarrow> fb | Some p \<Rightarrow> p)"
  define b where "b = enc_dir (new_dir_meta E uid 1) es dots_pool"
  have lb: "length b = 101" by (simp add: b_def es_def dot_entries_def dots_pool_def)
  obtain dt' where w: "writefile_loop E 512 1 b dt1 0 fb 101 = Some dt'"
    "upd {unat fb} dt1 dt'" "file_at dt' fb [unat fb]" "take (length b) (content dt' [unat fb]) = b"
    using fill_sector [OF u1(1) E a(3) B, of 101 b] lb by auto
  obtain junk where j: "malloc E 101 = Some junk" using E by (rule malloc_okE)
  have "initdir E dt uid parent = Some (0, Some fb, dt')"
    using j a(1) w(1) by (simp add: initdir_def Let_def B c [simplified] b_def enc_dir_def es_def)
  moreover have "upd {unat fb} dt dt'" using upd_trans [OF a(2) w(2)] by simp
  moreover have "content dt' [unat fb] = b @ drop (length b) (content dt' [unat fb])"
    using w(4) by (metis append_take_drop_id)
  then have "dir_at dt' fb (new_dir_meta E uid 1) es dots_pool"
    unfolding dir_at_def using w(3) new_dir_wf
    by (intro exI [of _ "[unat fb]"]) (auto simp: b_def es_def new_dir_meta_def new_meta_def)
  moreover have "unat (dt_size dt') \<le> 2 * unat (dt_size dt)"
    using fill_sector_size [OF w(1)] a(6) by simp
  ultimately show ?thesis using a(1,4,5) w(3) by (auto simp: es_def)
qed

lemma upd_dir_at:
  assumes "upd S dt dt'" and "dir_at dt fb m es pool" and "file_at dt fb xs" and "set xs \<inter> S = {}"
  shows "dir_at dt' fb m es pool"
proof -
  from assms(2) obtain ys rest where y: "file_at dt fb ys" "unat (fm_blocks m) = length ys"
    "content dt ys = enc_dir m es pool @ rest" "wf_dir m es pool" by (auto simp: dir_at_def)
  then have "ys = xs" using assms(3) chain_unique by (auto simp: file_at_def)
  with y upd_file_at [OF assms(1,3,4)] show ?thesis by (auto simp: dir_at_def)
qed

section \<open>Formatting\<close>

lemma mkcfs_start:
  assumes "length b = 32768" and "dt_size dt = INIT_MAX"
  shows "in_use (dt\<lparr>sb := \<lparr>sb_fstype = ft, sb_bytsPerSec = 512, sb_totSecNum = 64,
      sb_fatSecNum = 1, sb_fatNum = 62, sb_maxBlockNum = 0\<rparr>, sb_pad := pd,
      fat_p := (replicate 128 0)[0 := ENDSEC], data := drop 1024 b\<rparr>)"
  using assms by (auto simp: in_use_def wf_geom_def Let_def INIT_MAX_def FREESEC_def nth_list_update)

lemma do_mkcfs_root:
  assumes E: "malloc_ok E" and b: "length b = 32768" and sz: "dt_size dt = INIT_MAX"
  shows "\<exists>dt'. do_mkcfs E dt b INIT_MAX BYTSPERSEC = Some dt' \<and> in_use dt'
     \<and> get_entry (data dt') 0 = Some \<lparr>fe_name = 0, fe_fb = 1, fe_type = S_DIR, fe_reserve = 0\<rparr>
     \<and> dir_at dt' 1 (new_dir_meta E 0 1) (dot_entries 1 1) dots_pool
     \<and> 62 \<le> nsec dt' \<and> (\<forall>x<nsec dt'. (fat_p dt' ! x = FREESEC) = (x \<notin> {0, 1}))
     \<and> file_at dt' 0 [0] \<and> file_at dt' 1 [1] \<and> unat (dt_size dt') \<le> 65536 \<and> sb_maxBlockNum (sb dt') = 0"
proof -
  define ft :: "128 word" where "ft = dec_w ([99, 102, 115] @ replicate 13 0)"
  define pd where "pd = take 472 (drop 40 b)"
  define dt0 where "dt0 = dt\<lparr>sb := \<lparr>sb_fstype = ft, sb_bytsPerSec = 512, sb_totSecNum = 64,
      sb_fatSecNum = 1, sb_fatNum = 62, sb_maxBlockNum = 0\<rparr>, sb_pad := pd,
      fat_p := (replicate 128 0)[0 := ENDSEC], data := drop 1024 b\<rparr>"
  have u: "in_use dt0" unfolding dt0_def using b sz by (rule mkcfs_start)
  have sz0: "unat (dt_size dt0) < 2147483648" using sz by (simp add: dt0_def INIT_MAX_def)
  from initdir_ok [OF u E sz0, of 0 None] obtain fb dt1 where
    i: "initdir E dt0 0 None = Some (0, Some fb, dt1)" "upd {unat fb} dt0 dt1" "unat fb \<noteq> 0"
    "file_at dt1 fb [unat fb]" "\<exists>dt1. find_free E dt0 0 = Some (fb, dt1)"
    "dir_at dt1 fb (new_dir_meta E 0 1) (dot_entries fb fb) dots_pool"
    "unat (dt_size dt1) \<le> 2 * unat (dt_size dt0)" by auto
  have "next_free_fat 0 (fat_p dt0) 62 = Some 1"
    by (simp add: next_free_fat.simps [of 0] next_free_fat.simps [of 1] dt0_def FREESEC_def)
  then have "find_free E dt0 0 = Some (1, dt0)"
    by (subst find_free.simps) (simp add: dt0_def)
  with i(5) have fb: "fb = 1" by auto
  have u1: "in_use dt1" using in_use_upd [OF u i(2)] i(3) by simp
  define root where "root = \<lparr>fe_name = 0, fe_fb = 1, fe_type = S_DIR, fe_reserve = 0\<rparr>"
  have "length (enc_entry root) \<le> secsz dt1" using in_useD(2) [OF u1] by simp
  from sector_write [OF in_useD(1) [OF u1] _ this, of 0] wf_geomD(7) [OF in_useD(1) [OF u1]]
  obtain d where d: "put_entry (data dt1) 0 root = Some d" "upd {0} dt1 (dt1\<lparr>data := d\<rparr>)"
    by (auto simp: put_at_def)
  have "do_mkcfs E dt b INIT_MAX BYTSPERSEC = Some (dt1\<lparr>data := d\<rparr>)"
    using b i(1) d(1) unfolding do_mkcfs_def
    by (simp add: Let_def INIT_MAX_def BYTSPERSEC_def fat_set_def ft_def pd_def dt0_def fb root_def)
  moreover have "in_use (dt1\<lparr>data := d\<rparr>)"
    using u1 updD(1) [OF d(2)] by (simp add: in_use_def)
  moreover have "get_entry d 0 = Some root" using d(1) by (rule entry.get_put_same)
  moreover have "dir_at (dt1\<lparr>data := d\<rparr>) 1 (new_dir_meta E 0 1) (dot_entries 1 1) dots_pool"
    using upd_dir_at [OF d(2) i(6,4)] fb by simp
  moreover have n0: "nsec dt0 = 62" by (simp add: dt0_def)
  moreover have "(fat_p dt1 ! x = FREESEC) = (x \<notin> {0, 1})" if "x < nsec dt1" for x
  proof (cases "x = 1")
    case True
    then show ?thesis using i(4) fb by (simp add: file_at_def)
  next
    case False
    with that updD(5,7) [OF i(2), of x] fb show ?thesis
      by (cases "x < 62") (auto simp: dt0_def FREESEC_def nth_list_update)
  qed
  moreover have "chain (fat_p dt1) 0 [0]"
    using updD(5) [OF i(2), of 0] wf_geomD(4,7) [OF updD(1) [OF i(2)]] fb by (auto simp: dt0_def)
  then have "file_at dt1 0 [0]"
    using updD(5) [OF i(2), of 0] wf_geomD(7) [OF updD(1) [OF i(2)]] fb by (simp add: file_at_def dt0_def)
  moreover have "unat (dt_size dt1) \<le> 65536" using i(7) sz by (simp add: dt0_def INIT_MAX_def)
  moreover have "sb_maxBlockNum (sb dt1) = 0" using updD(4) [OF i(2)] by (simp add: dt0_def)
  ultimately show ?thesis using updD(3) [OF i(2)] i(4) fb by (auto simp: root_def file_at_def)
qed

section \<open>Saving and opening\<close>

lemma length_enc_fat [simp]: "length (enc_fat fat) = 4 * length fat"
  by (induction fat) (simp_all add: enc_fat_def)

lemma dec_enc_fat: "dec_fat (length fat) (enc_fat fat @ r) = fat"
  by (induction fat) (simp_all add: enc_fat_def)

lemma regions_image:
  assumes "wf_geom dt" and "bps dt = BYTSPERSEC" and "length (sb_pad dt) = 472"
  shows "\<exists>d. regions (image dt) = Some d \<and> sb d = sb dt \<and> sb_pad d = sb_pad dt
     \<and> fat_p d = fat_p dt \<and> data d = data dt"
    and "length (image dt) = unat (dt_size dt)"
proof -
  from assms(1,2) have w: "unat (dt_size dt) = unat (sb_totSecNum (sb dt)) * 512"
    "unat (sb_fatSecNum (sb dt)) + 1 < unat (sb_totSecNum (sb dt))"
    "nsec dt = unat (sb_totSecNum (sb dt)) - 1 - unat (sb_fatSecNum (sb dt))"
    "4 * length (fat_p dt) = unat (sb_fatSecNum (sb dt)) * 512" "length (data dt) = nsec dt * 512"
    by (auto simp: wf_geom_def Let_def BYTSPERSEC_def)
  have "512 * unat (sb_fatSecNum (sb dt)) < 2 ^ 32"
    using w(1,2) unat_lt_exp [of "dt_size dt"] by simp
  then have fb: "unat (BYTSPERSEC * sb_fatSecNum (sb dt)) = 4 * length (fat_p dt)"
    using w(4) by (subst unat_mult_fit) (simp_all add: BYTSPERSEC_def)
  have s: "sb dt\<lparr>sb_bytsPerSec := BYTSPERSEC\<rparr> = sb dt" using assms(2) by simp
  have "take 40 (image dt) = enc_sb (sb dt)" "take 472 (drop 40 (image dt)) = sb_pad dt"
    "drop 512 (image dt) = enc_fat (fat_p dt) @ data dt"
    "drop (512 + 4 * length (fat_p dt)) (image dt) = data dt"
    using assms(3) by (simp_all add: image_def)
  then show "\<exists>d. regions (image dt) = Some d \<and> sb d = sb dt \<and> sb_pad d = sb_pad dt
     \<and> fat_p d = fat_p dt \<and> data d = data dt"
    using assms(3) by (simp add: regions_def s fb dec_enc_fat image_def)
  show "length (image dt) = unat (dt_size dt)"
    using assms(3) w by (simp add: image_def)
qed

lemma load_loop_all:
  assumes "malloc_ok E" and "\<forall>x y. short x y \<noteq> None"
    and "length acc < unat mx" and "length acc + length rest < 2147483648"
  shows "\<exists>mx'. load_loop E short mx acc rest = Some (Some (acc @ rest, mx'))"
  using assms
proof (induction E short mx acc rest rule: load_loop.induct)
  case (2 E short mx acc r rest)
  obtain k where k: "short (unat mx - length acc) (Suc (length rest)) = Some k"
    using "2.prems"(2) by blast
  let ?g = "got mx acc rest k"
  have g: "?g \<le> length rest" "length acc + Suc ?g \<le> unat mx"
    using "2.prems"(3) by (simp_all add: got_def)
  let ?acc = "acc @ r # take ?g rest"
  have len: "length ?acc = length acc + Suc ?g" using g(1) by simp
  have tot: "length ?acc + length (drop ?g rest) < 2147483648" using "2.prems"(4) g(1) by simp
  have all: "?acc @ drop ?g rest = acc @ r # rest" by simp
  show ?case
  proof (cases "length acc + Suc ?g = unat mx")
    case True
    with tot len have "unat mx < 2147483648" by linarith
    then have m2: "unat (mx * 2) = 2 * unat mx" by (subst unat_mult_fit) simp_all
    then have "mx * 2 \<noteq> 0" using True by auto
    moreover obtain b where "malloc E (unat (mx * 2)) = Some b" using "2.prems"(1) by (rule malloc_okE)
    moreover have "\<exists>mx'. load_loop E short (mx * 2) ?acc (drop ?g rest)
        = Some (Some (?acc @ drop ?g rest, mx'))"
      using "2.prems"(1,2,3) k True m2 calculation tot len
      by (intro "2.IH"(1)) simp_all
    ultimately show ?thesis
      using "2.prems"(3) k True all by (subst load_loop.simps) simp
  next
    case False
    have "\<exists>mx'. load_loop E short mx ?acc (drop ?g rest) = Some (Some (?acc @ drop ?g rest, mx'))"
      using "2.prems"(1,2,3) k False tot len g(2) by (intro "2.IH"(2)) simp_all
    with "2.prems"(3) k False all show ?thesis by (subst load_loop.simps) simp
  qed
qed (simp add: load_loop.simps)

lemma load_file_all:
  assumes "malloc_ok E" and "\<forall>x y. short x y \<noteq> None" and "files nm = Some c" and "length c < 2147483648"
  shows "\<exists>mx. load_file E short files nm = Some (Some (c, mx))"
proof -
  obtain b where "malloc E (unat INIT_MAX) = Some b" using assms(1) by (rule malloc_okE)
  moreover have "\<exists>mx. load_loop E short INIT_MAX [] c = Some (Some ([] @ c, mx))"
    using assms by (intro load_loop_all) (auto simp: INIT_MAX_def)
  ultimately show ?thesis using assms(3) by (simp add: load_file_def)
qed

section \<open>Properties\<close>

text \<open>
  C21. Formatting: on a fresh disk of the initial size, whatever bytes the allocator returned,
  \<open>do_mkcfs\<close> makes a well-formed disk: the root entry in sector 0 points to the directory
  in sector 1, owned by user 0, which contains only \<open>.\<close> and \<open>..\<close>, both itself; every
  other sector is free; and \<open>/\<close> resolves to the root.
\<close>
theorem do_mkcfs_formats:
  assumes "malloc_ok E" and "length b = 32768" and "dt_size dt = INIT_MAX"
  shows "\<exists>dt' root. do_mkcfs E dt b INIT_MAX BYTSPERSEC = Some dt' \<and> wf_geom dt'
     \<and> get_entry (data dt') 0 = Some root \<and> fe_type root = S_DIR \<and> fe_fb root = 1
     \<and> dir_at dt' 1 (new_dir_meta E 0 1) (dot_entries 1 1) dots_pool
     \<and> (\<forall>x<nsec dt'. (fat_p dt' ! x = FREESEC) = (x \<notin> {0, 1}))
     \<and> c_lookup E dt' [SLASH] uid = Some (Inr root)"
proof -
  from do_mkcfs_root [OF assms] obtain dt' where d:
    "do_mkcfs E dt b INIT_MAX BYTSPERSEC = Some dt'" "in_use dt'"
    "get_entry (data dt') 0 = Some \<lparr>fe_name = 0, fe_fb = 1, fe_type = S_DIR, fe_reserve = 0\<rparr>"
    "dir_at dt' 1 (new_dir_meta E 0 1) (dot_entries 1 1) dots_pool"
    "\<forall>x<nsec dt'. (fat_p dt' ! x = FREESEC) = (x \<notin> {0, 1})" by blast
  have "c_lookup E dt' [SLASH] uid
      = Some (Inr \<lparr>fe_name = 0, fe_fb = 1, fe_type = S_DIR, fe_reserve = 0\<rparr>)"
    using d(3) by (simp add: c_lookup_def)
  with d in_useD(1) [OF d(2)] show ?thesis by (intro exI conjI) simp_all
qed

theorem do_mkcfs_formats_witness:
  "\<exists>dt'. do_mkcfs calm_env (mini_disk\<lparr>dt_size := INIT_MAX\<rparr>) (replicate 32768 255) INIT_MAX BYTSPERSEC
     = Some dt' \<and> wf_geom dt' \<and> c_lookup calm_env dt' [SLASH] 9 \<noteq> None"
  using do_mkcfs_formats [OF calm_env_ok, of "replicate 32768 255" "mini_disk\<lparr>dt_size := INIT_MAX\<rparr>" 9]
  by auto

text \<open>
  C22. Saving and opening: when both writes succeed, to two different files that do not exist or
  are no longer than what is saved (they are not truncated), \<open>save_disk\<close> returns 0, and
  \<open>open_disk\<close> on the result -- however the reads are cut into pieces -- gives back the
  superblock, the table, the data and the sizes that were saved. The disk, which is
  well formed, and the second image are below 2 GiB, the sectors have 512 bytes, no read and no
  \<open>malloc\<close> fails.
\<close>
theorem save_then_open:
  assumes "wf_geom dt" and "bps dt = BYTSPERSEC" and "length (sb_pad dt) = 472"
    and "unat (dt_size dt) < 2147483648" and "length (in_buf dt) = unat (in_size dt)"
    and "unat (in_size dt) < 2147483648" and "malloc_ok E" and "\<forall>x y. short x y \<noteq> None"
    and "dname \<noteq> iname" and "\<And>c. files dname = Some c \<Longrightarrow> length c \<le> unat (dt_size dt)"
    and "\<And>c. files iname = Some c \<Longrightarrow> length c \<le> unat (in_size dt)"
    and "unat (dt_size dt) \<le> w1" and "unat (in_size dt) \<le> w2"
  shows "\<exists>files' mx mx'. save_disk (Some w1, True) (Some w2, True) dt dname iname files = Some (0, files')
     \<and> open_disk E short files' dname iname = Some (Some (dt\<lparr>dt_max := mx, in_max := mx'\<rparr>))"
proof -
  note im = regions_image [OF assms(1-3)]
  define f1 where "f1 = files(dname \<mapsto> image dt)"
  define f2 where "f2 = f1(iname \<mapsto> in_buf dt)"
  have s1: "save_file (Some w1) True (image dt) (dt_size dt) dname files = Some (0, f1)"
    using im(2) assms(10,12) by (auto simp: save_file_def rd_def f1_def min_absorb2 split: option.splits)
  have s2: "save_file (Some w2) True (in_buf dt) (in_size dt) iname f1 = Some (0, f2)"
    using assms(5,9,11,13) by (auto simp: save_file_def rd_def f1_def f2_def min_absorb2 split: option.splits)
  have f: "f2 dname = Some (image dt)" "f2 iname = Some (in_buf dt)"
    using assms(9) by (simp_all add: f1_def f2_def)
  obtain mx where l1: "load_file E short f2 dname = Some (Some (image dt, mx))"
    using load_file_all [where files = f2, OF assms(7,8) f(1)] im(2) assms(4) by auto
  obtain mx' where l2: "load_file E short f2 iname = Some (Some (in_buf dt, mx'))"
    using load_file_all [where files = f2, OF assms(7,8) f(2)] assms(5,6) by auto
  obtain d where d: "regions (image dt) = Some d" "sb d = sb dt" "sb_pad d = sb_pad dt"
    "fat_p d = fat_p dt" "data d = data dt" using im(1) by blast
  obtain b where "malloc E 56 = Some b" using assms(7) by (rule malloc_okE)
  then have "open_disk E short f2 dname iname = Some (Some (dt\<lparr>dt_max := mx, in_max := mx'\<rparr>))"
    using l1 l2 d im(2) assms(5) by (simp add: open_disk_def)
  moreover have "save_disk (Some w1, True) (Some w2, True) dt dname iname files = Some (0, f2)"
    by (simp add: save_disk_def s1 s2)
  ultimately show ?thesis by blast
qed

text \<open>A disk with one data sector, for the witness; reads return at most three bytes.\<close>

definition tiny_disk :: dtree where
  "tiny_disk = \<lparr>sb = \<lparr>sb_fstype = 0, sb_bytsPerSec = BYTSPERSEC, sb_totSecNum = 3, sb_fatSecNum = 1,
       sb_fatNum = 1, sb_maxBlockNum = 0\<rparr>,
     sb_pad = replicate 472 0, fat_p = ENDSEC # replicate 127 FREESEC,
     data = replicate 512 0, dt_size = 1536, in_size = 2, dt_max = 1536,
     in_max = 0, in_buf = [7, 8]\<rparr>"

lemma tiny_disk_wf: "wf_geom tiny_disk"
  by (auto simp: wf_geom_def Let_def tiny_disk_def nth_Cons' BYTSPERSEC_def)

theorem save_then_open_witness:
  "\<exists>files' mx mx'. save_disk (Some 1536, True) (Some 2, True) tiny_disk [1] [2] [[2] \<mapsto> [5]] = Some (0, files')
     \<and> open_disk calm_env (\<lambda>_ _. Some 3) files' [1] [2] = Some (Some (tiny_disk\<lparr>dt_max := mx, in_max := mx'\<rparr>))"
  using save_then_open [OF tiny_disk_wf _ _ _ _ _ calm_env_ok, of "\<lambda>_ _. Some 3" "[1]" "[2]" "[[2] \<mapsto> [5]]" 1536 2]
  by (simp add: tiny_disk_def)

end
