(* ===== verification/CfsOps.thy ===== *)
theory CfsOps
  imports CfsMk
begin

text \<open>
  The operations on paths that \<open>c_node/fs/cfs.c\<close> offers to the control node. Each is one
  definition: its result is the C return value with the new disk and the values the
  operation hands back; \<open>None\<close> is an access outside an object.
\<close>

unbundle bit_operations_syntax

section \<open>The parts every operation starts with\<close>

text \<open>
  The path is split, its parent is looked up, and the parent has to be a directory;
  \<open>noname\<close>, \<open>lookup_err\<close> and \<open>notdir\<close> are what the operation returns otherwise, made into
  its result by \<open>fail\<close>.
\<close>

definition with_parent ::
  "env \<Rightarrow> dtree \<Rightarrow> buf \<Rightarrow> u32_t \<Rightarrow> int \<Rightarrow> (int \<Rightarrow> int) \<Rightarrow> int \<Rightarrow> (int \<Rightarrow> 'r)
   \<Rightarrow> (buf \<Rightarrow> file_entry \<Rightarrow> 'r option) \<Rightarrow> 'r option" where
  "with_parent E dt path uid noname lookup_err notdir fail k =
     (case get_filename_from_path path of
        None \<Rightarrow> Some (fail noname)
      | Some (dirpath, filename) \<Rightarrow> do {
          ret \<leftarrow> c_lookup E dt dirpath uid;
          case ret of
            Inl e \<Rightarrow> Some (fail (lookup_err e))
          | Inr parent \<Rightarrow>
              if fe_type parent \<noteq> S_DIR then Some (fail notdir) else k filename parent
        })"

text \<open>\<open>malloc((meta.blocks + extra) * bytsPerSec)\<close>, and \<open>do_readdir\<close> or \<open>do_readfile\<close> into it.\<close>

definition with_buf ::
  "env \<Rightarrow> dtree \<Rightarrow> u32_t \<Rightarrow> file_meta \<Rightarrow> u32_t \<Rightarrow> (int \<Rightarrow> 'r) \<Rightarrow> (buf \<Rightarrow> 'r option) \<Rightarrow> 'r option" where
  "with_buf E dt fb meta extra fail k =
     (case malloc E (unat ((fm_blocks meta + extra) * bps dt)) of
        None \<Rightarrow> Some (fail (- 9))
      | Some b \<Rightarrow> do { b \<leftarrow> do_readfile dt fb b; k b })"

section \<open>Reading operations\<close>

definition c_getblocknum :: "env \<Rightarrow> dtree \<Rightarrow> buf \<Rightarrow> int option" where
  "c_getblocknum E dt path =
     with_parent E dt path 0 (- 1) (\<lambda>_. - 1) (- 1) id (\<lambda>filename parent. do {
       pmeta \<leftarrow> read_meta dt (fe_fb parent);
       with_buf E dt (fe_fb parent) pmeta 0 id (\<lambda>pdata. do {
         p \<leftarrow> find_entry_by_name pdata filename;
         case p of
           None \<Rightarrow> Some (- 1)
         | Some off \<Rightarrow> do {
             ofile \<leftarrow> get_entry pdata off;
             meta \<leftarrow> read_meta dt (fe_fb ofile);
             Some (sint (ucast (fm_strbase meta div szof_fblock) :: 32 word))
           }
       })
     })"

text \<open>The loop compares the address with the end for equality.\<close>

function getblocks_loop :: "buf \<Rightarrow> nat \<Rightarrow> nat \<Rightarrow> u64_t list option" where
  "getblocks_loop b e ptr =
     (if ptr \<noteq> e then
        case get_fblock b ptr of
          None \<Rightarrow> None
        | Some x \<Rightarrow> map_option (\<lambda>l. bl_block_num x # l) (getblocks_loop b e (ptr + 32))
      else Some [])"
  by pat_completeness auto
termination
  by (relation "measure (\<lambda>(b, e, ptr). length b - ptr)") (auto simp: get_at_def rd_def split: if_splits)

declare getblocks_loop.simps [simp del]

definition c_getblocks :: "env \<Rightarrow> dtree \<Rightarrow> buf \<Rightarrow> (int \<times> u64_t list) option" where
  "c_getblocks E dt path =
     with_parent E dt path 0 (- 1) (\<lambda>_. - 1) (- 1) (\<lambda>e. (e, [])) (\<lambda>filename parent. do {
       pmeta \<leftarrow> read_meta dt (fe_fb parent);
       with_buf E dt (fe_fb parent) pmeta 0 (\<lambda>e. (e, [])) (\<lambda>pdata. do {
         p \<leftarrow> find_entry_by_name pdata filename;
         case p of
           None \<Rightarrow> Some (- 1, [])
         | Some off \<Rightarrow> do {
             ofile \<leftarrow> get_entry pdata off;
             meta \<leftarrow> read_meta dt (fe_fb ofile);
             with_buf E dt (fe_fb ofile) meta 0 (\<lambda>e. (e, [])) (\<lambda>buf. do {
               l \<leftarrow> getblocks_loop buf (64 + unat (fm_strbase meta)) 64;
               Some (int (length l), l)
             })
           }
       })
     })"

definition c_stat :: "env \<Rightarrow> dtree \<Rightarrow> buf \<Rightarrow> u32_t \<Rightarrow> (int \<times> c_stat_t option) option" where
  "c_stat E dt path uid =
     with_parent E dt path uid (- 1) (\<lambda>_. - 1) (- 1) (\<lambda>e. (e, None)) (\<lambda>filename parent. do {
       pmeta \<leftarrow> read_meta dt (fe_fb parent);
       with_buf E dt (fe_fb parent) pmeta 0 (\<lambda>e. (e, None)) (\<lambda>pdata. do {
         p \<leftarrow> find_entry_by_name pdata filename;
         case p of
           None \<Rightarrow> Some (- 1, None)
         | Some off \<Rightarrow> do {
             ofile \<leftarrow> get_entry pdata off;
             meta \<leftarrow> read_meta dt (fe_fb ofile);
             if permission_check uid meta opR = 0 then Some (- 4, None)
             else Some (0, Some \<lparr>st_size = fm_flen meta, st_atime = fm_r_time meta,
               st_mtime = fm_w_time meta, st_ctime = fm_c_time meta, st_owner = fm_uid meta,
               st_mode = fm_flags meta\<rparr>)
           }
       })
     })"

definition c_opendir :: "env \<Rightarrow> dtree \<Rightarrow> buf \<Rightarrow> u32_t \<Rightarrow> (int \<times> u64_t option) option" where
  "c_opendir E dt path uid = do {
     ret \<leftarrow> c_lookup E dt path uid;
     case ret of
       Inl _ \<Rightarrow> Some (- 1, None)
     | Inr entry \<Rightarrow> do {
         meta \<leftarrow> read_meta dt (fe_fb entry);
         if permission_check uid meta opR = 0 then Some (- 4, None)
         else Some (sint (fe_fb entry), Some (fm_strbase meta div szof_entry))
       }
   }"

text \<open>
  \<open>strncpy\<close> of at most \<open>n\<close> bytes followed by a NUL in the last of them: the string that
  arrives. Without a NUL among the bytes copied, all \<open>n\<close> have to be in the object.
\<close>

definition strncpy_at :: "buf \<Rightarrow> nat \<Rightarrow> nat \<Rightarrow> buf option" where
  "strncpy_at b off n = (let s = takeWhile (\<lambda>x. x \<noteq> 0) (take n (drop off b))
     in if length s = n \<or> off + length s < length b then Some (take (n - 1) s) else None)"

definition c_readdir ::
  "env \<Rightarrow> dtree \<Rightarrow> u32_t \<Rightarrow> u64_t \<Rightarrow> u32_t \<Rightarrow> (int \<times> (buf \<times> u8_t) option) option" where
  "c_readdir E dt fb entnum uid = do {
     meta \<leftarrow> read_meta dt fb;
     if entnum * szof_entry \<ge> fm_strbase meta then Some (- 1, None)
     else with_buf E dt fb meta 0 (\<lambda>e. (e, None)) (\<lambda>buf. do {
       ptr \<leftarrow> get_entry buf (64 + unat (entnum * szof_entry));
       name \<leftarrow> strncpy_at buf (64 + unat (fm_strbase meta) + unat (fe_name ptr)) MAX_FILENAME;
       Some (0, Some (name, fe_type ptr))
     })
   }"

section \<open>Ownership and mode\<close>

definition c_chown :: "env \<Rightarrow> dtree \<Rightarrow> buf \<Rightarrow> u32_t \<Rightarrow> u32_t \<Rightarrow> (int \<times> dtree) option" where
  "c_chown E dt path newuid uid = do {
     ret \<leftarrow> c_lookup E dt path uid;
     case ret of
       Inl e \<Rightarrow> Some (e, dt)
     | Inr entry \<Rightarrow> do {
         meta \<leftarrow> read_meta dt (fe_fb entry);
         if \<not> own_check uid (fm_uid meta) then Some (4, dt)
         else if fm_uid meta = newuid then Some (0, dt)
         else if uid \<noteq> 0 then Some (4, dt)
         else do {
           dt \<leftarrow> write_meta dt (fe_fb entry) (meta\<lparr>fm_uid := newuid\<rparr>);
           Some (0, dt)
         }
       }
   }"

definition c_chmod :: "env \<Rightarrow> dtree \<Rightarrow> buf \<Rightarrow> u8_t \<Rightarrow> u32_t \<Rightarrow> (int \<times> dtree) option" where
  "c_chmod E dt path mode uid = do {
     ret \<leftarrow> c_lookup E dt path uid;
     case ret of
       Inl e \<Rightarrow> Some (e, dt)
     | Inr entry \<Rightarrow> do {
         meta \<leftarrow> read_meta dt (fe_fb entry);
         if \<not> own_check uid (fm_uid meta) then Some (4, dt)
         else do {
           dt \<leftarrow> write_meta dt (fe_fb entry)
             (meta\<lparr>fm_flags := (fm_flags meta AND NOT S_ALL) OR mode\<rparr>);
           Some (0, dt)
         }
       }
   }"

section \<open>Creating\<close>

definition c_open ::
  "env \<Rightarrow> dtree \<Rightarrow> buf \<Rightarrow> u8_t \<Rightarrow> u8_t \<Rightarrow> u32_t \<Rightarrow> (int \<times> dtree) option" where
  "c_open E dt path oflags mode uid =
     with_parent E dt path uid (- 1) (\<lambda>_. - 1) (- 1) (\<lambda>e. (e, dt)) (\<lambda>filename parent. do {
       pmeta \<leftarrow> read_meta dt (fe_fb parent);
       let wcheck = (permission_check uid pmeta opW \<noteq> 0);
       let rcheck = (permission_check uid pmeta opR \<noteq> 0);
       let check = (wcheck \<and> oflags OR SBP_O_WRONLY \<noteq> 0) \<or> (rcheck \<and> oflags OR SBP_O_RDONLY \<noteq> 0)
          \<or> (wcheck \<and> rcheck \<and> oflags OR SBP_O_RDWR \<noteq> 0);
       if \<not> check then Some (- 4, dt)
       else with_buf E dt (fe_fb parent) pmeta 0 (\<lambda>e. (e, dt)) (\<lambda>pdata. do {
         p \<leftarrow> find_entry_by_name pdata filename;
         case p of
           None \<Rightarrow>
             if oflags OR SBP_O_CREAT \<noteq> 0 then
               let newsize = fm_flen pmeta + szof_entry + word_of_nat (length filename) + 1
               in (case malloc E (unat newsize) of
                     None \<Rightarrow> Some (- 9, dt)
                   | Some buf \<Rightarrow> do {
                       buf \<leftarrow> add_slot buf pdata pmeta S_FIL;
                       (_, fb, dt) \<leftarrow> initfile E dt uid mode;
                       buf \<leftarrow> link_entry buf pdata pmeta filename fb newsize (bps dt) 0;
                       dt \<leftarrow> do_writefile E dt (fe_fb parent) buf newsize;
                       ofile \<leftarrow> get_entry buf (64 + unat (fm_strbase pmeta));
                       Some (sint (fe_fb ofile), dt)
                     })
             else Some (- 1, dt)
         | Some off \<Rightarrow> do {
             ofile \<leftarrow> get_entry pdata off;
             if fe_type ofile = S_DIR then Some (- 2, dt) else Some (sint (fe_fb ofile), dt)
           }
       })
     })"

definition c_mkdir :: "env \<Rightarrow> dtree \<Rightarrow> buf \<Rightarrow> u32_t \<Rightarrow> (int \<times> dtree) option" where
  "c_mkdir E dt path uid =
     with_parent E dt path uid 1 id 2 (\<lambda>e. (e, dt)) (\<lambda>dirname parent. do {
       pmeta \<leftarrow> read_meta dt (fe_fb parent);
       if permission_check uid pmeta opW = 0 then Some (4, dt)
       else with_buf E dt (fe_fb parent) pmeta 0 (\<lambda>e. (e, dt)) (\<lambda>pdata. do {
         p \<leftarrow> find_entry_by_name pdata dirname;
         if p \<noteq> None then Some (3, dt)
         else
           let newsize = fm_flen pmeta + word_of_nat (length dirname) + 1 + szof_entry
           in (case malloc E (unat newsize) of
                 None \<Rightarrow> Some (- 9, dt)
               | Some _ \<Rightarrow> do {
                   buf \<leftarrow> add_slot (replicate (unat newsize) 0) pdata pmeta S_DIR;
                   (_, fb, dt) \<leftarrow> initdir E dt uid (Some (fe_fb parent));
                   buf \<leftarrow> link_entry buf pdata pmeta dirname fb newsize (bps dt) 1;
                   dt \<leftarrow> do_writefile E dt (fe_fb parent) buf newsize;
                   Some (0, dt)
                 })
       })
     })"

section \<open>Removing\<close>

definition c_rmdir :: "env \<Rightarrow> dtree \<Rightarrow> buf \<Rightarrow> u32_t \<Rightarrow> (int \<times> dtree) option" where
  "c_rmdir E dt path uid =
     with_parent E dt path uid 1 id 1 (\<lambda>e. (e, dt)) (\<lambda>dirname parent. do {
       pmeta \<leftarrow> read_meta dt (fe_fb parent);
       if permission_check uid pmeta opW = 0 then Some (4, dt)
       else with_buf E dt (fe_fb parent) pmeta 0 (\<lambda>e. (e, dt)) (\<lambda>pdata. do {
         p \<leftarrow> find_entry_by_name pdata dirname;
         case p of
           None \<Rightarrow> Some (1, dt)
         | Some off \<Rightarrow> do {
             rmdirent \<leftarrow> get_entry pdata off;
             if fe_type rmdirent \<noteq> S_DIR then Some (2, dt) else do {
               meta \<leftarrow> read_meta dt (fe_fb rmdirent);
               with_buf E dt (fe_fb rmdirent) meta 0 (\<lambda>e. (e, dt)) (\<lambda>_.
                 if \<not> is_dir_empty meta then Some (3, dt) else do {
                   pdata \<leftarrow> upd_meta pdata (\<lambda>m. m\<lparr>fm_count := fm_count m - 1\<rparr>);
                   fat \<leftarrow> reset_fat (fe_fb rmdirent) (fat_p dt);
                   let dt = dt\<lparr>fat_p := fat\<rparr>;
                   (ret, pdata) \<leftarrow> do_remove_entry E pdata off;
                   if ret \<noteq> 0 then Some (ret, dt) else do {
                     real_pmeta \<leftarrow> get_meta pdata 0;
                     dt \<leftarrow> do_writefile E dt (fe_fb parent) pdata (fm_flen real_pmeta);
                     Some (0, dt)
                   }
                 })
             }
           }
       })
     })"

definition c_remove :: "env \<Rightarrow> dtree \<Rightarrow> buf \<Rightarrow> u32_t \<Rightarrow> (int \<times> dtree) option" where
  "c_remove E dt path uid =
     with_parent E dt path uid 1 id 1 (\<lambda>e. (e, dt)) (\<lambda>filename parent. do {
       pmeta \<leftarrow> read_meta dt (fe_fb parent);
       if permission_check uid pmeta opW = 0 then Some (4, dt)
       else with_buf E dt (fe_fb parent) pmeta 0 (\<lambda>e. (e, dt)) (\<lambda>pdata. do {
         p \<leftarrow> find_entry_by_name pdata filename;
         case p of
           None \<Rightarrow> Some (1, dt)
         | Some off \<Rightarrow> do {
             entry \<leftarrow> get_entry pdata off;
             if fe_type entry = S_DIR then Some (2, dt) else do {
               _ \<leftarrow> read_meta dt (fe_fb entry);
               pdata \<leftarrow> upd_meta pdata (\<lambda>m. m\<lparr>fm_count := fm_count m - 1\<rparr>);
               fat \<leftarrow> reset_fat (fe_fb entry) (fat_p dt);
               let dt = dt\<lparr>fat_p := fat\<rparr>;
               (ret, pdata) \<leftarrow> do_remove_entry E pdata off;
               if ret \<noteq> 0 then Some (ret, dt) else do {
                 real_pmeta \<leftarrow> get_meta pdata 0;
                 dt \<leftarrow> do_writefile E dt (fe_fb parent) pdata (fm_flen real_pmeta);
                 Some (0, dt)
               }
             }
           }
       })
     })"

section \<open>Moving\<close>

text \<open>
  Within one directory the new name is copied to \<open>spdata + pmeta->strlen\<close>; between two,
  the entry is copied behind the destination's entries and removed from the source.
  \<open>srcent->type\<close> is read after the removal, from wherever \<open>srcent\<close> then points.
\<close>

definition move_same :: "env \<Rightarrow> dtree \<Rightarrow> u32_t \<Rightarrow> buf \<Rightarrow> nat \<Rightarrow> buf \<Rightarrow> (int \<times> dtree) option" where
  "move_same E dt fb spdata srcent dstname = do {
     spdata \<leftarrow> upd_meta spdata (\<lambda>m. m\<lparr>fm_w_time := now E\<rparr>);
     pmeta \<leftarrow> get_meta spdata 0;
     spdata \<leftarrow> wr spdata (unat (fm_strlen pmeta)) (dstname @ [0]);
     pmeta \<leftarrow> get_meta spdata 0;
     e \<leftarrow> get_entry spdata srcent;
     spdata \<leftarrow> put_entry spdata srcent (e\<lparr>fe_name := fm_strlen pmeta\<rparr>);
     spdata \<leftarrow> upd_meta spdata (\<lambda>m. m\<lparr>fm_strlen := fm_strlen m + (word_of_nat (length dstname) + 1),
       fm_flen := fm_flen m + (word_of_nat (length dstname) + 1)\<rparr>);
     pmeta \<leftarrow> get_meta spdata 0;
     dt \<leftarrow> do_writefile E dt fb spdata (fm_flen pmeta);
     Some (0, dt)
   }"

definition move_across ::
  "env \<Rightarrow> dtree \<Rightarrow> u32_t \<Rightarrow> u32_t \<Rightarrow> buf \<Rightarrow> buf \<Rightarrow> nat \<Rightarrow> buf \<Rightarrow> (int \<times> dtree) option" where
  "move_across E dt sfb dfb spdata dpdata srcent dstname = do {
     dpmeta \<leftarrow> get_meta dpdata 0;
     _ \<leftarrow> malloc E (unat (fm_strlen dpmeta));
     tmp \<leftarrow> rd dpdata (64 + unat (fm_strbase dpmeta)) (unat (fm_strlen dpmeta));
     e \<leftarrow> get_entry spdata srcent;
     dpdata \<leftarrow> put_entry dpdata (64 + unat (fm_strbase dpmeta)) e;
     dpdata \<leftarrow> upd_meta dpdata (\<lambda>m. m\<lparr>fm_strbase := fm_strbase m + szof_entry\<rparr>);
     dpmeta \<leftarrow> get_meta dpdata 0;
     dpdata \<leftarrow> wr dpdata (64 + unat (fm_strbase dpmeta)) tmp;
     dpdata \<leftarrow> wr dpdata (64 + unat (fm_strbase dpmeta) + unat (fm_strlen dpmeta)) (dstname @ [0]);
     dpdata \<leftarrow> upd_meta dpdata (\<lambda>m. m\<lparr>fm_strlen := fm_strlen m + (word_of_nat (length dstname) + 1)\<rparr>);
     (_, spdata) \<leftarrow> do_remove_entry E spdata srcent;
     e \<leftarrow> get_entry spdata srcent;
     (spdata, dpdata) \<leftarrow> (if fe_type e = S_DIR then do {
         dpdata \<leftarrow> upd_meta dpdata (\<lambda>m. m\<lparr>fm_count := fm_count m + 1\<rparr>);
         spdata \<leftarrow> upd_meta spdata (\<lambda>m. m\<lparr>fm_count := fm_count m - 1\<rparr>);
         Some (spdata, dpdata)
       } else Some (spdata, dpdata));
     spmeta \<leftarrow> get_meta spdata 0;
     dt \<leftarrow> do_writefile E dt sfb spdata (fm_flen spmeta);
     dpmeta \<leftarrow> get_meta dpdata 0;
     dt \<leftarrow> do_writefile E dt dfb dpdata (fm_flen dpmeta);
     Some (0, dt)
   }"

definition c_move :: "env \<Rightarrow> dtree \<Rightarrow> buf \<Rightarrow> buf \<Rightarrow> u32_t \<Rightarrow> (int \<times> dtree) option" where
  "c_move E dt srcpath dstpath uid =
     (if get_filename_from_path dstpath = None then Some (1, dt) else
      with_parent E dt srcpath uid 1 id 1 (\<lambda>e. (e, dt)) (\<lambda>srcname sparent.
      with_parent E dt dstpath uid 1 id 1 (\<lambda>e. (e, dt)) (\<lambda>dstname dparent. do {
        spmeta \<leftarrow> read_meta dt (fe_fb sparent);
        dpmeta \<leftarrow> read_meta dt (fe_fb dparent);
        if permission_check uid spmeta opW = 0 \<or> permission_check uid dpmeta opW = 0
        then Some (4, dt)
        else with_buf E dt (fe_fb sparent) spmeta 1 (\<lambda>e. (e, dt)) (\<lambda>spdata. do {
          s \<leftarrow> find_entry_by_name spdata srcname;
          case s of
            None \<Rightarrow> Some (1, dt)
          | Some srcent \<Rightarrow>
              with_buf E dt (fe_fb dparent) dpmeta 1 (\<lambda>e. (e, dt)) (\<lambda>dpdata. do {
                d \<leftarrow> find_entry_by_name dpdata dstname;
                if d \<noteq> None then Some (2, dt) else do {
                  e \<leftarrow> get_entry spdata srcent;
                  _ \<leftarrow> read_meta dt (fe_fb e);
                  if fe_fb sparent = fe_fb dparent
                  then move_same E dt (fe_fb sparent) spdata srcent dstname
                  else move_across E dt (fe_fb sparent) (fe_fb dparent) spdata dpdata srcent dstname
                }
              })
        })
      })))"

end
