(* ===== verification/CfsBlocks.thy ===== *)
theory CfsBlocks
  imports CfsOps
begin

text \<open>
  Reading and writing through the block list of a file: \<open>c_read\<close> and \<open>c_write\<close> of
  \<open>c_node/fs/cfs.c\<close> compute which data blocks a byte range touches, hand them to the client
  as send blocks, and allocate blocks for what a write appends.
\<close>

unbundle bit_operations_syntax

section \<open>The number of blocks of a range\<close>

text \<open>
  \<open>blocknum\<close> is an \<open>int\<close>: the quotient is truncated to 32 bits before the increments.
\<close>

definition block_span :: "u64_t \<Rightarrow> u64_t \<Rightarrow> int" where
  "block_span offset len =
     (let offset_1 = up_div offset BLOCKSIZE * BLOCKSIZE;
          length_1 = ((len + offset) div BLOCKSIZE) * BLOCKSIZE;
          n0 = sint (ucast ((length_1 - offset_1) div BLOCKSIZE) :: 32 word);
          n1 = (if offset \<noteq> offset_1 then n0 + 1 else n0)
      in if offset + len \<noteq> length_1 then n1 + 1 else n1)"

text \<open>
  The loops that fill the array of send blocks: one step per block, \<open>st\<close> is the buffer (and
  what else the step changes).
\<close>

fun pieces :: "('s \<Rightarrow> nat \<Rightarrow> ('s \<times> sendblock) option) \<Rightarrow> 's \<Rightarrow> nat list \<Rightarrow> ('s \<times> sendblock list) option" where
  "pieces step st [] = Some (st, [])"
| "pieces step st (i # is) = do {
     (st, s) \<leftarrow> step st i;
     (st, ss) \<leftarrow> pieces step st is;
     Some (st, s # ss)
   }"

definition sendblock_of :: "file_block \<Rightarrow> u64_t \<Rightarrow> u64_t \<Rightarrow> sendblock" where
  "sendblock_of b offset len = \<lparr>sd_block_num = bl_block_num b, sd_offset = ucast offset,
     sd_length = ucast len, sd_ip = bl_ip b\<rparr>"

text \<open>Where the block list has the block of an offset.\<close>

definition fb_start :: "u64_t \<Rightarrow> nat" where
  "fb_start offset = 64 + unat ((offset div BLOCKSIZE) * szof_fblock)"

section \<open>Reading\<close>

definition read_piece :: "u64_t \<Rightarrow> u64_t \<Rightarrow> int \<Rightarrow> buf \<Rightarrow> nat \<Rightarrow> (buf \<times> sendblock) option" where
  "read_piece offset len blocknum buf i = do {
     b \<leftarrow> get_fblock buf (fb_start offset + 32 * i);
     Some (buf,
       if i = 0 then sendblock_of b (offset mod BLOCKSIZE) (BLOCKSIZE - offset)
       else if int i = blocknum - 1 then
         sendblock_of b 0 (if (offset + len) mod BLOCKSIZE \<noteq> 0 then (offset + len) mod BLOCKSIZE
                           else BLOCKSIZE)
       else sendblock_of b 0 BLOCKSIZE)
   }"

definition c_read :: "env \<Rightarrow> dtree \<Rightarrow> u32_t \<Rightarrow> u64_t \<Rightarrow> u64_t \<Rightarrow> u32_t \<Rightarrow> (int \<times> sendblock list) option" where
  "c_read E dt fb offset len uid = do {
     meta \<leftarrow> read_meta dt fb;
     if fm_flen meta < offset then Some (- 1, [])
     else
       let len = (if len < fm_flen meta - offset then len else fm_flen meta - offset)
       in (case malloc E (unat (fm_blocks meta * bps dt)) of
             None \<Rightarrow> Some (- 9, [])
           | Some buf \<Rightarrow> do {
               buf \<leftarrow> do_readfile dt fb buf;
               let blocknum = block_span offset len;
               if blocknum = 1 then do {
                 b \<leftarrow> get_fblock buf (fb_start offset);
                 Some (1, [sendblock_of b (offset mod BLOCKSIZE) len])
               } else do {
                 (_, sblocks) \<leftarrow> pieces (read_piece offset len blocknum) buf [0..<nat blocknum];
                 Some (blocknum, sblocks)
               }
             })
   }"

section \<open>Writing\<close>

text \<open>
  Overwriting (no new blocks): the length of the last block may grow; in the case of a
  single block its length is set to \<open>length + offset\<close>.
\<close>

definition over_piece :: "u64_t \<Rightarrow> u64_t \<Rightarrow> int \<Rightarrow> buf \<Rightarrow> nat \<Rightarrow> (buf \<times> sendblock) option" where
  "over_piece offset len blocknum buf i = do {
     b \<leftarrow> get_fblock buf (fb_start offset + 32 * i);
     if i = 0 then Some (buf, sendblock_of b (offset mod BLOCKSIZE) (BLOCKSIZE - offset))
     else if int i = blocknum - 1 then do {
       let s = sendblock_of b 0 (if (offset + len) mod BLOCKSIZE \<noteq> 0 then (offset + len) mod BLOCKSIZE
                                 else BLOCKSIZE);
       buf \<leftarrow> put_fblock buf (fb_start offset + 32 * i)
         (b\<lparr>bl_length := (if sd_length s < bl_length b then bl_length b else sd_length s)\<rparr>);
       Some (buf, s)
     } else Some (buf, sendblock_of b 0 BLOCKSIZE)
   }"

definition old_piece :: "u64_t \<Rightarrow> buf \<Rightarrow> nat \<Rightarrow> (buf \<times> sendblock) option" where
  "old_piece offset buf i = do {
     b \<leftarrow> get_fblock buf (fb_start offset + 32 * i);
     Some (buf, if i = 0 then sendblock_of b (offset mod BLOCKSIZE) (BLOCKSIZE - offset)
                else sendblock_of b 0 BLOCKSIZE)
   }"

text \<open>
  A new block is allocated in the buffer behind the blocks that \<open>strbase\<close> counts, and its
  length is the length it is sent with.
\<close>

definition new_piece ::
  "u32_t list \<Rightarrow> int \<Rightarrow> u64_t \<Rightarrow> int \<Rightarrow> buf \<times> dtree \<times> int \<Rightarrow> nat \<Rightarrow> ((buf \<times> dtree \<times> int) \<times> sendblock) option" where
  "new_piece ips iplen len newblocknum st i = (case st of (buf, dt, ctr) \<Rightarrow> do {
     real_meta \<leftarrow> get_meta buf 0;
     (b, dt, ctr) \<leftarrow> alloc_block dt ctr ips iplen;
     let s = sendblock_of b 0 (if int i = newblocknum - 1
               then (if len mod BLOCKSIZE \<noteq> 0 then len mod BLOCKSIZE else BLOCKSIZE)
               else BLOCKSIZE);
     buf \<leftarrow> put_fblock buf (64 + unat (fm_strbase real_meta)) (b\<lparr>bl_length := sd_length s\<rparr>);
     buf \<leftarrow> upd_meta buf (\<lambda>m. m\<lparr>fm_strbase := fm_strbase m + szof_fblock\<rparr>);
     Some ((buf, dt, ctr), s)
   })"

text \<open>The part of \<open>c_write\<close> between reading the block list and writing it back.\<close>

definition write_list ::
  "u32_t list \<Rightarrow> int \<Rightarrow> u64_t \<Rightarrow> u64_t \<Rightarrow> int \<Rightarrow> int \<Rightarrow> buf \<times> dtree \<times> int
   \<Rightarrow> ((buf \<times> dtree \<times> int) \<times> sendblock list) option" where
  "write_list ips iplen offset len blocknum newblocknum st = (case st of (buf, dt, ctr) \<Rightarrow>
     if newblocknum \<le> 0 then
       if blocknum = 1 then do {
         b \<leftarrow> get_fblock buf (fb_start offset);
         buf \<leftarrow> put_fblock buf (fb_start offset) (b\<lparr>bl_length := ucast (len + offset)\<rparr>);
         Some ((buf, dt, ctr), [sendblock_of b (offset mod BLOCKSIZE) len])
       } else do {
         (buf, ss) \<leftarrow> pieces (over_piece offset len blocknum) buf [0..<nat blocknum];
         Some ((buf, dt, ctr), ss)
       }
     else do {
       let oldblocknum = (word_of_int (blocknum - newblocknum) :: u64_t);
       (buf, ss) \<leftarrow> pieces (old_piece offset) buf [0..<unat oldblocknum];
       (st, ss') \<leftarrow> pieces (new_piece ips iplen len newblocknum) (buf, dt, ctr) [0..<nat newblocknum];
       Some (st, ss @ ss')
     })"

definition c_write ::
  "env \<Rightarrow> dtree \<Rightarrow> int \<Rightarrow> u32_t \<Rightarrow> u64_t \<Rightarrow> u64_t \<Rightarrow> u32_t \<Rightarrow> u32_t list \<Rightarrow> int
   \<Rightarrow> (int \<times> sendblock list \<times> dtree \<times> int) option" where
  "c_write E dt ctr fb offset len uid ips iplen = do {
     meta \<leftarrow> read_meta dt fb;
     let newsize = (if fm_flen meta < offset + len then offset + len else fm_flen meta);
     if fm_flen meta < offset then Some (- 1, [], dt, ctr)
     else
       let bufsize_1 = szof_meta + up_div (offset + len) BLOCKSIZE * szof_fblock;
           bufsize_2 = (ucast (fm_blocks meta * bps dt) :: u64_t);
           bufsize = (if bufsize_1 > bufsize_2 then bufsize_1 else bufsize_2)
       in (case malloc E (unat bufsize) of
             None \<Rightarrow> Some (- 9, [], dt, ctr)
           | Some buf \<Rightarrow> do {
               buf \<leftarrow> do_readfile dt fb buf;
               let blocknum = block_span offset len;
               let newblocknum = sint (ucast (up_div (offset + len) BLOCKSIZE
                                   - up_div (fm_flen meta) BLOCKSIZE) :: 32 word);
               ((buf, dt, ctr), sblocks) \<leftarrow>
                 write_list ips iplen offset len blocknum newblocknum (buf, dt, ctr);
               buf \<leftarrow> upd_meta buf (\<lambda>m. m\<lparr>fm_flen := newsize, fm_w_time := now E,
                 fm_blocks := ucast (up_div (szof_meta + fm_strbase m) (ucast (bps dt)))\<rparr>);
               real_meta \<leftarrow> get_meta buf 0;
               if bps dt = 0 then None else do {
                 dt \<leftarrow> do_writefile E dt fb buf (szof_meta + fm_strbase real_meta);
                 Some (blocknum, sblocks, dt, ctr)
               }
             })
   }"

end
