(* ===== verification/SbpStr.thy ===== *)
theory SbpStr
  imports Prelude
begin

text \<open>
  The C library functions on strings and numbers that the client and the data node use:
  \<open>strstr\<close>, \<open>atoll\<close>/\<open>atoi\<close> and the decimal and hexadecimal conversions of \<open>sprintf\<close>.
  A string literal of the code is written \<open>lit ''...''\<close>: its bytes before the NUL.
\<close>

section \<open>Literals\<close>

definition lit :: "string \<Rightarrow> buf" where
  "lit s = map of_char s"

abbreviation CRLF :: buf where "CRLF \<equiv> [13, 10]"
abbreviation SEP :: buf where "SEP \<equiv> [58, 32]"

section \<open>\<open>strstr\<close>\<close>

text \<open>
  The search runs from a pointer into an object; the list is the rest of the object. It
  stops at the first match or at the NUL; running off the object is \<open>None\<close>.
\<close>

definition starts :: "buf \<Rightarrow> buf \<Rightarrow> bool" where
  "starts pat s \<longleftrightarrow> take (length pat) s = pat"

fun strstr :: "buf \<Rightarrow> buf \<Rightarrow> nat option option" where
  "strstr [] pat = None"
| "strstr (x # xs) pat =
     (if starts pat (x # xs) then Some (Some 0)
      else if x = 0 then Some None
      else map_option (map_option Suc) (strstr xs pat))"

lemma starts_append [simp]: "starts pat (pat @ s)"
  by (simp add: starts_def)

lemma starts_Nil [simp]: "starts [] s"
  by (simp add: starts_def)

lemma starts_Cons: "starts (p # ps) s \<longleftrightarrow> (\<exists>r. s = p # r \<and> starts ps r)"
  by (cases s) (auto simp: starts_def)

lemma starts_prefix: "starts pat s \<longleftrightarrow> (\<exists>r. s = pat @ r)"
  unfolding starts_def by (metis append_eq_conv_conj append_take_drop_id)

text \<open>The first match: before it no position matches and no NUL stands.\<close>

lemma strstr_found:
  assumes "0 \<notin> set a" and "\<And>i. i < length a \<Longrightarrow> \<not> starts pat (drop i a @ pat @ b)" and "pat \<noteq> []"
  shows "strstr (a @ pat @ b) pat = Some (Some (length a))"
  using assms(1,2)
proof (induction a)
  case Nil
  with assms(3) show ?case by (cases pat) (simp_all add: starts_def)
next
  case (Cons x xs)
  have "\<not> starts pat (x # xs @ pat @ b)" using Cons.prems(2) [of 0] by simp
  moreover have "strstr (xs @ pat @ b) pat = Some (Some (length xs))"
    using Cons.prems(1) Cons.prems(2) [of "Suc _"] by (intro Cons.IH) auto
  ultimately show ?case using Cons.prems(1) by simp
qed

text \<open>A string that does not hold the first byte of the pattern is passed over.\<close>

lemma strstr_skip:
  "0 \<notin> set a \<Longrightarrow> p \<notin> set a \<Longrightarrow>
    strstr (a @ s) (p # ps) = map_option (map_option (\<lambda>n. length a + n)) (strstr s (p # ps))"
  by (cases "strstr s (p # ps)"; cases "the (strstr s (p # ps))"; induction a)
     (auto simp: starts_Cons)

lemma strstr_here [simp]: "strstr (p # ps @ s) (p # ps) = Some (Some 0)"
  using starts_append [of "p # ps" s] by simp

lemma strstr_first:
  "0 \<notin> set a \<Longrightarrow> p \<notin> set a \<Longrightarrow> strstr (a @ (p # ps) @ s) (p # ps) = Some (Some (length a))"
  by (simp add: strstr_skip del: strstr.simps)

lemma strstr_bound:
  "strstr s pat = Some (Some n) \<Longrightarrow> starts pat (drop n s) \<and> 0 \<notin> set (take n s) \<and> n < length s"
proof (induction s pat arbitrary: n rule: strstr.induct)
  case (2 x xs pat)
  then show ?case by (cases n) (auto split: if_splits)
qed simp

lemma strstr_defined: "0 \<in> set s \<Longrightarrow> \<exists>r. strstr s pat = Some r"
  by (induction s pat rule: strstr.induct) auto

text \<open>A match stays the first one when the object goes on behind it.\<close>

lemma starts_append_left: "starts pat s \<Longrightarrow> starts pat (s @ r)"
  by (auto simp: starts_prefix)

lemma starts_append_short: "starts pat (s @ r) \<Longrightarrow> length pat \<le> length s \<Longrightarrow> starts pat s"
  by (simp add: starts_def)

lemma starts_length: "starts pat s \<Longrightarrow> length pat \<le> length s"
  by (auto simp: starts_prefix)

lemma strstr_append: "strstr s pat = Some (Some n) \<Longrightarrow> strstr (s @ r) pat = Some (Some n)"
proof (induction s pat arbitrary: n rule: strstr.induct)
  case (2 x xs pat)
  show ?case
  proof (cases "starts pat (x # xs)")
    case True
    then show ?thesis using 2 starts_append_left [of pat "x # xs" r] by simp
  next
    case False
    with 2 obtain m where x: "x \<noteq> 0" and m: "strstr xs pat = Some (Some m)" "n = Suc m"
      by (auto split: if_splits)
    have "length pat \<le> length xs"
      using strstr_bound [OF m(1)] starts_length [of pat "drop m xs"] by simp
    then have "\<not> starts pat (x # xs @ r)"
      using False starts_append_short [of pat "x # xs" r] by auto
    then show ?thesis using 2(1) [OF False x m(1)] x m(2) by simp
  qed
qed simp

text \<open>Passing over a token that does not hold the pattern, and a separator that is not in it.\<close>

fun occurs :: "buf \<Rightarrow> buf \<Rightarrow> bool" where
  "occurs pat [] \<longleftrightarrow> pat = []"
| "occurs pat (x # xs) \<longleftrightarrow> starts pat (x # xs) \<or> occurs pat xs"

lemma starts_separated: "starts pat (a @ x # s) \<Longrightarrow> x \<notin> set pat \<Longrightarrow> starts pat a"
proof (induction pat arbitrary: a)
  case (Cons p ps)
  then show ?case by (cases a) (auto simp: starts_Cons)
qed simp

lemma strstr_token:
  "\<not> occurs pat a \<Longrightarrow> 0 \<notin> set a \<Longrightarrow> x \<noteq> 0 \<Longrightarrow> x \<notin> set pat \<Longrightarrow>
    strstr (a @ x # s) pat = map_option (map_option (\<lambda>n. length a + 1 + n)) (strstr s pat)"
proof (induction a)
  case Nil
  then have "\<not> starts pat (x # s)" using starts_separated [of pat "[]" x s] by (auto simp: starts_def)
  then show ?case using Nil
    by (cases "strstr s pat"; cases "the (strstr s pat)") simp_all
next
  case (Cons y ys)
  then have "\<not> starts pat ((y # ys) @ x # s)" using starts_separated [of pat "y # ys" x s] by auto
  then show ?case using Cons
    by (cases "strstr s pat"; cases "the (strstr s pat)") simp_all
qed

lemma not_occurs_if_first: "p \<notin> set a \<Longrightarrow> \<not> occurs (p # ps) a"
  by (induction a) (auto simp: starts_Cons)

section \<open>Numbers\<close>

definition digit :: "nat \<Rightarrow> u8_t" where
  "digit d = word_of_nat (if d < 10 then 48 + d else 87 + d)"

fun udec :: "nat \<Rightarrow> buf" where
  "udec n = (if n < 10 then [digit n] else udec (n div 10) @ [digit (n mod 10)])"

declare udec.simps [simp del]

definition sdec :: "int \<Rightarrow> buf" where
  "sdec i = (if i < 0 then 45 # udec (nat (- i)) else udec (nat i))"

fun uhex :: "nat \<Rightarrow> buf" where
  "uhex n = (if n < 16 then [digit n] else uhex (n div 16) @ [digit (n mod 16)])"

declare uhex.simps [simp del]

text \<open>The flag \<open>0\<close> and a field width, as in \<open>%08d\<close> and \<open>%04x\<close>.\<close>

definition zpad :: "nat \<Rightarrow> buf \<Rightarrow> buf" where
  "zpad w s = replicate (w - length s) 48 @ s"

definition zdec :: "nat \<Rightarrow> int \<Rightarrow> buf" where
  "zdec w i = (if i < 0 then 45 # zpad (w - 1) (udec (nat (- i))) else zpad w (udec (nat i)))"

definition isdig :: "u8_t \<Rightarrow> bool" where
  "isdig c \<longleftrightarrow> 48 \<le> c \<and> c \<le> 57"

fun digits_val :: "buf \<Rightarrow> nat \<Rightarrow> nat" where
  "digits_val [] a = a"
| "digits_val (c # cs) a = (if isdig c then digits_val cs (10 * a + (unat c - 48)) else a)"

definition isspc :: "u8_t \<Rightarrow> bool" where
  "isspc c \<longleftrightarrow> c = 32 \<or> (9 \<le> c \<and> c \<le> 13)"

definition sval :: "buf \<Rightarrow> int" where
  "sval s = (case dropWhile isspc s of
       [] \<Rightarrow> 0
     | c # cs \<Rightarrow> if c = 45 then - int (digits_val cs 0)
                 else if c = 43 then int (digits_val cs 0)
                 else int (digits_val (c # cs) 0))"

text \<open>A value that the result type does not hold is undefined behaviour.\<close>

definition atoll :: "buf \<Rightarrow> int option" where
  "atoll s = (if - (2 ^ 63) \<le> sval s \<and> sval s < 2 ^ 63 then Some (sval s) else None)"

definition atoi :: "buf \<Rightarrow> int option" where
  "atoi s = (if - (2 ^ 31) \<le> sval s \<and> sval s < 2 ^ 31 then Some (sval s) else None)"

subsection \<open>Printing and reading back\<close>

lemma unat_digit: "d < 10 \<Longrightarrow> unat (digit d) = 48 + d"
  by (simp add: digit_def unat_word_of_nat_fit del: of_nat_add)

lemma isdig_digit [simp]: "d < 10 \<Longrightarrow> isdig (digit d)"
  by (simp add: isdig_def word_le_nat_alt unat_digit)

lemma isdig_udec: "c \<in> set (udec n) \<Longrightarrow> isdig c"
  by (induction n rule: udec.induct) (subst (asm) (2) udec.simps, auto split: if_splits)

lemma udec_nonempty [simp]: "udec n \<noteq> []"
  by (subst udec.simps) simp

lemma length_udec: "n < 10 ^ k \<Longrightarrow> 0 < k \<Longrightarrow> length (udec n) \<le> k"
proof (induction n arbitrary: k rule: udec.induct)
  case (1 n)
  show ?case
  proof (cases "n < 10")
    case True
    then show ?thesis using 1(3) by (subst udec.simps) simp
  next
    case False
    then obtain j where k: "k = Suc j" "0 < j" using 1(2,3) by (cases k; cases "k - 1") auto
    then have "length (udec (n div 10)) \<le> j" using 1(2) by (intro 1(1) [OF False]) simp_all
    then show ?thesis using False k by (subst udec.simps) simp
  qed
qed

lemma digits_val_append:
  "\<forall>c \<in> set s. isdig c \<Longrightarrow> digits_val (s @ t) a = digits_val t (digits_val s a)"
  by (induction s arbitrary: a) auto

lemma digits_val_udec: "digits_val (udec n) 0 = n"
proof (induction n rule: udec.induct)
  case (1 n)
  show ?case
  proof (cases "n < 10")
    case True
    then show ?thesis by (subst udec.simps) (simp add: unat_digit)
  next
    case False
    then have "udec n = udec (n div 10) @ [digit (n mod 10)]" by (subst udec.simps) simp
    then have "digits_val (udec n) 0 = digits_val [digit (n mod 10)] (digits_val (udec (n div 10)) 0)"
      by (simp add: digits_val_append isdig_udec)
    then show ?thesis using 1 False by (simp add: unat_digit)
  qed
qed

lemma isdig_plain: "isdig c \<Longrightarrow> \<not> isspc c \<and> c \<noteq> 45 \<and> c \<noteq> 43 \<and> c \<noteq> 0 \<and> c \<noteq> 13 \<and> c \<noteq> 10 \<and> c \<noteq> 58"
  by (auto simp: isdig_def isspc_def word_le_nat_alt)

lemma sval_udec: "sval (udec n) = int n"
proof (cases "udec n")
  case (Cons c cs)
  then have "isdig c" using isdig_udec [of c n] by simp
  then have "sval (udec n) = int (digits_val (udec n) 0)"
    using isdig_plain [of c] by (simp add: sval_def Cons)
  then show ?thesis by (simp add: digits_val_udec)
qed simp

lemma sval_sdec: "sval (sdec i) = i"
proof (cases "i < 0")
  case True
  then show ?thesis by (simp add: sdec_def sval_def isspc_def digits_val_udec)
next
  case False
  then show ?thesis by (simp add: sdec_def sval_udec)
qed

lemma sdec_plain: "c \<in> set (sdec i) \<Longrightarrow> c \<noteq> 0 \<and> c \<noteq> 13 \<and> c \<noteq> 10 \<and> c \<noteq> 58"
  by (auto simp: sdec_def dest: isdig_udec isdig_plain split: if_splits)

lemma atoll_sdec: "- (2 ^ 63) \<le> i \<Longrightarrow> i < 2 ^ 63 \<Longrightarrow> atoll (sdec i) = Some i"
  by (simp add: atoll_def sval_sdec)

lemma atoi_sdec: "- (2 ^ 31) \<le> i \<Longrightarrow> i < 2 ^ 31 \<Longrightarrow> atoi (sdec i) = Some i"
  by (simp add: atoi_def sval_sdec)

text \<open>A 64-bit number goes through \<open>%lld\<close> and \<open>atoll\<close> unchanged.\<close>

lemma sdec64_roundtrip: "map_option word_of_int (atoll (sdec (sint w))) = Some w" for w :: u64_t
  using sint_ge [of w] sint_less [of w] by (simp add: atoll_sdec)

lemma sdec32_roundtrip: "map_option word_of_int (atoi (sdec (sint w))) = Some w" for w :: u32_t
  using sint_ge [of w] sint_less [of w] by (simp add: atoi_sdec)

end
