(* ===== verification/Address.thy ===== *)
theory Address
  imports SbpStr
begin

text \<open>
  Addresses of data nodes: the client prints the 32-bit address it got in a block entry
  (\<open>get_dnode_hostname\<close> of \<open>libc/lib.c\<close>), the control node reads dotted addresses into the
  32-bit number it stores (\<open>iptoi\<close> of \<open>c_node/fs/libcfs.c\<close>). The two are inverse.
\<close>

unbundle bit_operations_syntax

section \<open>The operations\<close>

definition dotted :: "buf \<Rightarrow> buf \<Rightarrow> buf \<Rightarrow> buf \<Rightarrow> buf" where
  "dotted a b c d = a @ 46 # b @ 46 # c @ 46 # d"

definition get_dnode_hostname :: "u32_t \<Rightarrow> buf" where
  "get_dnode_hostname dnode =
     (let i1 = ucast (dnode div (256 * 256 * 256)) :: u8_t;
          i2 = ucast ((dnode div (256 * 256)) mod 256) :: u8_t;
          i3 = ucast ((dnode div 256) mod 256) :: u8_t;
          i4 = ucast (dnode mod 256) :: u8_t
      in dotted (udec (unat i1)) (udec (unat i2)) (udec (unat i3)) (udec (unat i4)))"

text \<open>The data node's copy of the function keeps the octets in signed \<open>char\<close>s.\<close>

definition dnode_hostname_signed :: "u32_t \<Rightarrow> buf" where
  "dnode_hostname_signed dnode =
     (let i1 = ucast (drop_bit 24 dnode) :: u8_t;
          i2 = ucast (drop_bit 16 dnode AND 255) :: u8_t;
          i3 = ucast (drop_bit 8 dnode AND 255) :: u8_t;
          i4 = ucast dnode :: u8_t
      in dotted (sdec (sint i1)) (sdec (sint i2)) (sdec (sint i3)) (sdec (sint i4)))"

text \<open>
  \<open>tmp\<close> holds the characters of the current component (the index \<open>k\<close> is its length); the
  string is given by its bytes before the NUL.
\<close>

function iptoi_loop :: "buf \<Rightarrow> buf \<Rightarrow> u32_t \<Rightarrow> u32_t option" where
  "iptoi_loop s tmp n =
     (if 4 \<le> length tmp then Some 0 else
      case s of
        [] \<Rightarrow> do { v \<leftarrow> atoi tmp; Some (n * 256 + word_of_int v) }
      | c # cs \<Rightarrow>
          if c = 10 then do { v \<leftarrow> atoi tmp; Some (n * 256 + word_of_int v) }
          else if c = 46 then do { v \<leftarrow> atoi tmp; iptoi_loop cs [] (n * 256 + word_of_int v) }
          else iptoi_loop cs (tmp @ [c]) n)"
  by pat_completeness auto
termination by (relation "measure (\<lambda>(s, tmp, n). length s)") auto

declare iptoi_loop.simps [simp del]

definition iptoi :: "buf \<Rightarrow> u32_t option" where
  "iptoi s = iptoi_loop s [] 0"

section \<open>Printing and reading back\<close>

lemma iptoi_loop_chars:
  "\<forall>c \<in> set s. isdig c \<Longrightarrow> length tmp + length s \<le> 3 \<Longrightarrow>
    iptoi_loop (s @ r) tmp n = iptoi_loop r (tmp @ s) n"
proof (induction s arbitrary: tmp)
  case (Cons c cs)
  then have "c \<noteq> 10" "c \<noteq> 46" by (auto simp: isdig_def word_le_nat_alt)
  then show ?case using Cons by (subst iptoi_loop.simps) simp
qed simp

lemma atoi_octet: "m < 256 \<Longrightarrow> atoi (udec m) = Some (int m)"
  by (simp add: atoi_def sval_udec)

lemma iptoi_octet:
  assumes "m < 256"
  shows "iptoi_loop (udec m @ 46 # r) [] n = iptoi_loop r [] (n * 256 + word_of_nat m)"
    and "iptoi_loop (udec m) [] n = Some (n * 256 + word_of_nat m)"
proof -
  have len: "length (udec m) \<le> 3" using length_udec [of m 3] assms by simp
  have go: "iptoi_loop (udec m @ r') [] n = iptoi_loop r' (udec m) n" for r'
    using len iptoi_loop_chars [of "udec m" "[]" r' n] isdig_udec by auto
  show "iptoi_loop (udec m @ 46 # r) [] n = iptoi_loop r [] (n * 256 + word_of_nat m)"
    unfolding go using len assms by (subst iptoi_loop.simps) (simp add: atoi_octet)
  show "iptoi_loop (udec m) [] n = Some (n * 256 + word_of_nat m)"
    using go [of "[]"] len assms by (subst (asm) (2) iptoi_loop.simps) (simp add: atoi_octet)
qed

lemma octets: "((k div 16777216 * 256 + k div 65536 mod 256) * 256 + k div 256 mod 256) * 256
    + k mod 256 = (k :: nat)"
proof -
  have "k div 65536 = k div 16777216 * 256 + k div 65536 mod 256"
    using div_mult_mod_eq [of "k div 65536" 256] by (simp add: div_mult2_eq [symmetric])
  moreover have "k div 256 = k div 65536 * 256 + k div 256 mod 256"
    using div_mult_mod_eq [of "k div 256" 256] by (simp add: div_mult2_eq [symmetric])
  ultimately show ?thesis using div_mult_mod_eq [of k 256] by simp
qed

text \<open>
  Addresses survive the trip from the control node's table to the client, for all 32 bits.
\<close>

lemma iptoi_hostname: "iptoi (get_dnode_hostname n) = Some n"
proof -
  have 1: "unat (ucast (n div 16777216) :: u8_t) = unat n div 16777216"
    using unat_lt_exp [of n] by (subst unat_ucast_fit) (simp_all add: unat_div)
  have 2: "unat (ucast ((n div 65536) mod 256) :: u8_t) = unat n div 65536 mod 256"
    by (subst unat_ucast_fit) (simp_all add: unat_div unat_mod)
  have 3: "unat (ucast ((n div 256) mod 256) :: u8_t) = unat n div 256 mod 256"
    by (subst unat_ucast_fit) (simp_all add: unat_div unat_mod)
  have 4: "unat (ucast (n mod 256) :: u8_t) = unat n mod 256"
    by (subst unat_ucast_fit) (simp_all add: unat_mod)
  have b: "unat n div 16777216 < 256" using unat_lt_exp [of n] by simp
  have "iptoi (get_dnode_hostname n)
      = Some (word_of_nat (((unat n div 16777216 * 256 + unat n div 65536 mod 256) * 256
                + unat n div 256 mod 256) * 256 + unat n mod 256))"
    unfolding iptoi_def get_dnode_hostname_def dotted_def Let_def
    by (simp add: 1 2 3 4 b iptoi_octet del: unat_mod unat_div)
  then show ?thesis unfolding octets by simp
qed

end
