(* ===== verification/LibCfs.thy ===== *)
theory LibCfs
  imports CfsBlocks Address
begin

text \<open>
  The Python bindings of the control node's file system (\<open>c_node/fs/libcfs.c\<close>): each copies
  its strings, calls the operation of \<open>cfs.c\<close>, and packs the results into a Python value.
  Parsing of the arguments is left to Python: the functions here take the parsed values. The
  pointer to the disk that Python passes around is the disk itself, as state. \<open>junk\<close>
  stands for uninitialised memory that ends up in a result.
\<close>

section \<open>Values\<close>

datatype py = PyNone | PyInt int | PyBytes buf | PyPair py py | PyTuple "py list" | PyDict "(buf \<times> py) list"

text \<open>\<open>malloc(strlen(tmp)+1)\<close> and \<open>strcpy\<close>, with the value returned when that fails.\<close>

definition copied :: "env \<Rightarrow> buf \<Rightarrow> 'a \<Rightarrow> 'a option \<Rightarrow> 'a option" where
  "copied E s failure k = (if malloc E (length s + 1) = None then Some failure else k)"

section \<open>Operations on paths\<close>

definition wrap_c_getblocks :: "env \<Rightarrow> dtree \<Rightarrow> buf \<Rightarrow> py option" where
  "wrap_c_getblocks E dt path = copied E path PyNone (do {
     n \<leftarrow> c_getblocknum E dt path;
     if n < 0 then Some PyNone
     else if n = 0 then Some (PyPair PyNone (PyInt 0))
     else do {
       (ret, bs) \<leftarrow> c_getblocks E dt path;
       l \<leftarrow> (case malloc E (unat (word_of_int n * 8 :: u64_t)) of
          None \<Rightarrow> if bs = [] then Some [] else None
        | Some l \<Rightarrow> wr l 0 (concat (map (enc_w 8) bs)));
       if ret \<le> 0 then Some PyNone else do {
         out \<leftarrow> rd l 0 (8 * nat ret);
         Some (PyPair (PyBytes out) (PyInt ret))
       }
     }
   })"

definition wrap_c_open :: "env \<Rightarrow> dtree \<Rightarrow> buf \<Rightarrow> u8_t \<Rightarrow> u8_t \<Rightarrow> u32_t \<Rightarrow> (py \<times> dtree) option" where
  "wrap_c_open E dt path oflags mode uid = copied E path (PyInt (- 1), dt)
     (map_option (map_prod PyInt id) (c_open E dt path oflags mode uid))"

text \<open>The 27 reserved bytes of \<open>stat_t\<close> are not set.\<close>

definition enc_stat :: "c_stat_t \<Rightarrow> 216 word \<Rightarrow> buf" where
  "enc_stat s junk = enc_w 8 (st_size s) @ enc_w 8 (st_atime s) @ enc_w 8 (st_mtime s)
     @ enc_w 8 (st_ctime s) @ enc_w 4 (st_owner s) @ enc_w 1 (st_mode s) @ enc_w 27 junk"

definition wrap_c_stat :: "env \<Rightarrow> 216 word \<Rightarrow> dtree \<Rightarrow> buf \<Rightarrow> u32_t \<Rightarrow> py option" where
  "wrap_c_stat E junk dt path uid = copied E path PyNone (do {
     (ret, st) \<leftarrow> c_stat E dt path uid;
     if ret \<noteq> 0 then Some PyNone else map_option (\<lambda>s. PyBytes (enc_stat s junk)) st
   })"

definition wrap_c_opendir :: "env \<Rightarrow> u64_t \<Rightarrow> dtree \<Rightarrow> buf \<Rightarrow> u32_t \<Rightarrow> py option" where
  "wrap_c_opendir E junk dt path uid = copied E path PyNone (do {
     (ret, entnum) \<leftarrow> c_opendir E dt path uid;
     Some (PyPair (PyInt ret) (PyInt (sint (case entnum of None \<Rightarrow> junk | Some n \<Rightarrow> n))))
   })"

definition wrap_c_readdir :: "env \<Rightarrow> dtree \<Rightarrow> u32_t \<Rightarrow> u64_t \<Rightarrow> u32_t \<Rightarrow> py option" where
  "wrap_c_readdir E dt fb entnum uid = do {
     (ret, r) \<leftarrow> c_readdir E dt fb entnum uid;
     if ret \<noteq> 0 then Some PyNone
     else map_option (\<lambda>(filename, ty). PyPair (PyBytes filename) (PyInt (int (unat ty)))) r
   }"

text \<open>The copies are used without a test.\<close>

definition wrap_c_move :: "env \<Rightarrow> dtree \<Rightarrow> buf \<Rightarrow> buf \<Rightarrow> u32_t \<Rightarrow> (py \<times> dtree) option" where
  "wrap_c_move E dt path1 path2 uid =
     (if malloc E (length path1 + 1) = None \<or> malloc E (length path2 + 1) = None then None
      else map_option (map_prod PyInt id) (c_move E dt path1 path2 uid))"

definition wrap_c_remove :: "env \<Rightarrow> dtree \<Rightarrow> buf \<Rightarrow> u32_t \<Rightarrow> (py \<times> dtree) option" where
  "wrap_c_remove E dt path uid = copied E path (PyInt (- 1), dt)
     (map_option (map_prod PyInt id) (c_remove E dt path uid))"

definition wrap_c_chown :: "env \<Rightarrow> dtree \<Rightarrow> buf \<Rightarrow> u32_t \<Rightarrow> u32_t \<Rightarrow> (py \<times> dtree) option" where
  "wrap_c_chown E dt path newuid uid = copied E path (PyInt (- 1), dt)
     (map_option (map_prod PyInt id) (c_chown E dt path newuid uid))"

definition wrap_c_chmod :: "env \<Rightarrow> dtree \<Rightarrow> buf \<Rightarrow> u8_t \<Rightarrow> u32_t \<Rightarrow> (py \<times> dtree) option" where
  "wrap_c_chmod E dt path mode uid = copied E path (PyInt (- 1), dt)
     (map_option (map_prod PyInt id) (c_chmod E dt path mode uid))"

definition wrap_c_rmdir :: "env \<Rightarrow> dtree \<Rightarrow> buf \<Rightarrow> u32_t \<Rightarrow> (py \<times> dtree) option" where
  "wrap_c_rmdir E dt path uid = copied E path (PyInt (- 1), dt)
     (map_option (map_prod PyInt id) (c_rmdir E dt path uid))"

definition wrap_c_mkdir :: "env \<Rightarrow> dtree \<Rightarrow> buf \<Rightarrow> u32_t \<Rightarrow> (py \<times> dtree) option" where
  "wrap_c_mkdir E dt path uid = copied E path (PyInt (- 1), dt)
     (map_option (map_prod PyInt id) (c_mkdir E dt path uid))"

section \<open>Block lists\<close>

text \<open>
  The operation stores its send blocks into the array one by one; the last four bytes of
  each keep what the allocator left there. The array has \<open>length/BLOCKSIZE + 2\<close> elements;
  that it could not be allocated is not tested.
\<close>

definition enc_sendblock :: "sendblock \<Rightarrow> buf" where
  "enc_sendblock s = enc_w 8 (sd_block_num s) @ enc_w 4 (sd_offset s) @ enc_w 4 (sd_length s) @ enc_ips (sd_ip s)"

fun put_sendblocks :: "buf \<Rightarrow> nat \<Rightarrow> sendblock list \<Rightarrow> buf option" where
  "put_sendblocks blocks i [] = Some blocks"
| "put_sendblocks blocks i (s # ss) = do {
     blocks \<leftarrow> wr blocks (32 * i) (enc_sendblock s);
     put_sendblocks blocks (Suc i) ss
   }"

definition blocks_array :: "env \<Rightarrow> u64_t \<Rightarrow> sendblock list \<Rightarrow> buf option" where
  "blocks_array E len ss = (case malloc E (unat ((len div BLOCKSIZE + 2) * 32)) of
       None \<Rightarrow> if ss = [] then Some [] else None
     | Some b \<Rightarrow> put_sendblocks b 0 ss)"

definition blocks_result :: "int \<Rightarrow> buf \<Rightarrow> py option" where
  "blocks_result ret blocks =
     (if ret \<le> 0 then Some PyNone else map_option PyBytes (rd blocks 0 (32 * nat ret)))"

definition wrap_c_read :: "env \<Rightarrow> dtree \<Rightarrow> u32_t \<Rightarrow> u64_t \<Rightarrow> u64_t \<Rightarrow> u32_t \<Rightarrow> py option" where
  "wrap_c_read E dt fb offset len uid = do {
     (ret, ss) \<leftarrow> c_read E dt fb offset len uid;
     blocks \<leftarrow> blocks_array E len ss;
     blocks_result ret blocks
   }"

text \<open>
  The addresses come as one string, separated by commas. The loop over the pieces fills the
  array of addresses from its end.
\<close>

fun comma_split :: "buf \<Rightarrow> buf list" where
  "comma_split [] = [[]]"
| "comma_split (c # cs) = (if c = 44 then [] # comma_split cs
     else (c # hd (comma_split cs)) # tl (comma_split cs))"

fun fill_ips :: "buf list \<Rightarrow> u32_t list \<Rightarrow> u32_t list option" where
  "fill_ips [] ips = Some ips"
| "fill_ips (p # ps) ips = do { n \<leftarrow> iptoi p; fill_ips ps (n # ips) }"

definition wrap_c_write ::
  "env \<Rightarrow> dtree \<Rightarrow> int \<Rightarrow> u32_t \<Rightarrow> u64_t \<Rightarrow> u64_t \<Rightarrow> buf \<Rightarrow> u32_t \<Rightarrow> (py \<times> dtree \<times> int) option" where
  "wrap_c_write E dt ctr fb offset len ipstr uid = copied E ipstr (PyNone, dt, ctr) (
     let ps = comma_split ipstr in
     if malloc E (4 * length ps) = None then Some (PyNone, dt, ctr) else do {
       ips \<leftarrow> fill_ips ps [];
       (ret, ss, dt, ctr) \<leftarrow> c_write E dt ctr fb offset len uid ips (int (length ps));
       blocks \<leftarrow> blocks_array E len ss;
       r \<leftarrow> blocks_result ret blocks;
       Some (r, dt, ctr)
     })"

section \<open>The disk\<close>

text \<open>\<open>-1\<close>, or the pointer that \<open>open_disk\<close> returns.\<close>

definition wrap_open_disk :: "env \<Rightarrow> reader \<Rightarrow> host \<Rightarrow> buf \<Rightarrow> buf \<Rightarrow> (int + dtree option) option" where
  "wrap_open_disk E short files dt_name in_name =
     copied E dt_name (Inl (- 1)) (copied E in_name (Inl (- 1))
       (map_option Inr (open_disk E short files dt_name in_name)))"

definition wrap_save_disk ::
  "env \<Rightarrow> nat option \<times> bool \<Rightarrow> nat option \<times> bool \<Rightarrow> dtree \<Rightarrow> buf \<Rightarrow> buf \<Rightarrow> host \<Rightarrow> (py \<times> host) option" where
  "wrap_save_disk E w1 w2 dt dt_name in_name files =
     copied E dt_name (PyInt (- 1), files) (copied E in_name (PyInt (- 1), files)
       (map_option (map_prod PyInt id) (save_disk w1 w2 dt dt_name in_name files)))"

section \<open>The list of addresses\<close>

fun comma_join :: "buf list \<Rightarrow> buf" where
  "comma_join [] = []"
| "comma_join [s] = s"
| "comma_join (s # t # ss) = s @ 44 # comma_join (t # ss)"

lemma comma_split_head: "44 \<notin> set s \<Longrightarrow> comma_split (s @ 44 # r) = s # comma_split r"
  by (induction s) auto

lemma comma_split_last: "44 \<notin> set s \<Longrightarrow> comma_split s = [s]"
  by (induction s) auto

lemma comma_split_join: "ss \<noteq> [] \<Longrightarrow> \<forall>s \<in> set ss. 44 \<notin> set s \<Longrightarrow> comma_split (comma_join ss) = ss"
  by (induction ss rule: comma_join.induct) (simp_all add: comma_split_head comma_split_last)

lemma no_comma_hostname: "44 \<notin> set (get_dnode_hostname n)"
proof -
  have d: "44 \<notin> set (udec k)" for k
  proof
    assume "44 \<in> set (udec k)"
    then have "isdig (44 :: u8_t)" by (rule isdig_udec)
    then show False by (simp add: isdig_def word_le_nat_alt)
  qed
  then show ?thesis by (simp add: get_dnode_hostname_def dotted_def Let_def)
qed

lemma fill_ips_hostnames: "fill_ips (map get_dnode_hostname ns) ips = Some (rev ns @ ips)"
  by (induction ns arbitrary: ips) (simp_all add: iptoi_hostname)

text \<open>
  C31. The list of data nodes: when the Python program joins the dotted addresses of its
  data nodes, at least one, with commas, and no \<open>malloc\<close> fails, \<open>wrap_c_write\<close> calls \<open>c_write\<close> with exactly these addresses, in the
  opposite order, and hands out the send blocks this call fills in.
\<close>

theorem node_list_reversed:
  assumes "malloc_ok E" and "ns \<noteq> []"
  shows "wrap_c_write E dt ctr fb offset len (comma_join (map get_dnode_hostname ns)) uid = do {
      (ret, ss, dt', ctr') \<leftarrow> c_write E dt ctr fb offset len uid (rev ns) (int (length ns));
      blocks \<leftarrow> blocks_array E len ss;
      r \<leftarrow> blocks_result ret blocks;
      Some (r, dt', ctr')
    }"
proof -
  have s: "comma_split (comma_join (map get_dnode_hostname ns)) = map get_dnode_hostname ns"
    using comma_split_join [of "map get_dnode_hostname ns"] assms(2) no_comma_hostname by simp
  have m: "malloc E k = None \<longleftrightarrow> False" for k using assms(1) by (rule malloc_okE [of _ k]) simp
  show ?thesis using fill_ips_hostnames [of ns "[]"] by (simp add: wrap_c_write_def copied_def s m Let_def)
qed

theorem node_list_reversed_witness:
  "\<forall>dt. wrap_c_write calm_env dt 0 2 10 3 (comma_join (map get_dnode_hostname [7, 167772161])) 5 = do {
      (ret, ss, dt', ctr') \<leftarrow> c_write calm_env dt 0 2 10 3 5 [167772161, 7] 2;
      blocks \<leftarrow> blocks_array calm_env 3 ss;
      r \<leftarrow> blocks_result ret blocks;
      Some (r, dt', ctr')
    }"
  using node_list_reversed [OF calm_env_ok, of "[7, 167772161]"] by simp

end
