(* ===== verification/CfsOpsSpec.thy ===== *)
theory CfsOpsSpec
  imports CfsOps
begin

text \<open>
  What the operations on paths do to the disk: access control and mode changes, creation
  and removal as operations on the abstract directories of \<open>CfsPath\<close>, what stays untouched,
  and what a failing operation leaves behind.
\<close>

unbundle bit_operations_syntax

section \<open>Rewriting metadata in place\<close>

lemma write_meta_file:
  assumes wf: "wf_geom dt" and fl: "file_at dt fb xs" and c: "content dt xs = enc_meta m @ rest"
  shows "\<exists>dt'. write_meta dt fb m' = Some dt' \<and> upd {unat fb} dt dt' \<and> file_at dt' fb xs
     \<and> content dt' xs = enc_meta m' @ rest \<and> read_meta dt' fb = Some m'"
proof -
  from fl have fb: "unat fb < nsec dt" and xs: "xs = unat fb # tl xs"
    by (cases xs; auto simp: file_at_def)+
  from fl have d: "distinct xs" using chain_distinct by (auto simp: file_at_def)
  have "length (enc_meta m') \<le> secsz dt" using wf_geomD(1) [OF wf] by simp
  from sector_write [OF wf fb this] obtain dd where dd:
    "wr (data dt) (unat (fb * bps dt)) (enc_meta m') = Some dd" "upd {unat fb} dt (dt\<lparr>data := dd\<rparr>)"
    "sector (dt\<lparr>data := dd\<rparr>) (unat fb) = enc_meta m' @ drop 64 (sector dt (unat fb))" by auto
  let ?dt = "dt\<lparr>data := dd\<rparr>"
  note u = updD [OF dd(2)]
  have fl': "file_at ?dt fb xs" using fl by (simp add: file_at_def)
  have tl: "content ?dt (tl xs) = content dt (tl xs)"
  proof -
    have "\<forall>x\<in>set (tl xs). sector ?dt x = sector dt x"
    proof
      fix x assume x: "x \<in> set (tl xs)"
      have "x \<noteq> unat fb" using d x by (subst (asm) xs) auto
      moreover have "x \<in> set xs" using x by (subst xs) simp
      ultimately show "sector ?dt x = sector dt x" using u(6) fl by (auto simp: file_at_def)
    qed
    then show ?thesis by (auto simp: content_def intro!: arg_cong [of _ _ concat])
  qed
  have "length (sector dt (unat fb)) \<ge> 64"
    using length_sector [OF wf fb] wf_geomD(1) [OF wf] by simp
  moreover have eq: "sector dt (unat fb) @ content dt (tl xs) = enc_meta m @ rest"
    using c by (subst (asm) xs) simp
  have "drop 64 (sector dt (unat fb) @ content dt (tl xs)) = rest" unfolding eq by simp
  ultimately have "drop 64 (sector dt (unat fb)) @ content dt (tl xs) = rest"
    by simp
  then have c': "content ?dt xs = enc_meta m' @ rest"
    using tl dd(3) by (subst xs) simp
  then have "read_meta ?dt fb = Some m'" by (rule file_read_meta [OF u(1) fl'])
  with dd(1,2) fl' c' show ?thesis by (auto simp: write_meta_def put_at_def)
qed

text \<open>
  C28. Changing the mode: only the owner of a file or user 0 can; then \<open>c_chmod\<close> returns 0,
  the file's metadata has the new access bits (and keeps its bits above them, together
  with any such bits of the argument), the rest of the file and all other files are as
  before. For everybody else it returns 4 and changes nothing.
\<close>
theorem c_chmod_spec:
  assumes "wf_geom dt" and "c_lookup E dt path uid = Some (Inr e)" and "file_at dt (fe_fb e) xs"
    and "content dt xs = enc_meta m @ rest"
  shows "(own_check uid (fm_uid m) \<longrightarrow> (\<exists>dt' m'. c_chmod E dt path mode uid = Some (0, dt')
        \<and> m' = m\<lparr>fm_flags := (fm_flags m AND NOT S_ALL) OR mode\<rparr>
        \<and> wf_geom dt' \<and> content dt' xs = enc_meta m' @ rest
        \<and> (\<forall>u op. mode AND NOT S_ALL = 0 \<longrightarrow> permission_check u m' op = permission_check u (m\<lparr>fm_flags := mode\<rparr>) op)
        \<and> (\<forall>gb zs. file_at dt gb zs \<and> set zs \<inter> set xs = {} \<longrightarrow> file_at dt' gb zs \<and> content dt' zs = content dt zs)))
    \<and> (\<not> own_check uid (fm_uid m) \<longrightarrow> c_chmod E dt path mode uid = Some (4, dt))"
proof -
  let ?m = "m\<lparr>fm_flags := (fm_flags m AND NOT S_ALL) OR mode\<rparr>"
  have r: "read_meta dt (fe_fb e) = Some m" using file_read_meta [OF assms(1,3,4)] .
  from write_meta_file [OF assms(1,3,4), of ?m] obtain dt' where
    w: "write_meta dt (fe_fb e) ?m = Some dt'" "upd {unat (fe_fb e)} dt dt'"
    "content dt' xs = enc_meta ?m @ rest" by blast
  have x: "unat (fe_fb e) \<in> set xs" using assms(3) by (cases xs) (auto simp: file_at_def)
  have bits: "((fm_flags m AND NOT S_ALL) OR mode) AND S_ALL = mode AND S_ALL"
    by (rule bit_eqI) (auto simp: bit_simps)
  have pc: "permission_check u ?m op = permission_check u (m\<lparr>fm_flags := mode\<rparr>) op" for u op
    by (simp add: permission_check_def bits)
  have "file_at dt' gb zs \<and> content dt' zs = content dt zs"
    if "file_at dt gb zs" "set zs \<inter> set xs = {}" for gb zs
    using upd_file_at [OF w(2) that(1)] that(2) x by blast
  then show ?thesis
    using assms(2) r w updD(1) [OF w(2)] pc by (auto simp: c_chmod_def)
qed

lemma sample_file: "content sample_disk [2] = enc_meta mini_meta @ replicate 64 0"
  using sample_disk_content(2) by (simp add: pad128_def)

lemma sample_lookup: "c_lookup calm_env sample_disk [SLASH, 97] uid
    = Some (Inr \<lparr>fe_name = 5, fe_fb = 2, fe_type = S_FIL, fe_reserve = 0\<rparr>)"
proof -
  have "c_find_entry calm_env sample_disk root_entry [97] uid
      = Some (Inr \<lparr>fe_name = 5, fe_fb = 2, fe_type = S_FIL, fe_reserve = 0\<rparr>)"
    using c_find_entry_resolves [OF sample_resolves sample_disk_wf calm_env_ok]
    by (simp add: components_last)
  with sample_root show ?thesis by (simp add: c_lookup_def)
qed

theorem c_chmod_spec_witness:
  "(\<exists>dt' m'. c_chmod calm_env sample_disk [SLASH, 97] 4 5 = Some (0, dt')
      \<and> content dt' [2] = enc_meta m' @ replicate 64 0 \<and> fm_flags m' = 4)
   \<and> c_chmod calm_env sample_disk [SLASH, 97] 4 6 = Some (4, sample_disk)"
  using c_chmod_spec [OF sample_disk_wf sample_lookup _ sample_file, of 5 4]
    c_chmod_spec [OF sample_disk_wf sample_lookup _ sample_file, of 6 4] sample_disk_files
  by (auto simp: own_check_def mini_meta_def mode_defs meta.enc_inj)

text \<open>
  Changing the owner: \<open>c_chown\<close> changes an owner only for user 0; then the metadata
  has the new owner and everything else is as before. The owner may "change" the owner to
  himself, which does nothing; every other attempt returns 4 and changes nothing.
\<close>
lemma c_chown_spec:
  assumes "wf_geom dt" and "c_lookup E dt path uid = Some (Inr e)" and "file_at dt (fe_fb e) xs"
    and "content dt xs = enc_meta m @ rest"
  shows "(uid = 0 \<longrightarrow> (\<exists>dt'. c_chown E dt path newuid uid = Some (0, dt') \<and> wf_geom dt'
        \<and> content dt' xs = enc_meta (m\<lparr>fm_uid := newuid\<rparr>) @ rest
        \<and> (\<forall>gb zs. file_at dt gb zs \<and> set zs \<inter> set xs = {} \<longrightarrow> file_at dt' gb zs \<and> content dt' zs = content dt zs)))
    \<and> (uid \<noteq> 0 \<longrightarrow> c_chown E dt path newuid uid
         = Some (if fm_uid m = uid \<and> newuid = uid then 0 else 4, dt))"
proof -
  let ?m = "m\<lparr>fm_uid := newuid\<rparr>"
  have r: "read_meta dt (fe_fb e) = Some m" using file_read_meta [OF assms(1,3,4)] .
  from write_meta_file [OF assms(1,3,4), of ?m] obtain dt' where
    w: "write_meta dt (fe_fb e) ?m = Some dt'" "upd {unat (fe_fb e)} dt dt'"
    "content dt' xs = enc_meta ?m @ rest" by blast
  have x: "unat (fe_fb e) \<in> set xs" using assms(3) by (cases xs) (auto simp: file_at_def)
  have frame: "file_at dt' gb zs \<and> content dt' zs = content dt zs"
    if "file_at dt gb zs" "set zs \<inter> set xs = {}" for gb zs
    using upd_file_at [OF w(2) that(1)] that(2) x by blast
  show ?thesis
  proof (cases "fm_uid m = newuid")
    case True
    then have m: "?m = m" by simp
    show ?thesis
      unfolding m using True assms r by (auto simp: c_chown_def own_check_def)
  next
    case False
    with assms(2) r w updD(1) [OF w(2)] frame show ?thesis
      by (auto simp: c_chown_def own_check_def)
  qed
qed

section \<open>Open flags\<close>

text \<open>
  The flags of \<open>c_open\<close> have no effect: it tests them with \<open>|\<close>, which is never 0, so
  opening for reading, writing or creation is all the same. The permission that is
  checked is that of the parent directory, and reading \<open>or\<close> writing suffices; a file that
  does not exist is created even when \<open>SBP_O_CREAT\<close> was not given.
\<close>
lemma c_open_ignores_flags:
  "c_open E dt path oflags mode uid = c_open E dt path oflags' mode uid"
proof -
  have nz: "(x OR SBP_O_WRONLY \<noteq> 0) = True" "(x OR SBP_O_RDONLY \<noteq> 0) = True"
    "(x OR SBP_O_RDWR \<noteq> 0) = True" "(x OR SBP_O_CREAT \<noteq> 0) = True" for x :: u8_t
    by (simp_all add: SBP_O_WRONLY_def SBP_O_RDONLY_def SBP_O_RDWR_def SBP_O_CREAT_def or_eq_0_iff)
  show ?thesis by (simp only: c_open_def nz)
qed

section \<open>Failure\<close>

lemma with_parent_fail:
  assumes "with_parent E dt path uid a f b fail k = Some r"
  shows "(\<exists>e. r = fail e) \<or> (\<exists>nm p. k nm p = Some r)"
proof (cases "get_filename_from_path path")
  case None
  with assms show ?thesis by (auto simp: with_parent_def)
next
  case (Some x)
  with assms obtain q where q: "c_lookup E dt (fst x) uid = Some q"
    by (cases x) (auto simp: with_parent_def bind_eq_Some_conv)
  with Some assms show ?thesis
    by (cases x; cases q) (auto simp: with_parent_def split: if_splits)
qed

lemma with_buf_fail:
  assumes "with_buf E dt fb m x fail k = Some r"
  shows "r = fail (- 9) \<or> (\<exists>b. k b = Some r)"
  using assms by (auto simp: with_buf_def bind_eq_Some_conv split: option.splits)

lemma do_remove_entry_ret:
  assumes "malloc_ok E" and "r \<noteq> 0" shows "do_remove_entry E b off \<noteq> Some (r, b')"
proof
  assume d: "do_remove_entry E b off = Some (r, b')"
  then obtain m where "get_meta b 0 = Some m" by (auto simp: do_remove_entry_def bind_eq_Some_conv)
  moreover obtain j where "malloc E (unat (fm_flen m - word_of_nat off)) = Some j"
    using assms(1) by (rule malloc_okE)
  ultimately show False using d assms(2) by (auto simp: do_remove_entry_def bind_eq_Some_conv)
qed

text \<open>Undoing one bind: what an operation that returned went through.\<close>

lemma c_mkdir_fail: "c_mkdir E dt path uid = Some (r, dt') \<Longrightarrow> r \<noteq> 0 \<Longrightarrow> dt' = dt"
  unfolding c_mkdir_def
  by (drule with_parent_fail)
     (auto elim!: bindE simp: Let_def split: if_splits option.splits dest!: with_buf_fail)

lemma c_rmdir_fail:
  "malloc_ok E \<Longrightarrow> c_rmdir E dt path uid = Some (r, dt') \<Longrightarrow> r \<noteq> 0 \<Longrightarrow> dt' = dt"
  unfolding c_rmdir_def
  by (drule with_parent_fail)
     (auto elim!: bindE simp: Let_def do_remove_entry_ret split: if_splits option.splits
       dest!: with_buf_fail)

lemma c_remove_fail:
  "malloc_ok E \<Longrightarrow> c_remove E dt path uid = Some (r, dt') \<Longrightarrow> r \<noteq> 0 \<Longrightarrow> dt' = dt"
  unfolding c_remove_def
  by (drule with_parent_fail)
     (auto elim!: bindE simp: Let_def do_remove_entry_ret split: if_splits option.splits
       dest!: with_buf_fail)

lemma move_same_ret: "r \<noteq> 0 \<Longrightarrow> move_same E dt fb b off nm \<noteq> Some (r, dt')"
  unfolding move_same_def by (auto elim!: bindE)

lemma move_across_ret: "r \<noteq> 0 \<Longrightarrow> move_across E dt fb gb b c off nm \<noteq> Some (r, dt')"
  unfolding move_across_def by (auto elim!: bindE)

lemma c_move_fail: "c_move E dt src dst uid = Some (r, dt') \<Longrightarrow> r \<noteq> 0 \<Longrightarrow> dt' = dt"
  unfolding c_move_def
  by (auto elim!: bindE simp: Let_def move_same_ret move_across_ret split: if_splits option.splits
       dest!: with_parent_fail with_buf_fail)

lemma c_chmod_fail: "c_chmod E dt path mode uid = Some (r, dt') \<Longrightarrow> r \<noteq> 0 \<Longrightarrow> dt' = dt"
  and c_chown_fail: "c_chown E dt path newuid uid = Some (r, dt') \<Longrightarrow> r \<noteq> 0 \<Longrightarrow> dt' = dt"
  unfolding c_chmod_def c_chown_def
  by (auto elim!: bindE split: if_splits sum.splits)

text \<open>
  C23. Failing operations change nothing: on any disk, well formed or not, when the allocator
  does not fail and \<open>c_mkdir\<close>, \<open>c_rmdir\<close>, \<open>c_remove\<close>, \<open>c_move\<close>, \<open>c_chmod\<close> or \<open>c_chown\<close>
  returns with an error code, the disk is the disk before the call.
\<close>
theorem failure_changes_nothing:
  assumes "malloc_ok E" and "r \<noteq> 0"
    and "c_mkdir E dt path uid = Some (r, dt') \<or> c_rmdir E dt path uid = Some (r, dt')
      \<or> c_remove E dt path uid = Some (r, dt') \<or> c_move E dt path dst uid = Some (r, dt')
      \<or> c_chmod E dt path mode uid = Some (r, dt') \<or> c_chown E dt path newuid uid = Some (r, dt')"
  shows "dt' = dt"
  using assms c_mkdir_fail [of E dt path uid r dt'] c_rmdir_fail [of E dt path uid r dt']
    c_remove_fail [of E dt path uid r dt'] c_move_fail [of E dt path dst uid r dt']
    c_chmod_fail [of E dt path mode uid r dt'] c_chown_fail [of E dt path newuid uid r dt']
  by argo

theorem failure_changes_nothing_witness:
  "\<exists>dt'. c_mkdir calm_env sample_disk [97] 7 = Some (1, dt') \<and> dt' = sample_disk"
proof -
  have "c_mkdir calm_env sample_disk [97] 7 = Some (1, sample_disk)"
    by (simp add: c_mkdir_def with_parent_def get_filename_from_path_def gf_scan.simps [of _ _ _ "- 1"])
  with failure_changes_nothing [OF calm_env_ok, of 1 sample_disk "[97]" 7 sample_disk] show ?thesis by simp
qed

section \<open>Writing a directory back\<close>

lemma dir_atE:
  assumes "wf_geom dt" and "dir_at dt fb m es pool"
  obtains xs rest where "file_at dt fb xs" "unat (fm_blocks m) = length xs" "xs \<noteq> []"
    "content dt xs = enc_dir m es pool @ rest" "wf_dir m es pool"
    "length (enc_dir m es pool @ rest) = length xs * secsz dt" "length xs * secsz dt < 4294967296"
proof -
  from assms(2) obtain xs rest where x: "file_at dt fb xs" "unat (fm_blocks m) = length xs"
    "content dt xs = enc_dir m es pool @ rest" "wf_dir m es pool" by (auto simp: dir_at_def)
  then have "length (content dt xs) = length xs * secsz dt" "xs \<noteq> []"
    using length_content [OF assms(1), of xs] by (auto simp: file_at_def)
  with x file_at_fit [OF assms(1) x(1)] that show thesis by metis
qed

text \<open>
  Writing back a directory buffer that describes itself and fits its own number of blocks.
\<close>

lemma write_dir:
  assumes wf: "wf_geom dt" and E: "malloc_ok E" and fl: "file_at dt fb xs"
    and wd: "wf_dir m es pool" and fb: "0 < unat (fm_blocks m)"
    and fit: "unat (fm_flen m) \<le> unat (fm_blocks m) * secsz dt" "unat (fm_blocks m) * secsz dt < 4294967296"
    and cov: "covers (enc_dir m es pool @ rest) (secsz dt) (unat (fm_blocks m)) 0 (unat (fm_flen m))"
    and room: "unat (dt_size dt) < 2147483648" "unat (fm_blocks m) \<le> nsec dt + 2"
  shows "\<exists>dt' ys. do_writefile E dt fb (enc_dir m es pool @ rest) (fm_flen m) = Some dt'
     \<and> dir_at dt' fb m es pool \<and> file_at dt' fb ys \<and> upd (set xs \<union> set ys) dt dt'
     \<and> (\<forall>y\<in>set ys. y \<in> set xs \<or> (y < nsec dt \<longrightarrow> fat_p dt ! y = FREESEC))
     \<and> (\<forall>x\<in>set xs - set ys. fat_p dt' ! x = FREESEC)
     \<and> unat (dt_size dt') \<le> 2 * unat (dt_size dt)"
proof -
  let ?d = "enc_dir m es pool"
  from do_writefile_file [OF wf E fl get_meta_enc_dir fb fit(2) cov room] obtain dt' ys where
    w: "do_writefile E dt fb (?d @ rest) (fm_flen m) = Some dt'" "file_at dt' fb ys"
    "length ys = unat (fm_blocks m)" "upd (set xs \<union> set ys) dt dt'"
    "\<forall>y\<in>set ys. y \<in> set xs \<or> (y < nsec dt \<longrightarrow> fat_p dt ! y = FREESEC)"
    "\<forall>x\<in>set xs - set ys. fat_p dt' ! x = FREESEC"
    "take (min (unat (fm_flen m)) (length ys * secsz dt)) (content dt' ys)
       = take (min (unat (fm_flen m)) (length ys * secsz dt)) (?d @ rest)"
    "unat (dt_size dt') \<le> 2 * unat (dt_size dt)" by blast
  have "length ?d = unat (fm_flen m)" using wd by (simp add: wf_dir_def)
  with w(3,7) fit(1) have "take (length ?d) (content dt' ys) = ?d" by (simp add: min_absorb1)
  then have "content dt' ys = ?d @ drop (length ?d) (content dt' ys)" by (metis append_take_drop_id)
  with w(2,3) wd have "dir_at dt' fb m es pool" unfolding dir_at_def by metis
  with w show ?thesis by blast
qed

text \<open>Writing it back into the blocks it has.\<close>

lemma write_dir_back:
  assumes wf: "wf_geom dt" and E: "malloc_ok E" and sz: "unat (dt_size dt) < 2147483648"
    and fl: "file_at dt fb xs" "unat (fm_blocks m) = length xs" and wd: "wf_dir m es pool"
    and len: "length xs * secsz dt \<le> length (enc_dir m es pool @ rest)"
    and fit: "unat (fm_flen m) \<le> length xs * secsz dt"
  shows "\<exists>dt' ys. do_writefile E dt fb (enc_dir m es pool @ rest) (fm_flen m) = Some dt'
     \<and> dir_at dt' fb m es pool \<and> file_at dt' fb ys \<and> upd (set xs \<union> set ys) dt dt'
     \<and> (\<forall>y\<in>set ys. y \<in> set xs \<or> (y < nsec dt \<longrightarrow> fat_p dt ! y = FREESEC))
     \<and> (\<forall>x\<in>set xs - set ys. fat_p dt' ! x = FREESEC)"
proof -
  have xs: "distinct xs" "set xs \<subseteq> {..<nsec dt}" "xs \<noteq> []"
    using fl(1) chain_distinct by (auto simp: file_at_def)
  then have "length xs \<le> nsec dt" by (metis card_mono distinct_card finite_lessThan card_lessThan)
  moreover have "covers (enc_dir m es pool @ rest) (secsz dt) (unat (fm_blocks m)) 0 (unat (fm_flen m))"
    using len fl(2) by (simp add: covers_def)
  ultimately show ?thesis
    using write_dir [OF wf E fl(1) wd, of rest] fl(2) fit file_at_fit [OF wf fl(1)] sz xs(3) by fastforce
qed

text \<open>The number of blocks of a directory of \<open>n\<close> bytes.\<close>

lemma dir_blocks:
  fixes n :: u64_t
  assumes "0 < unat n" and "unat n \<le> 4294966784"
  defines "k \<equiv> unat (ucast ((n + 512 - 1) div 512) :: u32_t)"
  shows "0 < k" "unat n \<le> k * 512" "(k - 1) * 512 \<le> unat n" "k * 512 < 4294967296"
    "unat n \<le> j * 512 \<Longrightarrow> k \<le> j"
proof -
  have "n + 512 - 1 = n + 511" by simp
  moreover have "unat (n + 511) = unat n + 511" using assms(2) by (subst unat_add_fit) simp_all
  ultimately have n: "unat (n + 512 - 1) = unat n + 511" by metis
  then have d: "unat ((n + 512 - 1) div 512) = (unat n + 511) div 512" by (simp add: unat_div)
  have "(unat n + 511) div 512 < 8388608" using assms(2) by simp
  then have k: "k = (unat n + 511) div 512" unfolding k_def using d by (subst unat_ucast_fit) simp_all
  show "0 < k" using k assms(1) by (simp add: div_greater_zero_iff)
  show "unat n \<le> k * 512" "(k - 1) * 512 \<le> unat n" "k * 512 < 4294967296"
    unfolding k using assms(1,2) by linarith+
  show "unat n \<le> j * 512 \<Longrightarrow> k \<le> j" unfolding k by linarith
qed

text \<open>Linking a new entry and writing the parent back, as \<open>c_open\<close> and \<open>c_mkdir\<close> do.\<close>

definition links_to :: "dtree \<Rightarrow> u32_t \<Rightarrow> file_meta \<Rightarrow> file_entry list \<Rightarrow> buf \<Rightarrow> buf \<Rightarrow> file_entry \<Rightarrow> u32_t \<Rightarrow> bool" where
  "links_to dt pfb m es pool nm e links \<longleftrightarrow> (\<exists>m'. dir_at dt pfb m' (es @ [e]) (pool @ nm @ [0])
     \<and> fm_uid m' = fm_uid m \<and> fm_flags m' = fm_flags m \<and> fm_count m' = fm_count m + links)
     \<and> map (ent_name (pool @ nm @ [0])) (es @ [e]) = map (ent_name pool) es @ [nm]"

lemma link_and_write:
  assumes u: "in_use dt" and E: "malloc_ok E" and sz: "unat (dt_size dt) < 2147483648"
    and fl: "file_at dt pfb xs" and wd: "wf_dir m es pool" and nm: "0 \<notin> set nm"
    and ns: "unat ns = unat (fm_flen m) + 16 + length nm + 1" "unat ns \<le> nsec dt * 512"
    and len: "length buf = unat ns"
  shows "\<exists>b b' e dt' ys. add_slot buf (enc_dir m es pool @ rest) m ty = Some b
     \<and> link_entry b (enc_dir m es pool @ rest) m nm (Some f) ns 512 links = Some b'
     \<and> get_entry b' (64 + unat (fm_strbase m)) = Some e
     \<and> do_writefile E dt pfb b' ns = Some dt' \<and> links_to dt' pfb m es pool nm e links
     \<and> fe_fb e = f \<and> fe_type e = ty \<and> file_at dt' pfb ys \<and> upd (set xs \<union> set ys) dt dt'
     \<and> (\<forall>y\<in>set ys. y \<in> set xs \<or> (y < nsec dt \<longrightarrow> fat_p dt ! y = FREESEC))
     \<and> (\<forall>x\<in>set xs - set ys. fat_p dt' ! x = FREESEC)
     \<and> unat (dt_size dt') \<le> 2 * unat (dt_size dt)"
proof -
  note wf = in_useD(1) [OF u]
  let ?m = "grown_meta m ns nm 512 links" and ?pool = "pool @ nm @ [0]"
  have len': "length buf = length (enc_dir m es pool) + 16 + length nm + 1"
    using len ns(1) wd by (simp add: wf_dir_def)
  from link_entry_dir [OF wd len' nm ns(1), of 512 rest ty f links] obtain e b where
    e: "add_slot buf (enc_dir m es pool @ rest) m ty = Some b"
    "link_entry b (enc_dir m es pool @ rest) m nm (Some f) ns 512 links
       = Some (enc_dir ?m (es @ [e]) ?pool)"
    "fe_name e = fm_strlen m" "fe_fb e = f" "fe_type e = ty"
    by (auto simp: bind_eq_Some_conv)
  have "unat (fm_flen m) + 16 + length nm + 1 < 2 ^ 64" using ns(1) unat_lt_exp [of ns] by simp
  from wf_dir_extended [OF wd nm this e(3), of ?m] ns(1)
  have wd': "wf_dir ?m (es @ [e]) ?pool"
    and nms: "map (ent_name ?pool) (es @ [e]) = map (ent_name pool) es @ [nm]"
    by (simp_all add: grown_meta_def)
  have "nsec dt < 8388608" using wf_geomD(5,6) [OF wf] in_useD(2) [OF u] by simp
  then have "unat ns \<le> 4294966784" "0 < unat ns" using ns by linarith+
  note k = dir_blocks [OF this(2,1)]
  have m': "fm_flen ?m = ns" "fm_blocks ?m = ucast ((ns + 512 - 1) div 512)"
    by (simp_all add: grown_meta_def)
  have B: "secsz dt = 512" using in_useD(2) [OF u] by simp
  have ld: "length (enc_dir ?m (es @ [e]) ?pool) = unat ns" using wd' m'(1) by (simp add: wf_dir_def)
  have c: "covers (enc_dir ?m (es @ [e]) ?pool @ []) (secsz dt) (unat (fm_blocks ?m)) 0 (unat (fm_flen ?m))"
    using k(3) ld unfolding covers_def m' B by simp
  have k': "0 < unat (fm_blocks ?m)" "unat (fm_flen ?m) \<le> unat (fm_blocks ?m) * secsz dt"
    "unat (fm_blocks ?m) * secsz dt < 4294967296" "unat (fm_blocks ?m) \<le> nsec dt + 2"
    unfolding m' B using k(1,2,4) k(5) [OF ns(2)] by linarith+
  from write_dir [OF wf E fl wd' k'(1-3) c sz k'(4)] obtain dt' ys where
    w: "do_writefile E dt pfb (enc_dir ?m (es @ [e]) ?pool) ns = Some dt'"
    "dir_at dt' pfb ?m (es @ [e]) ?pool" "file_at dt' pfb ys" "upd (set xs \<union> set ys) dt dt'"
    "\<forall>y\<in>set ys. y \<in> set xs \<or> (y < nsec dt \<longrightarrow> fat_p dt ! y = FREESEC)"
    "\<forall>x\<in>set xs - set ys. fat_p dt' ! x = FREESEC" "unat (dt_size dt') \<le> 2 * unat (dt_size dt)"
    unfolding m'(1) append_Nil2 by blast
  have "get_entry (enc_dir ?m (es @ [e]) ?pool) (64 + unat (fm_strbase m)) = Some e"
    using get_entry_enc_dir [of "length es" "es @ [e]" ?m ?pool "[]"] wd by (simp add: wf_dir_def)
  moreover have "links_to dt' pfb m es pool nm e links"
    using w(2) nms unfolding links_to_def by (intro conjI exI [of _ ?m]) (simp_all add: grown_meta_def)
  ultimately show ?thesis using e w by blast
qed

section \<open>Where an operation works\<close>

definition in_dir :: "env \<Rightarrow> dtree \<Rightarrow> buf \<Rightarrow> u32_t \<Rightarrow> buf \<Rightarrow> file_entry \<Rightarrow> bool" where
  "in_dir E dt path uid nm parent \<longleftrightarrow> (\<exists>dirpath. get_filename_from_path path = Some (dirpath, nm)
     \<and> c_lookup E dt dirpath uid = Some (Inr parent)) \<and> fe_type parent = S_DIR"

lemma with_parent_in_dir:
  "in_dir E dt path uid nm parent \<Longrightarrow> with_parent E dt path uid x y z fail k = k nm parent"
  by (auto simp: in_dir_def with_parent_def)

lemma in_dir_name: "in_dir E dt path uid nm parent \<Longrightarrow> 0 \<notin> set nm"
  by (auto simp: in_dir_def get_filename_from_path_def cstr_def Let_def
      split: prod.splits if_splits dest: set_takeWhileD)

lemma with_buf_content:
  assumes "wf_geom dt" and "malloc_ok E" and "file_at dt fb xs" and "unat (fm_blocks m) = length xs"
  shows "with_buf E dt fb m 0 fail k = k (content dt xs)"
proof -
  obtain b where b: "malloc E (unat (fm_blocks m * bps dt)) = Some b" "length b = unat (fm_blocks m * bps dt)"
    using assms(2) by (rule malloc_okE)
  note fit = file_at_fit [OF assms(1,3)]
  have "length b = length xs * secsz dt" using b(2) assms(4) fit by (simp add: unat_mult_fit)
  with do_readfile_file [OF assms(1,3), of b] fit have "do_readfile dt fb b = Some (content dt xs)" by simp
  with b(1) show ?thesis by (simp add: with_buf_def)
qed

text \<open>What a lookup in the directory gives: by abstract name, and as an offset in the buffer.\<close>

lemma find_in_dir:
  assumes "wf_dir m es pool" and "0 \<notin> set nm"
  shows "nm \<notin> set (map (ent_name pool) es) \<Longrightarrow> find_entry_by_name (enc_dir m es pool @ rest) nm = Some None"
    and "nm \<in> set (map (ent_name pool) es) \<Longrightarrow> \<exists>i<length es. ent_name pool (es ! i) = nm
      \<and> ent_of pool es nm = Some (es ! i) \<and> find_entry_by_name (enc_dir m es pool @ rest) nm = Some (Some (64 + 16 * i))
      \<and> get_entry (enc_dir m es pool @ rest) (64 + 16 * i) = Some (es ! i)"
proof -
  have n: "ent_of pool es nm = None \<longleftrightarrow> nm \<notin> set (map (ent_name pool) es)"
    by (auto simp: ent_of_def find_None_iff)
  show "nm \<notin> set (map (ent_name pool) es) \<Longrightarrow> find_entry_by_name (enc_dir m es pool @ rest) nm = Some None"
    using n find_entry_by_name_ent(1) [OF assms] by blast
  assume "nm \<in> set (map (ent_name pool) es)"
  with n obtain e where "ent_of pool es nm = Some e" by blast
  with find_entry_by_name_ent(2) [OF assms this, of rest]
  show "\<exists>i<length es. ent_name pool (es ! i) = nm
      \<and> ent_of pool es nm = Some (es ! i) \<and> find_entry_by_name (enc_dir m es pool @ rest) nm = Some (Some (64 + 16 * i))
      \<and> get_entry (enc_dir m es pool @ rest) (64 + 16 * i) = Some (es ! i)" by auto
qed

end
