(* ===== verification/CfsBlocksSpec.thy ===== *)
theory CfsBlocksSpec
  imports CfsBlocks CfsOpsSpec
begin

text \<open>
  Files as block lists: which blocks \<open>c_read\<close> and \<open>c_write\<close> name for a byte range, how many,
  and what a write does to the list on the disk.
\<close>

unbundle bit_operations_syntax

abbreviation BS :: nat where "BS \<equiv> 16777216"

section \<open>How many blocks\<close>

definition ceil_bs :: "nat \<Rightarrow> nat" where "ceil_bs n = (n + (BS - 1)) div BS"

lemma ceil_bs_mod: "ceil_bs n = n div BS + (if n mod BS = 0 then 0 else 1)"
proof -
  have "n + (BS - 1) = (n mod BS + (BS - 1)) + n div BS * BS" by simp
  then have "ceil_bs n = n div BS + (n mod BS + (BS - 1)) div BS"
    unfolding ceil_bs_def by (simp only: div_mult_self1)
  moreover have "(n mod BS + (BS - 1)) div BS = (if n mod BS = 0 then 0 else 1)"
    by (auto intro!: div_nat_eqI)
  ultimately show ?thesis by simp
qed

lemma ceil_bs_mono: "m \<le> n \<Longrightarrow> ceil_bs m \<le> ceil_bs n"
  by (simp add: ceil_bs_def div_le_mono)

lemma unat_up_div_bs: "unat a < 2 ^ 56 \<Longrightarrow> unat (up_div a BLOCKSIZE) = ceil_bs (unat a)"
  by (simp add: unat_up_div ceil_bs_def)

lemma sint_small: "n < 2147483648 \<Longrightarrow> sint (word_of_nat n :: 32 word) = int n"
  by (rule sint_of_nat_fit) simp

lemma sint_ucast_diff:
  fixes F C :: nat
  assumes "F < 2147483648" and "C \<le> F + 1"
    and w: "w = (word_of_nat F * BLOCKSIZE - word_of_nat C * BLOCKSIZE :: u64_t)"
  shows "sint (ucast (w div BLOCKSIZE) :: 32 word) = int F - int C"
proof (cases "C \<le> F")
  case True
  have "w = word_of_nat ((F - C) * BS)"
    using True by (simp add: w BLOCKSIZE_val of_nat_diff algebra_simps)
  moreover have "(F - C) * BS < 2 ^ 64" using assms(1) by simp
  ultimately have "unat w = (F - C) * BS"
    using unat_word_of_nat_fit [of "(F - C) * BS", where 'a = 64] by (simp only: len_num0 len_bit0 len_num1) simp
  then have "unat (w div BLOCKSIZE) = F - C" by (simp add: unat_div)
  then have "ucast (w div BLOCKSIZE) = (word_of_nat (F - C) :: 32 word)"
    using assms(1) by (intro unsigned_word_eqI [where 'a=nat])
      (simp add: unat_ucast_fit unat_word_of_nat_fit)
  moreover have "sint (word_of_nat (F - C) :: 32 word) = int (F - C)"
    using assms(1) by (intro sint_small) simp
  ultimately show ?thesis using True by (simp only: of_nat_diff)
next
  case False
  then have "C = F + 1" using assms(2) by simp
  then have "w = - BLOCKSIZE" by (simp add: w algebra_simps)
  then show ?thesis using \<open>C = F + 1\<close> by (simp add: BLOCKSIZE_val)
qed

lemma block_span_val:
  assumes "unat offset + unat len < 2 ^ 54"
  shows "block_span offset len = int (ceil_bs (unat offset + unat len)) - int (unat offset div BS)"
proof -
  let ?o = "unat offset" and ?e = "unat offset + unat len"
  define F C where "F = ?e div BS" and "C = ceil_bs ?o"
  have e: "unat (offset + len) = ?e" "unat (len + offset) = ?e"
    using assms by (simp_all add: unat_add_fit)
  have C: "unat (up_div offset BLOCKSIZE) = C" using assms by (simp add: unat_up_div_bs C_def)
  have F: "unat ((len + offset) div BLOCKSIZE) = F" using e by (simp add: unat_div F_def)
  have Cw: "up_div offset BLOCKSIZE = word_of_nat C" unfolding C [symmetric] by simp
  have Fw: "(len + offset) div BLOCKSIZE = word_of_nat F" unfolding F [symmetric] by simp
  have Cb: "C \<le> F + 1" using ceil_bs_mod [of ?o] div_le_mono [of ?o ?e BS] by (simp add: C_def F_def)
  have Fb: "F < 1073741824" using assms by (simp add: F_def)
  have n0: "sint (ucast ((((len + offset) div BLOCKSIZE) * BLOCKSIZE - up_div offset BLOCKSIZE * BLOCKSIZE)
      div BLOCKSIZE) :: 32 word) = int F - int C"
    unfolding Cw Fw by (rule sint_ucast_diff [OF _ Cb refl]) (use Fb in simp)
  have CB: "C * BS < 2 ^ 64" using Cb Fb by simp
  have "unat (up_div offset BLOCKSIZE * BLOCKSIZE) = C * BS"
    using C CB by (subst unat_mult_fit) simp_all
  then have o1: "offset = up_div offset BLOCKSIZE * BLOCKSIZE \<longleftrightarrow> ?o = C * BS"
    by (metis unsigned_word_eqI [where 'a=nat])
  have FB: "F * BS < 2 ^ 64" using Fb by simp
  have "unat (((len + offset) div BLOCKSIZE) * BLOCKSIZE) = F * BS"
    using F FB by (subst unat_mult_fit) simp_all
  then have l1: "offset + len = ((len + offset) div BLOCKSIZE) * BLOCKSIZE \<longleftrightarrow> ?e = F * BS"
    using e by (metis unsigned_word_eqI [where 'a=nat])
  have oC: "?o = C * BS \<longleftrightarrow> ?o mod BS = 0"
    using ceil_bs_mod [of ?o] by (auto simp: C_def)
  have eF: "?e = F * BS \<longleftrightarrow> ?e mod BS = 0"
    unfolding F_def using div_mult_mod_eq [of ?e BS] by linarith
  show ?thesis
    unfolding block_span_def Let_def n0 o1 l1 oC eF
    using ceil_bs_mod [of ?o] ceil_bs_mod [of ?e] by (simp add: C_def F_def)
qed

lemma span_bound: "ceil_bs (a + b) - a div BS \<le> b div BS + 2"
proof -
  have "a + b + (BS - 1) < (a div BS + b div BS + 3) * BS"
    using mod_less_divisor [of BS a] mod_less_divisor [of BS b] div_mult_mod_eq [of a BS]
      div_mult_mod_eq [of b BS] by (simp only: add_mult_distrib)
  then have "ceil_bs (a + b) < a div BS + b div BS + 3"
    unfolding ceil_bs_def by (rule less_mult_imp_div_less)
  then show ?thesis by simp
qed

section \<open>Block lists\<close>

definition enc_blocks :: "file_block list \<Rightarrow> buf" where
  "enc_blocks bs = concat (map enc_fblock bs)"

lemma enc_blocks_simps [simp]:
  "enc_blocks [] = []" "enc_blocks (b # bs) = enc_fblock b @ enc_blocks bs"
  "enc_blocks (bs @ bs') = enc_blocks bs @ enc_blocks bs'" "length (enc_blocks bs) = 32 * length bs"
  by (auto simp: enc_blocks_def) (induction bs, auto)

text \<open>The file with this metadata and these blocks: one block for each 16 MiB of its length.\<close>

definition file_blocks :: "dtree \<Rightarrow> u32_t \<Rightarrow> file_meta \<Rightarrow> file_block list \<Rightarrow> bool" where
  "file_blocks dt fb m bs \<longleftrightarrow> (\<exists>xs rest. file_at dt fb xs \<and> unat (fm_blocks m) = length xs
     \<and> content dt xs = enc_meta m @ enc_blocks bs @ rest)
     \<and> unat (fm_strbase m) = 32 * length bs \<and> length bs = ceil_bs (unat (fm_flen m))"

lemma blocks_split: "i < length bs \<Longrightarrow> enc_meta m @ enc_blocks bs @ rest
    = (enc_meta m @ enc_blocks (take i bs)) @ enc_fblock (bs ! i) @ (enc_blocks (drop (Suc i) bs) @ rest)"
  using id_take_nth_drop [of i bs] by (metis append.assoc enc_blocks_simps(2,3))

lemma get_block:
  assumes "i < length bs"
  shows "get_fblock (enc_meta m @ enc_blocks bs @ rest) (64 + 32 * i) = Some (bs ! i)"
  unfolding blocks_split [OF assms]
  using fblock.get_enc_append [of "enc_meta m @ enc_blocks (take i bs)" "bs ! i"] assms by simp

lemma put_block:
  assumes "i < length bs"
  shows "put_fblock (enc_meta m @ enc_blocks bs @ rest) (64 + 32 * i) b
    = Some (enc_meta m @ enc_blocks (bs[i := b]) @ rest)"
  unfolding blocks_split [OF assms]
  using fblock.put_enc_append [of "enc_meta m @ enc_blocks (take i bs)" "bs ! i"] assms
  by (simp add: upd_conv_take_nth_drop)

lemma fb_start_val: "unat offset < 2 ^ 56 \<Longrightarrow> fb_start offset = 64 + 32 * (unat offset div BS)"
proof -
  assume "unat offset < 2 ^ 56"
  then have "unat (offset div BLOCKSIZE) * unat szof_fblock < 2 ^ LENGTH(64)" by (simp add: unat_div)
  from unat_mult_fit [OF this] show ?thesis by (simp add: fb_start_def unat_div)
qed

lemma pieces_map:
  "(\<And>i. i \<in> set is \<Longrightarrow> step st i = Some (st, f i)) \<Longrightarrow> pieces step st is = Some (st, map f is)"
  by (induction "is") auto

section \<open>Reading\<close>

text \<open>The send blocks for \<open>n\<close> blocks from offset \<open>o'\<close> that cover \<open>l\<close> bytes.\<close>

definition read_block :: "file_block list \<Rightarrow> u64_t \<Rightarrow> u64_t \<Rightarrow> nat \<Rightarrow> nat \<Rightarrow> sendblock" where
  "read_block bs offset len n i = (let b = bs ! (unat offset div BS + i) in
     if n = 1 then sendblock_of b (offset mod BLOCKSIZE) len
     else if i = 0 then sendblock_of b (offset mod BLOCKSIZE) (BLOCKSIZE - offset)
     else if i = n - 1 then sendblock_of b 0
       (if (offset + len) mod BLOCKSIZE \<noteq> 0 then (offset + len) mod BLOCKSIZE else BLOCKSIZE)
     else sendblock_of b 0 BLOCKSIZE)"

definition clip :: "u64_t \<Rightarrow> u64_t \<Rightarrow> u64_t \<Rightarrow> u64_t" where
  "clip flen offset len = (if len < flen - offset then len else flen - offset)"

lemma unat_clip: "offset \<le> flen \<Longrightarrow> unat (clip flen offset len) = min (unat len) (unat flen - unat offset)"
  by (auto simp: clip_def word_less_nat_alt word_le_nat_alt unat_sub_fit)

lemma c_read_blocks:
  fixes len :: u64_t
  assumes wf: "wf_geom dt" and E: "malloc_ok E" and fb: "file_blocks dt fb m bs"
    and off: "offset \<le> fm_flen m" and sz: "unat (fm_flen m) < 2 ^ 54"
  defines "len' \<equiv> clip (fm_flen m) offset len"
  defines "n \<equiv> ceil_bs (unat offset + unat len') - unat offset div BS"
  shows "c_read E dt fb offset len uid = Some (int n, map (read_block bs offset len' n) [0..<n])"
    and "unat offset div BS + n \<le> length bs" and "n \<le> unat len div BS + 2"
    and "unat offset + unat len' \<le> unat (fm_flen m)"
    and "unat offset div BS \<le> ceil_bs (unat offset + unat len')"
proof -
  from fb obtain xs rest where x: "file_at dt fb xs" "unat (fm_blocks m) = length xs"
    "content dt xs = enc_meta m @ enc_blocks bs @ rest" "unat (fm_strbase m) = 32 * length bs"
    "length bs = ceil_bs (unat (fm_flen m))" by (auto simp: file_blocks_def)
  have rm: "read_meta dt fb = Some m" using file_read_meta [OF wf x(1,3)] .
  have off': "unat offset \<le> unat (fm_flen m)" using off by (simp add: word_le_nat_alt)
  have l: "unat len' = min (unat len) (unat (fm_flen m) - unat offset)"
    unfolding len'_def using unat_clip [OF off] .
  then show e: "unat offset + unat len' \<le> unat (fm_flen m)" using off' by simp
  have ge: "unat offset div BS \<le> ceil_bs (unat offset + unat len')"
    unfolding ceil_bs_mod using div_le_mono [of "unat offset" "unat offset + unat len'" BS] by simp
  then show "unat offset div BS \<le> ceil_bs (unat offset + unat len')" .
  have span: "block_span offset len' = int n"
    using block_span_val [of offset len'] e sz ge by (simp add: n_def of_nat_diff)
  show in_list: "unat offset div BS + n \<le> length bs"
    using ceil_bs_mono [OF e] ge x(5) by (simp add: n_def)
  have "n \<le> unat len' div BS + 2" unfolding n_def by (rule span_bound)
  also have "\<dots> \<le> unat len div BS + 2" using l by (simp add: div_le_mono)
  finally show "n \<le> unat len div BS + 2" .
  have st: "fb_start offset = 64 + 32 * (unat offset div BS)" using off' sz by (intro fb_start_val) simp
  have get: "get_fblock (content dt xs) (fb_start offset + 32 * i) = Some (bs ! (unat offset div BS + i))"
    if "i < n" for i
    using get_block [of "unat offset div BS + i" bs m rest] that in_list by (simp add: st x(3) algebra_simps)
  obtain b where b: "malloc E (unat (fm_blocks m * bps dt)) = Some b" "length b = unat (fm_blocks m * bps dt)"
    using E by (rule malloc_okE)
  note fit = file_at_fit [OF wf x(1)]
  have "length b = length xs * secsz dt" using b(2) x(2) fit by (simp add: unat_mult_fit)
  with do_readfile_file [OF wf x(1), of b] fit have rd: "do_readfile dt fb b = Some (content dt xs)" by simp
  note start = c_read_def rm Option.bind.bind_lunit b(1) option.case Let_def rd
    clip_def [symmetric] len'_def [symmetric]
  show "c_read E dt fb offset len uid = Some (int n, map (read_block bs offset len' n) [0..<n])"
  proof (cases "n = 1")
    case True
    with get [of 0] off span show ?thesis
      unfolding start by (simp add: not_less read_block_def)
  next
    case False
    have "pieces (read_piece offset len' (int n)) (content dt xs) [0..<n]
        = Some (content dt xs, map (read_block bs offset len' n) [0..<n])"
      using False get by (intro pieces_map) (auto simp: read_piece_def read_block_def Let_def)
    with False off span show ?thesis
      unfolding start by (simp add: not_less)
  qed
qed

text \<open>The part of block \<open>i\<close> that lies in the byte range from \<open>o'\<close> to \<open>e\<close>.\<close>

definition part_off :: "nat \<Rightarrow> nat \<Rightarrow> nat" where "part_off o' i = max o' (i * BS) - i * BS"
definition part_len :: "nat \<Rightarrow> nat \<Rightarrow> nat \<Rightarrow> nat" where
  "part_len o' e i = min e (Suc i * BS) - max o' (i * BS)"

lemma sum_part_len_upto:
  assumes "o' \<le> e" and "o' < BS"
  shows "0 < k \<Longrightarrow> sum_list (map (part_len o' e) [0..<k]) = min e (k * BS) - o'"
proof (induction k)
  case (Suc k)
  show ?case
  proof (cases "k = 0")
    case True
    with assms(2) show ?thesis by (simp add: part_len_def)
  next
    case False
    then have "BS \<le> k * BS" by simp
    with False Suc assms show ?thesis by (auto simp: part_len_def min_def max_def)
  qed
qed simp

lemma sum_part_len:
  assumes "o' \<le> e" and "o' < BS" and "e \<le> n * BS"
  shows "sum_list (map (part_len o' e) [0..<n]) = e - o'"
  using sum_part_len_upto [OF assms(1,2), of n] assms by (cases "n = 0") (auto simp: min_def)

lemma ceil_bs_bounds: "e \<le> ceil_bs e * BS" "0 < e \<Longrightarrow> (ceil_bs e - 1) * BS < e" "ceil_bs e = 0 \<longleftrightarrow> e = 0"
proof -
  define q r where "q = e div BS" and "r = e mod BS"
  have "e = q * BS + r" "r < BS" "ceil_bs e = q + (if r = 0 then 0 else 1)"
    using div_mult_mod_eq [of e BS] ceil_bs_mod [of e] by (simp_all add: q_def r_def)
  then show "e \<le> ceil_bs e * BS" "0 < e \<Longrightarrow> (ceil_bs e - 1) * BS < e" "ceil_bs e = 0 \<longleftrightarrow> e = 0"
    by (auto simp: diff_mult_distrib)
qed

lemma unat_ucast_bs: "unat x \<le> BS \<Longrightarrow> unat (ucast (x :: u64_t) :: u32_t) = unat x"
  by (simp add: unat_ucast_fit)

lemma read_block_part:
  assumes o: "unat offset < BS" and e: "unat offset + unat len < 2 ^ 54"
    and n: "n = ceil_bs (unat offset + unat len)" and i: "i < n"
  shows "unat (sd_offset (read_block bs offset len n i)) = part_off (unat offset) i"
    and "unat (sd_length (read_block bs offset len n i)) = part_len (unat offset) (unat offset + unat len) i"
proof -
  let ?o = "unat offset" and ?e = "unat offset + unat len"
  note cb = ceil_bs_bounds [of ?e, folded n]
  have epos: "0 < ?e" using i cb(3) by (cases "?e = 0") auto
  have om: "unat (ucast (offset mod BLOCKSIZE) :: u32_t) = ?o"
    using o by (simp add: unat_ucast_bs unat_mod)
  have bo: "unat (ucast (BLOCKSIZE - offset) :: u32_t) = BS - ?o"
    using o by (simp add: unat_ucast_bs unat_sub_fit)
  have eu: "unat (offset + len) = ?e" using e by (simp add: unat_add_fit)
  define w where "w = (if (offset + len) mod BLOCKSIZE \<noteq> 0 then (offset + len) mod BLOCKSIZE else BLOCKSIZE)"
  have "(offset + len) mod BLOCKSIZE = 0 \<longleftrightarrow> ?e mod BS = 0"
    using eu by (metis unat_BLOCKSIZE unat_eq_0 unat_mod)
  then have "unat w = (if ?e mod BS \<noteq> 0 then ?e mod BS else BS)" using eu by (simp add: w_def unat_mod)
  moreover have "?e = (n - 1) * BS + (if ?e mod BS \<noteq> 0 then ?e mod BS else BS)"
  proof -
    define q r where "q = ?e div BS" and "r = ?e mod BS"
    have "?e = q * BS + r" "n = q + (if r = 0 then 0 else 1)"
      using div_mult_mod_eq [of ?e BS] ceil_bs_mod [of ?e, folded n] by (simp_all add: q_def r_def)
    with i show ?thesis unfolding r_def [symmetric] by (cases "r = 0"; cases q) auto
  qed
  ultimately have w: "unat w = ?e - (n - 1) * BS" "unat w \<le> BS" by (auto split: if_splits)
  have in0: "i = 0 \<Longrightarrow> part_len ?o ?e i = min ?e BS - ?o" using o by (simp add: part_len_def)
  show "unat (sd_offset (read_block bs offset len n i)) = part_off ?o i"
    using o om i by (auto simp: read_block_def sendblock_of_def Let_def part_off_def max_def)
  show "unat (sd_length (read_block bs offset len n i)) = part_len ?o ?e i"
  proof (cases "n = 1")
    case True
    then have "?e \<le> BS" "i = 0" using cb(1) i by simp_all
    then show ?thesis using True in0 by (simp add: read_block_def sendblock_of_def Let_def unat_ucast_bs)
  next
    case False
    then have n2: "2 \<le> n" using i by simp
    have lo: "Suc j * BS \<le> ?e" if "j < n - 1" for j
      using cb(2) epos that mult_le_mono1 [of "Suc j" "n - 1" BS] by simp
    consider "i = 0" | "0 < i" "i = n - 1" | "0 < i" "i < n - 1" using i by linarith
    then show ?thesis
    proof cases
      case 1
      with lo [of 0] n2 in0 bo False show ?thesis
        by (simp add: read_block_def sendblock_of_def Let_def)
    next
      case 2
      then have "BS \<le> i * BS" by simp
      moreover have "?e \<le> Suc i * BS" using cb(1) 2 by (simp add: mult.commute)
      ultimately have "part_len ?o ?e i = ?e - (n - 1) * BS"
        using o 2 by (simp add: part_len_def max_def min_def)
      with 2 False w show ?thesis
        by (simp add: read_block_def sendblock_of_def Let_def w_def [symmetric] unat_ucast_bs)
    next
      case 3
      then have "BS \<le> i * BS" by simp
      with lo [of i] 3 o have "part_len ?o ?e i = BS" by (simp add: part_len_def max_def min_def)
      with 3 False show ?thesis
        by (simp add: read_block_def sendblock_of_def Let_def unat_ucast_bs)
    qed
  qed
qed

text \<open>A file of two blocks on the disk of \<open>CfsPath\<close>, for the witnesses.\<close>

definition blk_meta :: file_meta where
  "blk_meta = mini_meta\<lparr>fm_flen := 16777316, fm_strbase := 64\<rparr>"

definition blk_list :: "file_block list" where
  "blk_list = [blank_block\<lparr>bl_block_num := 7, bl_length := 16777216, bl_ip := (1, 2, 3), bl_flags := EXIST\<rparr>,
     blank_block\<lparr>bl_block_num := 9, bl_length := 100, bl_ip := (2, 3, 1), bl_flags := EXIST\<rparr>]"

definition blk_disk :: dtree where
  "blk_disk = sample_disk\<lparr>data := pad128 (enc_entry root_entry)
       @ pad128 (enc_dir sample_meta sample_entries sample_pool)
       @ (enc_meta blk_meta @ enc_blocks blk_list) @ replicate 384 0\<rparr>"

lemma length_blk_list: "length blk_list = 2" by (simp add: blk_list_def)

lemma blk_disk_wf: "wf_geom blk_disk"
  by (auto simp: wf_geom_def Let_def blk_disk_def sample_disk_def nth_append sample_lengths length_blk_list)

lemma blk_disk_file: "file_at blk_disk 2 [2]"
  by (auto simp: file_at_def blk_disk_def sample_disk_def nth_append)

lemma blk_disk_blocks: "file_blocks blk_disk 2 blk_meta blk_list"
proof -
  have "content blk_disk [2] = enc_meta blk_meta @ enc_blocks blk_list @ []"
    by (simp add: sector_def blk_disk_def sample_disk_def sample_lengths length_blk_list)
  moreover have "unat (fm_blocks blk_meta) = length [2 :: nat]" by (simp add: blk_meta_def mini_meta_def)
  ultimately show ?thesis
    unfolding file_blocks_def using blk_disk_file
    by (intro conjI exI [of _ "[2]"] exI [of _ "[]"])
       (simp_all add: blk_meta_def mini_meta_def length_blk_list ceil_bs_def)
qed

lemma c_read_parts:
  assumes "wf_geom dt" and "malloc_ok E" and "file_blocks dt fb m bs"
    and "offset \<le> fm_flen m" and "unat (fm_flen m) < 2 ^ 54" and "unat offset < BS"
  shows "\<exists>sl. c_read E dt fb offset len uid = Some (int (length sl), sl) \<and> length sl \<le> length bs
     \<and> length sl = ceil_bs (min (unat offset + unat len) (unat (fm_flen m)))
     \<and> length sl \<le> unat len div BS + 2
     \<and> (\<forall>i<length sl. sd_block_num (sl ! i) = bl_block_num (bs ! i) \<and> sd_ip (sl ! i) = bl_ip (bs ! i)
          \<and> unat (sd_offset (sl ! i)) = part_off (unat offset) i
          \<and> unat (sd_length (sl ! i)) = part_len (unat offset)
               (min (unat offset + unat len) (unat (fm_flen m))) i)
     \<and> sum_list (map (\<lambda>s. unat (sd_length s)) sl) = min (unat len) (unat (fm_flen m) - unat offset)"
proof -
  define len' where "len' = clip (fm_flen m) offset len"
  define n where "n = ceil_bs (unat offset + unat len') - unat offset div BS"
  define sl where "sl = map (read_block bs offset len' n) [0..<n]"
  let ?e = "unat offset + unat len'"
  note r = c_read_blocks [OF assms(1-5), where len = len, folded len'_def, folded n_def, folded sl_def]
  have d0: "unat offset div BS = 0" using assms(6) by simp
  then have n: "n = ceil_bs ?e" by (simp add: n_def)
  have l: "unat len' = min (unat len) (unat (fm_flen m) - unat offset)"
    unfolding len'_def using assms(4) by (rule unat_clip)
  have off: "unat offset \<le> unat (fm_flen m)" using assms(4) by (simp add: word_le_nat_alt)
  then have e: "?e = min (unat offset + unat len) (unat (fm_flen m))" using l by simp
  have e54: "?e < 2 ^ 54" using r(4) assms(5) by simp
  note p = read_block_part [OF assms(6) e54 n]
  have "map (\<lambda>s. unat (sd_length s)) sl = map (part_len (unat offset) ?e) [0..<n]"
    using p(2) by (simp add: sl_def)
  moreover have "sum_list (map (part_len (unat offset) ?e) [0..<n]) = ?e - unat offset"
    using assms(6) ceil_bs_bounds(1) [of ?e] n by (intro sum_part_len) simp_all
  ultimately have sum: "sum_list (map (\<lambda>s. unat (sd_length s)) sl) = min (unat len) (unat (fm_flen m) - unat offset)"
    using l by simp
  have nth: "sl ! i = read_block bs offset len' n i" "i < n" if "i < length sl" for i
    using that by (simp_all add: sl_def)
  have id: "sd_block_num (read_block bs offset len' n i) = bl_block_num (bs ! i)"
    "sd_ip (read_block bs offset len' n i) = bl_ip (bs ! i)" for i
    by (simp_all add: read_block_def sendblock_of_def Let_def d0)
  have "length sl = n" by (simp add: sl_def)
  with r(1,2,3) d0 nth p id sum e n show ?thesis by (intro exI [of _ sl]) auto
qed

text \<open>
  C20. Reading: for an offset inside the first 16 MiB of a file (of less than 16 PiB),
  \<open>c_read\<close> returns one send block per data block that the range -- cut off at the end of
  the file -- touches, in order: the \<open>i\<close>-th names the \<open>i\<close>-th block of the file with its
  replicas and asks for exactly the part of that block that lies in the range, so that
  the parts add up to the bytes requested.
\<close>
theorem c_read_covers:
  assumes "wf_geom dt" and "malloc_ok E" and "file_blocks dt fb m bs"
    and "offset \<le> fm_flen m" and "unat (fm_flen m) < 2 ^ 54" and "unat offset < BS"
  shows "\<exists>sl. c_read E dt fb offset len uid = Some (int (length sl), sl) \<and> length sl \<le> length bs
     \<and> (\<forall>i<length sl. sd_block_num (sl ! i) = bl_block_num (bs ! i) \<and> sd_ip (sl ! i) = bl_ip (bs ! i)
          \<and> unat (sd_offset (sl ! i)) = part_off (unat offset) i
          \<and> unat (sd_length (sl ! i)) = part_len (unat offset)
               (min (unat offset + unat len) (unat (fm_flen m))) i)
     \<and> sum_list (map (\<lambda>s. unat (sd_length s)) sl) = min (unat len) (unat (fm_flen m) - unat offset)"
  using c_read_parts [OF assms, of len uid] by blast

theorem c_read_covers_witness:
  "\<exists>sl. c_read calm_env blk_disk 2 10 16777216 5 = Some (int (length sl), sl)
     \<and> sum_list (map (\<lambda>s. unat (sd_length s)) sl) = 16777216"
  using c_read_covers [OF blk_disk_wf calm_env_ok blk_disk_blocks, of 10 16777216 5]
  by (auto simp: blk_meta_def word_le_nat_alt)

text \<open>
  Behind the first 16 MiB the first length is wrong: \<open>c_read\<close> computes it as
  \<open>BLOCKSIZE - offset\<close> instead of \<open>BLOCKSIZE - offset % BLOCKSIZE\<close>, so for every offset
  from 16 MiB to 4 GiB, a range that spans more than one block gets a first send block of
  the wrong length.
\<close>
lemma c_read_first_length_wrong:
  assumes "wf_geom dt" and "malloc_ok E" and "file_blocks dt fb m bs"
    and "offset \<le> fm_flen m" and "unat (fm_flen m) < 2 ^ 54"
    and "BS \<le> unat offset" and "unat offset < 2 ^ 32" and "unat offset + unat len \<le> unat (fm_flen m)"
    and "(unat offset div BS + 1) * BS < unat offset + unat len"
  shows "\<exists>n s sl. c_read E dt fb offset len uid = Some (n, s # sl)
     \<and> unat (sd_length s) \<noteq> BS - unat offset mod BS"
proof -
  define len' where "len' = clip (fm_flen m) offset len"
  define n where "n = ceil_bs (unat offset + unat len') - unat offset div BS"
  note r = c_read_blocks [OF assms(1-5), where len = len, folded len'_def, folded n_def]
  have "unat len' = unat len" unfolding len'_def using unat_clip [OF assms(4)] assms(8) by simp
  then have "(unat offset div BS + 1) * BS < ceil_bs (unat offset + unat len') * BS"
    using assms(9) ceil_bs_bounds(1) [of "unat offset + unat len"] by simp
  then have "unat offset div BS + 1 < ceil_bs (unat offset + unat len')"
    by (simp only: mult_less_cancel2)
  then have n: "2 \<le> n" by (simp add: n_def)
  then have "[0..<n] = 0 # [1..<n]" by (simp add: upt_rec)
  then have c: "c_read E dt fb offset len uid
      = Some (int n, read_block bs offset len' n 0 # map (read_block bs offset len' n) [1..<n])"
    using r(1) by simp
  define q x where "q = unat offset div BS" and "x = unat offset mod BS"
  have o: "unat offset = q * BS + x" "x < BS" by (simp_all add: q_def x_def)
  have q: "1 \<le> q" "q < 256" using assms(6,7) o by auto
  define t where "t = unat offset - BS"
  have t: "t < 2 ^ 32" "t = (q - 1) * BS + x"
    using assms(6,7) o q by (auto simp: t_def diff_mult_distrib)
  have d: "unat (offset - BLOCKSIZE) = t" using assms(6) by (simp add: unat_sub_fit t_def)
  have len0: "sd_length (read_block bs offset len' n 0) = ucast (BLOCKSIZE - offset)"
    using n by (simp add: read_block_def sendblock_of_def Let_def)
  have "unat (ucast (BLOCKSIZE - offset) :: u32_t) \<noteq> BS - x"
  proof (cases "t = 0")
    case True
    then have "offset - BLOCKSIZE = 0" using d by (metis unat_eq_0)
    then have "BLOCKSIZE - offset = 0" by simp
    moreover have "0 < BS - x" using o(2) by simp
    ultimately show ?thesis by simp
  next
    case False
    have "unat (BLOCKSIZE - offset) = 2 ^ 64 - t"
      using False assms(6) by (simp add: unat_sub_if' t_def)
    moreover have "18446744073709551616 - t = (4294967296 - t) + 4294967295 * 4294967296"
      using t(1) by simp
    then have "(18446744073709551616 - t) mod 4294967296 = (4294967296 - t) mod 4294967296"
      by (simp only: mod_mult_self1)
    ultimately have "unat (ucast (BLOCKSIZE - offset) :: u32_t) = 2 ^ 32 - t"
      using False t(1) by (simp add: unsigned_ucast_eq take_bit_eq_mod)
    moreover have "2 ^ 32 - t \<noteq> BS - x" using t q o(2) by auto
    ultimately show ?thesis by simp
  qed
  with c len0 show ?thesis by (simp add: x_def)
qed

text \<open>A disk with 256-byte sectors and one file of three blocks, where that happens.\<close>

definition far_meta :: file_meta where
  "far_meta = mini_meta\<lparr>fm_flen := 33554532, fm_strbase := 96\<rparr>"

definition far_list :: "file_block list" where
  "far_list = blk_list @ [blank_block\<lparr>bl_block_num := 12\<rparr>]"

definition far_disk :: dtree where
  "far_disk = \<lparr>sb = \<lparr>sb_fstype = 0, sb_bytsPerSec = 256, sb_totSecNum = 4, sb_fatSecNum = 1,
       sb_fatNum = 2, sb_maxBlockNum = 13\<rparr>,
     sb_pad = replicate 216 0, fat_p = [ENDSEC, ENDSEC] @ replicate 62 FREESEC,
     data = replicate 256 0 @ enc_meta far_meta @ enc_blocks far_list @ replicate 96 0,
     dt_size = 1024, in_size = 0, dt_max = 1024, in_max = 0, in_buf = []\<rparr>"

lemma length_far_list: "length far_list = 3" by (simp add: far_list_def length_blk_list)

lemma far_disk_wf: "wf_geom far_disk"
  by (auto simp: wf_geom_def Let_def far_disk_def nth_append nth_Cons' length_far_list)

lemma far_disk_blocks: "file_blocks far_disk 1 far_meta far_list"
proof -
  have "content far_disk [1] = enc_meta far_meta @ enc_blocks far_list @ replicate 96 0"
    by (simp add: sector_def far_disk_def length_far_list)
  moreover have "unat (fm_blocks far_meta) = length [1 :: nat]" by (simp add: far_meta_def mini_meta_def)
  moreover have "file_at far_disk 1 [1]" by (simp add: file_at_def far_disk_def)
  ultimately show ?thesis
    unfolding file_blocks_def
    by (intro conjI exI [of _ "[1]"] exI [of _ "replicate 96 0"])
       (simp_all add: far_meta_def mini_meta_def length_far_list ceil_bs_def)
qed

lemma c_read_first_length_wrong_example:
  "\<exists>n s sl. c_read calm_env far_disk 1 16777226 16777226 5 = Some (n, s # sl)
     \<and> unat (sd_length s) \<noteq> 16777206"
  using c_read_first_length_wrong [OF far_disk_wf calm_env_ok far_disk_blocks, of 16777226 16777226 5]
  by (auto simp: far_meta_def word_le_nat_alt)

end
