(* ===== verification/Head.thy ===== *)
theory Head
  imports SbpStr
begin

text \<open>
  The text head of every message (\<open>struct sbpfs_head\<close> of \<open>libc/lib.h\<close>, with its functions in
  \<open>libc/lib.c\<close>) and the error trace of \<open>libc/sbp_perror.c\<close>. A head is a title line and
  lines \<open>name: value\<close>, closed by an empty line; the body follows. What \<open>make_head\<close>
  prints, \<open>decode_head\<close> reads back, and \<open>get_missing_len\<close> finds the length of the message
  from its \<open>Content-Length\<close> entry.
\<close>

section \<open>Constants\<close>

definition HEADER_FLAG :: buf where "HEADER_FLAG = [13, 10, 13, 10]"
definition MAX_ENTRY_IN_HEAD :: nat where "MAX_ENTRY_IN_HEAD = 32"
definition CONTENT_LEN :: buf where "CONTENT_LEN = lit ''Content-Length''"
definition ARGC :: buf where "ARGC = lit ''Argc''"
definition METHOD :: buf where "METHOD = lit ''Method''"
definition USER :: buf where "USER = lit ''User''"
definition PASS :: buf where "PASS = lit ''Password''"
definition PROTOCOL :: buf where "PROTOCOL = lit ''SBPFS/1.0''"
definition REQUEST_OK :: buf where "REQUEST_OK = lit ''SBPFS/1.0 OK''"
definition REQUEST_ERR :: buf where "REQUEST_ERR = lit ''SBPFS/1.0 ERROR''"
definition ERR_TYPE :: buf where "ERR_TYPE = lit ''Error-Type''"
definition ERR_DETAIL :: buf where "ERR_DETAIL = lit ''Error-Detail''"
definition AUTH_CODE :: buf where "AUTH_CODE = lit ''Auth-Code''"
definition FILE_DESC :: buf where "FILE_DESC = lit ''FD''"
definition DIR_FD :: buf where "DIR_FD = lit ''DirFD''"
definition DIR_ENT_NUM :: buf where "DIR_ENT_NUM = lit ''DirEntryNum''"

definition SOCKET_ERR :: buf where "SOCKET_ERR = lit ''Socket Error''"
definition MEM_ERR :: buf where "MEM_ERR = lit ''Memory Error''"
definition DATA_ERR :: buf where "DATA_ERR = lit ''Data Error''"
definition HEAD_ERR :: buf where "HEAD_ERR = lit ''SBPFS HEAD Error''"
definition REQ_ERR :: buf where "REQ_ERR = lit ''Request Error''"

definition FILE_TYPE :: buf where "FILE_TYPE = lit ''Could not read or write dir''"
definition MAKE_HEAD :: buf where "MAKE_HEAD = lit ''Could not make head''"
definition UNKNOWN_HEAD :: buf where "UNKNOWN_HEAD = lit ''Could not identify data received''"
definition EST_SOCK :: buf where "EST_SOCK = lit ''Could not establish a socket connection''"
definition TOO_MANY_ENTRY :: buf where "TOO_MANY_ENTRY = lit ''There is too many entrys''"
definition HEAD_FLAG :: buf where "HEAD_FLAG = lit ''Could not find the end flag of HEAD''"
definition LINE_SEPARATOR :: buf where "LINE_SEPARATOR = lit ''Could not find line separator''"
definition COLON :: buf where "COLON = lit ''Could not find colon''"
definition DATA_LEN :: buf where "DATA_LEN = lit ''Length of data not match''"
definition MALLOC :: buf where "MALLOC = lit ''Malloc failed''"
definition SEND :: buf where "SEND = lit ''Could not send a specified length''"
definition RECV :: buf where "RECV = lit ''Could not receive a specified length''"
definition SLOT_FULL :: buf where "SLOT_FULL = lit ''Could not find a free file_desc slot''"
definition AUTH_LEN :: buf where "AUTH_LEN = lit ''Auth-code length not match''"
definition DIR_ENT_LEN :: buf where "DIR_ENT_LEN = lit ''Could not get dir entry number''"
definition NO_CONTENT_LEN :: buf where "NO_CONTENT_LEN = lit ''Missing Content-Length Entry''"

text \<open>The byte values of the literals, for the kernel's evaluation.\<close>

lemma CONTENT_LEN_bytes: "CONTENT_LEN = [67, 111, 110, 116, 101, 110, 116, 45, 76, 101, 110, 103, 116, 104]"
  by (simp add: CONTENT_LEN_def lit_def)

lemma length_CONTENT_LEN [simp]: "length CONTENT_LEN = 14"
  by (simp add: CONTENT_LEN_bytes)

section \<open>Data\<close>

text \<open>
  An entry of the error trace; the position (file, line, function) that the code also keeps
  for its messages is left out. The trace is a stack, the newest entry first.
\<close>

record sbp_err =
  err_type :: buf
  err_detail :: buf

abbreviation err :: "buf \<Rightarrow> buf \<Rightarrow> sbp_err" where
  "err ty d \<equiv> \<lparr>err_type = ty, err_detail = d\<rparr>"

text \<open>\<open>entry_num\<close> is the length of \<open>hd_entrys\<close>; \<open>data\<close> holds the strings themselves.\<close>

record sbpfs_head =
  hd_len :: u64_t
  hd_title :: buf
  hd_entrys :: "(buf \<times> buf) list"

section \<open>The error trace\<close>

definition sbp_seterr :: "env \<Rightarrow> sbp_err \<Rightarrow> sbp_err list \<Rightarrow> sbp_err list" where
  "sbp_seterr E e tr =
     (if malloc E 48 = None then tr
      else if malloc E (length (err_type e) + 1) = None \<or> malloc E (length (err_detail e) + 1) = None
      then tr else e # tr)"

fun update_err_loop :: "(buf \<times> buf) list \<Rightarrow> buf option \<Rightarrow> buf option \<Rightarrow> sbp_err option" where
  "update_err_loop [] ty d = None"
| "update_err_loop ((n, v) # es) ty d =
     (let ty = (if n = ERR_TYPE then Some v else ty);
          d = (if n \<noteq> ERR_TYPE \<and> n = ERR_DETAIL then Some v else d)
      in case (ty, d) of
           (Some t, Some x) \<Rightarrow> Some (err t x)
         | _ \<Rightarrow> update_err_loop es ty d)"

definition sbp_update_err :: "env \<Rightarrow> sbpfs_head \<Rightarrow> sbp_err list \<Rightarrow> sbp_err list" where
  "sbp_update_err E head tr = (case update_err_loop (hd_entrys head) None None of
       None \<Rightarrow> tr
     | Some e \<Rightarrow> sbp_seterr E e tr)"

text \<open>\<open>sbp_perror\<close>: the lines it prints, and the trace it leaves.\<close>

definition print_errent :: "sbp_err \<Rightarrow> buf list" where
  "print_errent e = [lit ''Error Type  : '' @ err_type e, lit ''Error Detail: '' @ err_detail e]"

fun perror_loop :: "sbp_err list \<Rightarrow> buf list \<times> sbp_err list" where
  "perror_loop [] = ([], [])"
| "perror_loop (e # tr) = (let (out, rest) = perror_loop tr in (print_errent e @ out, rest))"

definition sbp_perror :: "buf \<Rightarrow> sbp_err list \<Rightarrow> buf list \<times> sbp_err list" where
  "sbp_perror s tr = (let (out, rest) = perror_loop tr in ((if s = [] then [] else [s]) @ out, rest))"

section \<open>Making a head\<close>

fun head_total :: "(buf \<times> buf) list \<Rightarrow> u64_t \<Rightarrow> u64_t" where
  "head_total [] total_len = total_len"
| "head_total ((n, v) # es) total_len =
     head_total es (total_len + (word_of_nat (length n) + word_of_nat (length v) + 4))"

text \<open>\<open>strcpy\<close>, moving the cursor behind the string, and two characters through the cursor.\<close>

definition put_field :: "buf \<Rightarrow> nat \<Rightarrow> buf \<Rightarrow> u8_t \<Rightarrow> u8_t \<Rightarrow> (buf \<times> nat) option" where
  "put_field data cp s c1 c2 = do {
     data \<leftarrow> wr data cp (s @ [0]);
     data \<leftarrow> wr data (cp + length s) [c1];
     data \<leftarrow> wr data (cp + length s + 1) [c2];
     Some (data, cp + length s + 2)
   }"

fun put_entries :: "(buf \<times> buf) list \<Rightarrow> buf \<Rightarrow> nat \<Rightarrow> (buf \<times> nat) option" where
  "put_entries [] data cp = Some (data, cp)"
| "put_entries ((n, v) # es) data cp = do {
     (data, cp) \<leftarrow> put_field data cp n 58 32;
     (data, cp) \<leftarrow> put_field data cp v 13 10;
     put_entries es data cp
   }"

text \<open>The result is the error of a return of \<open>-1\<close>, or the new object and its length.\<close>

definition make_head :: "env \<Rightarrow> sbpfs_head \<Rightarrow> (sbp_err + buf \<times> int) option" where
  "make_head E head =
     (if length (hd_entrys head) > MAX_ENTRY_IN_HEAD then Some (Inl (err HEAD_ERR TOO_MANY_ENTRY)) else
      let total_len = head_total (hd_entrys head) (word_of_nat (length (hd_title head)) + 2) + 2
      in (case malloc E (unat total_len) of
            None \<Rightarrow> Some (Inl (err MEM_ERR MALLOC))
          | Some data \<Rightarrow> do {
              (data, cp) \<leftarrow> put_field data 0 (hd_title head) 13 10;
              (data, cp) \<leftarrow> put_entries (hd_entrys head) data cp;
              data \<leftarrow> wr data cp [13];
              data \<leftarrow> wr data (cp + 1) [10];
              Some (Inr (data, sint (ucast total_len :: 32 word)))
            }))"

section \<open>Reading a head\<close>

text \<open>
  The loop over the lines: \<open>rest\<close> is what stands behind \<open>prev_ptr\<close>, up to and with the NUL;
  the array has 32 entries.
\<close>

function decode_entries :: "buf \<Rightarrow> nat \<Rightarrow> (sbp_err + (buf \<times> buf) list) option" where
  "decode_entries rest i =
     (case strstr rest CRLF of
        None \<Rightarrow> None
      | Some None \<Rightarrow> Some (Inl (err HEAD_ERR LINE_SEPARATOR))
      | Some (Some n) \<Rightarrow>
          if n = 0 then Some (Inr [])
          else if MAX_ENTRY_IN_HEAD \<le> i then None
          else (case strstr (take n rest @ [0]) SEP of
              None \<Rightarrow> None
            | Some None \<Rightarrow> Some (Inl (err HEAD_ERR COLON))
            | Some (Some k) \<Rightarrow>
                map_option (map_sum id (\<lambda>es. (take k rest, drop (k + 2) (take n rest)) # es))
                  (decode_entries (drop (n + 2) rest) (Suc i))))"
  by pat_completeness auto
termination by (relation "measure (\<lambda>(rest, i). length rest)") (auto dest!: strstr_bound)

declare decode_entries.simps [simp del]

definition decode_head :: "env \<Rightarrow> buf \<Rightarrow> (sbp_err + sbpfs_head) option" where
  "decode_head E data =
     (case strstr data HEADER_FLAG of
        None \<Rightarrow> None
      | Some None \<Rightarrow> Some (Inl (err HEAD_ERR HEAD_FLAG))
      | Some (Some header_end) \<Rightarrow>
          let header_len = header_end + 4 in
          if malloc E (header_len + 1) = None then Some (Inl (err MEM_ERR MALLOC)) else
          let hdata = take header_len data @ [0] in
          (case strstr hdata CRLF of
             None \<Rightarrow> None
           | Some None \<Rightarrow> Some (Inl (err HEAD_ERR LINE_SEPARATOR))
           | Some (Some n) \<Rightarrow>
               map_option (map_sum id (\<lambda>es. \<lparr>hd_len = word_of_nat header_len,
                   hd_title = take n hdata, hd_entrys = es\<rparr>))
                 (decode_entries (drop (n + 2) hdata) 0)))"

definition get_head_entry_value :: "sbpfs_head \<Rightarrow> buf \<Rightarrow> buf option" where
  "get_head_entry_value head entry = map_of (hd_entrys head) entry"

text \<open>
  How many bytes of a message are still to come, from its first bytes \<open>b\<close> (in an object
  with a NUL at its end). The number is copied into \<open>content_len[64]\<close>. The result is an
  error (the code returns \<open>-1\<close>), or the number.
\<close>

definition get_missing_len :: "buf \<Rightarrow> u64_t \<Rightarrow> (sbp_err + int) option" where
  "get_missing_len b received_bytes =
     (case strstr b HEADER_FLAG of
        None \<Rightarrow> None
      | Some None \<Rightarrow> Some (Inl (err HEAD_ERR HEAD_FLAG))
      | Some (Some header_end) \<Rightarrow>
          (case strstr b CONTENT_LEN of
             None \<Rightarrow> None
           | Some None \<Rightarrow> Some (Inl (err HEAD_ERR CONTENT_LEN))
           | Some (Some start) \<Rightarrow>
               (case strstr (drop start b) CRLF of
                  None \<Rightarrow> None
                | Some None \<Rightarrow> Some (Inl (err HEAD_ERR LINE_SEPARATOR))
                | Some (Some e) \<Rightarrow>
                    if e < 16 \<or> 64 \<le> e - 16 then None else do {
                      v \<leftarrow> atoll (take (e - 16) (drop (start + 16) b));
                      Some (Inr (sint (word_of_int v + word_of_nat (header_end + 4) - received_bytes :: u64_t)))
                    })))"

end
