(* ===== verification/HeadSpec.thy ===== *)
theory HeadSpec
  imports Head
begin

text \<open>
  What the functions on heads do: \<open>make_head\<close> fills exactly the object it allocates with the
  text of the head; \<open>decode_head\<close> finds the same title and entries in front of any body;
  \<open>get_missing_len\<close> gives the number of bytes still to come.
\<close>

section \<open>The text of a head\<close>

definition entry_bytes :: "buf \<times> buf \<Rightarrow> buf" where
  "entry_bytes e = fst e @ SEP @ snd e @ CRLF"

definition head_bytes :: "sbpfs_head \<Rightarrow> buf" where
  "head_bytes h = hd_title h @ CRLF @ concat (map entry_bytes (hd_entrys h)) @ CRLF"

lemma entry_bytes_pair [simp]: "entry_bytes (n, v) = n @ SEP @ v @ CRLF"
  by (simp add: entry_bytes_def)

text \<open>Strings that do not disturb the line structure.\<close>

definition plain :: "buf \<Rightarrow> bool" where
  "plain s \<longleftrightarrow> 0 \<notin> set s \<and> 13 \<notin> set s"

definition plain_entries :: "(buf \<times> buf) list \<Rightarrow> bool" where
  "plain_entries es \<longleftrightarrow> (\<forall>(n, v) \<in> set es. plain n \<and> 58 \<notin> set n \<and> plain v)"

definition plain_head :: "sbpfs_head \<Rightarrow> bool" where
  "plain_head h \<longleftrightarrow> plain (hd_title h) \<and> plain_entries (hd_entrys h) \<and> length (hd_entrys h) \<le> 32"

lemma plain_entries_Cons [simp]:
  "plain_entries ((n, v) # es) \<longleftrightarrow> plain n \<and> 58 \<notin> set n \<and> plain v \<and> plain_entries es"
  by (simp add: plain_entries_def)

lemma plain_Nil [simp]: "plain []" "plain_entries []"
  by (simp_all add: plain_def plain_entries_def)

lemma plain_sdec [simp]: "plain (sdec i)"
  using sdec_plain by (auto simp: plain_def)

section \<open>Making\<close>

lemma put_field_exact:
  assumes "length s + 2 \<le> length r"
  shows "put_field (a @ r) (length a) s c1 c2
    = Some ((a @ s @ [c1, c2]) @ drop (length s + 2) r, length (a @ s @ [c1, c2]))"
proof -
  have 1: "wr (a @ r) (length a) (s @ [0]) = Some (a @ (s @ [0]) @ drop (length s + 1) r)"
    using assms by (simp add: wr_def)
  have 2: "wr (a @ (s @ [0]) @ drop (length s + 1) r) (length a + length s) [c1]
      = Some (a @ (s @ [c1]) @ drop (length s + 1) r)"
    using assms by (simp add: wr_def)
  have d: "drop (length s + 1) r = r ! (length s + 1) # drop (length s + 2) r"
    using assms by (simp add: Cons_nth_drop_Suc)
  have 3: "wr (a @ (s @ [c1]) @ drop (length s + 1) r) (length a + length s + 1) [c2]
      = Some (a @ (s @ [c1, c2]) @ drop (length s + 2) r)"
    unfolding d by (simp add: wr_def)
  show ?thesis unfolding put_field_def 1 2 3 Option.bind.bind_lunit by simp
qed

lemma put_entries_exact:
  "length (concat (map entry_bytes es)) \<le> length r \<Longrightarrow>
    put_entries es (a @ r) (length a)
      = Some ((a @ concat (map entry_bytes es)) @ drop (length (concat (map entry_bytes es))) r,
          length (a @ concat (map entry_bytes es)))"
proof (induction es arbitrary: a r)
  case (Cons e es)
  obtain n v where e: "e = (n, v)" by (cases e)
  let ?a1 = "a @ n @ SEP" and ?r1 = "drop (length n + 2) r"
  let ?a2 = "?a1 @ v @ CRLF" and ?r2 = "drop (length v + 2) ?r1"
  from Cons.prems have l: "length n + 2 \<le> length r" "length v + 2 \<le> length ?r1"
    "length (concat (map entry_bytes es)) \<le> length ?r2"
    by (simp_all add: e)
  have "put_field (a @ r) (length a) n 58 32 = Some (?a1 @ ?r1, length ?a1)"
    using put_field_exact [OF l(1)] by simp
  moreover have "put_field (?a1 @ ?r1) (length ?a1) v 13 10 = Some (?a2 @ ?r2, length ?a2)"
    using put_field_exact [OF l(2), of ?a1] by simp
  moreover note Cons.IH [OF l(3), of ?a2]
  ultimately have "put_entries (e # es) (a @ r) (length a)
      = Some ((?a2 @ concat (map entry_bytes es)) @ drop (length (concat (map entry_bytes es))) ?r2,
          length (?a2 @ concat (map entry_bytes es)))"
    unfolding e put_entries.simps by simp
  moreover have "?a2 @ concat (map entry_bytes es) = a @ concat (map entry_bytes (e # es))"
    by (simp add: e)
  moreover have "drop (length (concat (map entry_bytes es))) ?r2 = drop (length (concat (map entry_bytes (e # es)))) r"
    by (simp add: e ac_simps)
  ultimately show ?case by (simp add: e)
qed simp

lemma head_total: "head_total es t = t + word_of_nat (length (concat (map entry_bytes es)))"
  by (induction es arbitrary: t) auto

lemma make_head_exact:
  assumes "length (hd_entrys h) \<le> 32" and E: "malloc_ok E" and small: "length (head_bytes h) < 2 ^ 31"
  shows "make_head E h = Some (Inr (head_bytes h, int (length (head_bytes h))))"
proof -
  let ?es = "concat (map entry_bytes (hd_entrys h))" and ?t = "hd_title h"
  let ?n = "length (head_bytes h)"
  have tot: "head_total (hd_entrys h) (word_of_nat (length ?t) + 2) + 2 = (word_of_nat ?n :: u64_t)"
    by (simp add: head_total head_bytes_def)
  have u: "unat (word_of_nat ?n :: u64_t) = ?n"
    using small by (simp add: unat_word_of_nat_fit)
  obtain d where d: "malloc E ?n = Some d" "length d = ?n" using E by (rule malloc_okE)
  let ?a1 = "?t @ CRLF" and ?r1 = "drop (length ?t + 2) d"
  let ?a2 = "?a1 @ ?es" and ?r2 = "drop (length ?es) ?r1"
  have l: "length ?t + 2 \<le> length d" "length ?es \<le> length ?r1" "length ?r2 = 2"
    using d(2) by (simp_all add: head_bytes_def)
  have 1: "put_field d 0 ?t 13 10 = Some (?a1 @ ?r1, length ?a1)"
    using put_field_exact [OF l(1), of "[]"] by simp
  have 2: "put_entries (hd_entrys h) (?a1 @ ?r1) (length ?a1) = Some (?a2 @ ?r2, length ?a2)"
    by (rule put_entries_exact [OF l(2)])
  have two: "length l = 2 \<Longrightarrow> \<exists>x y. l = [x, y]" for l :: buf
    by (auto simp: numeral_2_eq_2 length_Suc_conv)
  obtain x y where r2: "?r2 = [x, y]" using two [OF l(3)] by blast
  have 3: "wr (a @ [x, y]) (length a) [13] = Some (a @ [13, y])"
    "wr (a @ [13, y]) (length a + 1) [10] = Some (a @ [13, 10])" for a :: buf
    by (simp_all add: wr_def)
  have s: "sint (ucast (word_of_nat ?n :: u64_t) :: 32 word) = int ?n"
    using small ucast_word_of_nat [of ?n, where 'a = 64 and 'b = 32]
      sint_of_nat_fit [of ?n, where 'a = 32] by simp
  have "make_head E h = do {
      (data, cp) \<leftarrow> put_field d 0 ?t 13 10;
      (data, cp) \<leftarrow> put_entries (hd_entrys h) data cp;
      data \<leftarrow> wr data cp [13];
      data \<leftarrow> wr data (cp + 1) [10];
      Some (Inr (data, int ?n)) }"
    using assms(1) unfolding make_head_def tot u Let_def s by (simp add: MAX_ENTRY_IN_HEAD_def d)
  also have "\<dots> = Some (Inr (?a2 @ [13, 10], int ?n))"
    unfolding 1 2 r2 Option.bind.bind_lunit prod.case 3 ..
  also have "?a2 @ [13, 10] = head_bytes h" by (simp add: head_bytes_def)
  finally show ?thesis .
qed

section \<open>Reading back\<close>

lemma lines_neq_CR:
  "plain_entries es \<Longrightarrow> \<exists>x r. concat (map entry_bytes es) @ CRLF @ s = x # r \<and> (es \<noteq> [] \<longrightarrow> x \<noteq> 13)"
proof (cases es)
  case (Cons e es')
  assume "plain_entries es"
  then show ?thesis using Cons by (cases e; cases "fst e") (auto simp: plain_def)
qed simp

lemma strstr_flag_line:
  assumes "plain s" and "x \<noteq> 13"
  shows "strstr (s @ CRLF @ x # r) HEADER_FLAG
    = map_option (map_option (\<lambda>n. length s + (2 + n))) (strstr (x # r) HEADER_FLAG)"
proof -
  have "strstr (13 # 10 # x # r) HEADER_FLAG = map_option (map_option (\<lambda>n. 2 + n)) (strstr (x # r) HEADER_FLAG)"
    using assms(2) by (cases "strstr (x # r) HEADER_FLAG"; cases "the (strstr (x # r) HEADER_FLAG)")
      (simp_all add: HEADER_FLAG_def starts_Cons)
  moreover have "strstr (s @ 13 # 10 # x # r) HEADER_FLAG
      = map_option (map_option (\<lambda>n. length s + n)) (strstr (13 # 10 # x # r) HEADER_FLAG)"
    unfolding HEADER_FLAG_def using assms(1) by (intro strstr_skip) (simp_all add: plain_def)
  ultimately show ?thesis
    by (cases "strstr (x # r) HEADER_FLAG"; cases "the (strstr (x # r) HEADER_FLAG)") simp_all
qed

lemma strstr_flag_end: "plain s \<Longrightarrow> strstr (s @ CRLF @ CRLF @ r) HEADER_FLAG = Some (Some (length s))"
  using strstr_first [of s 13 "[10, 13, 10]" r] by (simp add: HEADER_FLAG_def plain_def)

lemma strstr_flag_lines:
  "plain s \<Longrightarrow> plain_entries es \<Longrightarrow>
    strstr (s @ CRLF @ concat (map entry_bytes es) @ CRLF @ r) HEADER_FLAG
      = Some (Some (length s + length (concat (map entry_bytes es))))"
proof (induction es arbitrary: s)
  case Nil
  then show ?case using strstr_flag_end by simp
next
  case (Cons e es)
  obtain n v where e: "e = (n, v)" by (cases e)
  with Cons.prems have p: "plain (n @ SEP @ v)" "plain_entries es" by (auto simp: plain_def)
  obtain x l where xl: "concat (map entry_bytes (e # es)) @ CRLF @ r = x # l" and x: "x \<noteq> 13"
    using lines_neq_CR [OF Cons.prems(2), of r] by auto
  have "strstr (s @ CRLF @ x # l) HEADER_FLAG
      = map_option (map_option (\<lambda>n. length s + (2 + n))) (strstr (x # l) HEADER_FLAG)"
    by (rule strstr_flag_line [OF Cons.prems(1) x])
  moreover have "strstr (x # l) HEADER_FLAG = Some (Some (length (n @ SEP @ v) + length (concat (map entry_bytes es))))"
    using Cons.IH [OF p] unfolding xl [symmetric] by (simp add: e)
  ultimately show ?case unfolding xl by (simp add: e)
qed

lemma head_flag_at:
  assumes "plain_head h"
  shows "strstr (head_bytes h @ r) HEADER_FLAG = Some (Some (length (head_bytes h) - 4))"
    and "4 \<le> length (head_bytes h)"
  using assms strstr_flag_lines [of "hd_title h" "hd_entrys h" r]
  by (simp_all add: head_bytes_def plain_head_def)

lemma strstr_line: "plain s \<Longrightarrow> strstr (s @ CRLF @ r) CRLF = Some (Some (length s))"
  using strstr_first [of s 13 "[10]" r] by (simp add: plain_def)

lemma strstr_sep: "plain s \<Longrightarrow> 58 \<notin> set s \<Longrightarrow> strstr (s @ SEP @ r) SEP = Some (Some (length s))"
  using strstr_first [of s 58 "[32]" r] by (simp add: plain_def)

lemma decode_entries_lines:
  "plain_entries es \<Longrightarrow> i + length es \<le> 32 \<Longrightarrow>
    decode_entries (concat (map entry_bytes es) @ CRLF @ r) i = Some (Inr es)"
proof (induction es arbitrary: i)
  case Nil
  then show ?case by (subst decode_entries.simps) (simp add: starts_def)
next
  case (Cons e es)
  obtain n v where e: "e = (n, v)" by (cases e)
  let ?more = "concat (map entry_bytes es) @ CRLF @ r" and ?line = "n @ SEP @ v"
  from Cons.prems have p: "plain ?line" "plain n" "58 \<notin> set n" "plain_entries es"
    by (auto simp: e plain_def)
  have more: "decode_entries ?more (Suc i) = Some (Inr es)"
    using Cons.prems p(4) by (intro Cons.IH) simp_all
  have bytes_eq: "concat (map entry_bytes (e # es)) @ CRLF @ r = ?line @ CRLF @ ?more"
    by (simp add: e)
  have 1: "strstr (?line @ CRLF @ ?more) CRLF = Some (Some (length ?line))"
    by (rule strstr_line [OF p(1)])
  have 2: "strstr (take (length ?line) (?line @ CRLF @ ?more) @ [0]) SEP = Some (Some (length n))"
    using strstr_sep [OF p(2,3), of "v @ [0]"] by simp
  have "drop (length a + 2) (a @ CRLF @ b) = b" for a b :: buf by simp
  then have 3: "drop (length ?line + 2) (?line @ CRLF @ ?more) = ?more"
    "take (length n) (?line @ CRLF @ ?more) = n"
    "drop (length n + 2) (take (length ?line) (?line @ CRLF @ ?more)) = v"
    by (blast, simp_all)
  have "\<not> MAX_ENTRY_IN_HEAD \<le> i" "length ?line \<noteq> 0"
    using Cons.prems(2) by (simp_all add: MAX_ENTRY_IN_HEAD_def)
  then show ?case
    unfolding bytes_eq by (subst decode_entries.simps) (simp only: 1 2 3 more option.case if_False, simp add: e)
qed

lemma decode_head_bytes:
  assumes h: "plain_head h" and E: "malloc_ok E"
  shows "decode_head E (head_bytes h @ r) = Some (Inr (h\<lparr>hd_len := word_of_nat (length (head_bytes h))\<rparr>))"
proof -
  let ?es = "concat (map entry_bytes (hd_entrys h))"
  note flag = head_flag_at [OF h]
  have len: "length (head_bytes h) - 4 + 4 = length (head_bytes h)" using flag(2) by simp
  obtain b where m: "malloc E (length (head_bytes h) + 1) = Some b" using E by (rule malloc_okE)
  have bytes_eq: "take (length (head_bytes h)) (head_bytes h @ r) @ [0] = hd_title h @ CRLF @ ?es @ CRLF @ [0]"
    by (simp, simp add: head_bytes_def)
  have 1: "strstr (hd_title h @ CRLF @ ?es @ CRLF @ [0]) CRLF = Some (Some (length (hd_title h)))"
    using h by (intro strstr_line) (simp add: plain_head_def)
  have 2: "drop (length (hd_title h) + 2) (hd_title h @ CRLF @ ?es @ CRLF @ [0]) = ?es @ CRLF @ [0]"
    "take (length (hd_title h)) (hd_title h @ CRLF @ ?es @ CRLF @ [0]) = hd_title h"
    by simp_all
  have 3: "decode_entries (?es @ CRLF @ [0]) 0 = Some (Inr (hd_entrys h))"
    using h by (intro decode_entries_lines) (simp_all add: plain_head_def)
  show ?thesis
    unfolding decode_head_def flag(1) option.case Let_def len m bytes_eq 1 2 3 by simp
qed

section \<open>The length of the message\<close>

text \<open>
  The head announces a body of \<open>n\<close> bytes: its \<open>Content-Length\<close> entry is also the first place
  where these characters occur. (The code searches the whole head for them: a file name
  that contains them misleads it.)
\<close>

definition announces :: "sbpfs_head \<Rightarrow> nat \<Rightarrow> bool" where
  "announces h n \<longleftrightarrow> (\<exists>before behind. head_bytes h = before @ (CONTENT_LEN @ SEP) @ sdec (int n) @ CRLF @ behind
      \<and> strstr (head_bytes h) CONTENT_LEN = Some (Some (length before)))"

lemma strstr_number:
  "strstr ((CONTENT_LEN @ SEP) @ sdec i @ CRLF @ r) CRLF = Some (Some (16 + length (sdec i)))"
proof -
  have "plain ((CONTENT_LEN @ SEP) @ sdec i)"
    using plain_sdec [of i] by (simp add: plain_def CONTENT_LEN_bytes)
  then show ?thesis
    using strstr_line [of "(CONTENT_LEN @ SEP) @ sdec i" r] by simp
qed

lemma get_missing_len_head:
  assumes h: "plain_head h" and n: "announces h n" "n < 2 ^ 62" and m: "length (head_bytes h) < 2 ^ 62"
    and r: "r \<le> length (head_bytes h) + n"
  shows "get_missing_len (head_bytes h @ s) (word_of_nat r) = Some (Inr (int (length (head_bytes h) + n - r)))"
proof -
  obtain pre post where hb: "head_bytes h = pre @ (CONTENT_LEN @ SEP) @ sdec (int n) @ CRLF @ post"
    and at: "strstr (head_bytes h) CONTENT_LEN = Some (Some (length pre))"
    using n(1) by (auto simp: announces_def)
  note flag = head_flag_at [OF h]
  have e4: "length (head_bytes h) - 4 + 4 = length (head_bytes h)" using flag(2) by simp
  have c: "strstr (head_bytes h @ s) CONTENT_LEN = Some (Some (length pre))"
    by (rule strstr_append [OF at])
  have d: "drop (length pre) (head_bytes h @ s) = (CONTENT_LEN @ SEP) @ sdec (int n) @ CRLF @ post @ s"
    by (simp add: hb)
  have small: "length (sdec (int n)) \<le> 20"
    using n(2) length_udec [of n 20] by (simp add: sdec_def)
  have num: "take (16 + length (sdec (int n)) - 16) (drop (length pre + 16) (head_bytes h @ s)) = sdec (int n)"
    by (simp add: hb)
  have v: "atoll (sdec (int n)) = Some (int n)" using n(2) by (intro atoll_sdec) simp_all
  have w: "word_of_int (int n) + word_of_nat (length (head_bytes h)) - word_of_nat r
      = (word_of_nat (length (head_bytes h) + n - r) :: u64_t)"
    using r by (simp add: of_nat_diff)
  have sn: "sint (word_of_nat (length (head_bytes h) + n - r) :: u64_t) = int (length (head_bytes h) + n - r)"
    using n(2) m by (intro sint_of_nat_fit) simp
  have "\<not> (16 + length (sdec (int n)) < 16 \<or> 64 \<le> 16 + length (sdec (int n)) - 16)"
    using small by simp
  then show ?thesis
    unfolding get_missing_len_def flag(1) option.case c d strstr_number num e4 v
      Option.bind.bind_lunit w sn by (simp only: if_False)
qed

text \<open>Without the end of the head the length is not known, whatever else the buffer holds.\<close>

lemma get_missing_len_partial:
  "strstr b HEADER_FLAG = Some None \<Longrightarrow> get_missing_len b r = Some (Inl (err HEAD_ERR HEAD_FLAG))"
  by (simp add: get_missing_len_def)

text \<open>
  A head announces its body when \<open>Content-Length\<close> occurs neither in its title nor in the
  entries before that one: the characters that separate the tokens do not occur in it.
\<close>

definition quiet :: "buf \<Rightarrow> bool" where
  "quiet s \<longleftrightarrow> plain s \<and> \<not> occurs CONTENT_LEN s"

lemma quiet_if_no_C: "plain s \<Longrightarrow> 67 \<notin> set s \<Longrightarrow> quiet s"
  by (simp add: quiet_def CONTENT_LEN_bytes not_occurs_if_first)

lemma quiet_sdec [simp]: "quiet (sdec i)"
proof (rule quiet_if_no_C)
  show "67 \<notin> set (sdec i)"
    by (auto simp: sdec_def isdig_def word_le_nat_alt dest: isdig_udec split: if_splits)
qed simp

lemma strstr_quiet:
  "quiet a \<Longrightarrow> x \<in> {10, 13, 32, 58} \<Longrightarrow>
    strstr (a @ x # s) CONTENT_LEN = map_option (map_option (\<lambda>n. length a + 1 + n)) (strstr s CONTENT_LEN)"
  by (rule strstr_token) (auto simp: quiet_def plain_def CONTENT_LEN_bytes)

lemma strstr_quiet_Cons:
  "x \<in> {10, 13, 32, 58} \<Longrightarrow>
    strstr (x # s) CONTENT_LEN = map_option (map_option (\<lambda>n. 1 + n)) (strstr s CONTENT_LEN)"
  using strstr_quiet [of "[]" x s] by (auto simp: quiet_def CONTENT_LEN_bytes)

lemma strstr_quiet_entries:
  "\<forall>(n, v) \<in> set es. quiet n \<and> quiet v \<Longrightarrow> strstr s CONTENT_LEN = Some (Some k) \<Longrightarrow>
    strstr (concat (map entry_bytes es) @ s) CONTENT_LEN
      = Some (Some (length (concat (map entry_bytes es)) + k))"
proof (induction es)
  case (Cons e es)
  obtain n v where e: "e = (n, v)" by (cases e)
  then have "quiet n" "quiet v" using Cons.prems by auto
  moreover have "strstr (concat (map entry_bytes es) @ s) CONTENT_LEN
      = Some (Some (length (concat (map entry_bytes es)) + k))"
    using Cons by simp
  ultimately show ?case by (simp add: e strstr_quiet strstr_quiet_Cons del: strstr.simps)
qed simp

lemma announces_entries:
  assumes "quiet ty" and "\<forall>(m, v) \<in> set pre. quiet m \<and> quiet v"
  shows "announces \<lparr>hd_len = x, hd_title = ty, hd_entrys = pre @ (CONTENT_LEN, sdec (int n)) # es\<rparr> n"
proof -
  let ?post = "concat (map entry_bytes es) @ CRLF" and ?pre = "concat (map entry_bytes pre)"
  let ?rest = "CONTENT_LEN @ SEP @ sdec (int n) @ CRLF @ ?post"
  have hb: "head_bytes \<lparr>hd_len = x, hd_title = ty, hd_entrys = pre @ (CONTENT_LEN, sdec (int n)) # es\<rparr>
      = (ty @ CRLF @ ?pre) @ (CONTENT_LEN @ SEP) @ sdec (int n) @ CRLF @ ?post"
    by (simp add: head_bytes_def)
  have "strstr ?rest CONTENT_LEN = Some (Some 0)"
    using strstr_here [of 67 "tl CONTENT_LEN" "SEP @ sdec (int n) @ CRLF @ ?post"]
    by (simp add: CONTENT_LEN_bytes del: strstr.simps)
  then have "strstr (?pre @ ?rest) CONTENT_LEN = Some (Some (length ?pre + 0))"
    by (rule strstr_quiet_entries [OF assms(2)])
  then have "strstr (ty @ 13 # 10 # ?pre @ ?rest) CONTENT_LEN = Some (Some (length (ty @ CRLF @ ?pre)))"
    using assms(1) by (simp add: strstr_quiet strstr_quiet_Cons del: strstr.simps)
  then show ?thesis
    unfolding announces_def hb by (intro exI [of _ "ty @ CRLF @ ?pre"] exI [of _ ?post]) simp
qed

text \<open>Replies announce their body in the first entry.\<close>

lemma announces_reply:
  assumes "plain ty" and "67 \<notin> set ty"
  shows "announces \<lparr>hd_len = x, hd_title = ty, hd_entrys = (CONTENT_LEN, sdec (int n)) # es\<rparr> n"
  using announces_entries [of ty "[]" x n es] assms by (simp add: quiet_if_no_C)

definition sample_reply :: "nat \<Rightarrow> sbpfs_head" where
  "sample_reply n = \<lparr>hd_len = 0, hd_title = REQUEST_OK, hd_entrys = [(CONTENT_LEN, sdec (int n))]\<rparr>"

lemma REQUEST_OK_plain: "plain REQUEST_OK" "67 \<notin> set REQUEST_OK" "length REQUEST_OK = 12"
  by (simp_all add: REQUEST_OK_def lit_def plain_def)

lemma sample_reply_plain: "plain_head (sample_reply n)"
  using plain_sdec [of "int n"] REQUEST_OK_plain
  by (simp add: plain_head_def sample_reply_def plain_entries_def CONTENT_LEN_bytes) (simp add: plain_def)

lemma sample_reply_announces: "announces (sample_reply n) n"
  unfolding sample_reply_def by (rule announces_reply [OF REQUEST_OK_plain(1,2)])

lemma sample_reply_short: "n < 10 ^ 20 \<Longrightarrow> length (head_bytes (sample_reply n)) \<le> 54"
  using length_udec [of n 20] REQUEST_OK_plain(3)
  by (simp add: head_bytes_def sample_reply_def sdec_def)

section \<open>The properties\<close>

text \<open>A request to read, for the witness.\<close>

definition sample_head :: sbpfs_head where
  "sample_head = \<lparr>hd_len = 0, hd_title = PROTOCOL,
     hd_entrys = [(METHOD, lit ''READ''), (CONTENT_LEN, sdec 0)]\<rparr>"

lemma sample_head_plain: "plain_head sample_head"
  using plain_sdec [of 0]
  by (simp add: plain_head_def sample_head_def plain_entries_def PROTOCOL_def METHOD_def lit_def
    CONTENT_LEN_bytes) (simp add: plain_def)

text \<open>
  C17. A head survives the wire: for at most 32 entries whose strings hold no line breaks and
  whose names hold no colon, \<open>make_head\<close> returns an object filled to its last byte with the
  text of the head, and \<open>decode_head\<close>, applied to that text in front of any body, returns
  the same title and entries, with the length of the text.
\<close>

theorem head_roundtrip:
  assumes "plain_head h" and "malloc_ok E" and "length (head_bytes h) < 2 ^ 31"
  shows "\<exists>data. make_head E h = Some (Inr (data, int (length data)))
    \<and> (\<forall>body. decode_head E (data @ body) = Some (Inr (h\<lparr>hd_len := word_of_nat (length data)\<rparr>)))"
  using make_head_exact [of h E] decode_head_bytes [of h E] assms by (auto simp: plain_head_def)

theorem head_roundtrip_witness:
  "\<exists>data. make_head calm_env sample_head = Some (Inr (data, int (length data)))
    \<and> (\<forall>body. decode_head calm_env (data @ body) = Some (Inr (sample_head\<lparr>hd_len := word_of_nat (length data)\<rparr>)))"
proof (rule head_roundtrip [OF sample_head_plain calm_env_ok])
  have "length (sdec 0) \<le> 1" by (simp add: sdec_def length_udec)
  then show "length (head_bytes sample_head) < 2 ^ 31"
    by (simp add: head_bytes_def sample_head_def entry_bytes_def PROTOCOL_def METHOD_def lit_def CONTENT_LEN_bytes)
qed

end
