(* ===== verification/NetIO.thy ===== *)
theory NetIO
  imports HeadSpec
begin

text \<open>
  Sending and receiving messages over a stream socket (\<open>sbp_send\<close>, \<open>sbp_recv\<close> and
  \<open>sendrec_hostname\<close> of \<open>libc/lib.c\<close>). What the kernel and the peer do is an input: how many
  bytes each \<open>send\<close> takes, and in which pieces the answer arrives.
\<close>

section \<open>Sockets\<close>

text \<open>
  The results of the successive calls of \<open>send\<close>: a positive number is how many bytes the
  kernel would take, anything else is the result itself. When the list is used up the
  connection is gone.
\<close>

type_synonym sends = "int list"

text \<open>What arrives: a piece of data (none: the peer has closed), or an error.\<close>

datatype event = Data buf | Fail

fun recv :: "nat \<Rightarrow> event list \<Rightarrow> buf option \<times> event list" where
  "recv n [] = (Some [], [])"
| "recv n (Fail # es) = (None, es)"
| "recv n (Data d # es) = (Some (take n d), if length d \<le> n then es else Data (drop n d) # es)"

fun arriving :: "event list \<Rightarrow> nat" where
  "arriving [] = 0"
| "arriving (Fail # es) = Suc (arriving es)"
| "arriving (Data d # es) = Suc (length d + arriving es)"

lemma recv_arriving: "recv n es = (Some d, es') \<Longrightarrow> d \<noteq> [] \<Longrightarrow> arriving es' < arriving es"
  and recv_fail_arriving: "recv n es = (None, es') \<Longrightarrow> arriving es' < arriving es"
  by (induction n es rule: recv.induct) (auto split: if_splits)

section \<open>Sending\<close>

text \<open>\<open>out\<close> is what went over the wire so far.\<close>

fun send_loop :: "sends \<Rightarrow> buf \<Rightarrow> nat \<Rightarrow> nat \<Rightarrow> buf \<Rightarrow> ((sbp_err + unit) \<times> buf \<times> sends) option" where
  "send_loop [] data len sent_len out = Some (Inl (err SOCKET_ERR (lit ''Connection Closed'')), out, [])"
| "send_loop (k # ks) data len sent_len out =
     (let numbytes = min k (int (len - sent_len)) in
      if numbytes \<le> 0 then Some (Inl (err SOCKET_ERR (lit ''Connection Closed'')), out, ks)
      else do {
        piece \<leftarrow> rd data sent_len (nat numbytes);
        if len \<le> sent_len + nat numbytes then Some (Inr (), out @ piece, ks)
        else send_loop ks data len (sent_len + nat numbytes) (out @ piece)
      })"

definition sbp_send :: "sends \<Rightarrow> buf \<Rightarrow> nat \<Rightarrow> ((sbp_err + unit) \<times> buf \<times> sends) option" where
  "sbp_send ks data len = send_loop ks data len 0 []"

text \<open>The data node's copy calls \<open>send\<close> once.\<close>

definition sbp_send_once :: "sends \<Rightarrow> buf \<Rightarrow> nat \<Rightarrow> ((sbp_err + unit) \<times> buf \<times> sends) option" where
  "sbp_send_once ks data len =
     (let numbytes = (case ks of [] \<Rightarrow> - 1 | k # _ \<Rightarrow> min k (int len)) in do {
        piece \<leftarrow> rd data 0 (nat numbytes);
        Some (if numbytes \<noteq> int len then Inl (err SOCKET_ERR DATA_LEN) else Inr (), piece, tl ks)
      })"

section \<open>Receiving\<close>

definition BUF_SIZE :: nat where "BUF_SIZE = 4096"

text \<open>
  The first loop reads into the stack buffer \<open>b\<close> until the length of the message is known.
  A failing \<open>recv\<close> is not told from one that returns data: its \<open>-1\<close> is added to
  \<open>received_len\<close>. \<open>errs\<close> are the errors recorded so far, the newest first. The result is
  the buffer with the number of bytes received, received last, and missing.
\<close>

function recv_head :: "event list \<Rightarrow> buf \<Rightarrow> int \<Rightarrow> sbp_err list
    \<Rightarrow> ((buf \<times> int \<times> int \<times> int) option \<times> sbp_err list \<times> event list) option" where
  "recv_head es b received_len errs =
     (if received_len < 0 then None else
      case recv (BUF_SIZE - nat received_len) es of
        (None, es') \<Rightarrow> do {
          missing \<leftarrow> get_missing_len b (word_of_int (received_len - 1));
          case missing of
            Inl e \<Rightarrow> recv_head es' b (received_len - 1) (e # errs)
          | Inr missing_bytes \<Rightarrow>
              if missing_bytes < 0 then recv_head es' b (received_len - 1) errs
              else Some (Some (b, received_len - 1, - 1, missing_bytes), errs, es')
        }
      | (Some d, es') \<Rightarrow>
          if d = [] then Some (None, err SOCKET_ERR RECV # errs, es')
          else do {
            b \<leftarrow> wr b (nat received_len) d;
            let received_len = received_len + int (length d);
            missing \<leftarrow> get_missing_len b (word_of_int received_len);
            case missing of
              Inl e \<Rightarrow>
                if int BUF_SIZE \<le> received_len then Some (None, err SOCKET_ERR RECV # e # errs, es')
                else recv_head es' b received_len (e # errs)
            | Inr missing_bytes \<Rightarrow>
                if missing_bytes < 0 then
                  (if int BUF_SIZE \<le> received_len then Some (None, err SOCKET_ERR RECV # errs, es')
                   else recv_head es' b received_len errs)
                else Some (Some (b, received_len, int (length d), missing_bytes), errs, es')
          })"
  by pat_completeness auto
termination
  by (relation "measure (\<lambda>(es, b, received_len, errs). arriving es)")
     (auto dest: recv_arriving recv_fail_arriving dest!: sym [of "(_, _)"])

declare recv_head.simps [simp del]

text \<open>The second loop reads the missing bytes behind the first ones.\<close>

function recv_body :: "event list \<Rightarrow> buf \<Rightarrow> nat \<Rightarrow> nat \<Rightarrow> nat
    \<Rightarrow> (buf option \<times> sbp_err list \<times> event list) option" where
  "recv_body es rec_buf received_len missing_bytes received_len2 =
     (case recv (missing_bytes - received_len2) es of
        (None, es') \<Rightarrow> Some (None, [err SOCKET_ERR RECV], es')
      | (Some d, es') \<Rightarrow> do {
          rec_buf \<leftarrow> wr rec_buf (received_len + received_len2) d;
          if missing_bytes \<le> received_len2 + length d then Some (Some rec_buf, [], es')
          else if d = [] then Some (None, [err SOCKET_ERR RECV], es')
          else recv_body es' rec_buf received_len missing_bytes (received_len2 + length d)
        })"
  by pat_completeness auto
termination
  by (relation "measure (\<lambda>(es, b, r, m, r2). arriving es)")
     (auto dest: recv_arriving dest!: sym [of "(_, _)"])

declare recv_body.simps [simp del]

text \<open>
  The result: the received object (\<open>None\<close> for a return of \<open>-1\<close>), the errors recorded, and
  what is left on the socket. \<open>stack\<close> is what the buffer holds before anything arrives.
\<close>

definition sbp_recv :: "env \<Rightarrow> buf \<Rightarrow> event list \<Rightarrow> (buf option \<times> sbp_err list \<times> event list) option" where
  "sbp_recv E stack es = do {
     (r, errs, es) \<leftarrow> recv_head es (stack @ [0]) 0 [];
     case r of
       None \<Rightarrow> Some (None, errs, es)
     | Some (b, received_len, numbytes, missing_bytes) \<Rightarrow>
         (case malloc E (nat (missing_bytes + received_len + 1)) of
            None \<Rightarrow> Some (None, err MEM_ERR (lit ''missing bytes:'' @ sdec missing_bytes
                @ lit '' received_bytes: '' @ sdec numbytes) # errs, es)
          | Some rec_buf \<Rightarrow>
              if received_len < 0 then None else do {
                first \<leftarrow> rd b 0 (nat received_len);
                rec_buf \<leftarrow> wr rec_buf 0 first;
                (r, errs2, es) \<leftarrow> (if missing_bytes = 0 then Some (Some rec_buf, [], es)
                   else recv_body es rec_buf (nat received_len) (nat missing_bytes) 0);
                case r of
                  None \<Rightarrow> Some (None, errs2 @ errs, es)
                | Some rec_buf \<Rightarrow> do {
                    rec_buf \<leftarrow> wr rec_buf (nat (missing_bytes + received_len)) [0];
                    Some (Some rec_buf, errs, es)
                  }
              })
   }"

section \<open>A request and its answer\<close>

text \<open>
  The rest of the world, with its state \<open>'w\<close>: \<open>p_connect\<close> is \<open>sbp_connect\<close> (the resolver,
  \<open>socket\<close> and \<open>connect\<close>: an error to record, or what the socket's \<open>send\<close> will do), \<open>p_answer\<close>
  what the peer does with the bytes it got and what arrives in return.
\<close>

record 'w peer =
  p_connect :: "'w \<Rightarrow> buf \<Rightarrow> nat \<Rightarrow> sbp_err + sends"
  p_answer :: "'w \<Rightarrow> buf \<Rightarrow> nat \<Rightarrow> buf \<Rightarrow> event list \<times> 'w"

definition CNODE_SERVICE_PORT :: nat where "CNODE_SERVICE_PORT = 9000"
definition DNODE_SERVICE_PORT :: nat where "DNODE_SERVICE_PORT = 9010"

definition sendrec_hostname ::
  "env \<Rightarrow> buf \<Rightarrow> 'w peer \<Rightarrow> 'w \<Rightarrow> buf \<Rightarrow> nat \<Rightarrow> buf \<Rightarrow> nat \<Rightarrow> (buf option \<times> sbp_err list \<times> 'w) option" where
  "sendrec_hostname E stack P w host_name port data len =
     (case p_connect P w host_name port of
        Inl e \<Rightarrow> Some (None, [err SOCKET_ERR EST_SOCK, e], w)
      | Inr ks \<Rightarrow> do {
          (r, wire, ks) \<leftarrow> sbp_send ks data len;
          let (es, w') = p_answer P w host_name port wire;
          case r of
            Inl e \<Rightarrow> Some (None, [err SOCKET_ERR SEND, e], w')
          | Inr _ \<Rightarrow> do {
              (rec_buf, errs, es) \<leftarrow> sbp_recv E stack es;
              case rec_buf of
                None \<Rightarrow> Some (None, err SOCKET_ERR RECV # errs, w')
              | Some rec_buf \<Rightarrow> Some (Some rec_buf, errs, w')
            }
        })"

end
