(* ===== verification/Client.thy ===== *)
theory Client
  imports NetIO
begin

text \<open>
  The client library \<open>libc/\<close>: login, the table of open files, and one request to the control
  node per operation. The state of the process is a record; the world \<open>'w\<close> and how it
  answers are those of \<open>NetIO\<close>. Results are the C return value (or the object returned)
  with the new state; \<open>None\<close> is undefined behaviour. \<open>free\<close> is not modelled.
\<close>

unbundle bit_operations_syntax

section \<open>State\<close>

definition MAX_USERNAME_LEN :: nat where "MAX_USERNAME_LEN = 16"
definition TRAN_USERNAME_LEN :: nat where "TRAN_USERNAME_LEN = 16 + 7"
definition MAX_PASSWORD_LEN :: nat where "MAX_PASSWORD_LEN = 32"
definition MAX_HOSTNAME_LEN :: nat where "MAX_HOSTNAME_LEN = 32"
definition AUTH_CODE_LEN :: nat where "AUTH_CODE_LEN = 32"
definition MAX_FILE_OPEN :: nat where "MAX_FILE_OPEN = 4096"
definition T_DIR :: u8_t where "T_DIR = 0x01"
definition T_FILE :: u8_t where "T_FILE = 0x02"

record sbp_filedesc =
  fd_server_fd :: u64_t
  fd_offset :: u64_t
  fd_oflag :: u32_t
  fd_length :: u64_t
  fd_type :: u8_t
  fd_filename :: buf
  fd_auth_code :: buf

record client =
  sbp_user :: buf
  sbp_pass :: buf
  sbp_host :: buf
  fds :: "sbp_filedesc option list"
  err_trace :: "sbp_err list"

text \<open>The state the process starts with.\<close>

definition init_client :: client where
  "init_client = \<lparr>sbp_user = lit ''anonymous'', sbp_pass = [], sbp_host = lit ''127.0.0.1'',
     fds = replicate MAX_FILE_OPEN None, err_trace = []\<rparr>"

text \<open>Recording errors, the newest of the list first.\<close>

definition note_errs :: "env \<Rightarrow> sbp_err list \<Rightarrow> client \<Rightarrow> client" where
  "note_errs E es c = c\<lparr>err_trace := foldr (sbp_seterr E) es (err_trace c)\<rparr>"

section \<open>Login\<close>

definition sbp_login :: "buf \<Rightarrow> buf \<Rightarrow> client \<Rightarrow> int \<times> client" where
  "sbp_login username password c =
     (if length username > MAX_USERNAME_LEN \<or> length password > MAX_PASSWORD_LEN then (- 1, c)
      else (0, c\<lparr>sbp_user := username, sbp_pass := password\<rparr>))"

definition sbp_sethost :: "buf \<Rightarrow> client \<Rightarrow> int \<times> client" where
  "sbp_sethost hostname c =
     (if length hostname = 0 \<or> length hostname > MAX_HOSTNAME_LEN then (- 1, c)
      else (0, c\<lparr>sbp_host := hostname\<rparr>))"

text \<open>Copies of the name and the password, or a failure (\<open>Some None\<close>).\<close>

definition sbp_getusername :: "env \<Rightarrow> client \<Rightarrow> buf option option" where
  "sbp_getusername E c = (case malloc E (MAX_USERNAME_LEN + 1) of
       None \<Rightarrow> Some None
     | Some b \<Rightarrow> do { _ \<leftarrow> wr b 0 (sbp_user c @ [0]); Some (Some (sbp_user c)) })"

definition sbp_getpassword :: "env \<Rightarrow> client \<Rightarrow> buf option option" where
  "sbp_getpassword E c = (case malloc E (MAX_PASSWORD_LEN + 1) of
       None \<Rightarrow> Some None
     | Some b \<Rightarrow> do { _ \<leftarrow> wr b 0 (sbp_pass c @ [0]); Some (Some (sbp_pass c)) })"

definition sbp_getUandP :: "env \<Rightarrow> client \<Rightarrow> (buf \<times> buf) option option" where
  "sbp_getUandP E c = do {
     u \<leftarrow> sbp_getusername E c;
     case u of
       None \<Rightarrow> Some None
     | Some usr \<Rightarrow> do { p \<leftarrow> sbp_getpassword E c; Some (map_option (\<lambda>pass. (usr, pass)) p) }
   }"

section \<open>Requests to the control node\<close>

text \<open>
  The macros \<open>SBP_PREPARE_REQUEST\<close> and \<open>SBP_SEND_AND_PROCESS_REPLY\<close>: \<open>Unprepared\<close> is the
  return inside the first, \<open>Failed\<close> a jump to one of the error labels, otherwise the decoded
  head and the whole reply. \<open>tran_usr\<close> has 23 bytes.
\<close>

datatype reply = Unprepared | Failed | Reply sbpfs_head buf

definition request_head :: "buf \<Rightarrow> buf \<Rightarrow> (buf \<times> buf) list \<Rightarrow> sbpfs_head option" where
  "request_head usr pass es =
     (if TRAN_USERNAME_LEN < 7 + length usr + 1 then None
      else Some \<lparr>hd_len = 0, hd_title = PROTOCOL,
             hd_entrys = (USER, lit ''Client_'' @ usr) # (PASS, pass) # es\<rparr>)"

text \<open>The part behind the transfer: an empty or unreadable reply is a failure.\<close>

definition read_reply :: "env \<Rightarrow> buf \<Rightarrow> (reply \<times> sbp_err list) option" where
  "read_reply E rec_data = do {
     first \<leftarrow> byte_at rec_data 0;
     if first = 0 then Some (Failed, [err SOCKET_ERR RECV])
     else do {
       d \<leftarrow> decode_head E rec_data;
       case d of
         Inl e \<Rightarrow> Some (Failed, [err (lit ''Data Error'') (lit ''Can not decode SBPFS_HEAD''), e])
       | Inr head \<Rightarrow> Some (Reply head rec_data, [])
     }
   }"

text \<open>
  One request to a host and its reply: the code of the two macros, which \<open>read_block\<close> repeats
  for the data nodes; \<open>call\<close> is the macros' case, a request to the control node.
\<close>

definition exchange ::
  "env \<Rightarrow> buf \<Rightarrow> 'w peer \<Rightarrow> 'w \<Rightarrow> client \<Rightarrow> buf \<Rightarrow> nat \<Rightarrow> (buf \<times> buf) list \<Rightarrow> (reply \<times> client \<times> 'w) option" where
  "exchange E stack P w c host port es = do {
     up \<leftarrow> sbp_getUandP E c;
     case up of
       None \<Rightarrow> Some (Unprepared, c, w)
     | Some (usr, pass) \<Rightarrow> do {
         head \<leftarrow> request_head usr pass es;
         r \<leftarrow> make_head E head;
         case r of
           Inl e \<Rightarrow> Some (Failed, note_errs E [err HEAD_ERR MAKE_HEAD, e] c, w)
         | Inr (data, data_len) \<Rightarrow>
             if data_len < 0 then None else do {
               (rec_data, errs, w) \<leftarrow> sendrec_hostname E stack P w host port data (nat data_len);
               let c = note_errs E errs c;
               case rec_data of
                 None \<Rightarrow> Some (Failed, c, w)
               | Some rec_data \<Rightarrow> do {
                   (r, errs) \<leftarrow> read_reply E rec_data;
                   Some (r, note_errs E errs c, w)
                 }
             }
       }
   }"

definition call ::
  "env \<Rightarrow> buf \<Rightarrow> 'w peer \<Rightarrow> 'w \<Rightarrow> client \<Rightarrow> (buf \<times> buf) list \<Rightarrow> (reply \<times> client \<times> 'w) option" where
  "call E stack P w c es = exchange E stack P w c (sbp_host c) CNODE_SERVICE_PORT es"

text \<open>What the title of a reply says.\<close>

definition is_ok :: "sbpfs_head \<Rightarrow> bool" where "is_ok head \<longleftrightarrow> starts REQUEST_OK (hd_title head)"
definition is_err :: "sbpfs_head \<Rightarrow> bool" where "is_err head \<longleftrightarrow> starts REQUEST_ERR (hd_title head)"

text \<open>Recording why a reply is not a success.\<close>

definition not_ok :: "env \<Rightarrow> sbpfs_head \<Rightarrow> client \<Rightarrow> client" where
  "not_ok E head c =
     (if is_err head then c\<lparr>err_trace := sbp_update_err E head (err_trace c)\<rparr>
      else note_errs E [err HEAD_ERR UNKNOWN_HEAD] c)"

text \<open>\<open>SBP_PROCESS_RESULT\<close> and \<open>SBP_PROCESS_ERR\<close>: operations whose reply carries no data.\<close>

definition simple_request ::
  "env \<Rightarrow> buf \<Rightarrow> 'w peer \<Rightarrow> 'w \<Rightarrow> client \<Rightarrow> (buf \<times> buf) list \<Rightarrow> (int \<times> client \<times> 'w) option" where
  "simple_request E stack P w c es = do {
     (r, c, w) \<leftarrow> call E stack P w c es;
     case r of
       Reply head _ \<Rightarrow> if is_ok head then Some (0, c, w) else Some (- 1, not_ok E head c, w)
     | _ \<Rightarrow> Some (- 1, c, w)
   }"

definition Arg0 :: buf where "Arg0 = lit ''Arg0''"
definition Arg1 :: buf where "Arg1 = lit ''Arg1''"
definition Arg2 :: buf where "Arg2 = lit ''Arg2''"

definition no_content :: "(buf \<times> buf) list" where "no_content = [(CONTENT_LEN, lit ''0'')]"

text \<open>The entries of a request: method, number of arguments, arguments, no body.\<close>

definition args :: "buf \<Rightarrow> buf list \<Rightarrow> (buf \<times> buf) list" where
  "args meth vs = (METHOD, meth) # (ARGC, udec (length vs)) # zip [Arg0, Arg1, Arg2] vs @ no_content"

definition sbp_mkdir :: "env \<Rightarrow> buf \<Rightarrow> 'w peer \<Rightarrow> buf \<Rightarrow> 'w \<Rightarrow> client \<Rightarrow> (int \<times> client \<times> 'w) option" where
  "sbp_mkdir E stack P filename w c = simple_request E stack P w c (args (lit ''MKDIR'') [filename])"

definition sbp_rmdir :: "env \<Rightarrow> buf \<Rightarrow> 'w peer \<Rightarrow> buf \<Rightarrow> 'w \<Rightarrow> client \<Rightarrow> (int \<times> client \<times> 'w) option" where
  "sbp_rmdir E stack P filename w c = simple_request E stack P w c (args (lit ''RMDIR'') [filename])"

definition sbp_remove :: "env \<Rightarrow> buf \<Rightarrow> 'w peer \<Rightarrow> buf \<Rightarrow> 'w \<Rightarrow> client \<Rightarrow> (int \<times> client \<times> 'w) option" where
  "sbp_remove E stack P filename w c = simple_request E stack P w c (args (lit ''REMOVE'') [filename])"

definition sbp_move ::
  "env \<Rightarrow> buf \<Rightarrow> 'w peer \<Rightarrow> buf \<Rightarrow> buf \<Rightarrow> 'w \<Rightarrow> client \<Rightarrow> (int \<times> client \<times> 'w) option" where
  "sbp_move E stack P dst src w c = simple_request E stack P w c (args (lit ''MOVE'') [dst, src])"

definition sbp_chown ::
  "env \<Rightarrow> buf \<Rightarrow> 'w peer \<Rightarrow> buf \<Rightarrow> buf \<Rightarrow> 'w \<Rightarrow> client \<Rightarrow> (int \<times> client \<times> 'w) option" where
  "sbp_chown E stack P filename newowner w c =
     simple_request E stack P w c (args (lit ''CHOWN'') [filename, newowner])"

definition sbp_chmod ::
  "env \<Rightarrow> buf \<Rightarrow> 'w peer \<Rightarrow> buf \<Rightarrow> u16_t \<Rightarrow> 'w \<Rightarrow> client \<Rightarrow> (int \<times> client \<times> 'w) option" where
  "sbp_chmod E stack P filename mode w c =
     simple_request E stack P w c (args (lit ''CHMOD'') [filename, zpad 4 (uhex (unat mode))])"

end
