(* ===== verification/ClientFds.thy ===== *)
theory ClientFds
  imports Client
begin

text \<open>
  Open files and directories of the client (\<open>libc/open.c\<close>, \<open>libc/dir.c\<close>, \<open>sbp_seek\<close>): the slots
  of \<open>fds\<close>, and the objects the replies carry.
\<close>

section \<open>Slots\<close>

text \<open>Access to \<open>fds[fd]\<close>; outside the array it is undefined.\<close>

definition fds_get :: "client \<Rightarrow> int \<Rightarrow> sbp_filedesc option option" where
  "fds_get c fd = (if 0 \<le> fd \<and> nat fd < length (fds c) then Some (fds c ! nat fd) else None)"

definition fds_set :: "client \<Rightarrow> int \<Rightarrow> sbp_filedesc option \<Rightarrow> client option" where
  "fds_set c fd d = (if 0 \<le> fd \<and> nat fd < length (fds c)
     then Some (c\<lparr>fds := (fds c)[nat fd := d]\<rparr>) else None)"

fun slot_loop :: "sbp_filedesc option list \<Rightarrow> nat \<Rightarrow> nat option" where
  "slot_loop [] i = None"
| "slot_loop (None # fs) i = Some i"
| "slot_loop (Some _ # fs) i = slot_loop fs (Suc i)"

definition get_slot :: "env \<Rightarrow> client \<Rightarrow> int \<times> client" where
  "get_slot E c = (case slot_loop (fds c) 0 of
       Some i \<Rightarrow> (int i, c)
     | None \<Rightarrow> (- 1, note_errs E [err MEM_ERR SLOT_FULL] c))"

definition szof_filedesc :: nat where "szof_filedesc = 88"

definition new_fd :: sbp_filedesc where
  "new_fd = \<lparr>fd_server_fd = 0, fd_offset = 0, fd_oflag = 0, fd_length = 0, fd_type = 0,
     fd_filename = [], fd_auth_code = []\<rparr>"

section \<open>Closing\<close>

definition sbp_close :: "env \<Rightarrow> buf \<Rightarrow> 'w peer \<Rightarrow> int \<Rightarrow> 'w \<Rightarrow> client \<Rightarrow> (int \<times> client \<times> 'w) option" where
  "sbp_close E stack P fd w c =
     (if fd < 0 then Some (- 1, c, w) else do {
        slot \<leftarrow> fds_get c fd;
        case slot of
          None \<Rightarrow> Some (- 1, c, w)
        | Some d \<Rightarrow> do {
            (r, c, w) \<leftarrow> call E stack P w c (args (lit ''CLOSE'') [sdec (sint (fd_server_fd d))]);
            case r of
              Unprepared \<Rightarrow> Some (- 1, c, w)
            | Failed \<Rightarrow> do { c \<leftarrow> fds_set c fd None; Some (- 1, c, w) }
            | Reply head _ \<Rightarrow>
                if is_ok head then Some (0, c, w)
                else do { c \<leftarrow> fds_set (not_ok E head c) fd None; Some (- 1, c, w) }
          }
      })"

definition sbp_closedir :: "env \<Rightarrow> buf \<Rightarrow> 'w peer \<Rightarrow> int \<Rightarrow> 'w \<Rightarrow> client \<Rightarrow> (int \<times> client \<times> 'w) option" where
  "sbp_closedir E stack P dirfd w c =
     (if dirfd < 0 then Some (- 1, c, w) else do {
        slot \<leftarrow> fds_get c dirfd;
        case slot of
          None \<Rightarrow> Some (- 1, c, w)
        | Some d \<Rightarrow>
            if fd_type d \<noteq> T_DIR then Some (- 1, c, w) else do {
              (r, c, w) \<leftarrow> call E stack P w c (args (lit ''CLOSEDIR'') [sdec (sint (fd_server_fd d))]);
              case r of
                Unprepared \<Rightarrow> Some (- 1, c, w)
              | Failed \<Rightarrow> do { c \<leftarrow> fds_set c dirfd None; Some (- 1, c, w) }
              | Reply head _ \<Rightarrow>
                  if is_ok head then do { c \<leftarrow> fds_set c dirfd None; Some (0, c, w) }
                  else do { c \<leftarrow> fds_set (not_ok E head c) dirfd None; Some (- 1, c, w) }
            }
      })"

section \<open>Opening\<close>

text \<open>
  \<open>malloc(sizeof(strlen(filename) + 1))\<close> asks for the size of a number, 8 bytes, and the name
  is copied into it with its NUL.
\<close>

definition szof_size_t :: nat where "szof_size_t = 8"

definition copy_name :: "env \<Rightarrow> buf \<Rightarrow> buf option option" where
  "copy_name E filename = (case malloc E szof_size_t of
       None \<Rightarrow> Some None
     | Some b \<Rightarrow> do {
         b \<leftarrow> wr b 0 filename;
         b \<leftarrow> wr b (length filename) [0];
         Some (Some filename)
       })"

text \<open>What \<open>sbp_open\<close> puts into the descriptor: an error to record, if any, or the descriptor.\<close>

definition open_reply :: "sbpfs_head \<Rightarrow> sbp_filedesc \<Rightarrow> ((sbp_err list \<times> sbp_filedesc) + sbp_filedesc) option" where
  "open_reply head d = (case get_head_entry_value head FILE_DESC of
       None \<Rightarrow> Some (Inl ([], d))
     | Some fd_s \<Rightarrow> do {
         v \<leftarrow> atoll fd_s;
         let d = d\<lparr>fd_server_fd := word_of_int v\<rparr>;
         case get_head_entry_value head AUTH_CODE of
           None \<Rightarrow> Some (Inl ([err DATA_ERR AUTH_LEN], d))
         | Some auth_code \<Rightarrow>
             if length auth_code > AUTH_CODE_LEN then Some (Inl ([err DATA_ERR AUTH_LEN], d))
             else Some (Inr (d\<lparr>fd_auth_code := auth_code\<rparr>))
       })"

definition sbp_open ::
  "env \<Rightarrow> buf \<Rightarrow> 'w peer \<Rightarrow> buf \<Rightarrow> u32_t \<Rightarrow> u16_t \<Rightarrow> 'w \<Rightarrow> client \<Rightarrow> (int \<times> client \<times> 'w) option" where
  "sbp_open E stack P filename oflag mode w c =
     (let (fd, c) = get_slot E c in do {
        (r, c, w) \<leftarrow> call E stack P w c
          (args (lit ''OPEN'') [filename, zdec 8 (sint oflag), zdec 4 (int (unat mode))]);
        case r of
          Reply head _ \<Rightarrow>
            if is_ok head then
              (case malloc E szof_filedesc of
                 None \<Rightarrow> do { c \<leftarrow> fds_set c fd None; Some (- 1, note_errs E [err MEM_ERR MALLOC] c, w) }
               | Some _ \<Rightarrow> do {
                   c \<leftarrow> fds_set c fd (Some new_fd);
                   nm \<leftarrow> copy_name E filename;
                   case nm of
                     None \<Rightarrow> do {
                       (_, c, w) \<leftarrow> sbp_close E stack P fd w (note_errs E [err MEM_ERR MALLOC] c);
                       Some (- 1, c, w)
                     }
                   | Some nm \<Rightarrow> do {
                       od \<leftarrow> open_reply head (new_fd\<lparr>fd_filename := nm, fd_oflag := oflag, fd_type := T_FILE\<rparr>);
                       case od of
                         Inl (es, d) \<Rightarrow> do {
                           c \<leftarrow> fds_set c fd (Some d);
                           (_, c, w) \<leftarrow> sbp_close E stack P fd w (note_errs E es c);
                           Some (- 1, c, w)
                         }
                       | Inr d \<Rightarrow> do { c \<leftarrow> fds_set c fd (Some d); Some (fd, c, w) }
                     }
                 })
            else if is_err head then Some (- 1, not_ok E head c, w)
            else do {
              (_, c, w) \<leftarrow> sbp_close E stack P fd w (not_ok E head c);
              Some (- 1, c, w)
            }
        | _ \<Rightarrow> Some (- 1, c, w)
      })"

definition opendir_reply :: "sbpfs_head \<Rightarrow> sbp_filedesc \<Rightarrow> ((sbp_err list \<times> sbp_filedesc) + sbp_filedesc) option" where
  "opendir_reply head d = (case get_head_entry_value head DIR_FD of
       None \<Rightarrow> Some (Inl ([err DATA_ERR (lit ''Could not get FD'')], d))
     | Some fd_s \<Rightarrow> do {
         v \<leftarrow> atoll fd_s;
         let d = d\<lparr>fd_server_fd := word_of_int v\<rparr>;
         case get_head_entry_value head DIR_ENT_NUM of
           None \<Rightarrow> Some (Inl ([err DATA_ERR DIR_ENT_LEN], d))
         | Some dir_ent_num \<Rightarrow> do {
             n \<leftarrow> atoll dir_ent_num;
             Some (Inr (d\<lparr>fd_length := word_of_int n\<rparr>))
           }
       })"

definition sbp_opendir :: "env \<Rightarrow> buf \<Rightarrow> 'w peer \<Rightarrow> buf \<Rightarrow> 'w \<Rightarrow> client \<Rightarrow> (int \<times> client \<times> 'w) option" where
  "sbp_opendir E stack P filename w c =
     (let (fd, c) = get_slot E c in do {
        (r, c, w) \<leftarrow> call E stack P w c (args (lit ''OPENDIR'') [filename]);
        case r of
          Reply head _ \<Rightarrow>
            if is_ok head then
              (case malloc E szof_filedesc of
                 None \<Rightarrow> do { c \<leftarrow> fds_set c fd None; Some (- 1, note_errs E [err MEM_ERR MALLOC] c, w) }
               | Some _ \<Rightarrow> do {
                   c \<leftarrow> fds_set c fd (Some new_fd);
                   nm \<leftarrow> copy_name E filename;
                   case nm of
                     None \<Rightarrow> do {
                       (_, c, w) \<leftarrow> sbp_closedir E stack P fd w (note_errs E [err MEM_ERR MALLOC] c);
                       Some (- 1, c, w)
                     }
                   | Some nm \<Rightarrow> do {
                       od \<leftarrow> opendir_reply head (new_fd\<lparr>fd_filename := nm, fd_type := T_DIR\<rparr>);
                       case od of
                         Inl (es, d) \<Rightarrow> do {
                           c \<leftarrow> fds_set c fd (Some d);
                           (_, c, w) \<leftarrow> sbp_closedir E stack P fd w (note_errs E es c);
                           Some (- 1, c, w)
                         }
                       | Inr d \<Rightarrow> do { c \<leftarrow> fds_set c fd (Some d); Some (fd, c, w) }
                     }
                 })
            else if is_err head then Some (- 1, not_ok E head c, w)
            else do {
              (_, c, w) \<leftarrow> sbp_closedir E stack P fd w (not_ok E head c);
              Some (- 1, c, w)
            }
        | _ \<Rightarrow> Some (- 1, c, w)
      })"

section \<open>Directory entries, attributes and positions\<close>

text \<open>
  The objects in the body of a reply: \<open>struct sbp_dirent_for_trans\<close> (a type and 256 bytes of
  name) and \<open>struct sbp_filestat\<close>, whose layout is that of the control node's \<open>stat_t\<close>.
\<close>

record sbp_dirent =
  d_type :: u8_t
  d_name :: buf
  d_offset :: u64_t

definition szof_dirent_for_trans :: nat where "szof_dirent_for_trans = 257"

record sbp_filestat =
  fs_size :: u64_t
  fs_atime :: u64_t
  fs_mtime :: u64_t
  fs_ctime :: u64_t
  fs_owner :: u32_t
  fs_mode :: u8_t
  fs_preserved :: "216 word"

definition enc_filestat :: "sbp_filestat \<Rightarrow> buf" where
  "enc_filestat s = enc_w 8 (fs_size s) @ enc_w 8 (fs_atime s) @ enc_w 8 (fs_mtime s)
     @ enc_w 8 (fs_ctime s) @ enc_w 4 (fs_owner s) @ enc_w 1 (fs_mode s) @ enc_w 27 (fs_preserved s)"

definition dec_filestat :: "buf \<Rightarrow> sbp_filestat" where
  "dec_filestat b = \<lparr>fs_size = dec_w (slice 0 8 b), fs_atime = dec_w (slice 8 8 b),
     fs_mtime = dec_w (slice 16 8 b), fs_ctime = dec_w (slice 24 8 b), fs_owner = dec_w (slice 32 4 b),
     fs_mode = dec_w (slice 36 1 b), fs_preserved = dec_w (slice 37 27 b)\<rparr>"

lemma dec_enc_w216 [simp]: "dec_w (enc_w 27 (w :: 216 word)) = w"
  and enc_dec_w216 [simp]: "length bs = 27 \<Longrightarrow> enc_w 27 (dec_w bs :: 216 word) = bs"
  by (simp_all add: dec_enc_w enc_dec_w)

interpretation filestat: layout enc_filestat dec_filestat 64
  by unfold_locales (simp_all add: enc_filestat_def dec_filestat_def slice_all slice_joinI)

text \<open>The announced length of the body of a reply: \<open>atoll\<close> into a \<open>u64_t\<close>.\<close>

definition content_len :: "sbpfs_head \<Rightarrow> u64_t option option" where
  "content_len head = (case get_head_entry_value head CONTENT_LEN of
       None \<Rightarrow> Some None
     | Some v \<Rightarrow> map_option (\<lambda>n. Some (word_of_int n)) (atoll v))"

definition sbp_readdir ::
  "env \<Rightarrow> buf \<Rightarrow> 'w peer \<Rightarrow> int \<Rightarrow> 'w \<Rightarrow> client \<Rightarrow> (sbp_dirent option \<times> client \<times> 'w) option" where
  "sbp_readdir E stack P dirfd w c =
     (if dirfd < 0 then Some (None, c, w) else do {
        slot \<leftarrow> fds_get c dirfd;
        case slot of
          None \<Rightarrow> Some (None, c, w)
        | Some d \<Rightarrow> do {
            (r, c, w) \<leftarrow> call E stack P w c
              (args (lit ''READDIR'') [sdec (sint (fd_server_fd d)), sdec (sint (fd_offset d))]);
            case r of
              Reply head rec_data \<Rightarrow>
                if is_ok head then do {
                  l \<leftarrow> content_len head;
                  case l of
                    None \<Rightarrow> Some (None, note_errs E [err HEAD_ERR NO_CONTENT_LEN] c, w)
                  | Some content_l \<Rightarrow>
                      if content_l \<noteq> word_of_nat szof_dirent_for_trans then Some (None, c, w) else do {
                        b \<leftarrow> rd rec_data (unat (hd_len head)) (unat content_l);
                        c \<leftarrow> fds_set c dirfd (Some (d\<lparr>fd_offset := fd_offset d + 1\<rparr>));
                        Some (Some \<lparr>d_type = hd b, d_name = tl b, d_offset = fd_offset d\<rparr>, c, w)
                      }
                }
                else Some (None, not_ok E head c, w)
            | _ \<Rightarrow> Some (None, c, w)
          }
      })"

definition sbp_stat ::
  "env \<Rightarrow> buf \<Rightarrow> 'w peer \<Rightarrow> buf \<Rightarrow> 'w \<Rightarrow> client \<Rightarrow> (sbp_filestat option \<times> client \<times> 'w) option" where
  "sbp_stat E stack P filename w c = do {
     (r, c, w) \<leftarrow> call E stack P w c (args (lit ''STAT'') [filename]);
     case r of
       Reply head rec_data \<Rightarrow>
         if is_ok head then do {
           l \<leftarrow> content_len head;
           case l of
             None \<Rightarrow> Some (None, note_errs E [err HEAD_ERR NO_CONTENT_LEN] c, w)
           | Some content_l \<Rightarrow>
               if content_l \<noteq> 64 then Some (None, c, w) else do {
                 s \<leftarrow> get_at 64 dec_filestat rec_data (unat (hd_len head));
                 Some (Some s, c, w)
               }
         }
         else Some (None, not_ok E head c, w)
     | _ \<Rightarrow> Some (None, c, w)
   }"

definition sbp_seek :: "int \<Rightarrow> u64_t \<Rightarrow> client \<Rightarrow> (int \<times> client) option" where
  "sbp_seek fd offset c =
     (if fd < 0 then Some (- 1, c) else do {
        slot \<leftarrow> fds_get c fd;
        case slot of
          None \<Rightarrow> Some (- 1, c)
        | Some d \<Rightarrow>
            if sint (fd_offset d + offset) < 0 then Some (- 1, c)
            else do {
              c \<leftarrow> fds_set c fd (Some (d\<lparr>fd_offset := fd_offset d + offset\<rparr>));
              Some (0, c)
            }
      })"

end
