(* ===== verification/ClientBlocks.thy ===== *)
theory ClientBlocks
  imports ClientFds Address
begin

text \<open>
  Reading and writing files through their blocks (\<open>libc/read_write.c\<close>): the control node
  answers with a list of block entries, and each block is read from the first data node
  that delivers it, or written to all of its data nodes.
\<close>

unbundle bit_operations_syntax

section \<open>Block entries\<close>

definition REDUNDANCY :: nat where "REDUNDANCY = 2"

record block_entry =
  be_block_id :: u64_t
  be_offset :: u32_t
  be_length :: u32_t
  be_d_nodes :: "u32_t \<times> u32_t \<times> u32_t"
  be_preserved :: u32_t

definition enc_nodes :: "u32_t \<times> u32_t \<times> u32_t \<Rightarrow> buf" where
  "enc_nodes d = (case d of (a, b, c) \<Rightarrow> enc_w 4 a @ enc_w 4 b @ enc_w 4 c)"

definition enc_bent :: "block_entry \<Rightarrow> buf" where
  "enc_bent e = enc_w 8 (be_block_id e) @ enc_w 4 (be_offset e) @ enc_w 4 (be_length e)
     @ enc_nodes (be_d_nodes e) @ enc_w 4 (be_preserved e)"

definition dec_bent :: "buf \<Rightarrow> block_entry" where
  "dec_bent b = \<lparr>be_block_id = dec_w (slice 0 8 b), be_offset = dec_w (slice 8 4 b),
     be_length = dec_w (slice 12 4 b),
     be_d_nodes = (dec_w (slice 16 4 b), dec_w (slice 20 4 b), dec_w (slice 24 4 b)),
     be_preserved = dec_w (slice 28 4 b)\<rparr>"

lemma length_enc_nodes [simp]: "length (enc_nodes d) = 12"
  by (cases d) (simp add: enc_nodes_def)

lemma enc_nodes_tuple: "enc_nodes (a, b, c) = enc_w 4 a @ enc_w 4 b @ enc_w 4 c"
  by (simp add: enc_nodes_def)

interpretation bent: layout enc_bent dec_bent 32
proof
  fix x :: block_entry
  obtain a b c where "be_d_nodes x = (a, b, c)" by (cases "be_d_nodes x")
  then show "dec_bent (enc_bent x) = x"
    by (simp add: enc_bent_def dec_bent_def enc_nodes_tuple slice_all)
qed (simp_all add: enc_bent_def dec_bent_def enc_nodes_tuple slice_all slice_joinI)

abbreviation szof_bent :: u64_t where "szof_bent \<equiv> 32"

definition nodes_of :: "block_entry \<Rightarrow> u32_t list" where
  "nodes_of e = (case be_d_nodes e of (a, b, c) \<Rightarrow> [a, b, c])"

section \<open>One block\<close>

text \<open>The entries both requests to a data node start with.\<close>

definition block_args :: "buf \<Rightarrow> buf \<Rightarrow> block_entry \<Rightarrow> (buf \<times> buf) list" where
  "block_args auth_code meth ent =
     [(AUTH_CODE, auth_code), (METHOD, meth), (ARGC, lit ''3''),
      (Arg0, sdec (sint (be_block_id ent))), (Arg1, sdec (sint (be_offset ent))),
      (Arg2, sdec (sint (be_length ent)))]"

text \<open>
  \<open>read_block\<close> from data node \<open>node\<close> to position \<open>pos\<close> of the caller's buffer. For a reply with
  an unknown title it records the error and returns 0.
\<close>

definition read_block ::
  "env \<Rightarrow> buf \<Rightarrow> 'w peer \<Rightarrow> buf \<Rightarrow> block_entry \<Rightarrow> u32_t \<Rightarrow> nat \<Rightarrow> buf \<Rightarrow> client \<Rightarrow> 'w
   \<Rightarrow> (int \<times> buf \<times> client \<times> 'w) option" where
  "read_block E stack P auth_code ent node pos ub c w = do {
     (r, c, w) \<leftarrow> exchange E stack P w c (get_dnode_hostname node) DNODE_SERVICE_PORT
       (block_args auth_code (lit ''READ'') ent @ [(CONTENT_LEN, lit ''0'')]);
     case r of
       Reply head rec_data \<Rightarrow>
         if is_ok head then do {
           l \<leftarrow> content_len head;
           case l of
             None \<Rightarrow> Some (- 1, ub, note_errs E [err HEAD_ERR NO_CONTENT_LEN] c, w)
           | Some content_l \<Rightarrow>
               if content_l \<noteq> ucast (be_length ent) then
                 Some (- 1, ub, note_errs E [err DATA_ERR DATA_LEN] c, w)
               else do {
                 d \<leftarrow> rd rec_data (unat (hd_len head)) (unat content_l);
                 ub \<leftarrow> wr ub pos d;
                 Some (sint content_l, ub, c, w)
               }
         }
         else if is_err head then Some (- 1, ub, not_ok E head c, w)
         else Some (0, ub, not_ok E head c, w)
     | _ \<Rightarrow> Some (- 1, ub, c, w)
   }"

text \<open>
  \<open>write_block\<close> sends the head and the bytes of the block over one connection, then waits for
  the reply.
\<close>

definition write_exchange ::
  "env \<Rightarrow> buf \<Rightarrow> 'w peer \<Rightarrow> 'w \<Rightarrow> buf \<Rightarrow> buf \<Rightarrow> nat \<Rightarrow> buf \<Rightarrow> nat \<Rightarrow> (buf option \<times> sbp_err list \<times> 'w) option" where
  "write_exchange E stack P w host data data_len body len =
     (case p_connect P w host DNODE_SERVICE_PORT of
        Inl e \<Rightarrow> Some (None, [err SOCKET_ERR EST_SOCK, e], w)
      | Inr ks \<Rightarrow> do {
          (r, wire, ks) \<leftarrow> sbp_send ks data data_len;
          case r of
            Inl e \<Rightarrow> Some (None, [err SOCKET_ERR SEND, e], snd (p_answer P w host DNODE_SERVICE_PORT wire))
          | Inr _ \<Rightarrow> do {
              (r, wire2, ks) \<leftarrow> sbp_send ks body len;
              let (es, w') = p_answer P w host DNODE_SERVICE_PORT (wire @ wire2);
              case r of
                Inl e \<Rightarrow> Some (None, [err SOCKET_ERR SEND, e], w')
              | Inr _ \<Rightarrow> do {
                  (rec_buf, errs, es) \<leftarrow> sbp_recv E stack es;
                  case rec_buf of
                    None \<Rightarrow> Some (None, err SOCKET_ERR RECV # errs, w')
                  | Some rec_buf \<Rightarrow> Some (Some rec_buf, errs, w')
                }
            }
        })"

definition write_block ::
  "env \<Rightarrow> buf \<Rightarrow> 'w peer \<Rightarrow> buf \<Rightarrow> block_entry \<Rightarrow> u32_t \<Rightarrow> nat \<Rightarrow> buf \<Rightarrow> client \<Rightarrow> 'w
   \<Rightarrow> (int \<times> client \<times> 'w) option" where
  "write_block E stack P auth_code ent node pos ub c w = do {
     up \<leftarrow> sbp_getUandP E c;
     case up of
       None \<Rightarrow> Some (- 1, c, w)
     | Some (usr, pass) \<Rightarrow> do {
         head \<leftarrow> request_head usr pass (block_args auth_code (lit ''WRITE'') ent
           @ [(CONTENT_LEN, sdec (sint (be_length ent)))]);
         r \<leftarrow> make_head E head;
         case r of
           Inl e \<Rightarrow> Some (- 1, note_errs E [err HEAD_ERR MAKE_HEAD, e] c, w)
         | Inr (data, data_len) \<Rightarrow>
             if data_len < 0 \<or> length ub < pos then None else do {
               (rec_data, errs, w) \<leftarrow> write_exchange E stack P w (get_dnode_hostname node) data
                 (nat data_len) (drop pos ub) (unat (be_length ent));
               let c = note_errs E errs c;
               case rec_data of
                 None \<Rightarrow> Some (- 1, c, w)
               | Some rec_data \<Rightarrow> do {
                   (r, errs) \<leftarrow> read_reply E rec_data;
                   let c = note_errs E errs c;
                   case r of
                     Reply head _ \<Rightarrow>
                       if is_ok head then Some (int (unat (be_length ent)), c, w)
                       else if is_err head then Some (- 1, not_ok E head c, w)
                       else Some (0, not_ok E head c, w)
                   | _ \<Rightarrow> Some (- 1, c, w)
                 }
             }
       }
   }"

section \<open>All blocks\<close>

text \<open>The nodes of one entry in turn: a 0 is no node; the first that delivers the block ends the loop.\<close>

fun read_nodes ::
  "env \<Rightarrow> buf \<Rightarrow> 'w peer \<Rightarrow> buf \<Rightarrow> block_entry \<Rightarrow> u32_t list \<Rightarrow> nat \<Rightarrow> buf \<Rightarrow> client \<Rightarrow> 'w
   \<Rightarrow> (bool \<times> buf \<times> client \<times> 'w) option" where
  "read_nodes E stack P auth_code ent [] pos ub c w = Some (False, ub, c, w)"
| "read_nodes E stack P auth_code ent (n # ns) pos ub c w =
     (if n \<noteq> 0 then do {
        (rec_len, ub, c, w) \<leftarrow> read_block E stack P auth_code ent n pos ub c w;
        if int (unat (be_length ent)) \<le> rec_len then Some (True, ub, c, w)
        else read_nodes E stack P auth_code ent ns pos ub c w
      } else read_nodes E stack P auth_code ent ns pos ub c w)"

text \<open>
  \<open>read_blocks\<close>: \<open>rec_data\<close> and \<open>base\<close> are the array of entries in the reply, \<open>n\<close> how many are
  left, \<open>buf_ptr\<close> the position reached.
\<close>

fun read_blocks ::
  "env \<Rightarrow> buf \<Rightarrow> 'w peer \<Rightarrow> buf \<Rightarrow> buf \<Rightarrow> nat \<Rightarrow> nat \<Rightarrow> nat \<Rightarrow> buf \<Rightarrow> client \<Rightarrow> 'w
   \<Rightarrow> (int \<times> buf \<times> client \<times> 'w) option" where
  "read_blocks E stack P auth_code rec_data base 0 buf_ptr ub c w = Some (int buf_ptr, ub, c, w)"
| "read_blocks E stack P auth_code rec_data base (Suc n) buf_ptr ub c w = do {
     ent \<leftarrow> get_at 32 dec_bent rec_data base;
     (found, ub, c, w) \<leftarrow> read_nodes E stack P auth_code ent (nodes_of ent) buf_ptr ub c w;
     if found then read_blocks E stack P auth_code rec_data (base + 32) n
       (buf_ptr + unat (be_length ent)) ub c w
     else Some (- 1, ub, c, w)
   }"

text \<open>All nodes of an entry are written; \<open>k\<close> counts the successes and \<open>l\<close> the nodes.\<close>

fun write_nodes ::
  "env \<Rightarrow> buf \<Rightarrow> 'w peer \<Rightarrow> buf \<Rightarrow> block_entry \<Rightarrow> u32_t list \<Rightarrow> nat \<Rightarrow> buf \<Rightarrow> nat \<Rightarrow> nat \<Rightarrow> client \<Rightarrow> 'w
   \<Rightarrow> (bool \<times> client \<times> 'w) option" where
  "write_nodes E stack P auth_code ent [] pos ub k l c w = Some (k = l, c, w)"
| "write_nodes E stack P auth_code ent (n # ns) pos ub k l c w =
     (if n \<noteq> 0 then do {
        (rec_len, c, w) \<leftarrow> write_block E stack P auth_code ent n pos ub c w;
        write_nodes E stack P auth_code ent ns pos ub
          (if int (unat (be_length ent)) \<le> rec_len then k + 1 else k) (l + 1) c w
      } else write_nodes E stack P auth_code ent ns pos ub k l c w)"

fun write_blocks ::
  "env \<Rightarrow> buf \<Rightarrow> 'w peer \<Rightarrow> buf \<Rightarrow> buf \<Rightarrow> nat \<Rightarrow> nat \<Rightarrow> nat \<Rightarrow> buf \<Rightarrow> client \<Rightarrow> 'w
   \<Rightarrow> (int \<times> client \<times> 'w) option" where
  "write_blocks E stack P auth_code rec_data base 0 buf_ptr ub c w = Some (int buf_ptr, c, w)"
| "write_blocks E stack P auth_code rec_data base (Suc n) buf_ptr ub c w = do {
     ent \<leftarrow> get_at 32 dec_bent rec_data base;
     (all_written, c, w) \<leftarrow> write_nodes E stack P auth_code ent (nodes_of ent) buf_ptr ub 0 0 c w;
     if all_written then write_blocks E stack P auth_code rec_data (base + 32) n
       (buf_ptr + unat (be_length ent)) ub c w
     else Some (- 1, c, w)
   }"

section \<open>The operations\<close>

text \<open>
  The request to the control node with its reply: an error (the operation returns \<open>-1\<close>), or
  the reply and the number of entries in it.
\<close>

definition block_list ::
  "env \<Rightarrow> buf \<Rightarrow> 'w peer \<Rightarrow> sbp_filedesc \<Rightarrow> u64_t \<Rightarrow> buf \<Rightarrow> client \<Rightarrow> 'w
   \<Rightarrow> ((buf \<times> nat \<times> nat) option \<times> client \<times> 'w) option" where
  "block_list E stack P d len meth c w = do {
     (r, c, w) \<leftarrow> call E stack P w c
       (args meth [sdec (sint (fd_server_fd d)), sdec (sint (fd_offset d)), sdec (sint len)]);
     case r of
       Reply head rec_data \<Rightarrow>
         if is_ok head then do {
           l \<leftarrow> content_len head;
           case l of
             None \<Rightarrow> Some (None, note_errs E [err HEAD_ERR NO_CONTENT_LEN] c, w)
           | Some content_l \<Rightarrow>
               if content_l mod szof_bent \<noteq> 0 then Some (None, note_errs E [err DATA_ERR DATA_LEN] c, w)
               else Some (Some (rec_data, unat (hd_len head), unat (content_l div szof_bent)), c, w)
         }
         else Some (None, not_ok E head c, w)
     | _ \<Rightarrow> Some (None, c, w)
   }"

text \<open>\<open>if (ret >= 0) fds[fd]->offset += ret\<close>\<close>

definition advance :: "int \<Rightarrow> int \<Rightarrow> client \<Rightarrow> client option" where
  "advance fd ret c =
     (if 0 \<le> ret then do {
        slot \<leftarrow> fds_get c fd;
        case slot of
          None \<Rightarrow> None
        | Some d \<Rightarrow> fds_set c fd (Some (d\<lparr>fd_offset := fd_offset d + word_of_int ret\<rparr>))
      } else Some c)"

definition sbp_read ::
  "env \<Rightarrow> buf \<Rightarrow> 'w peer \<Rightarrow> int \<Rightarrow> buf \<Rightarrow> u64_t \<Rightarrow> client \<Rightarrow> 'w \<Rightarrow> (int \<times> buf \<times> client \<times> 'w) option" where
  "sbp_read E stack P fd ub len c w =
     (if fd < 0 then Some (- 1, ub, c, w) else do {
        slot \<leftarrow> fds_get c fd;
        case slot of
          None \<Rightarrow> None
        | Some d \<Rightarrow>
            if fd_type d \<noteq> T_FILE then Some (- 1, ub, note_errs E [err REQ_ERR FILE_TYPE] c, w)
            else do {
              (l, c, w) \<leftarrow> block_list E stack P d len (lit ''READ'') c w;
              case l of
                None \<Rightarrow> Some (- 1, ub, c, w)
              | Some (rec_data, base, n) \<Rightarrow> do {
                  (ret, ub, c, w) \<leftarrow> read_blocks E stack P (fd_auth_code d) rec_data base n 0 ub c w;
                  c \<leftarrow> advance fd ret c;
                  Some (ret, ub, c, w)
                }
            }
      })"

definition sbp_write ::
  "env \<Rightarrow> buf \<Rightarrow> 'w peer \<Rightarrow> int \<Rightarrow> buf \<Rightarrow> u64_t \<Rightarrow> client \<Rightarrow> 'w \<Rightarrow> (int \<times> client \<times> 'w) option" where
  "sbp_write E stack P fd ub len c w =
     (if fd < 0 then Some (- 1, c, w) else do {
        slot \<leftarrow> fds_get c fd;
        case slot of
          None \<Rightarrow> Some (- 1, c, w)
        | Some d \<Rightarrow>
            if fd_type d \<noteq> T_FILE then Some (- 1, note_errs E [err REQ_ERR FILE_TYPE] c, w)
            else do {
              (l, c, w) \<leftarrow> block_list E stack P d len (lit ''WRITE'') c w;
              case l of
                None \<Rightarrow> Some (- 1, c, w)
              | Some (rec_data, base, n) \<Rightarrow> do {
                  (ret, c, w) \<leftarrow> write_blocks E stack P (fd_auth_code d) rec_data base n 0 ub c w;
                  c \<leftarrow> advance fd ret c;
                  Some (ret, c, w)
                }
            }
      })"

end
