(* ===== verification/BlockMan.thy ===== *)
theory BlockMan
  imports SbpStr
begin

text \<open>
  The block files of a data node (\<open>d_node/haha/blockman.c\<close>): each block is a file of the host,
  and a list of the blocks is kept in memory and in a file. Several local arrays of the code
  are too small; an access outside them is \<open>None\<close>, as everywhere. The number of bytes that
  \<open>fread\<close> and \<open>fwrite\<close> transfer is not looked at by the code, nor is it returned here.
\<close>

section \<open>State\<close>

definition ROOTPATH :: buf where "ROOTPATH = lit ''/home/hhf/blocks/''"
definition BLOCKLISTPATH :: buf where "BLOCKLISTPATH = lit ''/home/hhf/blocklist''"
definition BLOCKNAME :: nat where "BLOCKNAME = 64"
definition MAX_BLOCKSIZE :: nat where "MAX_BLOCKSIZE = 6400"

text \<open>
  The host's files and directories, and the globals: \<open>blocklist\<close> is an array of 64 rows of
  6400 bytes (the code uses it as if the numbers were swapped).
\<close>

record blockman =
  bm_files :: "buf \<Rightarrow> buf option"
  bm_dirs :: "buf list"
  bm_blocklist :: "buf list"
  bm_blolist :: "u64_t list"
  bm_bnum :: u64_t

section \<open>Files of the host\<close>

text \<open>\<open>fwrite\<close> at a position: a gap behind the end of the file is filled with zeros.\<close>

definition fwrite_at :: "buf \<Rightarrow> nat \<Rightarrow> buf \<Rightarrow> buf" where
  "fwrite_at contents off d = (if d = [] then contents else
     take off (contents @ replicate (off - length contents) 0) @ d @ drop (off + length d) contents)"

definition fread_at :: "buf \<Rightarrow> nat \<Rightarrow> nat \<Rightarrow> buf" where
  "fread_at contents off n = take n (drop off contents)"

text \<open>\<open>sprintf\<close> into the array \<open>char p[2]\<close>.\<close>

definition sprintf_p2 :: "buf \<Rightarrow> buf option" where
  "sprintf_p2 s = (if length s + 1 \<le> 2 then Some s else None)"

definition getpath :: "u64_t \<Rightarrow> buf option" where
  "getpath blocknum = do {
     p \<leftarrow> sprintf_p2 (udec (unat (blocknum mod 100)));
     q \<leftarrow> sprintf_p2 (sdec (sint blocknum));
     Some (ROOTPATH @ p @ lit ''/'' @ q)
   }"

section \<open>Reading and writing a block\<close>

definition readblock :: "blockman \<Rightarrow> u64_t \<Rightarrow> u32_t \<Rightarrow> u32_t \<Rightarrow> buf \<Rightarrow> (int \<times> buf) option" where
  "readblock st blocknum offset len databuf = do {
     path \<leftarrow> getpath blocknum;
     case bm_files st path of
       None \<Rightarrow> Some (- 1, databuf)
     | Some contents \<Rightarrow> do {
         databuf \<leftarrow> wr databuf 0 (fread_at contents (unat offset) (unat len));
         Some (0, databuf)
       }
   }"

definition blockdir :: "blockman \<Rightarrow> u64_t \<Rightarrow> (int \<times> blockman) option" where
  "blockdir st blocknum = do {
     p \<leftarrow> sprintf_p2 (udec (unat (blocknum mod 100)));
     Some (0, st\<lparr>bm_dirs := (ROOTPATH @ p) # bm_dirs st\<rparr>)
   }"

text \<open>
  \<open>numc\<close> and \<open>p\<close> hold a printed number; \<open>junk\<close> is what the array holds behind it. The entry
  is written to the list file as 64 bytes from the array \<open>p\<close> of 2.
\<close>

definition sprintf_numc :: "buf \<Rightarrow> buf \<Rightarrow> buf option" where
  "sprintf_numc junk s = wr (take 4 junk) 0 (s @ [0])"

definition addlist :: "buf \<Rightarrow> blockman \<Rightarrow> u64_t \<Rightarrow> (int \<times> blockman) option" where
  "addlist junk st blocknum = do {
     s \<leftarrow> sprintf_p2 (sdec (sint blocknum));
     p \<leftarrow> wr (take 2 junk) 0 (s @ [0]);
     if length (bm_blocklist st) \<le> unat (bm_bnum st) then None else do {
       row \<leftarrow> wr (bm_blocklist st ! unat (bm_bnum st)) 0 (s @ [0]);
       let st = st\<lparr>bm_blocklist := (bm_blocklist st)[unat (bm_bnum st) := row], bm_bnum := bm_bnum st + 1\<rparr>;
       blist \<leftarrow> bm_files st BLOCKLISTPATH;
       numc \<leftarrow> sprintf_numc junk (sdec (sint (bm_bnum st)));
       name \<leftarrow> rd p 0 BLOCKNAME;
       Some (0, st\<lparr>bm_files := (bm_files st)(BLOCKLISTPATH \<mapsto>
         fwrite_at (fwrite_at blist 0 numc) (unat (bm_bnum st) * BLOCKNAME) name)\<rparr>)
     }
   }"

definition createblock :: "buf \<Rightarrow> blockman \<Rightarrow> u64_t \<Rightarrow> (int \<times> blockman) option" where
  "createblock junk st blocknum = do {
     (_, st) \<leftarrow> blockdir st blocknum;
     path \<leftarrow> getpath blocknum;
     let st = st\<lparr>bm_files := (bm_files st)(path \<mapsto> replicate (1024 * 16 * 1024) 0)\<rparr>;
     (_, st) \<leftarrow> addlist junk st blocknum;
     Some (0, st)
   }"

definition writeblock :: "buf \<Rightarrow> blockman \<Rightarrow> u64_t \<Rightarrow> u32_t \<Rightarrow> u32_t \<Rightarrow> buf \<Rightarrow> (int \<times> blockman) option" where
  "writeblock junk st blocknum offset len dat = do {
     path \<leftarrow> getpath blocknum;
     st \<leftarrow> (if bm_files st path = None then map_option snd (createblock junk st blocknum) else Some st);
     case bm_files st path of
       None \<Rightarrow> Some (- 1, st)
     | Some contents \<Rightarrow> do {
         d \<leftarrow> rd dat 0 (unat len);
         Some (0, st\<lparr>bm_files := (bm_files st)(path \<mapsto> fwrite_at contents (unat offset) d)\<rparr>)
       }
   }"

section \<open>The list of blocks\<close>

text \<open>
  Reading the list file: \<open>numc[4]\<close> has to hold a NUL for \<open>atoi\<close>, and so has each entry of 64
  bytes; a list file that is missing is not noticed (\<open>fopen\<close> does not return a negative
  pointer), its stream is then used.
\<close>

definition getlist_entry :: "buf \<Rightarrow> nat \<Rightarrow> (buf \<times> u64_t) option" where
  "getlist_entry blist i = do {
     temp \<leftarrow> rd blist (Suc i * BLOCKNAME) BLOCKNAME;
     s \<leftarrow> cstr_at temp 0;
     v \<leftarrow> atoll s;
     Some (s, word_of_int v)
   }"

fun getlist_loop :: "buf \<Rightarrow> nat \<Rightarrow> nat \<Rightarrow> blockman \<Rightarrow> blockman option" where
  "getlist_loop blist i 0 st = Some st"
| "getlist_loop blist i (Suc n) st = do {
     (s, tempnum) \<leftarrow> getlist_entry blist i;
     if length (bm_blocklist st) \<le> i \<or> length (bm_blolist st) \<le> i then None else do {
       row \<leftarrow> wr (bm_blocklist st ! i) 0 (s @ [0]);
       getlist_loop blist (Suc i) n (st\<lparr>bm_blocklist := (bm_blocklist st)[i := row],
         bm_blolist := (bm_blolist st)[i := tempnum]\<rparr>)
     }
   }"

definition getlist :: "blockman \<Rightarrow> (u64_t \<times> blockman) option" where
  "getlist st = do {
     blist \<leftarrow> bm_files st BLOCKLISTPATH;
     numc \<leftarrow> rd blist 0 4;
     s \<leftarrow> cstr_at numc 0;
     v \<leftarrow> atoi s;
     let bnum = word_of_int v;
     st \<leftarrow> getlist_loop blist 0 (unat bnum) (st\<lparr>bm_bnum := bnum\<rparr>);
     Some (bnum, st)
   }"

definition initlist :: "blockman \<Rightarrow> blockman option" where
  "initlist st =
     (if bm_files st BLOCKLISTPATH \<noteq> None then map_option snd (getlist st)
      else Some (st\<lparr>bm_files := (bm_files st)(BLOCKLISTPATH \<mapsto> replicate (6401 * 64) 0)\<rparr>))"

text \<open>
  Removing an entry moves the last one into its place; the loop goes on with the shorter
  list. \<open>delnum\<close> is uninitialised when the block is not found.
\<close>

function deletelist_loop :: "buf \<Rightarrow> nat \<Rightarrow> buf list \<Rightarrow> nat \<Rightarrow> nat option \<Rightarrow> (buf list \<times> nat \<times> nat option) option" where
  "deletelist_loop p i rows bnum delnum =
     (if i < bnum then
        if length rows < bnum then None else do {
          same \<leftarrow> strcmp_at (rows ! i) 0 p;
          if same then do {
            s \<leftarrow> cstr_at (rows ! (bnum - 1)) 0;
            row \<leftarrow> wr (rows ! i) 0 (s @ [0]);
            deletelist_loop p (Suc i) (rows[i := row]) (bnum - 1) (Some i)
          } else deletelist_loop p (Suc i) rows bnum delnum
        }
      else Some (rows, bnum, delnum))"
  by pat_completeness auto
termination by (relation "measure (\<lambda>(p, i, rows, bnum, delnum). bnum - i)") auto

declare deletelist_loop.simps [simp del]

definition deletelist :: "buf \<Rightarrow> blockman \<Rightarrow> u64_t \<Rightarrow> (int \<times> blockman) option" where
  "deletelist junk st blocknum = do {
     p \<leftarrow> sprintf_p2 (sdec (sint blocknum));
     (rows, bnum, del) \<leftarrow> deletelist_loop p 0 (bm_blocklist st) (unat (bm_bnum st)) None;
     blist \<leftarrow> bm_files st BLOCKLISTPATH;
     numc \<leftarrow> sprintf_numc junk (sdec (int bnum));
     delnum \<leftarrow> del;
     name \<leftarrow> rd (rows ! delnum) 0 BLOCKNAME;
     Some (0, st\<lparr>bm_blocklist := rows, bm_bnum := word_of_nat bnum,
       bm_files := (bm_files st)(BLOCKLISTPATH \<mapsto>
         fwrite_at (fwrite_at blist 0 numc) (Suc delnum * BLOCKNAME) name)\<rparr>)
   }"

definition deleteblock :: "buf \<Rightarrow> blockman \<Rightarrow> u64_t \<Rightarrow> (int \<times> blockman) option" where
  "deleteblock junk st blocknum = do {
     path \<leftarrow> getpath blocknum;
     let st = (if bm_files st path = None then st else st\<lparr>bm_files := (bm_files st)(path := None)\<rparr>);
     (_, st) \<leftarrow> deletelist junk st blocknum;
     Some (0, st)
   }"

end
