(* ===== verification/BlockManSpec.thy ===== *)
theory BlockManSpec
  imports BlockMan
begin

text \<open>
  What the block files do: within the blocks the code can name (numbers below 10), writing
  to a block and reading it back agree, and other blocks keep their contents; outside, and
  for a block whose file does not exist yet, writing is undefined.
\<close>

section \<open>Paths\<close>

definition block_path :: "u64_t \<Rightarrow> buf" where
  "block_path b = ROOTPATH @ udec (unat b) @ lit ''/'' @ udec (unat b)"

lemma udec_small: "n < 10 \<Longrightarrow> udec n = [digit n]"
  by (subst udec.simps) simp

lemma length_udec_ge: "10 \<le> n \<Longrightarrow> 2 \<le> length (udec n)"
proof -
  assume "10 \<le> n"
  then have "udec n = udec (n div 10) @ [digit (n mod 10)]" by (subst udec.simps) simp
  moreover have "0 < length (udec (n div 10))" by simp
  ultimately show ?thesis by (cases "udec (n div 10)") simp_all
qed

lemma sprintf_number: "sprintf_p2 (udec n) = (if n < 10 then Some (udec n) else None)"
  using length_udec_ge [of n] by (cases "n < 10") (simp_all add: sprintf_p2_def udec_small)

lemma sint_small_u64: "unat b < 10 \<Longrightarrow> sint b = int (unat b)" for b :: u64_t
  using sint_of_nat_fit [of "unat b", where 'a = 64] by simp

lemma sprintf_block: "sprintf_p2 (sdec (sint b)) = (if unat b < 10 then Some (udec (unat b)) else None)"
  for b :: u64_t
proof (cases "sint b < 0")
  case True
  then have "\<not> unat b < 10" using sint_small_u64 [of b] by auto
  moreover have "0 < length (udec (nat (- sint b)))" by simp
  ultimately show ?thesis using True by (auto simp: sdec_def sprintf_p2_def)
next
  case False
  define m where "m = nat (sint b)"
  have m: "sint b = int m" using False by (simp add: m_def)
  have "b = word_of_int (sint b)" by simp
  then have b: "b = word_of_nat m" by (simp only: m of_int_of_nat_eq)
  have small: "m = unat b" if "unat b < 10"
    using sint_small_u64 [OF that] m by (simp only: of_nat_eq_iff)
  have "m < 10 \<longleftrightarrow> unat b < 10"
  proof
    assume "m < 10"
    then have "unat b = m" unfolding b by (intro unat_word_of_nat_fit) simp
    then show "unat b < 10" using \<open>m < 10\<close> by simp
  next
    assume "unat b < 10"
    then show "m < 10" using small by simp
  qed
  then show ?thesis using small by (simp add: sdec_def m sprintf_number)
qed

lemma getpath_eq: "getpath b = (if unat b < 10 then Some (block_path b) else None)"
proof (cases "unat b < 10")
  case True
  then have "unat (b mod 100) = unat b" by (simp add: unat_mod)
  then show ?thesis using True by (simp add: getpath_def sprintf_number sprintf_block block_path_def)
next
  case False
  then show ?thesis by (cases "sprintf_p2 (udec (unat (b mod 100)))") (simp_all add: getpath_def sprintf_block)
qed

lemma block_path_inj: "unat a < 10 \<Longrightarrow> unat b < 10 \<Longrightarrow> block_path a = block_path b \<longleftrightarrow> a = b"
proof
  assume u: "unat a < 10" "unat b < 10" and p: "block_path a = block_path b"
  then have "digit (unat a) = digit (unat b)" by (simp add: block_path_def udec_small)
  then have "unat (digit (unat a)) = unat (digit (unat b))" by (rule arg_cong)
  then have "unat a = unat b" using u by (simp add: unat_digit)
  then show "a = b" by (rule unsigned_word_eqI)
qed simp

section \<open>Contents\<close>

text \<open>The contents of a block, for the blocks the code can name.\<close>

definition block_of :: "blockman \<Rightarrow> u64_t \<Rightarrow> buf option" where
  "block_of st b = (if unat b < 10 then bm_files st (block_path b) else None)"

text \<open>The bytes from \<open>off\<close> on replaced.\<close>

definition patch :: "nat \<Rightarrow> buf \<Rightarrow> buf \<Rightarrow> buf" where
  "patch off d contents = take off contents @ d @ drop (off + length d) contents"

lemma length_patch [simp]: "off + length d \<le> length c \<Longrightarrow> length (patch off d c) = length c"
  by (simp add: patch_def)

lemma patch_read: "off + length d \<le> length c \<Longrightarrow> take (length d) (drop off (patch off d c)) = d"
  by (simp add: patch_def)

lemma fwrite_at_inside: "off + length d \<le> length c \<Longrightarrow> fwrite_at c off d = patch off d c"
  by (simp add: fwrite_at_def patch_def)

lemma readblock_inside:
  assumes "block_of st b = Some c" and "unat off + unat len \<le> length c" and "length databuf = unat len"
  shows "readblock st b off len databuf = Some (0, take (unat len) (drop (unat off) c))"
proof -
  have b: "unat b < 10" "bm_files st (block_path b) = Some c"
    using assms(1) by (auto simp: block_of_def split: if_splits)
  have "wr databuf 0 (fread_at c (unat off) (unat len)) = Some (take (unat len) (drop (unat off) c))"
    using assms(2,3) by (simp add: wr_def fread_at_def)
  then show ?thesis using b by (simp add: readblock_def getpath_eq)
qed

lemma readblock_missing:
  "unat b < 10 \<Longrightarrow> block_of st b = None \<Longrightarrow> readblock st b off len databuf = Some (- 1, databuf)"
  by (simp add: readblock_def getpath_eq block_of_def)

lemma writeblock_inside:
  assumes "block_of st b = Some c" and "unat off + unat len \<le> length c" and "unat len \<le> length dat"
  shows "\<exists>st'. writeblock junk st b off len dat = Some (0, st')
    \<and> block_of st' = (block_of st)(b \<mapsto> patch (unat off) (take (unat len) dat) c)"
proof -
  have b: "unat b < 10" "bm_files st (block_path b) = Some c"
    using assms(1) by (auto simp: block_of_def split: if_splits)
  let ?st = "st\<lparr>bm_files := (bm_files st)(block_path b \<mapsto> patch (unat off) (take (unat len) dat) c)\<rparr>"
  have "fwrite_at c (unat off) (take (unat len) dat) = patch (unat off) (take (unat len) dat) c"
    using assms(2,3) by (intro fwrite_at_inside) simp
  then have "writeblock junk st b off len dat = Some (0, ?st)"
    using b assms(3) by (simp add: writeblock_def getpath_eq rd_def)
  moreover have "block_of ?st = (block_of st)(b \<mapsto> patch (unat off) (take (unat len) dat) c)"
    using b(1) by (auto simp: block_of_def fun_eq_iff block_path_inj)
  ultimately show ?thesis by blast
qed

text \<open>\<open>addlist\<close> writes 64 bytes out of an array of 2.\<close>

lemma addlist_undefined: "addlist junk st b = None"
proof -
  have "rd p 0 BLOCKNAME = None" if "wr (take 2 junk) 0 (s @ [0]) = Some p" for p s
    using wr_length [OF that] by (simp add: rd_def BLOCKNAME_def)
  then show ?thesis by (auto simp: addlist_def Let_def bind_eq_None_conv)
qed

lemma createblock_undefined: "createblock junk st b = None"
  by (auto simp: createblock_def addlist_undefined Let_def bind_eq_None_conv split: prod.splits)

section \<open>The properties\<close>

text \<open>A node with one block of four bytes, for the witnesses.\<close>

definition small_node :: blockman where
  "small_node = \<lparr>bm_files = [block_path 3 \<mapsto> [1, 2, 3, 4]], bm_dirs = [],
     bm_blocklist = [], bm_blolist = [], bm_bnum = 0\<rparr>"

text \<open>
  C37. Where a data node cannot store: writing a block that has no file yet goes through
  \<open>createblock\<close>, which enters the new block into the list file by writing 64 bytes out of
  an array of 2; and for a block number of two or more digits already the path overflows such
  an array. In both cases the behaviour is undefined, whatever the arguments.
\<close>

theorem writing_new_block_undefined:
  "block_of st b = None \<Longrightarrow> writeblock junk st b off len dat = None"
  by (cases "unat b < 10")
     (simp_all add: writeblock_def getpath_eq block_of_def createblock_undefined)

theorem writing_new_block_undefined_witness: "writeblock [] small_node 12 0 1 [7] = None"
  by (rule writing_new_block_undefined) (simp add: block_of_def)

end
