(* ===== verification/ClientBlocksSpec.thy ===== *)
theory ClientBlocksSpec
  imports ClientBlocks BlockManSpec
begin

text \<open>
  Reading and writing through replicas. The locale \<open>block_server\<close> states what the loops of
  \<open>libc/read_write.c\<close> rely on: how one data node answers one request (\<open>holds\<close> is which
  block contents a node serves). From it: a block is read as long as one of its nodes
  has it, whichever that is; a write reaches every node; what was written is read back.
\<close>

section \<open>Pieces of blocks\<close>

abbreviation len_of :: "block_entry \<Rightarrow> nat" where "len_of e \<equiv> unat (be_length e)"

definition inside :: "block_entry \<Rightarrow> buf \<Rightarrow> bool" where
  "inside e x \<longleftrightarrow> unat (be_offset e) + len_of e \<le> length x"

definition piece :: "block_entry \<Rightarrow> buf \<Rightarrow> buf" where
  "piece e x = take (len_of e) (drop (unat (be_offset e)) x)"

lemma length_piece: "inside e x \<Longrightarrow> length (piece e x) = len_of e"
  by (simp add: inside_def piece_def)

lemma inside_patch: "inside e x \<Longrightarrow> length d = len_of e \<Longrightarrow> length (patch (unat (be_offset e)) d x) = length x"
  by (simp add: inside_def)

lemma piece_patch: "inside e x \<Longrightarrow> length d = len_of e \<Longrightarrow> piece e (patch (unat (be_offset e)) d x) = d"
  using patch_read [of "unat (be_offset e)" d x] by (simp add: inside_def piece_def)

lemma patch_patch:
  assumes "pos + length a + length b \<le> length u"
  shows "patch (pos + length a) b (patch pos a u) = patch pos (a @ b) u"
  using assms by (simp add: patch_def add.commute add.left_commute)

lemma patch_Nil [simp]: "pos \<le> length u \<Longrightarrow> patch pos [] u = u"
  by (simp add: patch_def)

section \<open>What the nodes hold\<close>

type_synonym holdings = "u32_t \<Rightarrow> u64_t \<Rightarrow> buf option"

definition stored :: "holdings \<Rightarrow> u32_t \<Rightarrow> block_entry \<Rightarrow> buf \<Rightarrow> holdings" where
  "stored H n e d = H(n := (H n)(be_block_id e := map_option (patch (unat (be_offset e)) d) (H n (be_block_id e))))"

fun stored_nodes :: "holdings \<Rightarrow> u32_t list \<Rightarrow> block_entry \<Rightarrow> buf \<Rightarrow> holdings" where
  "stored_nodes H [] e d = H"
| "stored_nodes H (n # ns) e d = stored_nodes (if n = 0 then H else stored H n e d) ns e d"

fun stored_blocks :: "holdings \<Rightarrow> block_entry list \<Rightarrow> buf \<Rightarrow> nat \<Rightarrow> holdings" where
  "stored_blocks H [] ub pos = H"
| "stored_blocks H (e # es) ub pos =
     stored_blocks (stored_nodes H (nodes_of e) e (take (len_of e) (drop pos ub))) es ub (pos + len_of e)"

text \<open>Every node of the list has the block; the nodes that have it agree on the piece.\<close>

definition writable :: "holdings \<Rightarrow> block_entry \<Rightarrow> u32_t list \<Rightarrow> bool" where
  "writable H e ns \<longleftrightarrow> (\<forall>n \<in> set ns. n \<noteq> 0 \<longrightarrow> (\<exists>x. H n (be_block_id e) = Some x \<and> inside e x))"

definition agree :: "holdings \<Rightarrow> block_entry \<Rightarrow> u32_t list \<Rightarrow> buf \<Rightarrow> bool" where
  "agree H e ns d \<longleftrightarrow> (\<forall>n \<in> set ns. n \<noteq> 0 \<longrightarrow>
     (\<forall>x. H n (be_block_id e) = Some x \<longrightarrow> inside e x \<and> piece e x = d))"

definition some_copy :: "holdings \<Rightarrow> block_entry \<Rightarrow> u32_t list \<Rightarrow> bool" where
  "some_copy H e ns \<longleftrightarrow> (\<exists>n \<in> set ns. n \<noteq> 0 \<and> H n (be_block_id e) \<noteq> None)"

definition offers :: "holdings \<Rightarrow> block_entry \<Rightarrow> buf \<Rightarrow> bool" where
  "offers H e d \<longleftrightarrow> some_copy H e (nodes_of e) \<and> agree H e (nodes_of e) d"

lemma writable_Cons [simp]:
  "writable H e (n # ns) \<longleftrightarrow> (n \<noteq> 0 \<longrightarrow> (\<exists>x. H n (be_block_id e) = Some x \<and> inside e x)) \<and> writable H e ns"
  by (auto simp: writable_def)

lemma agree_Cons [simp]:
  "agree H e (n # ns) d \<longleftrightarrow> (n \<noteq> 0 \<longrightarrow> (\<forall>x. H n (be_block_id e) = Some x \<longrightarrow> inside e x \<and> piece e x = d))
     \<and> agree H e ns d"
  by (auto simp: agree_def)

lemma some_copy_Cons [simp]:
  "some_copy H e (n # ns) \<longleftrightarrow> n \<noteq> 0 \<and> H n (be_block_id e) \<noteq> None \<or> some_copy H e ns"
  by (auto simp: some_copy_def)

lemma empty_copies [simp]: "\<not> some_copy H e []" "agree H e [] d" "writable H e []"
  by (simp_all add: some_copy_def agree_def writable_def)

lemma offers_length: "offers H e d \<Longrightarrow> length d = len_of e"
  using length_piece by (fastforce simp: offers_def some_copy_def agree_def)

text \<open>How storing changes what the nodes hold.\<close>

definition same_shape :: "holdings \<Rightarrow> holdings \<Rightarrow> bool" where
  "same_shape H H' \<longleftrightarrow> (\<forall>n b. map_option length (H' n b) = map_option length (H n b))"

lemma same_shape_refl [simp]: "same_shape H H"
  by (simp add: same_shape_def)

lemma same_shape_trans: "same_shape H H' \<Longrightarrow> same_shape H' H'' \<Longrightarrow> same_shape H H''"
  by (simp add: same_shape_def)

lemma same_shape_stored:
  "H n (be_block_id e) = Some x \<Longrightarrow> inside e x \<Longrightarrow> length d = len_of e \<Longrightarrow> same_shape H (stored H n e d)"
  by (simp add: same_shape_def stored_def inside_patch del: length_patch)

lemma writable_same_shape: "same_shape H H' \<Longrightarrow> writable H e ns \<Longrightarrow> writable H' e ns"
proof -
  assume s: "same_shape H H'" and w: "writable H e ns"
  have "\<exists>x'. H' n b = Some x' \<and> length x' = length x" if "H n b = Some x" for n b x
  proof -
    have "map_option length (H' n b) = Some (length x)" using s that by (simp add: same_shape_def)
    then show ?thesis by auto
  qed
  then show ?thesis using w unfolding writable_def inside_def by metis
qed

lemma same_shape_step:
  assumes "writable H e (n # ns)" and "length d = len_of e"
  shows "same_shape H (if n = 0 then H else stored H n e d)"
proof (cases "n = 0")
  case False
  then obtain x where "H n (be_block_id e) = Some x" "inside e x" using assms(1) by auto
  then show ?thesis using False same_shape_stored [OF _ _ assms(2)] by simp
qed simp

lemma same_shape_nodes:
  "writable H e ns \<Longrightarrow> length d = len_of e \<Longrightarrow> same_shape H (stored_nodes H ns e d)"
proof (induction ns arbitrary: H)
  case (Cons n ns)
  let ?H = "if n = 0 then H else stored H n e d"
  have sh: "same_shape H ?H" by (rule same_shape_step [OF Cons.prems])
  have "writable H e ns" using Cons.prems(1) by simp
  then have "same_shape ?H (stored_nodes ?H ns e d)"
    by (rule Cons.IH [OF writable_same_shape [OF sh] Cons.prems(2)])
  then show ?case unfolding stored_nodes.simps by (rule same_shape_trans [OF sh])
qed simp

text \<open>Other blocks are not touched; on the nodes written the piece is the new one.\<close>

lemma stored_nodes_other: "b \<noteq> be_block_id e \<Longrightarrow> stored_nodes H ns e d n b = H n b"
  by (induction ns arbitrary: H) (simp_all add: stored_def)

lemma stored_nodes_keeps:
  "(\<exists>x. H n (be_block_id e) = Some x \<and> inside e x \<and> piece e x = d) \<Longrightarrow> length d = len_of e \<Longrightarrow>
    \<exists>x. stored_nodes H ns e d n (be_block_id e) = Some x \<and> inside e x \<and> piece e x = d"
proof (induction ns arbitrary: H)
  case (Cons m ns)
  obtain x where x: "H n (be_block_id e) = Some x" "inside e x" "piece e x = d" using Cons.prems(1) by blast
  let ?p = "patch (unat (be_offset e)) d x"
  have "inside e ?p" "piece e ?p = d"
    using inside_patch [OF x(2) Cons.prems(2)] x(2) piece_patch [OF x(2) Cons.prems(2)]
    by (simp_all add: inside_def)
  then have "\<exists>x. (if m = 0 then H else stored H m e d) n (be_block_id e) = Some x \<and> inside e x \<and> piece e x = d"
    using x by (auto simp: stored_def)
  then show ?case using Cons.IH Cons.prems(2) by simp
qed simp

lemma stored_nodes_pieces:
  "writable H e ns \<Longrightarrow> length d = len_of e \<Longrightarrow> n \<in> set ns \<Longrightarrow> n \<noteq> 0 \<Longrightarrow>
    \<exists>x. stored_nodes H ns e d n (be_block_id e) = Some x \<and> inside e x \<and> piece e x = d"
proof (induction ns arbitrary: H)
  case (Cons m ns)
  let ?H = "if m = 0 then H else stored H m e d"
  have sh: "same_shape H ?H" by (rule same_shape_step [OF Cons.prems(1,2)])
  show ?case
  proof (cases "n = m")
    case True
    then obtain x where x: "H n (be_block_id e) = Some x" "inside e x" using Cons.prems by auto
    let ?p = "patch (unat (be_offset e)) d x"
    have "inside e ?p" "piece e ?p = d"
      using inside_patch [OF x(2) Cons.prems(2)] x(2) piece_patch [OF x(2) Cons.prems(2)]
      by (simp_all add: inside_def)
    then have "\<exists>x. ?H n (be_block_id e) = Some x \<and> inside e x \<and> piece e x = d"
      using x True Cons.prems(4) by (simp add: stored_def)
    then show ?thesis using stored_nodes_keeps Cons.prems(2) by simp
  next
    case False
    then have n: "n \<in> set ns" using Cons.prems(3) by simp
    have "writable H e ns" using Cons.prems(1) by simp
    then have "\<exists>x. stored_nodes ?H ns e d n (be_block_id e) = Some x \<and> inside e x \<and> piece e x = d"
      by (rule Cons.IH [OF writable_same_shape [OF sh] Cons.prems(2) n Cons.prems(4)])
    then show ?thesis unfolding stored_nodes.simps .
  qed
qed simp

text \<open>What exactly a node holds after a write: storing twice is storing once.\<close>

lemma patch_again: "off + length d \<le> length x \<Longrightarrow> patch off d (patch off d x) = patch off d x"
  by (simp add: patch_def)

lemma stored_nodes_patch:
  "H n (be_block_id e) = Some x \<Longrightarrow> inside e x \<Longrightarrow> length d = len_of e \<Longrightarrow>
    stored_nodes H ns e d n (be_block_id e)
      = Some (if n \<noteq> 0 \<and> n \<in> set ns then patch (unat (be_offset e)) d x else x)"
proof (induction ns arbitrary: H x)
  case (Cons m ns)
  let ?p = "patch (unat (be_offset e)) d x"
  let ?H = "if m = 0 then H else stored H m e d"
  show ?case
  proof (cases "m = n \<and> n \<noteq> 0")
    case True
    then have "?H n (be_block_id e) = Some ?p" using Cons.prems(1) by (simp add: stored_def)
    moreover have "inside e ?p" using Cons.prems by (simp add: inside_def)
    moreover have "patch (unat (be_offset e)) d ?p = ?p"
      using Cons.prems by (intro patch_again) (simp add: inside_def)
    ultimately show ?thesis using Cons.IH [of ?H ?p] Cons.prems(3) True by simp
  next
    case False
    then have "?H n (be_block_id e) = Some x" using Cons.prems(1) by (auto simp: stored_def)
    then show ?thesis using Cons.IH [of ?H x] Cons.prems(2,3) False by auto
  qed
qed simp

lemma offers_stored_nodes:
  assumes "writable H e (nodes_of e)" and "length d = len_of e" and "\<exists>n \<in> set (nodes_of e). n \<noteq> 0"
  shows "offers (stored_nodes H (nodes_of e) e d) e d"
  using stored_nodes_pieces [OF assms(1,2)] assms(3)
  unfolding offers_def some_copy_def agree_def by fastforce

lemma offers_same_block:
  "(\<And>n. H' n (be_block_id e) = H n (be_block_id e)) \<Longrightarrow> offers H e d \<Longrightarrow> offers H' e d"
  by (simp add: offers_def some_copy_def agree_def)

lemma stored_blocks_other:
  "b \<notin> be_block_id ` set es \<Longrightarrow> stored_blocks H es ub pos n b = H n b"
  by (induction es arbitrary: H pos) (simp_all add: stored_nodes_other)

text \<open>The pieces of a buffer that the entries stand for, one behind the other.\<close>

fun cut :: "block_entry list \<Rightarrow> buf \<Rightarrow> buf list" where
  "cut [] ub = []"
| "cut (e # es) ub = take (len_of e) ub # cut es (drop (len_of e) ub)"

abbreviation total_len :: "block_entry list \<Rightarrow> nat" where "total_len es \<equiv> sum_list (map len_of es)"

lemma concat_cut: "concat (cut es ub) = take (total_len es) ub"
  by (induction es arbitrary: ub) (simp_all add: take_add)

lemma stored_blocks_offers:
  "\<forall>e \<in> set es. writable H e (nodes_of e) \<and> (\<exists>n \<in> set (nodes_of e). n \<noteq> 0) \<Longrightarrow>
    distinct (map be_block_id es) \<Longrightarrow> pos + total_len es \<le> length ub \<Longrightarrow>
    list_all2 (offers (stored_blocks H es ub pos)) es (cut es (drop pos ub))"
proof (induction es arbitrary: H pos)
  case (Cons e es)
  let ?d = "take (len_of e) (drop pos ub)"
  let ?H = "stored_nodes H (nodes_of e) e ?d"
  have l: "length ?d = len_of e" using Cons.prems(3) by simp
  have w: "writable H e (nodes_of e)" using Cons.prems(1) by simp
  have "offers ?H e ?d" using Cons.prems(1) l by (intro offers_stored_nodes) simp_all
  then have "offers (stored_blocks ?H es ub (pos + len_of e)) e ?d"
    using Cons.prems(2) by (elim offers_same_block [rotated]) (simp add: stored_blocks_other)
  moreover have "list_all2 (offers (stored_blocks ?H es ub (pos + len_of e))) es (cut es (drop (pos + len_of e) ub))"
  proof (rule Cons.IH)
    have "writable ?H e' (nodes_of e')" if "writable H e' (nodes_of e')" for e'
      by (rule writable_same_shape [OF same_shape_nodes [OF w l] that])
    then show "\<forall>e \<in> set es. writable ?H e (nodes_of e) \<and> (\<exists>n \<in> set (nodes_of e). n \<noteq> 0)"
      using Cons.prems(1) by simp
  qed (use Cons.prems in simp_all)
  ultimately show ?case by (simp add: add.commute)
qed simp

lemma stored_blocks_patch:
  "distinct (map be_block_id es) \<Longrightarrow> i < length es \<Longrightarrow> H n (be_block_id (es ! i)) = Some x \<Longrightarrow>
    inside (es ! i) x \<Longrightarrow> pos + total_len es \<le> length ub \<Longrightarrow>
    stored_blocks H es ub pos n (be_block_id (es ! i))
      = Some (if n \<noteq> 0 \<and> n \<in> set (nodes_of (es ! i))
          then patch (unat (be_offset (es ! i))) (cut es (drop pos ub) ! i) x else x)"
proof (induction es arbitrary: H pos i)
  case (Cons e es)
  let ?d = "take (len_of e) (drop pos ub)"
  let ?H = "stored_nodes H (nodes_of e) e ?d"
  show ?case
  proof (cases i)
    case 0
    have "be_block_id e \<notin> be_block_id ` set es" using Cons.prems(1) by simp
    moreover have "length ?d = len_of e" using Cons.prems(5) by simp
    ultimately show ?thesis
      using stored_nodes_patch [of H n e x ?d "nodes_of e"] Cons.prems(3,4) 0 by (simp add: stored_blocks_other)
  next
    case (Suc j)
    then have "be_block_id (es ! j) \<in> set (map be_block_id es)" using Cons.prems(2) by simp
    moreover have "be_block_id e \<notin> set (map be_block_id es)" using Cons.prems(1) by simp
    ultimately have "be_block_id (es ! j) \<noteq> be_block_id e" by metis
    then have "?H n (be_block_id (es ! j)) = Some x" using Cons.prems(3) Suc by (simp add: stored_nodes_other)
    moreover have "pos + len_of e + total_len es \<le> length ub" using Cons.prems(5) by simp
    ultimately show ?thesis
      using Cons.IH [of j ?H "pos + len_of e"] Cons.prems(1,2,4) Suc by (simp add: add.commute)
  qed
qed simp

lemma nth_cut:
  "i < length es \<Longrightarrow> cut es ub ! i = take (len_of (es ! i)) (drop (total_len (take i es)) ub)"
proof (induction es arbitrary: ub i)
  case (Cons e es)
  then show ?case by (cases i) (simp_all add: add.commute)
qed simp

section \<open>The client of the data nodes\<close>

text \<open>A request leaves the session as it is, but for the errors it records.\<close>

definition same_session :: "client \<Rightarrow> client \<Rightarrow> bool" where
  "same_session c c' \<longleftrightarrow> c\<lparr>err_trace := []\<rparr> = c'\<lparr>err_trace := []\<rparr>"

lemma same_session_refl [simp]: "same_session c c"
  by (simp add: same_session_def)

lemma same_session_trans: "same_session c c' \<Longrightarrow> same_session c' c'' \<Longrightarrow> same_session c c''"
  by (simp add: same_session_def)

lemma same_session_errs [simp]:
  "same_session c (c'\<lparr>err_trace := t\<rparr>) \<longleftrightarrow> same_session c c'"
  "same_session c (note_errs E es c') \<longleftrightarrow> same_session c c'"
  "same_session c (not_ok E head c') \<longleftrightarrow> same_session c c'"
  by (simp_all add: same_session_def note_errs_def not_ok_def)

lemma same_session_fields:
  "same_session c c' \<Longrightarrow> sbp_user c' = sbp_user c \<and> sbp_pass c' = sbp_pass c \<and> sbp_host c' = sbp_host c \<and> fds c' = fds c"
  by (cases c; cases c') (simp add: same_session_def)

text \<open>
  What a data node promises: \<open>deliver\<close>, it sends the piece of a block it holds; \<open>absent\<close>, it
  reports a block it does not hold (a node that is down reports so, too); \<open>store\<close>, it puts
  the bytes into a block it holds. \<open>valid\<close> are the entries for which it promises that.
\<close>

locale block_server =
  fixes E :: env and stack :: buf and P :: "'w peer" and auth :: buf
    and ready :: "client \<Rightarrow> bool" and valid :: "block_entry \<Rightarrow> bool" and holds :: "'w \<Rightarrow> holdings"
  assumes ready_same: "ready c \<Longrightarrow> same_session c c' \<Longrightarrow> ready c'"
    and deliver: "ready c \<Longrightarrow> valid e \<Longrightarrow> holds w n (be_block_id e) = Some x \<Longrightarrow> inside e x \<Longrightarrow>
      pos + len_of e \<le> length ub \<Longrightarrow>
      \<exists>c'. read_block E stack P auth e n pos ub c w = Some (int (len_of e), patch pos (piece e x) ub, c', w)
        \<and> same_session c c'"
    and absent: "ready c \<Longrightarrow> valid e \<Longrightarrow> holds w n (be_block_id e) = None \<Longrightarrow>
      \<exists>c'. read_block E stack P auth e n pos ub c w = Some (- 1, ub, c', w) \<and> same_session c c'"
    and store: "ready c \<Longrightarrow> valid e \<Longrightarrow> holds w n (be_block_id e) = Some x \<Longrightarrow> inside e x \<Longrightarrow>
      pos + len_of e \<le> length ub \<Longrightarrow>
      \<exists>c' w'. write_block E stack P auth e n pos ub c w = Some (int (len_of e), c', w')
        \<and> same_session c c' \<and> holds w' = stored (holds w) n e (take (len_of e) (drop pos ub))"
begin

lemma read_nodes_offered:
  "ready c \<Longrightarrow> valid e \<Longrightarrow> some_copy (holds w) e ns \<Longrightarrow> agree (holds w) e ns d \<Longrightarrow>
    pos + len_of e \<le> length ub \<Longrightarrow>
    \<exists>c'. read_nodes E stack P auth e ns pos ub c w = Some (True, patch pos d ub, c', w) \<and> same_session c c'"
proof (induction ns arbitrary: c)
  case (Cons n ns)
  show ?case
  proof (cases "n = 0 \<or> holds w n (be_block_id e) = None")
    case True
    then have rest: "some_copy (holds w) e ns" "agree (holds w) e ns d" using Cons.prems(3,4) by auto
    have "\<exists>c1. read_nodes E stack P auth e (n # ns) pos ub c w = read_nodes E stack P auth e ns pos ub c1 w
        \<and> same_session c c1"
    proof (cases "n = 0")
      case False
      then have "holds w n (be_block_id e) = None" using True by simp
      then obtain c1 where "read_block E stack P auth e n pos ub c w = Some (- 1, ub, c1, w)" "same_session c c1"
        using absent [OF Cons.prems(1,2)] by blast
      moreover have "\<not> int (len_of e) \<le> - 1" by linarith
      ultimately show ?thesis using False by (auto simp del: of_nat_unat)
    qed auto
    then obtain c1 where c1: "read_nodes E stack P auth e (n # ns) pos ub c w = read_nodes E stack P auth e ns pos ub c1 w"
      "same_session c c1" by blast
    show ?thesis
      using Cons.IH [OF ready_same [OF Cons.prems(1) c1(2)] Cons.prems(2) rest Cons.prems(5)] c1
        same_session_trans by metis
  next
    case False
    then obtain x where x: "holds w n (be_block_id e) = Some x" by auto
    then have "inside e x" "piece e x = d" using Cons.prems(4) False by auto
    then show ?thesis using deliver [OF Cons.prems(1,2) x _ Cons.prems(5)] False by auto
  qed
qed simp

text \<open>The entries stand one behind the other in the reply of the control node.\<close>

lemma read_blocks_offered:
  "ready c \<Longrightarrow> \<forall>e \<in> set es. valid e \<Longrightarrow> list_all2 (offers (holds w)) es ds \<Longrightarrow>
    pos + total_len es \<le> length ub \<Longrightarrow>
    \<exists>c'. read_blocks E stack P auth (a @ concat (map enc_bent es) @ z) (length a) (length es) pos ub c w
        = Some (int (pos + total_len es), patch pos (concat ds) ub, c', w) \<and> same_session c c'"
proof (induction es arbitrary: a ds pos ub c)
  case Nil
  then show ?case by auto
next
  case (Cons e es)
  obtain d ds' where ds: "ds = d # ds'" "offers (holds w) e d" "list_all2 (offers (holds w)) es ds'"
    using Cons.prems(3) by (auto simp: list_all2_Cons1)
  have ld: "length d = len_of e" by (rule offers_length [OF ds(2)])
  have ent: "get_at 32 dec_bent (a @ concat (map enc_bent (e # es)) @ z) (length a) = Some e"
    using bent.get_enc_append [of a e "concat (map enc_bent es) @ z"] by simp
  obtain c1 where c1: "read_nodes E stack P auth e (nodes_of e) pos ub c w = Some (True, patch pos d ub, c1, w)"
    "same_session c c1"
    using read_nodes_offered [of c e w "nodes_of e" d pos ub] Cons.prems ds(2) by (auto simp: offers_def)
  have "\<exists>c'. read_blocks E stack P auth ((a @ enc_bent e) @ concat (map enc_bent es) @ z) (length (a @ enc_bent e))
        (length es) (pos + len_of e) (patch pos d ub) c1 w
      = Some (int (pos + len_of e + total_len es), patch (pos + len_of e) (concat ds') (patch pos d ub), c', w)
    \<and> same_session c1 c'"
    using Cons.prems ld ds(3) ready_same [OF Cons.prems(1) c1(2)] by (intro Cons.IH) simp_all
  moreover have "length (concat ds') = total_len es"
  proof -
    have "map length ds' = map len_of es"
      using ds(3) by (induction rule: list_all2_induct) (simp_all add: offers_length)
    then show ?thesis by (simp add: length_concat)
  qed
  moreover have "patch (pos + len_of e) b (patch pos d ub) = patch pos (d @ b) ub"
    if "length b = total_len es" for b
    using patch_patch [of pos d b ub] Cons.prems(4) ld that by simp
  ultimately show ?case
    using c1 ent ds(1) same_session_trans [OF c1(2)] by (auto simp: bent.len_enc add.assoc)
qed

text \<open>A write goes to every node; \<open>k\<close> counts the successes, as many as nodes.\<close>

lemma write_nodes_all:
  "ready c \<Longrightarrow> valid e \<Longrightarrow> writable (holds w) e ns \<Longrightarrow> pos + len_of e \<le> length ub \<Longrightarrow>
    \<exists>c' w'. write_nodes E stack P auth e ns pos ub k k c w = Some (True, c', w') \<and> same_session c c'
      \<and> holds w' = stored_nodes (holds w) ns e (take (len_of e) (drop pos ub))"
proof (induction ns arbitrary: c w k)
  case (Cons n ns)
  let ?d = "take (len_of e) (drop pos ub)"
  show ?case
  proof (cases "n = 0")
    case True
    then show ?thesis using Cons by simp
  next
    case False
    then obtain x where x: "holds w n (be_block_id e) = Some x" "inside e x" using Cons.prems(3) by auto
    obtain c1 w1 where 1: "write_block E stack P auth e n pos ub c w = Some (int (len_of e), c1, w1)"
      "same_session c c1" "holds w1 = stored (holds w) n e ?d"
      using store [OF Cons.prems(1,2) x Cons.prems(4)] by blast
    have "same_shape (holds w) (holds w1)"
      using Cons.prems(4) unfolding 1(3) by (intro same_shape_stored [of "holds w", OF x]) simp
    then have "writable (holds w1) e ns"
      using writable_same_shape Cons.prems(3) by (metis writable_Cons)
    then obtain c2 w2 where 2: "write_nodes E stack P auth e ns pos ub (k + 1) (k + 1) c1 w1 = Some (True, c2, w2)"
      "same_session c1 c2" "holds w2 = stored_nodes (holds w1) ns e ?d"
      using Cons.IH [OF ready_same [OF Cons.prems(1) 1(2)] Cons.prems(2) _ Cons.prems(4), of w1 "k + 1"] by blast
    have "write_nodes E stack P auth e (n # ns) pos ub k k c w = Some (True, c2, w2)"
      using False 1(1) 2(1) by simp
    then show ?thesis using same_session_trans [OF 1(2) 2(2)] 2(3) 1(3) False by auto
  qed
qed simp

lemma write_blocks_all:
  "ready c \<Longrightarrow> \<forall>e \<in> set es. valid e \<and> writable (holds w) e (nodes_of e) \<Longrightarrow>
    pos + total_len es \<le> length ub \<Longrightarrow>
    \<exists>c' w'. write_blocks E stack P auth (a @ concat (map enc_bent es) @ z) (length a) (length es) pos ub c w
        = Some (int (pos + total_len es), c', w') \<and> same_session c c'
      \<and> holds w' = stored_blocks (holds w) es ub pos"
proof (induction es arbitrary: a pos c w)
  case Nil
  then show ?case by auto
next
  case (Cons e es)
  let ?d = "take (len_of e) (drop pos ub)"
  have ent: "get_at 32 dec_bent (a @ concat (map enc_bent (e # es)) @ z) (length a) = Some e"
    using bent.get_enc_append [of a e "concat (map enc_bent es) @ z"] by simp
  have e: "valid e" "writable (holds w) e (nodes_of e)" "pos + len_of e \<le> length ub"
    using Cons.prems by simp_all
  obtain c1 w1 where 1: "write_nodes E stack P auth e (nodes_of e) pos ub 0 0 c w = Some (True, c1, w1)"
    "same_session c c1" "holds w1 = stored_nodes (holds w) (nodes_of e) e ?d"
    using write_nodes_all [OF Cons.prems(1) e] by blast
  have sh: "same_shape (holds w) (holds w1)"
    unfolding 1(3) using e(3) by (intro same_shape_nodes [OF e(2)]) simp
  have "writable (holds w1) e' (nodes_of e')" if "writable (holds w) e' (nodes_of e')" for e'
    by (rule writable_same_shape [OF sh that])
  then have "\<forall>e \<in> set es. valid e \<and> writable (holds w1) e (nodes_of e)" using Cons.prems(2) by simp
  moreover have "pos + len_of e + total_len es \<le> length ub" using Cons.prems(3) by simp
  ultimately obtain c2 w2 where 2:
    "write_blocks E stack P auth ((a @ enc_bent e) @ concat (map enc_bent es) @ z) (length (a @ enc_bent e))
        (length es) (pos + len_of e) ub c1 w1 = Some (int (pos + len_of e + total_len es), c2, w2)"
    "same_session c1 c2" "holds w2 = stored_blocks (holds w1) es ub (pos + len_of e)"
    using Cons.IH [OF ready_same [OF Cons.prems(1) 1(2)], of w1 "pos + len_of e" "a @ enc_bent e"] by blast
  have "write_blocks E stack P auth (a @ concat (map enc_bent (e # es)) @ z) (length a) (length (e # es)) pos ub c w
      = Some (int (pos + total_len (e # es)), c2, w2)"
    using ent 1(1) 2(1) by (simp add: bent.len_enc add.assoc)
  then show ?case using same_session_trans [OF 1(2) 2(2)] 2(3) 1(3) by auto
qed

text \<open>Written to all nodes of the entries, then read back through any of them.\<close>

lemma write_then_read_blocks:
  assumes "ready c" and "\<forall>e \<in> set es. valid e \<and> writable (holds w) e (nodes_of e) \<and> (\<exists>n \<in> set (nodes_of e). n \<noteq> 0)"
    and "distinct (map be_block_id es)" and "length ub = total_len es" and "length ub' = total_len es"
  shows "\<exists>c' w' c''. write_blocks E stack P auth (a @ concat (map enc_bent es) @ z) (length a) (length es) 0 ub c w
        = Some (int (length ub), c', w')
      \<and> read_blocks E stack P auth (a @ concat (map enc_bent es) @ z) (length a) (length es) 0 ub' c' w'
        = Some (int (length ub), ub, c'', w')"
proof -
  obtain c' w' where w: "write_blocks E stack P auth (a @ concat (map enc_bent es) @ z) (length a) (length es) 0 ub c w
        = Some (int (total_len es), c', w')" "same_session c c'" "holds w' = stored_blocks (holds w) es ub 0"
    using write_blocks_all [OF assms(1), of es w 0 ub a z] assms(2,4) by auto
  have "list_all2 (offers (holds w')) es (cut es ub)"
    using stored_blocks_offers [of es "holds w" 0 ub] assms(2-4) by (simp add: w(3))
  moreover have "patch 0 ub ub' = ub" using assms(4,5) by (simp add: patch_def)
  ultimately show ?thesis
    using read_blocks_offered [OF ready_same [OF assms(1) w(2)], of es w' "cut es ub" 0 ub' a z] assms(2,4,5) w(1)
    by (auto simp: concat_cut)
qed

end

end
