(* ===== verification/DNode.thy ===== *)
theory DNode
  imports BlockMan NetIO
begin

text \<open>
  The server of a data node (\<open>d_node/haha/d_node.c\<close>): one connection is received, its head
  decoded into a \<open>list_entry\<close>, and the request carried out on the block files. What the peer
  gets is the bytes the successive calls of \<open>send\<close> took. \<open>sbp_recv\<close>, \<open>make_head\<close> and
  \<open>decode_head\<close> are the copies in \<open>d_node/haha/lib.c\<close>, which agree with those of \<open>libc/\<close>
  up to messages; \<open>sbp_send\<close> is \<open>sbp_send_once\<close>. \<open>main\<close> with its accept loop
  is in \<open>NodeMain\<close>.
\<close>

section \<open>Requests\<close>

record list_entry =
  le_req :: nat
  le_offset :: u32_t
  le_length :: u32_t
  le_block_num :: u64_t
  le_data_length :: u64_t
  le_data :: buf

section \<open>Answering\<close>

text \<open>A message without a body: what went out, whether it all did, and the socket.\<close>

definition send_head :: "env \<Rightarrow> sends \<Rightarrow> sbpfs_head \<Rightarrow> (buf \<times> bool \<times> sends) option option" where
  "send_head E ks head = do {
     r \<leftarrow> make_head E head;
     case r of
       Inl _ \<Rightarrow> Some None
     | Inr (data, data_len) \<Rightarrow>
         if data_len < 0 then None else do {
           (r, out, ks) \<leftarrow> sbp_send_once ks data (nat data_len);
           Some (Some (out, (case r of Inl _ \<Rightarrow> False | Inr _ \<Rightarrow> True), ks))
         }
   }"

definition reply_head :: "buf \<Rightarrow> (buf \<times> buf) list \<Rightarrow> sbpfs_head" where
  "reply_head ty es = \<lparr>hd_len = 0, hd_title = ty, hd_entrys = es\<rparr>"

definition send_err :: "env \<Rightarrow> sends \<Rightarrow> buf \<Rightarrow> buf \<Rightarrow> buf option" where
  "send_err E ks ety edetail = do {
     r \<leftarrow> send_head E ks (reply_head REQUEST_ERR
       [(ERR_TYPE, ety), (ERR_DETAIL, edetail), (CONTENT_LEN, lit ''0'')]);
     Some (case r of None \<Rightarrow> [] | Some (out, _, _) \<Rightarrow> out)
   }"

text \<open>
  When the head cannot be made, the code frees the pointer that \<open>make_head\<close> did not set:
  \<open>None\<close>. A failed write sends the error and then a head that was never set up: \<open>None\<close>.
\<close>

definition process_read :: "env \<Rightarrow> sends \<Rightarrow> blockman \<Rightarrow> list_entry \<Rightarrow> buf option" where
  "process_read E ks st ent = (case malloc E (unat (le_length ent)) of
       None \<Rightarrow> Some []
     | Some data \<Rightarrow> do {
         (succeed, data) \<leftarrow> readblock st (le_block_num ent) (le_offset ent) (le_length ent) data;
         if succeed < 0 then send_err E ks (lit ''read_block'') (lit ''cannot read block'')
         else do {
           r \<leftarrow> send_head E ks (reply_head REQUEST_OK [(CONTENT_LEN, sdec (sint (le_length ent)))]);
           case r of
             None \<Rightarrow> None
           | Some (out, sent, ks) \<Rightarrow>
               if \<not> sent then Some out else do {
                 (_, body, _) \<leftarrow> sbp_send_once ks data (unat (le_length ent));
                 Some (out @ body)
               }
         }
       })"

definition process_write :: "env \<Rightarrow> buf \<Rightarrow> sends \<Rightarrow> blockman \<Rightarrow> list_entry \<Rightarrow> (buf \<times> blockman) option" where
  "process_write E junk ks st ent = do {
     (succeed, st) \<leftarrow> writeblock junk st (le_block_num ent) (le_offset ent) (le_length ent) (le_data ent);
     if succeed < 0 then None else do {
       r \<leftarrow> send_head E ks (reply_head REQUEST_OK [(CONTENT_LEN, lit ''0'')]);
       case r of
         None \<Rightarrow> None
       | Some (out, _, _) \<Rightarrow> Some (out, st)
     }
   }"

definition process_req :: "env \<Rightarrow> buf \<Rightarrow> sends \<Rightarrow> blockman \<Rightarrow> list_entry \<Rightarrow> (buf \<times> blockman) option" where
  "process_req E junk ks st ent =
     (if le_req ent = 1 then do { out \<leftarrow> process_read E ks st ent; Some (out, st) }
      else if le_req ent = 2 then process_write E junk ks st ent
      else if le_req ent = 3 then do {
        (_, st) \<leftarrow> writeblock junk st (le_block_num ent) (le_offset ent) (le_length ent) (le_data ent);
        Some ([], st)
      }
      else Some ([], st))"

section \<open>One connection\<close>

text \<open>Which request a method is, 0 for none.\<close>

definition req_of :: "buf \<Rightarrow> nat" where
  "req_of meth = (if meth = lit ''READ'' then 1 else if meth = lit ''WRITE'' then 2
     else if meth = lit ''Copy'' then 3 else 0)"

text \<open>The entry the head describes; \<open>None\<close> inside for a head the code rejects.\<close>

definition parse_req :: "sbpfs_head \<Rightarrow> buf \<Rightarrow> list_entry option option" where
  "parse_req head rec_buf =
     (case get_head_entry_value head METHOD of
        None \<Rightarrow> Some None
      | Some meth \<Rightarrow>
          if req_of meth = 0 then Some None else
          (case (get_head_entry_value head (lit ''Arg0''), get_head_entry_value head (lit ''Arg1''),
                 get_head_entry_value head (lit ''Arg2''), get_head_entry_value head CONTENT_LEN) of
             (Some block_num_s, Some offset_s, Some length_s, Some content_len_s) \<Rightarrow> do {
               b \<leftarrow> atoll block_num_s;
               off \<leftarrow> atoi offset_s;
               len \<leftarrow> atoi length_s;
               cl \<leftarrow> (if req_of meth = 1 then Some 0 else atoll content_len_s);
               Some (Some \<lparr>le_req = req_of meth, le_offset = word_of_int off, le_length = word_of_int len,
                 le_block_num = word_of_int b, le_data_length = word_of_int cl,
                 le_data = (if req_of meth = 1 then [] else drop (unat (hd_len head)) rec_buf)\<rparr>)
             }
           | _ \<Rightarrow> Some None))"

definition serve ::
  "env \<Rightarrow> buf \<Rightarrow> buf \<Rightarrow> sends \<Rightarrow> event list \<Rightarrow> blockman \<Rightarrow> (buf \<times> blockman) option" where
  "serve E stack junk ks es st = do {
     (rec_buf, _, _) \<leftarrow> sbp_recv E stack es;
     case rec_buf of
       None \<Rightarrow> Some ([], st)
     | Some rec_buf \<Rightarrow> do {
         first \<leftarrow> byte_at rec_buf 0;
         if first = 0 then Some ([], st) else do {
           d \<leftarrow> decode_head E rec_buf;
           case d of
             Inl _ \<Rightarrow> Some ([], st)
           | Inr head \<Rightarrow> do {
               p \<leftarrow> parse_req head rec_buf;
               case p of
                 None \<Rightarrow> Some ([], st)
               | Some ent \<Rightarrow> process_req E junk ks st ent
             }
         }
       }
   }"

section \<open>Messages of the data node to others\<close>

text \<open>The control node's answer: success is exactly the title \<open>SBPFS/1.0 OK\<close>.\<close>

definition get_reply :: "env \<Rightarrow> buf \<Rightarrow> event list \<Rightarrow> int option" where
  "get_reply E stack es = do {
     (rec_buf, _, _) \<leftarrow> sbp_recv E stack es;
     case rec_buf of
       None \<Rightarrow> Some (- 1)
     | Some rec_buf \<Rightarrow> do {
         first \<leftarrow> byte_at rec_buf 0;
         if first = 0 then Some (- 1) else do {
           d \<leftarrow> decode_head E rec_buf;
           Some (case d of Inl _ \<Rightarrow> - 1 | Inr head \<Rightarrow> if hd_title head = REQUEST_OK then 0 else - 1)
         }
       }
   }"

definition dname :: buf where "dname = lit ''haha''"

text \<open>A head, then \<open>n\<close> bytes of a body: what goes out and whether all of it did.\<close>

definition send_message :: "env \<Rightarrow> sends \<Rightarrow> sbpfs_head \<Rightarrow> buf \<Rightarrow> nat \<Rightarrow> (buf \<times> bool) option" where
  "send_message E ks head body n = do {
     r \<leftarrow> send_head E ks head;
     case r of
       None \<Rightarrow> None
     | Some (out, sent, ks) \<Rightarrow>
         if \<not> sent then Some (out, False) else do {
           (r, out2, _) \<leftarrow> sbp_send_once ks body n;
           Some (out @ out2, (case r of Inl _ \<Rightarrow> False | Inr _ \<Rightarrow> True))
         }
   }"

text \<open>The list of the node's blocks, as 8-byte numbers, to the control node.\<close>

definition send_list ::
  "env \<Rightarrow> buf \<Rightarrow> sends \<Rightarrow> (buf \<Rightarrow> event list) \<Rightarrow> blockman \<Rightarrow> (buf \<times> blockman) option" where
  "send_list E stack ks answer st = do {
     (blnum, st) \<leftarrow> getlist st;
     (out, sent) \<leftarrow> send_message E ks (reply_head PROTOCOL
       [(CONTENT_LEN, sdec (sint (blnum * 8))), (USER, lit ''DNode_'' @ dname),
        (lit ''BlockNum'', sdec (sint blnum))])
       (concat (map (enc_w 8) (bm_blolist st))) (unat (bm_bnum st * 8));
     if \<not> sent then Some (out, st) else do {
       _ \<leftarrow> get_reply E stack (answer out);
       Some (out, st)
     }
   }"

definition send_success ::
  "env \<Rightarrow> buf \<Rightarrow> sends \<Rightarrow> (buf \<Rightarrow> event list) \<Rightarrow> u64_t \<Rightarrow> buf option" where
  "send_success E stack ks answer blocknum = do {
     (out, sent) \<leftarrow> send_message E ks (reply_head PROTOCOL
       [(CONTENT_LEN, lit ''8''), (USER, lit ''DNode_'' @ dname), (lit ''BlockNum'', lit ''1'')])
       (enc_w 8 blocknum) 8;
     if \<not> sent then Some out else do {
       _ \<leftarrow> get_reply E stack (answer out);
       Some out
     }
   }"

text \<open>A whole block to another data node, as a message with the method \<open>Copy\<close>.\<close>

definition FILEMAX :: nat where "FILEMAX = 1024 * 1024 * 16"

definition send_copy :: "env \<Rightarrow> sends \<Rightarrow> blockman \<Rightarrow> u64_t \<Rightarrow> (int \<times> buf) option" where
  "send_copy E ks st blocknum = (case malloc E FILEMAX of
       None \<Rightarrow> Some (- 1, [])
     | Some data \<Rightarrow> do {
         (succeed, data) \<leftarrow> readblock st blocknum 0 (word_of_nat FILEMAX) data;
         if succeed < 0 then do {
           out \<leftarrow> send_err E ks (lit ''copy_block'') (lit ''cannot read block'');
           Some (0, out)
         } else do {
           (out, sent) \<leftarrow> send_message E ks (reply_head REQUEST_OK
             [(METHOD, lit ''Copy''), (ARGC, lit ''3''), (lit ''Arg0'', sdec (sint blocknum)),
              (lit ''Arg1'', lit ''0''), (lit ''Arg2'', sdec (int FILEMAX)), (CONTENT_LEN, sdec (int FILEMAX))])
             data FILEMAX;
           Some (if sent then 0 else - 1, out)
         }
       })"

end
