(* ===== verification/NetSpec.thy ===== *)
theory NetSpec
  imports NetIO
begin

text \<open>
  Messages arrive whole: \<open>sbp_send\<close> delivers all bytes whatever the kernel takes at a time,
  and \<open>sbp_recv\<close> puts a message together whatever the pieces it arrives in.
\<close>

section \<open>Sending\<close>

lemma send_loop_all:
  "\<forall>k \<in> set ks. 0 < k \<Longrightarrow> s < len \<Longrightarrow> len \<le> length data \<Longrightarrow> len - s \<le> length ks \<Longrightarrow>
    \<exists>ks'. send_loop ks data len s out = Some (Inr (), out @ take (len - s) (drop s data), ks')"
proof (induction ks arbitrary: s out)
  case (Cons k ks)
  define n where "n = nat (min k (int (len - s)))"
  have n: "0 < n" "n \<le> len - s" "min k (int (len - s)) = int n"
    using Cons.prems(1,2) by (auto simp: n_def)
  have r: "rd data s n = Some (take n (drop s data))"
    using Cons.prems(2,3) n by (simp add: rd_def)
  have step: "send_loop (k # ks) data len s out
      = (if len \<le> s + n then Some (Inr (), out @ take n (drop s data), ks)
         else send_loop ks data len (s + n) (out @ take n (drop s data)))"
    unfolding send_loop.simps Let_def n(3) using n(1) by (simp add: r)
  show ?case
  proof (cases "len \<le> s + n")
    case True
    then have "n = len - s" using n(2) by simp
    then show ?thesis using True unfolding step by simp
  next
    case False
    then have "\<exists>ks'. send_loop ks data len (s + n) (out @ take n (drop s data))
        = Some (Inr (), (out @ take n (drop s data)) @ take (len - (s + n)) (drop (s + n) data), ks')"
      using Cons.prems n by (intro Cons.IH) auto
    moreover have "take n (drop s data) @ take (len - (s + n)) (drop (s + n) data) = take (len - s) (drop s data)"
      using n(2) take_add [of n "len - (s + n)" "drop s data"] False by (simp add: add.commute)
    ultimately show ?thesis using False unfolding step by simp
  qed
qed simp

text \<open>Sending nothing fails: \<open>send\<close> returns 0, which is taken for a closed connection.\<close>

lemma sbp_send_nothing:
  "sbp_send ks data 0 = Some (Inl (err SOCKET_ERR (lit ''Connection Closed'')), [], tl ks)"
  by (cases ks) (simp_all add: sbp_send_def Let_def)

text \<open>
  Sending: when \<open>send\<close> takes at least one byte at a time, \<open>sbp_send\<close> of a non-empty
  message succeeds and exactly its bytes have gone over the wire; of an empty message it
  fails.
\<close>

lemma sbp_send_complete:
  assumes "\<forall>k \<in> set ks. 0 < k" and "length data \<le> length ks"
  shows "\<exists>ks'. sbp_send ks data (length data) =
    Some (if data = [] then Inl (err SOCKET_ERR (lit ''Connection Closed'')) else Inr (), data, ks')"
proof (cases "data = []")
  case True
  then show ?thesis by (simp add: sbp_send_nothing)
next
  case False
  then show ?thesis
    using send_loop_all [OF assms(1), of 0 "length data" data "[]"] assms(2) by (simp add: sbp_send_def)
qed

section \<open>Receiving\<close>

lemma strstr_least: "strstr s pat = Some (Some m) \<Longrightarrow> i < m \<Longrightarrow> \<not> starts pat (drop i s)"
proof (induction s pat arbitrary: m i rule: strstr.induct)
  case (2 x xs pat)
  then show ?case by (cases i) (auto split: if_splits)
qed simp

lemma flag_LF:
  assumes "drop n s = HEADER_FLAG @ q"
  shows "s ! (n + 3) = 10" and "n + 3 < length s"
proof -
  have "length (drop n s) = 4 + length q" by (simp add: assms HEADER_FLAG_def)
  then show len: "n + 3 < length s" by simp
  then have "drop n s ! 3 = s ! (n + 3)" by (intro nth_drop) simp
  then show "s ! (n + 3) = 10" by (simp add: assms HEADER_FLAG_def)
qed

text \<open>
  While the head is incomplete its end is not found, provided the stale bytes behind it hold
  no line feed.
\<close>

lemma partial_head:
  assumes h: "plain_head h" and r: "r < length (head_bytes h)" and t: "10 \<notin> set t"
  shows "strstr (take r (head_bytes h) @ t @ [0]) HEADER_FLAG = Some None"
proof -
  let ?s = "take r (head_bytes h) @ t @ [0]"
  obtain x where x: "strstr ?s HEADER_FLAG = Some x" using strstr_defined [of ?s] by auto
  have "x = None"
  proof (rule ccontr)
    assume "x \<noteq> None"
    then obtain n where n: "strstr ?s HEADER_FLAG = Some (Some n)" using x by auto
    then have st: "starts HEADER_FLAG (drop n ?s)" using strstr_bound by blast
    then obtain q where q: "drop n ?s = HEADER_FLAG @ q" unfolding starts_prefix by blast
    note lf = flag_LF(1) [OF q] and len = flag_LF(2) [OF q]
    have "n + 3 < r"
    proof (rule ccontr)
      assume "\<not> n + 3 < r"
      then have "?s ! (n + 3) = (t @ [0]) ! (n + 3 - r)" using r by (simp add: nth_append)
      moreover have "n + 3 - r < length (t @ [0])" using len r \<open>\<not> n + 3 < r\<close> by simp
      ultimately have "10 \<in> set (t @ [0])" using lf nth_mem by metis
      then show False using t by simp
    qed
    then have "starts HEADER_FLAG (drop n (take r (head_bytes h)) @ t @ [0])"
      using st r by simp
    moreover have "length HEADER_FLAG \<le> length (drop n (take r (head_bytes h)))"
      using \<open>n + 3 < r\<close> r by (simp add: HEADER_FLAG_def)
    ultimately have "starts HEADER_FLAG (drop n (take r (head_bytes h)))"
      by (rule starts_append_short)
    then have "starts HEADER_FLAG (drop n (take r (head_bytes h)) @ drop r (head_bytes h))"
      by (rule starts_append_left)
    moreover have "drop n (take r (head_bytes h) @ drop r (head_bytes h))
        = drop n (take r (head_bytes h)) @ drop r (head_bytes h)"
      using \<open>n + 3 < r\<close> r by (subst drop_append) simp
    ultimately have "starts HEADER_FLAG (drop n (head_bytes h))"
      by (simp only: append_take_drop_id)
    moreover have "n < length (head_bytes h) - 4" using \<open>n + 3 < r\<close> r by simp
    moreover have "strstr (head_bytes h) HEADER_FLAG = Some (Some (length (head_bytes h) - 4))"
      using head_flag_at(1) [OF h, of "[]"] by simp
    ultimately show False using strstr_least by blast
  qed
  then show ?thesis using x by simp
qed

text \<open>The pieces of a message: data only, no piece empty.\<close>

definition pieces_of :: "buf \<Rightarrow> event list \<Rightarrow> bool" where
  "pieces_of msg es \<longleftrightarrow> (\<exists>ds. es = map Data ds \<and> concat ds = msg \<and> [] \<notin> set ds)"

lemma recv_pieces:
  assumes "pieces_of msg es" and "msg \<noteq> []" and "0 < n"
  shows "\<exists>d es' rest. recv n es = (Some d, es') \<and> msg = d @ rest \<and> d \<noteq> [] \<and> length d \<le> n \<and> pieces_of rest es'"
proof -
  obtain ds where ds: "es = map Data ds" "concat ds = msg" "[] \<notin> set ds"
    using assms(1) by (auto simp: pieces_of_def)
  then obtain d ds' where d: "ds = d # ds'" using assms(2) by (cases ds) auto
  show ?thesis
  proof (cases "length d \<le> n")
    case True
    then show ?thesis using ds d
      by (intro exI [of _ d] exI [of _ "map Data ds'"] exI [of _ "concat ds'"]) (auto simp: pieces_of_def)
  next
    case False
    then have "pieces_of (drop n d @ concat ds') (map Data (drop n d # ds'))"
      using ds d unfolding pieces_of_def by (intro exI [of _ "drop n d # ds'"]) auto
    then show ?thesis using ds d False assms(3)
      by (intro exI [of _ "take n d"] exI [of _ "map Data (drop n d # ds')"]
        exI [of _ "drop n d @ concat ds'"]) auto
  qed
qed

lemma pieces_of_Nil: "pieces_of [] es \<Longrightarrow> es = []"
  by (auto simp: pieces_of_def) (metis list.set_cases list.set_intros(1) neq_Nil_conv)

lemma recv_body_pieces:
  "pieces_of rest es \<Longrightarrow> rest \<noteq> [] \<Longrightarrow> missing = r2 + length rest \<Longrightarrow> length junk = length rest + 1 \<Longrightarrow>
    length got = r + r2 \<Longrightarrow>
    recv_body es (got @ junk) r missing r2 = Some (Some (got @ rest @ drop (length rest) junk), [], [])"
proof (induction "length rest" arbitrary: rest es r2 junk got rule: less_induct)
  case less
  obtain d es' rest' where d: "recv (missing - r2) es = (Some d, es')" "rest = d @ rest'" "d \<noteq> []"
    "pieces_of rest' es'"
  proof -
    have "0 < missing - r2" using less.prems(2,3) by simp
    then show ?thesis using recv_pieces [OF less.prems(1,2)] that by blast
  qed
  have w: "wr (got @ junk) (r + r2) d = Some ((got @ d) @ drop (length d) junk)"
    using less.prems(4,5) d(2) by (simp add: wr_def)
  show ?case
  proof (cases "rest' = []")
    case True
    then show ?thesis
      using d pieces_of_Nil [of es'] less.prems(3) w by (subst recv_body.simps) simp
  next
    case False
    have "recv_body es' ((got @ d) @ drop (length d) junk) r missing (r2 + length d)
        = Some (Some ((got @ d) @ rest' @ drop (length rest') (drop (length d) junk)), [], [])"
      by (rule less.hyps) (use d False less.prems in \<open>auto simp: wr_def\<close>)
    moreover have "\<not> missing \<le> r2 + length d" using False less.prems(3) d(2) by simp
    ultimately show ?thesis
      using d w by (subst recv_body.simps) (simp add: add.commute)
  qed
qed

lemma recv_head_pieces:
  assumes h: "plain_head h" "announces h (length body)" "length body < 2 ^ 62" "length (head_bytes h) \<le> BUF_SIZE"
  defines "msg \<equiv> head_bytes h @ body"
  shows "pieces_of (drop r msg) es \<Longrightarrow> r < length (head_bytes h) \<Longrightarrow> 10 \<notin> set t \<Longrightarrow> length t = BUF_SIZE - r \<Longrightarrow>
    \<exists>k s num errs' es'. recv_head es (take r msg @ t @ [0]) (int r) errs
        = Some (Some (take k msg @ s, int k, num, int (length msg - k)), errs', es')
      \<and> pieces_of (drop k msg) es' \<and> k \<le> length msg"
proof (induction "length msg - r" arbitrary: r es t errs rule: less_induct)
  case less
  have m: "r < length msg" using less.prems(2) by (simp add: msg_def)
  obtain d es' rest where d: "recv (BUF_SIZE - r) es = (Some d, es')" "drop r msg = d @ rest" "d \<noteq> []"
    "length d \<le> BUF_SIZE - r" "pieces_of rest es'"
  proof -
    have "drop r msg \<noteq> []" "0 < BUF_SIZE - r" using m less.prems(2) h(4) by simp_all
    then show ?thesis using recv_pieces [OF less.prems(1)] that by blast
  qed
  define k where "k = r + length d"
  have "length msg - r = length d + length rest"
    using arg_cong [OF d(2), of length] by simp
  then have k: "r < k" "k \<le> length msg" "int r + int (length d) = int k"
    using d(3) m by (simp_all add: k_def)
  have tk: "take r msg @ d = take k msg" "drop k msg = rest"
    using d(2) take_add [of r "length d" msg] drop_drop [of "length d" r msg]
    by (simp_all add: k_def add.commute)
  have w: "wr (take r msg @ t @ [0]) r d = Some (take k msg @ drop (length d) t @ [0])"
    using m less.prems(4) d(4) tk(1) by (simp add: wr_def)
  show ?case
  proof (cases "length (head_bytes h) \<le> k")
    case True
    then have b: "take k msg @ drop (length d) t @ [0]
        = head_bytes h @ take (k - length (head_bytes h)) body @ drop (length d) t @ [0]"
      by (simp add: msg_def)
    have g: "get_missing_len (take k msg @ drop (length d) t @ [0]) (word_of_nat k)
        = Some (Inr (int (length msg - k)))"
      unfolding b using get_missing_len_head [OF h(1,2,3), of k] h(4) k(2)
      by (simp add: msg_def BUF_SIZE_def)
    have "recv_head es (take r msg @ t @ [0]) (int r) errs
        = Some (Some (take k msg @ drop (length d) t @ [0], int k, int (length d), int (length msg - k)), errs, es')"
      by (subst recv_head.simps) (use d(1,3) in \<open>simp add: w k(3) g Let_def del: take_append\<close>)
    then show ?thesis using d(5) tk(2) k(2) by blast
  next
    case False
    then have b: "take k msg = take k (head_bytes h)" by (simp add: msg_def)
    have t: "10 \<notin> set (drop (length d) t)" using less.prems(3) by (meson in_set_dropD)
    have "strstr (take k msg @ drop (length d) t @ [0]) HEADER_FLAG = Some None"
      unfolding b using False t by (intro partial_head [OF h(1)]) simp_all
    then have g: "get_missing_len (take k msg @ drop (length d) t @ [0]) (word_of_nat k)
        = Some (Inl (err HEAD_ERR HEAD_FLAG))"
      by (rule get_missing_len_partial)
    have "\<not> int BUF_SIZE \<le> int k" using False h(4) by simp
    then have "recv_head es (take r msg @ t @ [0]) (int r) errs
        = recv_head es' (take k msg @ drop (length d) t @ [0]) (int k) (err HEAD_ERR HEAD_FLAG # errs)"
      by (subst recv_head.simps) (use d(1,3) in \<open>simp add: w k(3) g Let_def\<close>)
    moreover have "\<exists>k' s num errs' es''. recv_head es' (take k msg @ drop (length d) t @ [0]) (int k)
          (err HEAD_ERR HEAD_FLAG # errs)
        = Some (Some (take k' msg @ s, int k', num, int (length msg - k')), errs', es'')
      \<and> pieces_of (drop k' msg) es'' \<and> k' \<le> length msg"
    proof (rule less.hyps)
      show "length msg - k < length msg - r" using k(1,2) by simp
      show "length (drop (length d) t) = BUF_SIZE - k" by (simp add: k_def less.prems(4))
    qed (use d(5) tk(2) t False in simp_all)
    ultimately show ?thesis by simp
  qed
qed

lemma sbp_recv_whole:
  assumes h: "plain_head h" "announces h (length body)" "length body < 2 ^ 62"
      "length (head_bytes h) \<le> BUF_SIZE"
    and E: "malloc_ok E" and stack: "length stack = BUF_SIZE" "10 \<notin> set stack"
    and es: "pieces_of (head_bytes h @ body) es"
  shows "\<exists>errs. sbp_recv E stack es = Some (Some (head_bytes h @ body @ [0]), errs, [])"
proof -
  let ?msg = "head_bytes h @ body"
  have "0 < length (head_bytes h)" using head_flag_at(2) [OF h(1)] by linarith
  then obtain k s num errs es' where r: "recv_head es (stack @ [0]) 0 []
        = Some (Some (take k ?msg @ s, int k, num, int (length ?msg - k)), errs, es')"
      "pieces_of (drop k ?msg) es'" "k \<le> length ?msg"
    using recv_head_pieces [OF h, of 0 es stack "[]"] es stack by auto
  define m where "m = length ?msg - k"
  have n: "nat (int m + int k + 1) = length ?msg + 1" "nat (int m + int k) = length ?msg"
    using r(3) by (simp_all add: m_def)
  obtain rb where rb: "malloc E (length ?msg + 1) = Some rb" "length rb = length ?msg + 1"
    using E by (rule malloc_okE)
  have "rd (a @ s) 0 (length a) = Some a" for a :: buf by (simp add: rd_def)
  moreover have lk: "length (take k ?msg) = k" using r(3) by simp
  ultimately have f: "rd (take k ?msg @ s) 0 k = Some (take k ?msg)" by metis
  have "length a \<le> length rb \<Longrightarrow> wr rb 0 a = Some (a @ drop (length a) rb)" for a
    by (simp add: wr_def)
  from this [of "take k ?msg"] have w: "wr rb 0 (take k ?msg) = Some (take k ?msg @ drop k rb)"
    unfolding lk using r(3) rb(2) by simp
  have body: "(if int m = 0 then Some (Some (take k ?msg @ drop k rb), [], es')
      else recv_body es' (take k ?msg @ drop k rb) k m 0)
      = Some (Some (?msg @ drop (length ?msg) rb), [], [])"
  proof (cases "m = 0")
    case True
    then show ?thesis using r(2,3) pieces_of_Nil [of es'] by (simp add: m_def)
  next
    case False
    then have "recv_body es' (take k ?msg @ drop k rb) k m 0
        = Some (Some (take k ?msg @ drop k ?msg @ drop (length (drop k ?msg)) (drop k rb)), [], [])"
      using rb(2) r(3) by (intro recv_body_pieces [OF r(2)]) (auto simp: m_def)
    moreover have "k \<le> length x \<Longrightarrow>
        take k x @ drop k x @ drop (length (drop k x)) (drop k rb) = x @ drop (length x) rb" for x
      by (simp flip: append_assoc)
    note this [OF r(3)]
    ultimately show ?thesis using False by simp
  qed
  have z: "wr (?msg @ drop (length ?msg) rb) (length ?msg) [0] = Some (?msg @ [0])"
    using rb(2) by (simp add: wr_def)
  have "\<not> int k < 0" by simp
  then have "sbp_recv E stack es = Some (Some (?msg @ [0]), errs, [])"
    unfolding sbp_recv_def r(1) Option.bind.bind_lunit prod.case option.case m_def [symmetric] n rb(1)
      nat_int f w body z by (simp only: if_False nat_int body z Option.bind.bind_lunit prod.case option.case)
  then show ?thesis by simp
qed

text \<open>
  C16. Receiving: a message whose head is at most 4096 bytes long and announces its body
  arrives whole -- in whatever pieces it comes, \<open>sbp_recv\<close> returns its bytes followed by a
  NUL and leaves nothing on the socket -- provided the stale bytes of the stack buffer,
  which the search for the end of the head runs into, hold no line feed.
\<close>

theorem sbp_recv_reassembles:
  assumes h: "plain_head h" "announces h (length body)" "length body < 2 ^ 62"
      "length (head_bytes h) \<le> BUF_SIZE"
    and E: "malloc_ok E" and stack: "length stack = BUF_SIZE" "10 \<notin> set stack"
    and es: "pieces_of (head_bytes h @ body) es"
  shows "\<exists>errs. sbp_recv E stack es = Some (Some (head_bytes h @ body @ [0]), errs, [])"
  using sbp_recv_whole [OF assms] .

theorem sbp_recv_reassembles_witness:
  "\<exists>errs. sbp_recv calm_env (replicate 4096 7)
      [Data (take 3 (head_bytes (sample_reply 2))), Data (drop 3 (head_bytes (sample_reply 2)) @ [0]), Data [9]]
    = Some (Some (head_bytes (sample_reply 2) @ [0, 9] @ [0]), errs, [])"
proof -
  have l: "3 < length (head_bytes (sample_reply 2))"
    by (simp add: head_bytes_def sample_reply_def)
  have p: "pieces_of (head_bytes (sample_reply 2) @ [0, 9])
      [Data (take 3 (head_bytes (sample_reply 2))), Data (drop 3 (head_bytes (sample_reply 2)) @ [0]), Data [9]]"
    unfolding pieces_of_def using l
    by (intro exI [of _ "[take 3 (head_bytes (sample_reply 2)), drop 3 (head_bytes (sample_reply 2)) @ [0], [9]]"])
      auto
  have "announces (sample_reply 2) (length [0, 9])" using sample_reply_announces [of 2] by (simp add: numeral_2_eq_2)
  then show ?thesis
    using sample_reply_short [of 2] sbp_recv_reassembles [OF sample_reply_plain _ _ _ calm_env_ok _ _ p,
      of "replicate 4096 7"]
    by (simp add: BUF_SIZE_def)
qed

end
