(* ===== verification/DNodeSpec.thy ===== *)
theory DNodeSpec
  imports DNode BlockManSpec NetSpec ClientBlocks
begin

text \<open>
  The client's requests for blocks and the data node's answers fit together: the head that
  \<open>read_block\<close> and \<open>write_block\<close> print is read back by \<open>serve\<close> as the block, the position and
  the length it was made from, and the answer carries the bytes of the block.
\<close>

section \<open>The client's head\<close>

definition block_head :: "buf \<Rightarrow> buf \<Rightarrow> buf \<Rightarrow> buf \<Rightarrow> block_entry \<Rightarrow> nat \<Rightarrow> sbpfs_head" where
  "block_head usr pass auth meth ent n = \<lparr>hd_len = 0, hd_title = PROTOCOL,
     hd_entrys = (USER, lit ''Client_'' @ usr) # (PASS, pass)
       # block_args auth meth ent @ [(CONTENT_LEN, sdec (int n))]\<rparr>"

text \<open>Names, passwords and codes that fit into their arrays and do not disturb the head.\<close>

definition fits :: "buf \<Rightarrow> buf \<Rightarrow> buf \<Rightarrow> bool" where
  "fits usr pass auth \<longleftrightarrow> quiet usr \<and> quiet pass \<and> quiet auth
     \<and> length usr < MAX_USERNAME_LEN \<and> length pass \<le> MAX_PASSWORD_LEN \<and> length auth \<le> AUTH_CODE_LEN"

lemma length_sdec: "\<bar>i\<bar> < 10 ^ 20 \<Longrightarrow> length (sdec i) \<le> 21"
  using length_udec [of "nat i" 20] length_udec [of "nat (- i)" 20] by (auto simp: sdec_def nat_less_iff)

lemma length_sdec_word: "length (sdec (sint (x :: u64_t))) \<le> 21" "length (sdec (sint (y :: u32_t))) \<le> 21"
  using sint_ge [of x] sint_less [of x] sint_ge [of y] sint_less [of y]
  by (auto intro!: length_sdec)

lemma quiet_Client: "quiet usr \<Longrightarrow> quiet (lit ''Client_'' @ usr)"
  by (auto simp: quiet_def plain_def lit_def CONTENT_LEN_bytes starts_Cons)

lemma quiet_names:
  "quiet PROTOCOL" "quiet USER" "quiet PASS" "quiet AUTH_CODE" "quiet METHOD" "quiet ARGC"
  "quiet Arg0" "quiet Arg1" "quiet Arg2" "quiet (lit ''READ'')" "quiet (lit ''WRITE'')" "quiet (lit ''3'')"
  by (simp_all add: PROTOCOL_def USER_def PASS_def AUTH_CODE_def METHOD_def ARGC_def Arg0_def Arg1_def
    Arg2_def lit_def quiet_def plain_def CONTENT_LEN_bytes starts_Cons)

lemma no_colon_names:
  "58 \<notin> set USER" "58 \<notin> set PASS" "58 \<notin> set AUTH_CODE" "58 \<notin> set METHOD" "58 \<notin> set ARGC"
  "58 \<notin> set Arg0" "58 \<notin> set Arg1" "58 \<notin> set Arg2" "58 \<notin> set CONTENT_LEN"
  by (simp_all add: USER_def PASS_def AUTH_CODE_def METHOD_def ARGC_def Arg0_def Arg1_def Arg2_def
    lit_def CONTENT_LEN_bytes)

lemma length_names:
  "length PROTOCOL = 9" "length USER = 4" "length PASS = 8" "length AUTH_CODE = 9" "length METHOD = 6"
  "length ARGC = 4" "length Arg0 = 4" "length Arg1 = 4" "length Arg2 = 4"
  by (simp_all add: PROTOCOL_def USER_def PASS_def AUTH_CODE_def METHOD_def ARGC_def Arg0_def Arg1_def
    Arg2_def lit_def)

lemma quiet_plain: "quiet s \<Longrightarrow> plain s"
  by (simp add: quiet_def)

lemma plain_CONTENT_LEN: "plain CONTENT_LEN"
  by (simp add: plain_def CONTENT_LEN_bytes)

lemma block_head_plain:
  assumes "fits usr pass auth" and "quiet meth"
  shows "plain_head (block_head usr pass auth meth ent n)"
  using assms quiet_names no_colon_names quiet_Client [of usr] plain_CONTENT_LEN
  by (simp add: plain_head_def block_head_def block_args_def fits_def quiet_plain)

lemma block_head_announces:
  assumes "fits usr pass auth" and "quiet meth"
  shows "announces (block_head usr pass auth meth ent n) n"
proof -
  let ?pre = "(USER, lit ''Client_'' @ usr) # (PASS, pass) # block_args auth meth ent"
  have "\<forall>(m, v) \<in> set ?pre. quiet m \<and> quiet v"
    using assms quiet_names quiet_Client [of usr] by (simp add: block_args_def fits_def)
  from announces_entries [OF quiet_names(1) this, of 0 n "[]"]
  show ?thesis by (simp add: block_head_def)
qed

lemma block_head_short:
  assumes "fits usr pass auth" and "length meth \<le> 5" and "n < 10 ^ 20"
  shows "length (head_bytes (block_head usr pass auth meth ent n)) \<le> 500"
proof -
  have n: "length (sdec (sint (be_block_id ent))) \<le> 21" "length (sdec (sint (be_offset ent))) \<le> 21"
    "length (sdec (sint (be_length ent))) \<le> 21" "length (sdec (int n)) \<le> 21"
    using assms(3) by (auto intro: length_sdec_word length_sdec)
  have l: "length usr < 16" "length pass \<le> 32" "length auth \<le> 32" "length meth \<le> 5"
    using assms(1,2) by (simp_all add: fits_def MAX_USERNAME_LEN_def MAX_PASSWORD_LEN_def AUTH_CODE_LEN_def)
  have s: "length (lit ''Client_'') = 7" "length (lit ''3'') = 1" by (simp_all add: lit_def)
  show ?thesis
    using n l by (simp add: head_bytes_def block_head_def block_args_def length_names s)
qed

lemma length_methods: "length (lit ''READ'') = 4" "length (lit ''WRITE'') = 5"
  by (simp_all add: lit_def)

section \<open>Reading the head back\<close>

lemma block_head_lookup:
  fixes usr pass auth meth ent n x
  defines "h \<equiv> (block_head usr pass auth meth ent n)\<lparr>hd_len := x\<rparr>"
  shows "get_head_entry_value h METHOD = Some meth"
    and "get_head_entry_value h (lit ''Arg0'') = Some (sdec (sint (be_block_id ent)))"
    and "get_head_entry_value h (lit ''Arg1'') = Some (sdec (sint (be_offset ent)))"
    and "get_head_entry_value h (lit ''Arg2'') = Some (sdec (sint (be_length ent)))"
    and "get_head_entry_value h CONTENT_LEN = Some (sdec (int n))"
  unfolding h_def
  by (simp_all add: get_head_entry_value_def block_head_def block_args_def USER_def PASS_def AUTH_CODE_def
    METHOD_def ARGC_def Arg0_def Arg1_def Arg2_def CONTENT_LEN_bytes lit_def)

lemma req_of_methods: "req_of (lit ''READ'') = 1" "req_of (lit ''WRITE'') = 2"
  by (simp_all add: req_of_def lit_def)

lemma parse_block_head:
  fixes usr pass auth meth ent n x rec
  defines "h \<equiv> (block_head usr pass auth meth ent n)\<lparr>hd_len := x\<rparr>"
  assumes "req_of meth \<noteq> 0" and "n < 2 ^ 63"
  shows "parse_req h rec = Some (Some \<lparr>le_req = req_of meth, le_offset = be_offset ent,
     le_length = be_length ent, le_block_num = be_block_id ent,
     le_data_length = (if req_of meth = 1 then 0 else word_of_nat n),
     le_data = (if req_of meth = 1 then [] else drop (unat x) rec)\<rparr>)"
proof -
  obtain b where b: "atoll (sdec (sint (be_block_id ent))) = Some b" "word_of_int b = be_block_id ent"
    using sdec64_roundtrip [of "be_block_id ent"] by auto
  obtain off where off: "atoi (sdec (sint (be_offset ent))) = Some off" "word_of_int off = be_offset ent"
    using sdec32_roundtrip [of "be_offset ent"] by auto
  obtain len where len: "atoi (sdec (sint (be_length ent))) = Some len" "word_of_int len = be_length ent"
    using sdec32_roundtrip [of "be_length ent"] by auto
  have n: "atoll (sdec (int n)) = Some (int n)" using assms(3) by (intro atoll_sdec) simp_all
  have x: "hd_len h = x" by (simp add: h_def)
  show ?thesis
    using assms(2) b off len n x
    by (simp add: parse_req_def block_head_lookup [where usr = usr and pass = pass and auth = auth and meth = meth and ent = ent
      and n = n and x = x, folded h_def])
qed

lemma byte_at_head: "plain (hd_title h) \<Longrightarrow> hd_title h \<noteq> [] \<Longrightarrow> \<exists>x. byte_at (head_bytes h @ s) 0 = Some x \<and> x \<noteq> 0"
  by (cases "hd_title h") (auto simp: byte_at_def head_bytes_def plain_def)

text \<open>A request with a body: what \<open>serve\<close> makes of it.\<close>

lemma serve_block:
  assumes f: "fits usr pass auth" and m: "quiet meth" "length meth \<le> 5" "req_of meth \<noteq> 0"
    and E: "malloc_ok E" and stack: "length stack = BUF_SIZE" "10 \<notin> set stack"
    and n: "length body < 2 ^ 62"
    and es: "pieces_of (head_bytes (block_head usr pass auth meth ent (length body)) @ body) es"
  shows "serve E stack junk ks es st = process_req E junk ks st \<lparr>le_req = req_of meth,
     le_offset = be_offset ent, le_length = be_length ent, le_block_num = be_block_id ent,
     le_data_length = (if req_of meth = 1 then 0 else word_of_nat (length body)),
     le_data = (if req_of meth = 1 then [] else body @ [0])\<rparr>"
proof -
  let ?h = "block_head usr pass auth meth ent (length body)"
  let ?msg = "head_bytes ?h @ body @ [0]"
  let ?x = "word_of_nat (length (head_bytes ?h)) :: u64_t"
  have p: "plain_head ?h" by (rule block_head_plain [OF f m(1)])
  have l: "length (head_bytes ?h) \<le> 500" using n by (intro block_head_short [OF f m(2)]) simp
  obtain errs where r: "sbp_recv E stack es = Some (Some ?msg, errs, [])"
    using sbp_recv_whole [OF p block_head_announces [OF f m(1)] n _ E stack es] l by (auto simp: BUF_SIZE_def)
  have d: "decode_head E ?msg = Some (Inr (?h\<lparr>hd_len := ?x\<rparr>))"
    by (rule decode_head_bytes [OF p E])
  obtain y where y: "byte_at ?msg 0 = Some y" "y \<noteq> 0"
  proof -
    have "plain (hd_title ?h)" "hd_title ?h \<noteq> []"
      using quiet_names(1) length_names(1) by (auto simp: block_head_def quiet_def)
    then show ?thesis using byte_at_head [of ?h "body @ [0]"] that by blast
  qed
  have "unat ?x = length (head_bytes ?h)" using l by (intro unat_word_of_nat_fit) simp
  then have "drop (unat ?x) ?msg = body @ [0]" by simp
  then have "parse_req (?h\<lparr>hd_len := ?x\<rparr>) ?msg = Some (Some \<lparr>le_req = req_of meth,
     le_offset = be_offset ent, le_length = be_length ent, le_block_num = be_block_id ent,
     le_data_length = (if req_of meth = 1 then 0 else word_of_nat (length body)),
     le_data = (if req_of meth = 1 then [] else body @ [0])\<rparr>)"
    using parse_block_head [where usr = usr and pass = pass and auth = auth and meth = meth and ent = ent
      and n = "length body" and x = ?x and rec = ?msg] m(3) n by simp
  then show ?thesis by (simp add: serve_def r y d)
qed

section \<open>The answers\<close>

text \<open>The kernel takes any number of bytes at once.\<close>

definition ample :: "sends \<Rightarrow> bool" where
  "ample ks \<longleftrightarrow> 2 \<le> length ks \<and> (\<forall>k \<in> set ks. 2 ^ 62 \<le> k)"

lemma ampleE:
  assumes "ample ks"
  obtains k l ks' where "ks = k # l # ks'" "2 ^ 62 \<le> k" "2 ^ 62 \<le> l"
  using assms by (auto simp: ample_def numeral_2_eq_2 Suc_le_length_iff)

lemma sbp_send_once_all:
  "int len \<le> k \<Longrightarrow> len \<le> length data \<Longrightarrow> sbp_send_once (k # ks) data len = Some (Inr (), take len data, ks)"
  by (simp add: sbp_send_once_def rd_def)

lemma send_head_all:
  assumes "length (hd_entrys h) \<le> 32" and "malloc_ok E" and "length (head_bytes h) < 2 ^ 31"
    and "2 ^ 62 \<le> k"
  shows "send_head E (k # ks) h = Some (Some (head_bytes h, True, ks))"
  using make_head_exact [OF assms(1-3)] sbp_send_once_all [of "length (head_bytes h)" k "head_bytes h" ks] assms(3,4)
  by (simp add: send_head_def)

lemma sdec_0: "sdec 0 = lit ''0''"
  by (simp add: sdec_def udec.simps [of 0] digit_def lit_def)

lemma reply_sample:
  "reply_head REQUEST_OK [(CONTENT_LEN, sdec (int n))] = sample_reply n"
  "reply_head REQUEST_OK [(CONTENT_LEN, lit ''0'')] = sample_reply 0"
  by (simp_all add: reply_head_def sample_reply_def sdec_0)

definition err_reply :: "buf \<Rightarrow> buf \<Rightarrow> sbpfs_head" where
  "err_reply ety edetail = reply_head REQUEST_ERR [(ERR_TYPE, ety), (ERR_DETAIL, edetail), (CONTENT_LEN, lit ''0'')]"

lemma sint_small_u32: "unat n < 2 ^ 31 \<Longrightarrow> sint n = int (unat n)" for n :: u32_t
  using sint_of_nat_fit [of "unat n", where 'a = 32] by simp

lemma sample_reply_sends:
  assumes "malloc_ok E" and "n < 10 ^ 20" and "2 ^ 62 \<le> k"
  shows "send_head E (k # ks) (sample_reply n) = Some (Some (head_bytes (sample_reply n), True, ks))"
  using sample_reply_short [OF assms(2)] assms by (intro send_head_all) (simp_all add: sample_reply_def)

text \<open>A block that is there, with the whole range inside; a block that is not; a block to write.\<close>

lemma process_read_found:
  assumes "block_of st (le_block_num ent) = Some c" and "unat (le_offset ent) + unat (le_length ent) \<le> length c"
    and len: "unat (le_length ent) < 2 ^ 31" and E: "malloc_ok E" and ks: "ample ks"
  shows "process_read E ks st ent = Some (head_bytes (sample_reply (unat (le_length ent)))
    @ take (unat (le_length ent)) (drop (unat (le_offset ent)) c))"
proof -
  obtain d where d: "malloc E (unat (le_length ent)) = Some d" "length d = unat (le_length ent)"
    using E by (rule malloc_okE)
  obtain k l ks' where k: "ks = k # l # ks'" "2 ^ 62 \<le> k" "2 ^ 62 \<le> l" using ks by (rule ampleE)
  have int_le: "n < 2 ^ 31 \<Longrightarrow> int n \<le> l" for n :: nat using k(3) by simp
  have "(2::nat) ^ 31 < 10 ^ 20" by simp
  then have "unat (le_length ent) < 10 ^ 20" using len by linarith
  note head = sample_reply_sends [OF E this k(2), of "l # ks'"]
  have "sbp_send_once (l # ks') (take (unat (le_length ent)) (drop (unat (le_offset ent)) c)) (unat (le_length ent))
      = Some (Inr (), take (unat (le_length ent)) (take (unat (le_length ent)) (drop (unat (le_offset ent)) c)), ks')"
    using int_le [OF len] assms(2) by (intro sbp_send_once_all) simp_all
  then show ?thesis
    using readblock_inside [OF assms(1,2) d(2)] head
    by (simp add: process_read_def d(1) k(1) sint_small_u32 [OF len] reply_sample del: of_nat_unat)
qed

lemma process_read_missing:
  assumes "unat (le_block_num ent) < 10" and "block_of st (le_block_num ent) = None"
    and E: "malloc_ok E" and ks: "ample ks"
  shows "process_read E ks st ent = Some (head_bytes (err_reply (lit ''read_block'') (lit ''cannot read block'')))"
proof -
  obtain d where d: "malloc E (unat (le_length ent)) = Some d" using E by (rule malloc_okE)
  obtain k l ks' where k: "ks = k # l # ks'" "2 ^ 62 \<le> k" using ks by (rule ampleE)
  have "send_head E (k # l # ks') (err_reply (lit ''read_block'') (lit ''cannot read block''))
      = Some (Some (head_bytes (err_reply (lit ''read_block'') (lit ''cannot read block'')), True, l # ks'))"
    using E k(2) by (intro send_head_all)
      (simp_all add: err_reply_def reply_head_def head_bytes_def lit_def ERR_TYPE_def ERR_DETAIL_def REQUEST_ERR_def)
  then show ?thesis
    using readblock_missing [OF assms(1,2)] by (simp add: process_read_def d k(1) send_err_def err_reply_def)
qed

lemma process_write_found:
  assumes "block_of st (le_block_num ent) = Some c" and "unat (le_offset ent) + unat (le_length ent) \<le> length c"
    and "unat (le_length ent) \<le> length (le_data ent)" and E: "malloc_ok E" and ks: "ample ks"
  shows "\<exists>st'. process_write E junk ks st ent = Some (head_bytes (sample_reply 0), st')
    \<and> block_of st' = (block_of st)(le_block_num ent \<mapsto>
        patch (unat (le_offset ent)) (take (unat (le_length ent)) (le_data ent)) c)"
proof -
  obtain st' where w: "writeblock junk st (le_block_num ent) (le_offset ent) (le_length ent) (le_data ent) = Some (0, st')"
    "block_of st' = (block_of st)(le_block_num ent \<mapsto>
        patch (unat (le_offset ent)) (take (unat (le_length ent)) (le_data ent)) c)"
    using writeblock_inside [OF assms(1-3)] by blast
  obtain k l ks' where k: "ks = k # l # ks'" "2 ^ 62 \<le> k" using ks by (rule ampleE)
  show ?thesis
    using w sample_reply_sends [OF E _ k(2), of 0 "l # ks'"] by (simp add: process_write_def k(1) reply_sample)
qed

end
