(* ===== verification/CNodeReply.thy ===== *)
theory CNodeReply
  imports HeadSpec
begin

text \<open>
  The replies of the control node: \<open>gen_head\<close> of \<open>util/parse.py\<close> and \<open>Connection.__sendrep\<close> of
  \<open>c_node/CNode.py\<close>, as they go over the wire. The rest of that program is a parameter of the
  library; of a request it answers, the form of the answer is what is written here.
\<close>

section \<open>Heads made by Python\<close>

text \<open>\<open>'\r\n'.join(lines)\<close>.\<close>

fun join_lines :: "buf list \<Rightarrow> buf" where
  "join_lines [] = []"
| "join_lines [l] = l"
| "join_lines (l # ls) = l @ CRLF @ join_lines ls"

text \<open>The dictionary is the list of its items in the order in which \<open>d.keys()\<close> gives them.\<close>

definition gen_head :: "buf \<Rightarrow> (buf \<times> buf) list \<Rightarrow> buf" where
  "gen_head fl d = join_lines (fl # map (\<lambda>(key, val). key @ SEP @ val) d @ [CRLF])"

text \<open>
  \<open>__sendrep({}, data)\<close>, as \<open>__read\<close>, \<open>__write\<close> and \<open>__sendok\<close> call it (the last with no
  \<open>data\<close>): the dictionary gets two items, and Python does not say in which order it lists
  them, so what is sent is one of two messages.
\<close>

definition reply_orders :: "nat \<Rightarrow> (buf \<times> buf) list list" where
  "reply_orders n = (let u = (USER, lit ''CNode_0''); l = (CONTENT_LEN, sdec (int n)) in [[u, l], [l, u]])"

definition sendrep :: "buf \<Rightarrow> buf set" where
  "sendrep data = (\<lambda>d. gen_head REQUEST_OK d @ data) ` set (reply_orders (length data))"

section \<open>They are heads\<close>

lemma join_lines_append: "join_lines (ls @ [l]) = concat (map (\<lambda>x. x @ CRLF) ls) @ l"
proof (induction ls)
  case (Cons a ls)
  then show ?case by (cases ls) simp_all
qed simp

lemma gen_head_bytes: "gen_head fl d = head_bytes \<lparr>hd_len = 0, hd_title = fl, hd_entrys = d\<rparr>"
proof -
  have "concat (map (\<lambda>x. x @ CRLF) (map (\<lambda>(k, v). k @ SEP @ v) d)) = concat (map entry_bytes d)"
    by (induction d) auto
  then show ?thesis
    using join_lines_append [of "fl # map (\<lambda>(k, v). k @ SEP @ v) d" CRLF]
    by (simp add: gen_head_def head_bytes_def del: map_map)
qed

text \<open>What the receivers rely on: the form of the head, its announcement and its length.\<close>

definition ok_head :: "sbpfs_head \<Rightarrow> nat \<Rightarrow> bool" where
  "ok_head h n \<longleftrightarrow> hd_title h = REQUEST_OK \<and> plain_head h \<and> announces h n
     \<and> get_head_entry_value h CONTENT_LEN = Some (sdec (int n)) \<and> length (head_bytes h) \<le> 100"

lemma CNode_name: "quiet USER" "quiet (lit ''CNode_0'')" "58 \<notin> set USER" "USER \<noteq> CONTENT_LEN"
  "length USER = 4" "length (lit ''CNode_0'') = 7" "USER \<noteq> []"
  by (simp_all add: quiet_def plain_def USER_def lit_def CONTENT_LEN_bytes starts_Cons)

lemma reply_order_ok:
  assumes "d \<in> set (reply_orders n)" and "n < 10 ^ 20"
  shows "ok_head \<lparr>hd_len = 0, hd_title = REQUEST_OK, hd_entrys = d\<rparr> n"
proof -
  let ?h = "\<lparr>hd_len = 0, hd_title = REQUEST_OK, hd_entrys = d\<rparr> :: sbpfs_head"
  from assms(1) have d: "d = [(USER, lit ''CNode_0''), (CONTENT_LEN, sdec (int n))]
      \<or> d = [(CONTENT_LEN, sdec (int n)), (USER, lit ''CNode_0'')]"
    by (auto simp: reply_orders_def Let_def)
  have q: "quiet REQUEST_OK" using REQUEST_OK_plain by (simp add: quiet_if_no_C)
  have "announces ?h n"
    using d announces_entries [OF q, of "[(USER, lit ''CNode_0'')]" 0 n "[]"] announces_entries [OF q, of "[]" 0 n]
      CNode_name(1,2) by auto
  moreover have "plain_head ?h"
  proof -
    have "plain USER" "plain (lit ''CNode_0'')" using CNode_name(1,2) by (simp_all add: quiet_def)
    moreover have "plain CONTENT_LEN" "58 \<notin> set CONTENT_LEN" "CONTENT_LEN \<noteq> []"
      by (simp_all add: CONTENT_LEN_bytes plain_def)
    ultimately show ?thesis
      using d plain_sdec [of "int n"] REQUEST_OK_plain(1) CNode_name(3,7)
      by (auto simp: plain_head_def plain_entries_def)
  qed
  moreover have "length (head_bytes ?h) \<le> 100"
    using d length_udec [OF assms(2)] REQUEST_OK_plain(3) CNode_name(5,6) by (auto simp: head_bytes_def sdec_def)
  ultimately show ?thesis
    using d CNode_name(4) by (auto simp: ok_head_def get_head_entry_value_def)
qed

lemma sendrep_head:
  assumes "wire \<in> sendrep data" and "length data < 10 ^ 20"
  obtains h where "wire = head_bytes h @ data" and "ok_head h (length data)"
proof -
  from assms(1) obtain d where "d \<in> set (reply_orders (length data))" "wire = gen_head REQUEST_OK d @ data"
    by (auto simp: sendrep_def)
  then show ?thesis using reply_order_ok [OF _ assms(2)] that by (simp add: gen_head_bytes)
qed

text \<open>The message with the user first.\<close>

definition user_first :: "buf \<Rightarrow> buf" where
  "user_first data = gen_head REQUEST_OK [(USER, lit ''CNode_0''), (CONTENT_LEN, sdec (int (length data)))] @ data"

lemma user_first_sent: "user_first data \<in> sendrep data"
  by (simp add: user_first_def sendrep_def reply_orders_def Let_def)

end
