(* ===== verification/Cluster.thy ===== *)
theory Cluster
  imports ClientBlocksSpec DNodeSpec CNodeReply
begin

text \<open>
  Client and data nodes together: the peer of the client is the control node, whose answers
  \<open>ctl\<close> are a parameter, and a number of data nodes, each running \<open>serve\<close> on its block files, reached by the names that \<open>get_dnode_hostname\<close> prints,
  over streams that cut messages into pieces of any one size. These nodes keep the promises
  of \<open>block_server\<close>, so what is proved from them holds of the code of both sides.
\<close>

section \<open>The nodes\<close>

record cluster =
  cl_mtu :: nat
  cl_nodes :: "u32_t \<Rightarrow> blockman option"

function chop :: "nat \<Rightarrow> buf \<Rightarrow> buf list" where
  "chop m s = (if s = [] then [] else take (Suc m) s # chop m (drop (Suc m) s))"
  by pat_completeness auto
termination by (relation "measure (\<lambda>(m, s). length s)") auto

declare chop.simps [simp del]

definition stream :: "nat \<Rightarrow> buf \<Rightarrow> event list" where
  "stream m s = map Data (chop m s)"

lemma chop_pieces: "concat (chop m s) = s \<and> [] \<notin> set (chop m s)"
proof (induction m s rule: chop.induct)
  case (1 m s)
  then show ?case by (cases "s = []") (simp_all add: chop.simps [of m s] chop.simps [of m "[]"])
qed

lemma pieces_of_stream: "pieces_of s (stream m s)"
  using chop_pieces unfolding pieces_of_def stream_def by blast

text \<open>The data node a name stands for, if it is up.\<close>

definition node_at :: "cluster \<Rightarrow> buf \<Rightarrow> (u32_t \<times> blockman) option" where
  "node_at w host = do { n \<leftarrow> iptoi host; st \<leftarrow> cl_nodes w n; Some (n, st) }"

definition kernel :: sends where "kernel = [2 ^ 62, 2 ^ 62]"

definition cluster_peer :: "env \<Rightarrow> buf \<Rightarrow> buf \<Rightarrow> (buf \<Rightarrow> buf) \<Rightarrow> cluster peer" where
  "cluster_peer E stack junk ctl = \<lparr>
     p_connect = \<lambda>w host port. if port = CNODE_SERVICE_PORT then Inr kernel
       else if port \<noteq> DNODE_SERVICE_PORT \<or> node_at w host = None
       then Inl (err SOCKET_ERR (lit ''connect'')) else Inr kernel,
     p_answer = \<lambda>w host port wire. if port = CNODE_SERVICE_PORT then (stream (cl_mtu w) (ctl wire), w) else
       (case node_at w host of
         None \<Rightarrow> ([], w)
       | Some (n, st) \<Rightarrow> (case serve E stack junk kernel (stream (cl_mtu w) wire) st of
             None \<Rightarrow> ([], w)
           | Some (out, st) \<Rightarrow> (stream (cl_mtu w) out, w\<lparr>cl_nodes := (cl_nodes w)(n \<mapsto> st)\<rparr>)))\<rparr>"

lemma ports: "DNODE_SERVICE_PORT \<noteq> CNODE_SERVICE_PORT"
  by (simp add: DNODE_SERVICE_PORT_def CNODE_SERVICE_PORT_def)

text \<open>What the nodes hold; when a client can talk to them; the entries they can name.\<close>

definition node_block :: "cluster \<Rightarrow> u32_t \<Rightarrow> u64_t \<Rightarrow> buf option" where
  "node_block w n b = (case cl_nodes w n of None \<Rightarrow> None | Some st \<Rightarrow> block_of st b)"

definition session_ok :: "env \<Rightarrow> buf \<Rightarrow> buf \<Rightarrow> client \<Rightarrow> bool" where
  "session_ok E stack auth c \<longleftrightarrow> malloc_ok E \<and> length stack = BUF_SIZE \<and> 10 \<notin> set stack
     \<and> fits (sbp_user c) (sbp_pass c) auth"

definition nameable :: "block_entry \<Rightarrow> bool" where
  "nameable e \<longleftrightarrow> unat (be_block_id e) < 10 \<and> 0 < unat (be_length e) \<and> unat (be_length e) < 2 ^ 31"

lemma node_at_host: "node_at w (get_dnode_hostname n) = map_option (Pair n) (cl_nodes w n)"
  by (cases "cl_nodes w n") (simp_all add: node_at_def iptoi_hostname)

lemma kernel_ample: "ample kernel"
  by (simp add: ample_def kernel_def)

section \<open>One request, seen from the client\<close>

lemma sbp_send_at_once:
  assumes "int len \<le> k" and "0 < len" and "len \<le> length data"
  shows "sbp_send (k # ks) data len = Some (Inr (), take len data, ks)"
proof -
  have "min k (int (len - 0)) = int len" using assms(1) by simp
  then show ?thesis using assms(2,3) unfolding sbp_send_def send_loop.simps Let_def by (simp add: rd_def)
qed

lemma getUandP_ok:
  assumes "malloc_ok E" and "fits (sbp_user c) (sbp_pass c) auth"
  shows "sbp_getUandP E c = Some (Some (sbp_user c, sbp_pass c))"
proof -
  obtain a b where "malloc E (MAX_USERNAME_LEN + 1) = Some a" "length a = MAX_USERNAME_LEN + 1"
    "malloc E (MAX_PASSWORD_LEN + 1) = Some b" "length b = MAX_PASSWORD_LEN + 1"
    using assms(1) by (meson malloc_okE)
  then show ?thesis using assms(2)
    by (simp add: sbp_getUandP_def sbp_getusername_def sbp_getpassword_def fits_def mem_simps)
qed

lemma request_head_block:
  assumes "fits usr pass auth"
  shows "request_head usr pass (block_args auth meth e @ [(CONTENT_LEN, sdec (int n))])
    = Some (block_head usr pass auth meth e n)"
  using assms by (simp add: request_head_def block_head_def fits_def TRAN_USERNAME_LEN_def MAX_USERNAME_LEN_def)

lemma block_head_made:
  assumes "fits usr pass auth" and "malloc_ok E" and "length meth \<le> 5" and "n < 2 ^ 31"
  shows "make_head E (block_head usr pass auth meth e n)
    = Some (Inr (head_bytes (block_head usr pass auth meth e n), int (length (head_bytes (block_head usr pass auth meth e n)))))"
proof -
  have "n < 10 ^ 20" using assms(4) by simp
  note short = block_head_short [OF assms(1,3) this, of e]
  show ?thesis
  proof (rule make_head_exact)
    show "length (head_bytes (block_head usr pass auth meth e n)) < 2 ^ 31" using short by simp
  qed (simp_all add: block_head_def block_args_def assms(2))
qed

lemma head_bytes_pos: "0 < length (head_bytes h)"
  by (simp add: head_bytes_def)

lemma read_reply_ok:
  assumes "plain_head h" and "hd_title h \<noteq> []" and "malloc_ok E"
  shows "read_reply E (head_bytes h @ r)
    = Some (Reply (h\<lparr>hd_len := word_of_nat (length (head_bytes h))\<rparr>) (head_bytes h @ r), [])"
proof -
  obtain y where "byte_at (head_bytes h @ r) 0 = Some y" "y \<noteq> 0"
    using byte_at_head [of h r] assms(1,2) by (auto simp: plain_head_def)
  then show ?thesis by (simp add: read_reply_def decode_head_bytes [OF assms(1,3)])
qed

text \<open>A reply that \<open>sbp_recv\<close> puts together.\<close>

definition good_reply :: "sbpfs_head \<Rightarrow> buf \<Rightarrow> bool" where
  "good_reply h body \<longleftrightarrow> plain_head h \<and> hd_title h \<noteq> [] \<and> announces h (length body) \<and> length body < 2 ^ 62
     \<and> length (head_bytes h) \<le> BUF_SIZE"

lemma good_reply_received:
  assumes "good_reply h body" and "malloc_ok E" and "length stack = BUF_SIZE" and "10 \<notin> set stack"
  shows "\<exists>errs. sbp_recv E stack (stream m (head_bytes h @ body)) = Some (Some (head_bytes h @ body @ [0]), errs, [])"
  using sbp_recv_whole [OF _ _ _ _ assms(2-4) pieces_of_stream] assms(1) by (simp add: good_reply_def)

section \<open>Reading from a node\<close>

lemma exchange_reply:
  assumes c: "malloc_ok E" "length stack = BUF_SIZE" "10 \<notin> set stack" "fits (sbp_user c) (sbp_pass c) auth"
    and q: "request_head (sbp_user c) (sbp_pass c) es = Some q" "length (hd_entrys q) \<le> 32" "length (head_bytes q) < 2 ^ 31"
    and up: "p_connect P w host port = Inr kernel"
    and answer: "p_answer P w host port (head_bytes q) = (stream m (head_bytes h @ body), w')"
    and good: "good_reply h body"
  shows "\<exists>c'. exchange E stack P w c host port es
      = Some (Reply (h\<lparr>hd_len := word_of_nat (length (head_bytes h))\<rparr>) (head_bytes h @ body @ [0]), c', w')
    \<and> same_session c c'"
proof -
  obtain errs where errs: "sbp_recv E stack (stream m (head_bytes h @ body)) = Some (Some (head_bytes h @ body @ [0]), errs, [])"
    using good_reply_received [OF good c(1-3)] by blast
  have "int (length (head_bytes q)) \<le> 2 ^ 62" using q(3) by simp
  then have s: "sbp_send kernel (head_bytes q) (length (head_bytes q)) = Some (Inr (), head_bytes q, [2 ^ 62])"
    using sbp_send_at_once [of "length (head_bytes q)" "2 ^ 62" "head_bytes q" "[2 ^ 62]"] head_bytes_pos
    by (simp add: kernel_def)
  have r: "sendrec_hostname E stack P w host port (head_bytes q) (length (head_bytes q))
      = Some (Some (head_bytes h @ body @ [0]), errs, w')"
    by (simp add: sendrec_hostname_def up s answer errs)
  have "read_reply E (head_bytes h @ body @ [0])
      = Some (Reply (h\<lparr>hd_len := word_of_nat (length (head_bytes h))\<rparr>) (head_bytes h @ body @ [0]), [])"
    using good by (intro read_reply_ok) (simp_all add: good_reply_def c(1))
  then show ?thesis
    by (simp add: exchange_def getUandP_ok [OF c(1,4)] q(1) make_head_exact [OF q(2) c(1) q(3)] r Let_def)
qed

lemma exchange_good:
  assumes c: "session_ok E stack auth c" and meth: "quiet meth" "length meth \<le> 5" and n: "n < 2 ^ 31"
    and up: "p_connect P w host port = Inr kernel"
    and answer: "p_answer P w host port (head_bytes (block_head (sbp_user c) (sbp_pass c) auth meth e n))
      = (stream m (head_bytes h @ body), w')" and good: "good_reply h body"
  shows "\<exists>c'. exchange E stack P w c host port (block_args auth meth e @ [(CONTENT_LEN, sdec (int n))])
      = Some (Reply (h\<lparr>hd_len := word_of_nat (length (head_bytes h))\<rparr>) (head_bytes h @ body @ [0]), c', w')
    \<and> same_session c c'"
proof -
  have c': "malloc_ok E" "length stack = BUF_SIZE" "10 \<notin> set stack" "fits (sbp_user c) (sbp_pass c) auth"
    using c by (simp_all add: session_ok_def)
  have "n < 10 ^ 20" using n by simp
  from block_head_short [OF c'(4) meth(2) this, of e]
  show ?thesis
    by (intro exchange_reply [OF c' request_head_block [OF c'(4)] _ _ up answer good])
      (simp_all add: block_head_def block_args_def)
qed

lemma exchange_down:
  assumes c: "session_ok E stack auth c" and meth: "length meth \<le> 5" and n: "n < 2 ^ 31"
    and down: "p_connect P w host port = Inl x"
  shows "\<exists>c'. exchange E stack P w c host port (block_args auth meth e @ [(CONTENT_LEN, sdec (int n))])
      = Some (Failed, c', w) \<and> same_session c c'"
proof -
  have c': "malloc_ok E" "fits (sbp_user c) (sbp_pass c) auth" using c by (simp_all add: session_ok_def)
  show ?thesis
    by (simp add: exchange_def getUandP_ok [OF c'] request_head_block [OF c'(2)]
      block_head_made [OF c'(2,1) meth n] sendrec_hostname_def down Let_def)
qed

lemma good_sample: "length body < 2 ^ 31 \<Longrightarrow> good_reply (sample_reply (length body)) body"
proof -
  assume b: "length body < 2 ^ 31"
  then have "length body < 10 ^ 20" by simp
  from sample_reply_short [OF this] have "length (head_bytes (sample_reply (length body))) \<le> BUF_SIZE"
    by (simp add: BUF_SIZE_def)
  moreover have "hd_title (sample_reply (length body)) \<noteq> []"
    using REQUEST_OK_plain(3) by (auto simp: sample_reply_def)
  ultimately show ?thesis
    using b sample_reply_plain sample_reply_announces by (simp add: good_reply_def)
qed

definition read_error :: sbpfs_head where
  "read_error = err_reply (lit ''read_block'') (lit ''cannot read block'')"

lemma good_read_error: "good_reply read_error []"
proof -
  have r: "read_error = \<lparr>hd_len = 0, hd_title = REQUEST_ERR, hd_entrys =
      [(ERR_TYPE, lit ''read_block''), (ERR_DETAIL, lit ''cannot read block'')] @ (CONTENT_LEN, sdec (int 0)) # []\<rparr>"
    by (simp add: read_error_def err_reply_def reply_head_def sdec_0)
  have q: "quiet REQUEST_ERR" "\<forall>(m, v) \<in> set [(ERR_TYPE, lit ''read_block''), (ERR_DETAIL, lit ''cannot read block'')].
      quiet m \<and> quiet v"
    by (simp_all add: quiet_def plain_def REQUEST_ERR_def ERR_TYPE_def ERR_DETAIL_def lit_def CONTENT_LEN_bytes starts_Cons)
  have "announces read_error 0" unfolding r by (rule announces_entries [OF q])
  then show ?thesis
    by (simp add: good_reply_def)
      (simp add: read_error_def err_reply_def reply_head_def plain_head_def plain_def head_bytes_def
        REQUEST_ERR_def ERR_TYPE_def ERR_DETAIL_def lit_def CONTENT_LEN_bytes BUF_SIZE_def)
qed

text \<open>What the reading part makes of the replies.\<close>

lemma is_ok_sample: "is_ok ((sample_reply n)\<lparr>hd_len := x\<rparr>)"
  by (simp add: is_ok_def sample_reply_def starts_prefix)

lemma is_err_read_error: "\<not> is_ok (read_error\<lparr>hd_len := x\<rparr>)" "is_err (read_error\<lparr>hd_len := x\<rparr>)"
  by (simp_all add: is_ok_def is_err_def read_error_def err_reply_def reply_head_def starts_prefix
    REQUEST_OK_def REQUEST_ERR_def lit_def)

lemma content_len_sample:
  "n < 2 ^ 63 \<Longrightarrow> content_len ((sample_reply n)\<lparr>hd_len := x\<rparr>) = Some (Some (word_of_nat n))"
  by (simp add: content_len_def get_head_entry_value_def sample_reply_def atoll_sdec)

lemma wr_patch: "off + length d \<le> length b \<Longrightarrow> wr b off d = Some (patch off d b)"
  by (simp add: wr_def patch_def)

lemma word_of_len:
  "n < 2 ^ 31 \<Longrightarrow> unat (word_of_nat n :: u64_t) = n"
  "n < 2 ^ 31 \<Longrightarrow> sint (word_of_nat n :: u64_t) = int n"
  by (auto intro!: unat_word_of_nat_fit sint_of_nat_fit)

lemma peer_up:
  "cl_nodes w n = Some st \<Longrightarrow> p_connect (cluster_peer E stack junk ctl) w (get_dnode_hostname n) DNODE_SERVICE_PORT = Inr kernel"
  by (simp add: cluster_peer_def node_at_host ports)

lemma peer_down:
  "cl_nodes w n = None \<Longrightarrow> \<exists>x. p_connect (cluster_peer E stack junk ctl) w (get_dnode_hostname n) DNODE_SERVICE_PORT = Inl x"
  by (simp add: cluster_peer_def node_at_host ports)

lemma peer_answers:
  "cl_nodes w n = Some st \<Longrightarrow> serve E stack junk kernel (stream (cl_mtu w) wire) st = Some (out, st') \<Longrightarrow>
    p_answer (cluster_peer E stack junk ctl) w (get_dnode_hostname n) DNODE_SERVICE_PORT wire
      = (stream (cl_mtu w) out, w\<lparr>cl_nodes := (cl_nodes w)(n \<mapsto> st')\<rparr>)"
  by (simp add: cluster_peer_def node_at_host ports)

text \<open>The node has the block, or not; or it is down.\<close>

lemma serve_read_found:
  assumes c: "session_ok E stack auth c" and e: "nameable e" and x: "block_of st (be_block_id e) = Some x" "inside e x"
  shows "serve E stack junk kernel (stream m (head_bytes (block_head (sbp_user c) (sbp_pass c) auth (lit ''READ'') e 0))) st
    = Some (head_bytes (sample_reply (len_of e)) @ piece e x, st)"
proof -
  have c': "malloc_ok E" "length stack = BUF_SIZE" "10 \<notin> set stack" "fits (sbp_user c) (sbp_pass c) auth"
    using c by (simp_all add: session_ok_def)
  show ?thesis
    using serve_block [OF c'(4) quiet_names(10) _ _ c'(1-3), of "[]" e "stream m _" junk kernel st]
      pieces_of_stream process_read_found [OF _ _ _ c'(1) kernel_ample] x e
    by (simp add: req_of_methods length_methods process_req_def inside_def nameable_def piece_def)
qed

lemma serve_read_missing:
  assumes c: "session_ok E stack auth c" and e: "nameable e" and x: "block_of st (be_block_id e) = None"
  shows "serve E stack junk kernel (stream m (head_bytes (block_head (sbp_user c) (sbp_pass c) auth (lit ''READ'') e 0))) st
    = Some (head_bytes read_error, st)"
proof -
  have c': "malloc_ok E" "length stack = BUF_SIZE" "10 \<notin> set stack" "fits (sbp_user c) (sbp_pass c) auth"
    using c by (simp_all add: session_ok_def)
  show ?thesis
    using serve_block [OF c'(4) quiet_names(10) _ _ c'(1-3), of "[]" e "stream m _" junk kernel st]
      pieces_of_stream process_read_missing [OF _ _ c'(1) kernel_ample] x e
    by (simp add: req_of_methods length_methods process_req_def nameable_def read_error_def)
qed

lemma cluster_deliver:
  assumes c: "session_ok E stack auth c" and e: "nameable e" and x: "node_block w n (be_block_id e) = Some x" "inside e x"
    and fit: "pos + len_of e \<le> length ub"
  shows "\<exists>c'. read_block E stack (cluster_peer E stack junk ctl) auth e n pos ub c w
      = Some (int (len_of e), patch pos (piece e x) ub, c', w) \<and> same_session c c'"
proof -
  obtain st where st: "cl_nodes w n = Some st" "block_of st (be_block_id e) = Some x"
    using x(1) by (auto simp: node_block_def split: option.splits)
  let ?h = "sample_reply (len_of e)"
  have l: "length (piece e x) = len_of e" "len_of e < 2 ^ 31" "0 < len_of e"
    using length_piece [OF x(2)] e by (simp_all add: nameable_def)
  have w: "w\<lparr>cl_nodes := (cl_nodes w)(n \<mapsto> st)\<rparr> = w" using st(1) by (simp add: fun_upd_idem)
  have good: "good_reply ?h (piece e x)" using good_sample [of "piece e x"] l by simp
  note answer = peer_answers [OF st(1) serve_read_found [OF c e st(2) x(2)], where junk = junk and ctl = ctl, unfolded w]
  obtain c' where c': "exchange E stack (cluster_peer E stack junk ctl) w c (get_dnode_hostname n) DNODE_SERVICE_PORT
      (block_args auth (lit ''READ'') e @ [(CONTENT_LEN, lit ''0'')])
    = Some (Reply (?h\<lparr>hd_len := word_of_nat (length (head_bytes ?h))\<rparr>) (head_bytes ?h @ piece e x @ [0]), c', w)"
    "same_session c c'"
    using exchange_good [OF c quiet_names(10) _ _ peer_up [OF st(1)] answer good]
    by (auto simp: length_methods sdec_0)
  have "unat (word_of_nat (length (head_bytes ?h)) :: u64_t) = length (head_bytes ?h)"
    using good by (intro unat_word_of_nat_fit) (simp add: good_reply_def BUF_SIZE_def)
  moreover have "rd (head_bytes ?h @ piece e x @ [0]) (length (head_bytes ?h)) (len_of e) = Some (piece e x)"
    using l(1) by (simp add: rd_def)
  moreover have "wr ub pos (piece e x) = Some (patch pos (piece e x) ub)" using fit l(1) by (simp add: wr_patch)
  moreover note word_of_len [OF l(2)]
  moreover have "content_len (?h\<lparr>hd_len := word_of_nat (length (head_bytes ?h))\<rparr>) = Some (Some (word_of_nat (len_of e)))"
    using l(2) by (intro content_len_sample) simp
  ultimately show ?thesis
    using c' by (simp add: read_block_def is_ok_sample)
qed

lemma cluster_absent:
  assumes c: "session_ok E stack auth c" and e: "nameable e" and x: "node_block w n (be_block_id e) = None"
  shows "\<exists>c'. read_block E stack (cluster_peer E stack junk ctl) auth e n pos ub c w = Some (- 1, ub, c', w)
    \<and> same_session c c'"
proof (cases "cl_nodes w n")
  case None
  then obtain y where down:
      "p_connect (cluster_peer E stack junk ctl) w (get_dnode_hostname n) DNODE_SERVICE_PORT = Inl y"
    using peer_down by blast
  obtain c' where "exchange E stack (cluster_peer E stack junk ctl) w c (get_dnode_hostname n) DNODE_SERVICE_PORT
      (block_args auth (lit ''READ'') e @ [(CONTENT_LEN, lit ''0'')]) = Some (Failed, c', w)" "same_session c c'"
    using exchange_down [OF c _ _ down, of "lit ''READ''" 0 e] by (auto simp: length_methods sdec_0)
  then show ?thesis by (simp add: read_block_def)
next
  case (Some st)
  then have "block_of st (be_block_id e) = None" using x by (simp add: node_block_def)
  note serve = serve_read_missing [OF c e this]
  have w: "w\<lparr>cl_nodes := (cl_nodes w)(n \<mapsto> st)\<rparr> = w" using Some by (simp add: fun_upd_idem)
  note answer = peer_answers [OF Some serve, where junk = junk and ctl = ctl, unfolded w]
  obtain c' where "exchange E stack (cluster_peer E stack junk ctl) w c (get_dnode_hostname n) DNODE_SERVICE_PORT
      (block_args auth (lit ''READ'') e @ [(CONTENT_LEN, lit ''0'')])
    = Some (Reply (read_error\<lparr>hd_len := word_of_nat (length (head_bytes read_error))\<rparr>) (head_bytes read_error @ [0]), c', w)"
    "same_session c c'"
    using exchange_good [OF c quiet_names(10) _ _ peer_up [OF Some, of E stack junk ctl], where n = 0 and e = e and m = "cl_mtu w"
        and h = read_error and body = "[]" and w' = w]
      answer good_read_error by (auto simp: length_methods sdec_0)
  then show ?thesis by (simp add: read_block_def is_err_read_error)
qed

section \<open>Writing to a node\<close>

lemma serve_write_found:
  assumes c: "session_ok E stack auth c" and e: "nameable e" and x: "block_of st (be_block_id e) = Some x" "inside e x"
    and d: "length d = len_of e"
  shows "\<exists>st'. serve E stack junk kernel
      (stream m (head_bytes (block_head (sbp_user c) (sbp_pass c) auth (lit ''WRITE'') e (len_of e)) @ d)) st
    = Some (head_bytes (sample_reply 0), st')
      \<and> block_of st' = (block_of st)(be_block_id e \<mapsto> patch (unat (be_offset e)) d x)"
proof -
  have c': "malloc_ok E" "length stack = BUF_SIZE" "10 \<notin> set stack" "fits (sbp_user c) (sbp_pass c) auth"
    using c by (simp_all add: session_ok_def)
  let ?ent = "\<lparr>le_req = 2, le_offset = be_offset e, le_length = be_length e, le_block_num = be_block_id e,
      le_data_length = word_of_nat (length d), le_data = d @ [0]\<rparr>"
  obtain st' where st': "process_write E junk kernel st ?ent = Some (head_bytes (sample_reply 0), st')"
    "block_of st' = (block_of st)(be_block_id e \<mapsto> patch (unat (be_offset e)) d x)"
    using process_write_found [where st = st and ent = ?ent and c = x and E = E and ks = kernel and junk = junk] x d c'(1) kernel_ample by (auto simp: inside_def)
  have "length d < 2 ^ 62" using d e by (simp add: nameable_def)
  then have "serve E stack junk kernel
      (stream m (head_bytes (block_head (sbp_user c) (sbp_pass c) auth (lit ''WRITE'') e (length d)) @ d)) st
    = process_req E junk kernel st ?ent"
    using serve_block [OF c'(4) quiet_names(11) _ _ c'(1-3) _ pieces_of_stream, where body = d and ent = e and junk = junk and ks = kernel and st = st]
    by (simp add: req_of_methods length_methods)
  then show ?thesis using st' by (simp add: process_req_def d)
qed

lemma cluster_store:
  assumes c: "session_ok E stack auth c" and e: "nameable e" and x: "node_block w n (be_block_id e) = Some x" "inside e x"
    and fit: "pos + len_of e \<le> length ub"
  shows "\<exists>c' w'. write_block E stack (cluster_peer E stack junk ctl) auth e n pos ub c w = Some (int (len_of e), c', w')
    \<and> same_session c c' \<and> node_block w' = stored (node_block w) n e (take (len_of e) (drop pos ub))"
proof -
  have c': "malloc_ok E" "length stack = BUF_SIZE" "10 \<notin> set stack" "fits (sbp_user c) (sbp_pass c) auth"
    using c by (simp_all add: session_ok_def)
  obtain st where st: "cl_nodes w n = Some st" "block_of st (be_block_id e) = Some x"
    using x(1) by (auto simp: node_block_def split: option.splits)
  let ?d = "take (len_of e) (drop pos ub)" and ?P = "cluster_peer E stack junk ctl" and ?h = "sample_reply 0"
  let ?q = "block_head (sbp_user c) (sbp_pass c) auth (lit ''WRITE'') e (len_of e)"
  have l: "length ?d = len_of e" "len_of e < 2 ^ 31" "0 < len_of e"
    using fit e by (simp_all add: nameable_def)
  obtain st' where st': "serve E stack junk kernel (stream (cl_mtu w) (head_bytes ?q @ ?d)) st = Some (head_bytes ?h, st')"
    "block_of st' = (block_of st)(be_block_id e \<mapsto> patch (unat (be_offset e)) ?d x)"
    using serve_write_found [OF c e st(2) x(2) l(1)] by blast
  let ?w = "w\<lparr>cl_nodes := (cl_nodes w)(n \<mapsto> st')\<rparr>"
  note answer = peer_answers [OF st(1) st'(1), where ctl = ctl]
  have good: "good_reply ?h []" using good_sample [of "[]"] by simp
  obtain errs where errs: "sbp_recv E stack (stream (cl_mtu w) (head_bytes ?h)) = Some (Some (head_bytes ?h @ [0]), errs, [])"
    using good_reply_received [OF good c'(1-3)] by auto
  have "len_of e < 10 ^ 20" using l(2) by simp
  then have "int (length (head_bytes ?q)) \<le> 2 ^ 62"
    using block_head_short [OF c'(4) _ , of "lit ''WRITE''" "len_of e" e] length_methods by simp
  then have s1: "sbp_send kernel (head_bytes ?q) (length (head_bytes ?q)) = Some (Inr (), head_bytes ?q, [2 ^ 62])"
    using sbp_send_at_once [of "length (head_bytes ?q)" "2 ^ 62" "head_bytes ?q" "[2 ^ 62]"] head_bytes_pos
    by (simp add: kernel_def)
  have int_le: "n < 2 ^ 31 \<Longrightarrow> int n \<le> 2 ^ 62" for n :: nat by simp
  have s2: "sbp_send [2 ^ 62] (drop pos ub) (len_of e) = Some (Inr (), ?d, [])"
    using sbp_send_at_once [OF int_le [OF l(2)] l(3), of "drop pos ub" "[]"] fit by simp
  have r: "write_exchange E stack ?P w (get_dnode_hostname n) (head_bytes ?q) (length (head_bytes ?q)) (drop pos ub) (len_of e)
      = Some (Some (head_bytes ?h @ [0]), errs, ?w)"
    using s1 s2 by (simp add: write_exchange_def peer_up [OF st(1)] answer errs)
  have rr: "read_reply E (head_bytes ?h @ [0])
      = Some (Reply (?h\<lparr>hd_len := word_of_nat (length (head_bytes ?h))\<rparr>) (head_bytes ?h @ [0]), [])"
    using good by (intro read_reply_ok) (simp_all add: good_reply_def c'(1))
  have len: "sdec (sint (be_length e)) = sdec (int (len_of e))" using sint_small_u32 [OF l(2)] by (simp only:)
  have "write_block E stack ?P auth e n pos ub c w = Some (int (len_of e), note_errs E [] (note_errs E errs c), ?w)"
    using fit length_methods
    by (simp add: write_block_def getUandP_ok [OF c'(1,4)] len request_head_block [OF c'(4)]
      block_head_made [OF c'(4,1) _ l(2)] r rr is_ok_sample Let_def del: of_nat_unat)
  moreover have "node_block ?w = stored (node_block w) n e ?d"
    using st st'(2) by (auto simp: node_block_def stored_def fun_eq_iff)
  ultimately show ?thesis by simp
qed

section \<open>The nodes keep the promises\<close>

interpretation cluster: block_server E stack "cluster_peer E stack junk ctl" auth "session_ok E stack auth" nameable node_block
  for E stack junk ctl auth
proof
  show "session_ok E stack auth c'" if "session_ok E stack auth c" "same_session c c'" for c c'
    using that same_session_fields [OF that(2)] by (simp add: session_ok_def)
qed (rule cluster_deliver cluster_absent cluster_store; assumption)+

end
