(* ===== verification/ClusterSpec.thy ===== *)
theory ClusterSpec
  imports Cluster
begin

text \<open>
  What a client gets from the data nodes and the control node together: reading through any
  replica, writing to all of them, and the whole of \<open>sbp_read\<close> and \<open>sbp_write\<close> when the
  control node answers with a list of entries.
\<close>

section \<open>A small cluster\<close>

text \<open>One node, number 5, up, and a client, for the witnesses.\<close>

definition small_cluster :: cluster where
  "small_cluster = \<lparr>cl_mtu = 3, cl_nodes = [5 \<mapsto> small_node]\<rparr>"

definition small_entry :: block_entry where
  "small_entry = \<lparr>be_block_id = 3, be_offset = 1, be_length = 2, be_d_nodes = (7, 5, 0), be_preserved = 0\<rparr>"

definition local_entry :: block_entry where
  "local_entry = small_entry\<lparr>be_d_nodes := (0, 5, 0)\<rparr>"

definition small_fd :: sbp_filedesc where
  "small_fd = new_fd\<lparr>fd_type := T_FILE\<rparr>"

definition small_client :: client where
  "small_client = init_client\<lparr>fds := (fds init_client)[0 := Some small_fd]\<rparr>"

lemma small_node_block: "block_of small_node = [3 \<mapsto> [1, 2, 3, 4]]"
  by (auto simp: block_of_def small_node_def fun_eq_iff block_path_inj)

lemma small_holdings: "node_block small_cluster n = (if n = 5 then [3 \<mapsto> [1, 2, 3, 4]] else Map.empty)"
  by (auto simp: node_block_def small_cluster_def small_node_block fun_eq_iff)

lemma small_offers: "offers (node_block small_cluster) small_entry [2, 3]" "offers (node_block small_cluster) local_entry [2, 3]"
  by (auto simp: offers_def nodes_of_def small_entry_def local_entry_def small_holdings inside_def piece_def)

lemma small_writable: "writable (node_block small_cluster) local_entry (nodes_of local_entry)"
  by (auto simp: nodes_of_def small_entry_def local_entry_def small_holdings inside_def)

lemma small_nameable: "nameable small_entry" "nameable local_entry"
  by (simp_all add: nameable_def small_entry_def local_entry_def)

lemma small_session: "session_ok calm_env (replicate 4096 7) [] small_client"
proof -
  have "quiet (lit ''anonymous'')" "quiet []"
    by (simp_all add: quiet_def plain_def lit_def CONTENT_LEN_bytes starts_Cons)
  then show ?thesis
    by (simp add: session_ok_def fits_def small_client_def init_client_def BUF_SIZE_def MAX_USERNAME_LEN_def lit_def)
qed

section \<open>Files\<close>

text \<open>
  The request for the list of blocks, and the answers of the control node: \<open>__read\<close> and
  \<open>__write\<close> of \<open>c_node/CNode.py\<close> hand the entries to \<open>__sendrep\<close>.
\<close>

definition list_request :: "buf \<Rightarrow> sbp_filedesc \<Rightarrow> u64_t \<Rightarrow> client \<Rightarrow> sbpfs_head" where
  "list_request meth d len c = \<lparr>hd_len = 0, hd_title = PROTOCOL,
     hd_entrys = (USER, lit ''Client_'' @ sbp_user c) # (PASS, sbp_pass c)
       # args meth [sdec (sint (fd_server_fd d)), sdec (sint (fd_offset d)), sdec (sint len)]\<rparr>"

definition list_answers :: "block_entry list \<Rightarrow> buf set" where
  "list_answers es = sendrep (concat (map enc_bent es))"

text \<open>One of them, for the witnesses.\<close>

definition list_answer :: "block_entry list \<Rightarrow> buf" where
  "list_answer es = user_first (concat (map enc_bent es))"

lemma list_answer_sent: "list_answer es \<in> list_answers es"
  by (simp add: list_answer_def list_answers_def user_first_sent)

lemma length_entries: "length (concat (map enc_bent es)) = 32 * length es"
  by (induction es) (simp_all add: bent.len_enc)

lemma list_request_short:
  assumes "fits (sbp_user c) (sbp_pass c) auth" and "length meth \<le> 5"
  shows "length (hd_entrys (list_request meth d len c)) \<le> 32"
    and "length (head_bytes (list_request meth d len c)) < 2 ^ 31"
proof -
  have n: "length (sdec (sint (fd_server_fd d))) \<le> 21" "length (sdec (sint (fd_offset d))) \<le> 21"
    "length (sdec (sint len)) \<le> 21" by (auto intro: length_sdec_word)
  have l: "length (sbp_user c) < 16" "length (sbp_pass c) \<le> 32"
    using assms(1) by (simp_all add: fits_def MAX_USERNAME_LEN_def MAX_PASSWORD_LEN_def)
  have s: "length (lit ''Client_'') = 7" "length (lit ''0'') = 1" "length (udec 3) = 1"
    by (simp_all add: lit_def udec.simps [of 3])
  show "length (hd_entrys (list_request meth d len c)) \<le> 32"
    by (simp add: list_request_def args_def no_content_def)
  show "length (head_bytes (list_request meth d len c)) < 2 ^ 31"
    using n l assms(2)
    by (simp add: head_bytes_def list_request_def args_def no_content_def length_names s numeral_3_eq_3 [symmetric])
qed

lemma word_of_entries:
  assumes "32 * n < 2 ^ 31"
  shows "(word_of_nat (32 * n) :: u64_t) mod szof_bent = 0" and "unat ((word_of_nat (32 * n) :: u64_t) div szof_bent) = n"
proof -
  have u: "unat (word_of_nat (32 * n) :: u64_t) = 32 * n" using assms by (intro word_of_len)
  show "unat ((word_of_nat (32 * n) :: u64_t) div szof_bent) = n" unfolding unat_div u by simp
  have "unat ((word_of_nat (32 * n) :: u64_t) mod szof_bent) = 0" unfolding unat_mod u by simp
  then show "(word_of_nat (32 * n) :: u64_t) mod szof_bent = 0" by (simp add: unat_eq_0)
qed

lemma ok_head_good: "ok_head h (length body) \<Longrightarrow> length body < 2 ^ 31 \<Longrightarrow> good_reply h body"
  using REQUEST_OK_plain(3) by (auto simp: ok_head_def good_reply_def BUF_SIZE_def)

lemma is_ok_head: "ok_head h n \<Longrightarrow> is_ok (h\<lparr>hd_len := x\<rparr>)"
  by (simp add: is_ok_def ok_head_def starts_prefix)

lemma content_len_ok_head:
  "ok_head h n \<Longrightarrow> n < 2 ^ 63 \<Longrightarrow> content_len (h\<lparr>hd_len := x\<rparr>) = Some (Some (word_of_nat n))"
  by (simp add: content_len_def get_head_entry_value_def ok_head_def atoll_sdec)

lemma block_list_answered:
  assumes c: "session_ok E stack auth c" and meth: "length meth \<le> 5"
    and ctl: "ctl (head_bytes (list_request meth d len c)) \<in> list_answers es" and n: "32 * length es < 2 ^ 31"
  shows "\<exists>a c'. block_list E stack (cluster_peer E stack junk ctl) d len meth c w
      = Some (Some (a @ concat (map enc_bent es) @ [0], length a, length es), c', w)
    \<and> same_session c c'"
proof -
  let ?b = "concat (map enc_bent es)"
  have "length ?b < 10 ^ 20" using n by (simp add: length_entries)
  then obtain h where wire: "ctl (head_bytes (list_request meth d len c)) = head_bytes h @ ?b" and h: "ok_head h (length ?b)"
    using sendrep_head [OF ctl [unfolded list_answers_def]] by blast
  let ?h = h
  let ?q = "list_request meth d len c"
  have c': "malloc_ok E" "length stack = BUF_SIZE" "10 \<notin> set stack" "fits (sbp_user c) (sbp_pass c) auth"
    using c by (simp_all add: session_ok_def)
  have q: "request_head (sbp_user c) (sbp_pass c)
      (args meth [sdec (sint (fd_server_fd d)), sdec (sint (fd_offset d)), sdec (sint len)]) = Some ?q"
    using c'(4) by (simp add: request_head_def list_request_def fits_def TRAN_USERNAME_LEN_def MAX_USERNAME_LEN_def)
  have good: "good_reply ?h ?b" using ok_head_good [OF h] n by (simp add: length_entries)
  define x :: u64_t where "x = word_of_nat (32 * length es)"
  have "unat (word_of_nat (length (head_bytes ?h)) :: u64_t) = length (head_bytes ?h)"
    using good by (intro unat_word_of_nat_fit) (simp add: good_reply_def BUF_SIZE_def)
  moreover have "content_len (?h\<lparr>hd_len := word_of_nat (length (head_bytes ?h))\<rparr>) = Some (Some x)"
    unfolding x_def using n h [unfolded length_entries] by (intro content_len_ok_head) simp_all
  moreover note word_of_entries(2) [OF n, folded x_def]
  moreover have up: "p_connect (cluster_peer E stack junk ctl) w (sbp_host c) CNODE_SERVICE_PORT = Inr kernel"
    "p_answer (cluster_peer E stack junk ctl) w (sbp_host c) CNODE_SERVICE_PORT (head_bytes ?q)
      = (stream (cl_mtu w) (head_bytes ?h @ ?b), w)"
    by (simp_all add: cluster_peer_def wire)
  moreover note exchange_reply [OF c' q list_request_short [OF c'(4) meth] up good]
  ultimately have "\<exists>c'. block_list E stack (cluster_peer E stack junk ctl) d len meth c w
      = Some (Some (head_bytes h @ ?b @ [0], length (head_bytes h), length es), c', w) \<and> same_session c c'"
    by (auto simp: block_list_def call_def is_ok_head [OF h] word_of_entries(1) [OF n, folded x_def])
  then show ?thesis by blast
qed

lemma fds_get_same: "same_session c c' \<Longrightarrow> fds_get c' fd = fds_get c fd"
  using same_session_fields [of c c'] by (simp add: fds_get_def)

text \<open>The same user, password and control node.\<close>

definition same_login :: "client \<Rightarrow> client \<Rightarrow> bool" where
  "same_login c c' \<longleftrightarrow> sbp_user c' = sbp_user c \<and> sbp_pass c' = sbp_pass c \<and> sbp_host c' = sbp_host c"

lemma same_login_session: "same_session c c' \<Longrightarrow> same_login c c'"
  using same_session_fields by (simp add: same_login_def)

lemma same_login_trans: "same_login c c' \<Longrightarrow> same_login c' c'' \<Longrightarrow> same_login c c''"
  by (simp add: same_login_def)

lemma same_login_request: "same_login c c' \<Longrightarrow> list_request meth d len c' = list_request meth d len c"
  by (simp add: same_login_def list_request_def)

lemma same_login_session_ok: "same_login c c' \<Longrightarrow> session_ok E stack auth c \<Longrightarrow> session_ok E stack auth c'"
  by (simp add: same_login_def session_ok_def)

lemma same_login_fds: "fds_set c fd x = Some c' \<Longrightarrow> same_login c c'"
  by (auto simp: fds_set_def same_login_def split: if_splits)

lemma advance_moves:
  assumes "fds_get c fd = Some (Some d)"
  shows "\<exists>c'. advance fd (int n) c = Some c' \<and> same_login c c'
    \<and> fds_get c' fd = Some (Some (d\<lparr>fd_offset := fd_offset d + word_of_nat n\<rparr>))"
  using assms by (auto simp: advance_def fds_get_def fds_set_def same_login_def split: if_splits)

lemma sbp_read_whole:
  assumes c: "session_ok E stack (fd_auth_code d) c"
    and fd: "fds_get c fd = Some (Some d)" "fd_type d = T_FILE"
    and ctl: "ctl (head_bytes (list_request (lit ''READ'') d len c)) \<in> list_answers es" "32 * length es < 2 ^ 31"
    and es: "\<forall>e \<in> set es. nameable e" "list_all2 (offers (node_block w)) es ds" "total_len es \<le> length ub"
  shows "\<exists>c'. sbp_read E stack (cluster_peer E stack junk ctl) fd ub len c w
      = Some (int (total_len es), patch 0 (concat ds) ub, c', w)
    \<and> fds_get c' fd = Some (Some (d\<lparr>fd_offset := fd_offset d + word_of_nat (total_len es)\<rparr>)) \<and> same_login c c'"
proof -
  let ?P = "cluster_peer E stack junk ctl"
  obtain a c1 where c1: "block_list E stack ?P d len (lit ''READ'') c w
      = Some (Some (a @ concat (map enc_bent es) @ [0], length a, length es), c1, w)" "same_session c c1"
    using block_list_answered [where ctl = ctl and meth = "lit ''READ''" and d = d and len = len and junk = junk and w = w, OF c _ ctl]
      length_methods by auto
  obtain c2 where c2: "read_blocks E stack ?P (fd_auth_code d) (a @ concat (map enc_bent es) @ [0]) (length a) (length es) 0 ub c1 w
      = Some (int (total_len es), patch 0 (concat ds) ub, c2, w)" "same_session c1 c2"
    using cluster.read_blocks_offered [OF cluster.ready_same [OF c c1(2)] es(1,2), of 0 ub junk ctl a "[0]"] es(3)
    by auto
  have "fds_get c2 fd = Some (Some d)" using fd(1) fds_get_same same_session_trans [OF c1(2) c2(2)] by simp
  then obtain c3 where "advance fd (int (total_len es)) c2 = Some c3" "same_login c2 c3"
    "fds_get c3 fd = Some (Some (d\<lparr>fd_offset := fd_offset d + word_of_nat (total_len es)\<rparr>))"
    using advance_moves by blast
  moreover have "\<not> fd < 0" using fd(1) by (simp add: fds_get_def split: if_splits)
  moreover have "same_login c c2" using same_session_trans [OF c1(2) c2(2)] by (rule same_login_session)
  then have "same_login c c3" using \<open>same_login c2 c3\<close> by (rule same_login_trans)
  ultimately show ?thesis using fd c1(1) c2(1) by (simp add: sbp_read_def)
qed

text \<open>
  C18. \<open>sbp_read\<close> as a whole: for an open file, when the control node answers the request for
  the descriptor's position and the length with a list of entries, as \<open>__sendrep\<close> sends it,
  each of whose blocks some of its nodes hold -- the others may be down or miss the block, and are
  passed over, but may not hold other bytes in the range --, \<open>sbp_read\<close> returns the number of
  bytes the entries stand for, puts them at the start of the buffer, and moves the descriptor's
  offset on by this number. The entries have block numbers below 10, which a data node can
  name (larger ones overrun an array of the node), and positive lengths below 2 GiB; there are less
  than 2 GiB of them, the buffer has room for the bytes, and the session is in order (\<open>session_ok\<close>:
  user, password and code fit, no \<open>malloc\<close> fails, and what is left on the stack where a
  reply is received holds no line feed).
\<close>

theorem sbp_read_delivers:
  assumes c: "session_ok E stack (fd_auth_code d) c"
    and fd: "fds_get c fd = Some (Some d)" "fd_type d = T_FILE"
    and ctl: "ctl (head_bytes (list_request (lit ''READ'') d len c)) \<in> list_answers es" "32 * length es < 2 ^ 31"
    and es: "\<forall>e \<in> set es. nameable e" "list_all2 (offers (node_block w)) es ds" "total_len es \<le> length ub"
  shows "\<exists>c'. sbp_read E stack (cluster_peer E stack junk ctl) fd ub len c w
      = Some (int (total_len es), patch 0 (concat ds) ub, c', w)
    \<and> fds_get c' fd = Some (Some (d\<lparr>fd_offset := fd_offset d + word_of_nat (total_len es)\<rparr>))"
  using sbp_read_whole [where ctl = ctl, OF assms] by blast

theorem sbp_read_delivers_witness:
  "\<exists>c'. sbp_read calm_env (replicate 4096 7)
      (cluster_peer calm_env (replicate 4096 7) [] (\<lambda>_. list_answer [small_entry])) 0 [0, 0, 9] 3 small_client small_cluster
      = Some (2, patch 0 [2, 3] [0, 0, 9], c', small_cluster)
    \<and> fds_get c' 0 = Some (Some (small_fd\<lparr>fd_offset := 2\<rparr>))"
proof -
  have fd: "fds_get small_client 0 = Some (Some small_fd)" "fd_type small_fd = T_FILE"
    "fd_auth_code small_fd = []" "fd_offset small_fd = 0"
    by (simp_all add: small_client_def init_client_def fds_get_def small_fd_def new_fd_def MAX_FILE_OPEN_def)
  show ?thesis
    using sbp_read_delivers [of calm_env "replicate 4096 7" small_fd small_client, OF _ fd(1,2),
        of "\<lambda>_. list_answer [small_entry]" 3 "[small_entry]" small_cluster "[[2, 3]]" "[0, 0, 9]" "[]"]
      small_session small_nameable small_offers fd list_answer_sent by (simp add: small_entry_def)
qed

lemma sbp_write_whole:
  assumes c: "session_ok E stack (fd_auth_code d) c"
    and fd: "fds_get c fd = Some (Some d)" "fd_type d = T_FILE"
    and ctl: "ctl (head_bytes (list_request (lit ''WRITE'') d len c)) \<in> list_answers es" "32 * length es < 2 ^ 31"
    and es: "\<forall>e \<in> set es. nameable e \<and> writable (node_block w) e (nodes_of e)" "total_len es \<le> length ub"
  shows "\<exists>c' w'. sbp_write E stack (cluster_peer E stack junk ctl) fd ub len c w = Some (int (total_len es), c', w')
    \<and> node_block w' = stored_blocks (node_block w) es ub 0
    \<and> fds_get c' fd = Some (Some (d\<lparr>fd_offset := fd_offset d + word_of_nat (total_len es)\<rparr>)) \<and> same_login c c'"
proof -
  let ?P = "cluster_peer E stack junk ctl"
  obtain a c1 where c1: "block_list E stack ?P d len (lit ''WRITE'') c w
      = Some (Some (a @ concat (map enc_bent es) @ [0], length a, length es), c1, w)" "same_session c c1"
    using block_list_answered [where ctl = ctl and meth = "lit ''WRITE''" and d = d and len = len and junk = junk and w = w, OF c _ ctl]
      length_methods by auto
  obtain c2 w2 where c2: "write_blocks E stack ?P (fd_auth_code d) (a @ concat (map enc_bent es) @ [0]) (length a) (length es) 0 ub c1 w
      = Some (int (total_len es), c2, w2)" "same_session c1 c2" "node_block w2 = stored_blocks (node_block w) es ub 0"
    using cluster.write_blocks_all [OF cluster.ready_same [OF c c1(2)] es(1), of 0 ub junk ctl a "[0]"] es(2)
    by auto
  have "fds_get c2 fd = Some (Some d)" using fd(1) fds_get_same same_session_trans [OF c1(2) c2(2)] by simp
  then obtain c3 where "advance fd (int (total_len es)) c2 = Some c3" "same_login c2 c3"
    "fds_get c3 fd = Some (Some (d\<lparr>fd_offset := fd_offset d + word_of_nat (total_len es)\<rparr>))"
    using advance_moves by blast
  moreover have "\<not> fd < 0" using fd(1) by (simp add: fds_get_def split: if_splits)
  moreover have "same_login c c2" using same_session_trans [OF c1(2) c2(2)] by (rule same_login_session)
  then have "same_login c c3" using \<open>same_login c2 c3\<close> by (rule same_login_trans)
  ultimately show ?thesis using fd c1(1) c2(1,3) by (simp add: sbp_write_def)
qed

text \<open>
  \<open>sbp_write\<close> as a whole: for an open file, when the control node answers with entries
  all of whose data nodes hold their block, \<open>sbp_write\<close> returns the number of bytes the
  entries stand for, the nodes hold the bytes of the buffer in these places, and the offset
  of the descriptor has moved on by this number.
\<close>

lemma sbp_write_stores:
  assumes c: "session_ok E stack (fd_auth_code d) c"
    and fd: "fds_get c fd = Some (Some d)" "fd_type d = T_FILE"
    and ctl: "ctl (head_bytes (list_request (lit ''WRITE'') d len c)) \<in> list_answers es" "32 * length es < 2 ^ 31"
    and es: "\<forall>e \<in> set es. nameable e \<and> writable (node_block w) e (nodes_of e)" "total_len es \<le> length ub"
  shows "\<exists>c' w'. sbp_write E stack (cluster_peer E stack junk ctl) fd ub len c w = Some (int (total_len es), c', w')
    \<and> node_block w' = stored_blocks (node_block w) es ub 0
    \<and> fds_get c' fd = Some (Some (d\<lparr>fd_offset := fd_offset d + word_of_nat (total_len es)\<rparr>))"
  using sbp_write_whole [where ctl = ctl, OF assms] by blast

end
