(* ===== verification/EndToEnd.thy ===== *)
theory EndToEnd
  imports LibCfs CfsBlocksSpec ClusterSpec
begin

text \<open>
  From the file system image of the control node to the buffer of the client: the send blocks
  of \<open>c_read\<close> are, byte for byte, the block entries of \<open>libc/read_write.c\<close>; the Python program
  in between only takes nodes out of them; and what \<open>sbp_read\<close> collects from the data nodes
  is the range of the file.
\<close>

section \<open>Send blocks are block entries\<close>

definition reports :: "sendblock \<Rightarrow> block_entry \<Rightarrow> bool" where
  "reports s e \<longleftrightarrow> be_block_id e = sd_block_num s \<and> be_offset e = sd_offset s
     \<and> be_length e = sd_length s \<and> be_d_nodes e = sd_ip s"

lemma sendblock_entry:
  assumes "length p = 4"
  shows "\<exists>e. enc_sendblock s @ p = enc_bent e \<and> reports s e"
proof -
  define e where "e = \<lparr>be_block_id = sd_block_num s, be_offset = sd_offset s, be_length = sd_length s,
      be_d_nodes = sd_ip s, be_preserved = dec_w p\<rparr>"
  have "enc_nodes (sd_ip s) = enc_ips (sd_ip s)" by (simp add: enc_nodes_def enc_ips_def)
  moreover have "enc_w 4 (dec_w p :: u32_t) = p" using assms by (simp add: enc_dec_w)
  ultimately have "enc_sendblock s @ p = enc_bent e" by (simp add: e_def enc_sendblock_def enc_bent_def)
  then show ?thesis by (intro exI [of _ e]) (simp add: e_def reports_def)
qed

lemma length_enc_sendblock: "length (enc_sendblock s) = 28"
  by (simp add: enc_sendblock_def)

lemma put_sendblocks_entries:
  "length a = 32 * i \<Longrightarrow> 32 * length ss \<le> length b \<Longrightarrow>
    \<exists>es. put_sendblocks (a @ b) i ss = Some (a @ concat (map enc_bent es) @ drop (32 * length ss) b)
      \<and> list_all2 reports ss es"
proof (induction ss arbitrary: a b i)
  case (Cons s ss)
  let ?p = "take 4 (drop 28 b)" and ?b = "drop 32 b"
  have p: "length ?p = 4" using Cons.prems(2) by simp
  obtain e where e: "enc_sendblock s @ ?p = enc_bent e" "reports s e" using sendblock_entry [OF p] by blast
  have "drop 28 b = ?p @ ?b" using append_take_drop_id [of 4 "drop 28 b"] by simp
  then have "wr (a @ b) (32 * i) (enc_sendblock s) = Some (a @ (enc_sendblock s @ ?p) @ ?b)"
    using Cons.prems by (simp add: wr_def length_enc_sendblock)
  moreover have pre: "length (a @ enc_bent e) = 32 * Suc i" "32 * length ss \<le> length ?b"
    using Cons.prems by (simp_all add: bent.len_enc)
  obtain es where "put_sendblocks ((a @ enc_bent e) @ ?b) (Suc i) ss
      = Some ((a @ enc_bent e) @ concat (map enc_bent es) @ drop (32 * length ss) ?b)" "list_all2 reports ss es"
    using Cons.IH [OF pre] by blast
  ultimately show ?case
    using e by (intro exI [of _ "e # es"]) (simp add: add.commute)
qed auto

lemma entries_inj: "concat (map enc_bent es) = concat (map enc_bent es') \<Longrightarrow> es = es'"
proof (induction es arbitrary: es')
  case Nil
  then show ?case by (cases es') (auto dest: arg_cong [of _ _ length] simp: bent.len_enc)
next
  case (Cons e es)
  show ?case
  proof (cases es')
    case Nil
    then show ?thesis using arg_cong [OF Cons.prems, of length] by (simp add: bent.len_enc)
  next
    case Cons': (Cons e' es'')
    then have "enc_bent e = enc_bent e' \<and> concat (map enc_bent es) = concat (map enc_bent es'')"
      using Cons.prems by (simp add: append_eq_append_conv bent.len_enc)
    then show ?thesis using Cons.IH Cons' by (simp add: bent.enc_inj)
  qed
qed

lemma blocks_array_entries:
  assumes n: "length ss \<le> unat len div BS + 2" and E: "malloc_ok E"
  shows "\<exists>blocks es. blocks_array E len ss = Some blocks
    \<and> blocks_result (int (length ss)) blocks = Some (if es = [] then PyNone else PyBytes (concat (map enc_bent es)))
    \<and> list_all2 reports ss es"
proof -
  have u: "unat (len div BLOCKSIZE) = unat len div BS" by (simp add: unat_div)
  have b: "unat len div BS < 2 ^ 40" using unat_lt_exp [of len] by simp
  then have "unat (len div BLOCKSIZE + 2) = unat len div BS + 2" using u by (subst unat_add_fit) simp_all
  then have sz: "unat ((len div BLOCKSIZE + 2) * 32) = (unat len div BS + 2) * 32"
    using b by (subst unat_mult_fit) simp_all
  obtain arr where arr: "malloc E (unat ((len div BLOCKSIZE + 2) * 32)) = Some arr"
    "length arr = (unat len div BS + 2) * 32"
    using E unfolding sz by (rule malloc_okE)
  obtain es where es: "put_sendblocks arr 0 ss = Some (concat (map enc_bent es) @ drop (32 * length ss) arr)"
    "list_all2 reports ss es"
    using put_sendblocks_entries [of "[]" 0 ss arr] n arr(2) by auto
  have l: "length es = length ss" using es(2) by (simp add: list_all2_lengthD)
  then have "length (concat (map enc_bent es)) = 32 * length ss" by (simp add: length_entries)
  then have "rd (concat (map enc_bent es) @ z) 0 (32 * length ss) = Some (concat (map enc_bent es))" for z
    by (simp add: rd_def)
  moreover have "blocks_array E len ss = Some (concat (map enc_bent es) @ drop (32 * length ss) arr)"
    unfolding blocks_array_def arr(1) by (simp add: es(1))
  ultimately show ?thesis
    using es(2) l by (intro exI [of _ "concat (map enc_bent es) @ drop (32 * length ss) arr"] exI [of _ es])
      (auto simp: blocks_result_def)
qed

lemma wrap_c_read_entries:
  assumes r: "c_read E dt fb offset len uid = Some (int (length ss), ss)"
    and n: "length ss \<le> unat len div BS + 2" and E: "malloc_ok E"
  shows "\<exists>es. wrap_c_read E dt fb offset len uid
      = Some (if es = [] then PyNone else PyBytes (concat (map enc_bent es))) \<and> list_all2 reports ss es"
proof -
  obtain blocks es where "blocks_array E len ss = Some blocks"
    "blocks_result (int (length ss)) blocks = Some (if es = [] then PyNone else PyBytes (concat (map enc_bent es)))"
    "list_all2 reports ss es"
    using blocks_array_entries [OF n E] by blast
  then show ?thesis by (intro exI [of _ es]) (simp add: wrap_c_read_def r)
qed

lemma wrap_c_write_entries:
  assumes w: "c_write E dt ctr fb offset len uid (rev ns) (int (length ns)) = Some (int (length ss), ss, dt', ctr')"
    and n: "length ss \<le> unat len div BS + 2" and E: "malloc_ok E" and ns: "ns \<noteq> []"
  shows "\<exists>es. wrap_c_write E dt ctr fb offset len (comma_join (map get_dnode_hostname ns)) uid
      = Some (if es = [] then PyNone else PyBytes (concat (map enc_bent es)), dt', ctr') \<and> list_all2 reports ss es"
proof -
  let ?s = "comma_join (map get_dnode_hostname ns)"
  obtain blocks es where b: "blocks_array E len ss = Some blocks"
    "blocks_result (int (length ss)) blocks = Some (if es = [] then PyNone else PyBytes (concat (map enc_bent es)))"
    "list_all2 reports ss es"
    using blocks_array_entries [OF n E] by blast
  have s: "comma_split ?s = map get_dnode_hostname ns"
    using comma_split_join [of "map get_dnode_hostname ns"] ns no_comma_hostname by simp
  have m: "malloc E k = None \<longleftrightarrow> False" for k using E by (rule malloc_okE [of _ k]) simp
  show ?thesis
    using b w by (intro exI [of _ es]) (simp add: wrap_c_write_def copied_def s fill_ips_hostnames m)
qed

section \<open>Ranges of the file\<close>

lemma nth_block:
  "\<forall>x \<in> set xs. length x = BS \<Longrightarrow> k < length xs \<Longrightarrow> xs ! k = take BS (drop (k * BS) (concat xs))"
proof (induction xs arbitrary: k)
  case (Cons x xs)
  show ?case
  proof (cases k)
    case 0
    then show ?thesis using Cons.prems(1) by simp
  next
    case (Suc j)
    have "drop (k * BS) (concat (x # xs)) = drop (j * BS) (concat xs)" using Cons.prems(1) Suc by simp
    then show ?thesis using Cons.IH [of j] Cons.prems Suc by simp
  qed
qed simp

lemma concat_parts:
  assumes xs: "\<forall>x \<in> set xs. length x = BS" and o': "o' < BS" "o' \<le> e"
  shows "0 < n \<Longrightarrow> n \<le> length xs \<Longrightarrow>
    concat (map (\<lambda>i. take (part_len o' e i) (drop (part_off o' i) (xs ! i))) [0..<n])
      = take (min e (n * BS) - o') (drop o' (concat xs))"
proof (induction n)
  case (Suc n)
  show ?case
  proof (cases "n = 0")
    case True
    have "0 < length xs" using Suc.prems(2) by linarith
    then have "xs ! 0 = take BS (concat xs)" using nth_block [OF xs, of 0] by simp
    then show ?thesis using o' True by (simp add: part_len_def part_off_def drop_take min_def)
  next
    case False
    let ?C = "concat xs"
    have n: "BS \<le> n * BS" using False by simp
    have x: "xs ! n = take BS (drop (n * BS) ?C)" using nth_block [OF xs, of n] Suc.prems(2) by simp
    have o: "part_off o' n = 0" "part_len o' e n = min e (Suc n * BS) - n * BS" "o' \<le> n * BS"
      using n o'(1) by (simp_all add: part_off_def part_len_def max_def)
    let ?q = "min e (Suc n * BS) - n * BS"
    have "?q \<le> BS" by simp
    then have "take (part_len o' e n) (drop (part_off o' n) (xs ! n)) = take ?q (drop (n * BS) ?C)"
      unfolding o(1,2) x by (simp add: min_def)
    moreover have "take (min e (n * BS) - o') (drop o' ?C) @ take ?q (drop (n * BS) ?C)
        = take (min e (Suc n * BS) - o') (drop o' ?C)"
    proof (cases "e \<le> n * BS")
      case True
      then show ?thesis by (simp add: min_def)
    next
      case False
      then have "min e (n * BS) - o' = n * BS - o'" "drop (n * BS) ?C = drop (n * BS - o') (drop o' ?C)"
        "min e (Suc n * BS) - o' = (n * BS - o') + ?q"
        using o(3) by (simp_all add: min_def)
      then show ?thesis by (simp only: take_add)
    qed
    ultimately show ?thesis using Suc.IH False Suc.prems(2) by simp
  qed
qed simp

section \<open>The data nodes serve the entries\<close>

text \<open>The control node's Python program may take nodes out of an entry, not change its range.\<close>

definition same_range :: "block_entry \<Rightarrow> block_entry \<Rightarrow> bool" where
  "same_range e e' \<longleftrightarrow> be_block_id e' = be_block_id e \<and> be_offset e' = be_offset e \<and> be_length e' = be_length e"

text \<open>Some node of the entry has the block, and those that have it have the contents \<open>x\<close>.\<close>

definition serves :: "cluster \<Rightarrow> block_entry \<Rightarrow> buf \<Rightarrow> bool" where
  "serves w e x \<longleftrightarrow> some_copy (node_block w) e (nodes_of e)
     \<and> (\<forall>n \<in> set (nodes_of e). n \<noteq> 0 \<longrightarrow> node_block w n (be_block_id e) \<in> {None, Some x})"

lemma serves_offers:
  assumes "serves w e x" and "inside e x"
  shows "offers (node_block w) e (piece e x)"
  using assms by (auto simp: serves_def offers_def agree_def)

definition part :: "nat \<Rightarrow> nat \<Rightarrow> buf list \<Rightarrow> nat \<Rightarrow> buf" where
  "part o' e xs i = take (part_len o' e i) (drop (part_off o' i) (xs ! i))"

lemma part_bounds:
  assumes "o' < BS" and "o' < e" and "i * BS < e"
  shows "part_off o' i + part_len o' e i \<le> BS" and "0 < part_len o' e i"
proof -
  have i: "i = 0 \<or> BS \<le> i * BS" by (cases i) simp_all
  then show "part_off o' i + part_len o' e i \<le> BS"
    using assms by (auto simp: part_off_def part_len_def max_def min_def)
  show "0 < part_len o' e i"
    using i assms by (auto simp: part_len_def max_def min_def)
qed

lemma entries_offered:
  assumes sl: "length sl = ceil_bs e" "length sl \<le> length bs" "e < 2 ^ 54"
    and parts: "\<forall>i<length sl. sd_block_num (sl ! i) = bl_block_num (bs ! i)
        \<and> unat (sd_offset (sl ! i)) = part_off o' i \<and> unat (sd_length (sl ! i)) = part_len o' e i"
    and o': "o' < BS" "o' < e"
    and es: "list_all2 reports sl es" "list_all2 same_range es es'"
    and ids: "\<forall>b \<in> set bs. unat (bl_block_num b) < 10"
    and xs: "length xs = length bs" "\<forall>x \<in> set xs. length x = BS" "\<forall>i<length es'. serves w (es' ! i) (xs ! i)"
  shows "list_all2 (offers (node_block w)) es' (map (part o' e xs) [0..<length sl])"
    and "\<forall>e \<in> set es'. nameable e" and "map len_of es' = map (\<lambda>s. unat (sd_length s)) sl"
proof -
  have l: "length es = length sl" "length es' = length sl"
    using es by (simp_all add: list_all2_lengthD)
  have at: "be_block_id (es' ! i) = bl_block_num (bs ! i)" "unat (be_offset (es' ! i)) = part_off o' i"
    "be_length (es' ! i) = sd_length (sl ! i)" "len_of (es' ! i) = part_len o' e i" if "i < length sl" for i
  proof -
    have "reports (sl ! i) (es ! i)" "same_range (es ! i) (es' ! i)"
      using es l that by (auto simp: list_all2_conv_all_nth)
    then show "be_block_id (es' ! i) = bl_block_num (bs ! i)" "unat (be_offset (es' ! i)) = part_off o' i"
      "be_length (es' ! i) = sd_length (sl ! i)" "len_of (es' ! i) = part_len o' e i"
      using parts that by (simp_all add: reports_def same_range_def)
  qed
  have before: "i * BS < e" if "i < length sl" for i
  proof -
    have "(length sl - 1) * BS < e" using ceil_bs_bounds(2) [of e] o'(2) sl(1) by simp
    moreover have "i * BS \<le> (length sl - 1) * BS" using that by (intro mult_le_mono1) simp
    ultimately show ?thesis by simp
  qed
  have off: "offers (node_block w) (es' ! i) (part o' e xs i)" if i: "i < length sl" for i
  proof -
    have "xs ! i \<in> set xs" using i sl(2) xs(1) by (intro nth_mem) simp
    then have "inside (es' ! i) (xs ! i)"
      using at [OF i] part_bounds(1) [OF o' before [OF i]] xs(2) by (simp add: inside_def)
    moreover have "serves w (es' ! i) (xs ! i)" using xs(3) i l by simp
    ultimately have "offers (node_block w) (es' ! i) (piece (es' ! i) (xs ! i))" by (intro serves_offers)
    moreover have "piece (es' ! i) (xs ! i) = part o' e xs i" using at [OF i] by (simp add: part_def piece_def)
    ultimately show ?thesis by simp
  qed
  then show "list_all2 (offers (node_block w)) es' (map (part o' e xs) [0..<length sl])"
    by (simp add: list_all2_conv_all_nth l)
  have "nameable (es' ! i)" if i: "i < length sl" for i
  proof -
    have "bs ! i \<in> set bs" using i sl(2) by (intro nth_mem) simp
    then show ?thesis
      using at [OF i] ids part_bounds [OF o' before [OF i]] by (simp add: nameable_def del: unat_gt_0)
  qed
  then show "\<forall>e \<in> set es'. nameable e" by (metis in_set_conv_nth l(2))
  show "map len_of es' = map (\<lambda>s. unat (sd_length s)) sl"
    by (rule nth_equalityI) (simp_all add: l at)
qed

section \<open>A node with a file's blocks\<close>

text \<open>The blocks 7 and 9 of the sample disk on node 2, and a client with the file open at 10.\<close>

definition fill :: "u8_t \<Rightarrow> buf" where "fill x = replicate BS x"

definition file_node :: blockman where
  "file_node = small_node\<lparr>bm_files := [block_path 7 \<mapsto> fill 70, block_path 9 \<mapsto> fill 90]\<rparr>"

definition file_cluster :: cluster where
  "file_cluster = \<lparr>cl_mtu = 1459, cl_nodes = [2 \<mapsto> file_node]\<rparr>"

definition file_fd :: sbp_filedesc where "file_fd = small_fd\<lparr>fd_offset := 10\<rparr>"

definition file_client :: client where
  "file_client = init_client\<lparr>fds := (fds init_client)[0 := Some file_fd]\<rparr>"

lemma length_fill: "length (fill x) = BS"
  by (simp only: fill_def length_replicate)

lemma file_holdings: "node_block file_cluster n = (if n = 2 then [7 \<mapsto> fill 70, 9 \<mapsto> fill 90] else Map.empty)"
  by (auto simp: node_block_def file_cluster_def block_of_def file_node_def fun_eq_iff block_path_inj)

lemma file_session: "session_ok calm_env (replicate 4096 7) (fd_auth_code file_fd) file_client"
proof -
  have "fd_auth_code file_fd = []" by (simp add: file_fd_def small_fd_def new_fd_def)
  then show ?thesis using small_session by (simp add: session_ok_def file_client_def small_client_def)
qed

lemma file_open: "fds_get file_client 0 = Some (Some file_fd)" "fd_type file_fd = T_FILE" "fd_offset file_fd = 10"
  by (simp_all add: file_client_def init_client_def fds_get_def file_fd_def small_fd_def new_fd_def MAX_FILE_OPEN_def)

lemma file_entries:
  "\<exists>es. wrap_c_read calm_env blk_disk 2 10 16777216 5 = Some (PyBytes (concat (map enc_bent es)))
    \<and> (\<forall>i<length es. serves file_cluster (es ! i) ([fill 70, fill 90] ! i))"
proof -
  have m: "fm_flen blk_meta = 16777316" by (simp add: blk_meta_def)
  obtain sl where sl: "c_read calm_env blk_disk 2 10 16777216 5 = Some (int (length sl), sl)"
    "length sl = 2" "length sl \<le> 3"
    "\<forall>i<length sl. sd_block_num (sl ! i) = bl_block_num (blk_list ! i) \<and> sd_ip (sl ! i) = bl_ip (blk_list ! i)"
    using c_read_parts [OF blk_disk_wf calm_env_ok blk_disk_blocks, of 10 16777216 5] m
    by (auto simp: word_le_nat_alt ceil_bs_def)
  have "length sl \<le> unat (16777216 :: u64_t) div BS + 2" using sl(3) by simp
  then obtain es where es: "wrap_c_read calm_env blk_disk 2 10 16777216 5
      = Some (if es = [] then PyNone else PyBytes (concat (map enc_bent es)))" "list_all2 reports sl es"
    using wrap_c_read_entries [OF sl(1) _ calm_env_ok] by blast
  have l: "length es = 2" using es(2) sl(2) by (simp add: list_all2_lengthD)
  have "reports (sl ! 0) (es ! 0)" "reports (sl ! 1) (es ! 1)"
    using es(2) sl(2) l by (simp_all add: list_all2_conv_all_nth)
  then have at: "be_block_id (es ! 0) = 7" "nodes_of (es ! 0) = [1, 2, 3]"
    "be_block_id (es ! 1) = 9" "nodes_of (es ! 1) = [2, 3, 1]"
    using sl(2,4) by (simp_all add: reports_def blk_list_def nodes_of_def)
  then have "serves file_cluster (es ! 0) (fill 70)" "serves file_cluster (es ! 1) (fill 90)"
    by (simp_all add: serves_def file_holdings)
  then have "serves file_cluster (es ! i) ([fill 70, fill 90] ! i)" if "i < 2" for i
    using that by (cases i) (auto simp: less_Suc_eq numeral_2_eq_2)
  then show ?thesis using es(1) l by (intro exI [of _ es]) auto
qed

section \<open>A file, read\<close>

text \<open>The block list of the control node, as it reaches the client.\<close>

lemma wrap_c_read_gives:
  assumes disk: "wf_geom dt" "malloc_ok Ec" "file_blocks dt fb m bs" "unat (fm_flen m) < 2 ^ 48"
    and off: "unat offset < BS" "unat offset < unat (fm_flen m)" "0 < len"
    and e: "e = min (unat offset + unat len) (unat (fm_flen m))"
  shows "\<exists>es sl. wrap_c_read Ec dt fb offset len uid = Some (PyBytes (concat (map enc_bent es)))
    \<and> list_all2 reports sl es \<and> length sl = ceil_bs e \<and> length sl \<le> length bs
    \<and> (\<forall>i<length sl. sd_block_num (sl ! i) = bl_block_num (bs ! i) \<and> sd_ip (sl ! i) = bl_ip (bs ! i)
        \<and> unat (sd_offset (sl ! i)) = part_off (unat offset) i \<and> unat (sd_length (sl ! i)) = part_len (unat offset) e i)
    \<and> sum_list (map (\<lambda>s. unat (sd_length s)) sl) = min (unat len) (unat (fm_flen m) - unat offset)"
proof -
  have fl: "offset \<le> fm_flen m" "unat (fm_flen m) < 2 ^ 54"
    using off(2) disk(4) by (simp_all add: word_le_nat_alt)
  obtain sl where sl: "c_read Ec dt fb offset len uid = Some (int (length sl), sl)" "length sl \<le> length bs"
    "length sl = ceil_bs e" "length sl \<le> unat len div BS + 2"
    "\<forall>i<length sl. sd_block_num (sl ! i) = bl_block_num (bs ! i) \<and> sd_ip (sl ! i) = bl_ip (bs ! i)
        \<and> unat (sd_offset (sl ! i)) = part_off (unat offset) i \<and> unat (sd_length (sl ! i)) = part_len (unat offset) e i"
    "sum_list (map (\<lambda>s. unat (sd_length s)) sl) = min (unat len) (unat (fm_flen m) - unat offset)"
    using c_read_parts [OF disk(1-3) fl off(1), of len uid, folded e] by blast
  obtain es where es: "wrap_c_read Ec dt fb offset len uid
      = Some (if es = [] then PyNone else PyBytes (concat (map enc_bent es)))" "list_all2 reports sl es"
    using wrap_c_read_entries [OF sl(1,4) disk(2)] by blast
  have "e \<noteq> 0" using off(2,3) e by (auto simp: word_less_nat_alt min_def)
  then have "es \<noteq> []" using es(2) sl(3) ceil_bs_bounds(3) [of e] by auto
  then show ?thesis using sl es by (intro exI [of _ es] exI [of _ sl]) simp
qed

lemma wrap_c_read_parts:
  assumes "wf_geom dt" "malloc_ok Ec" "file_blocks dt fb m bs" "unat (fm_flen m) < 2 ^ 48"
    and "unat offset < BS" "unat offset < unat (fm_flen m)" "0 < len"
    and "e = min (unat offset + unat len) (unat (fm_flen m))"
    and bindings: "wrap_c_read Ec dt fb offset len uid = Some (PyBytes (concat (map enc_bent es)))"
  shows "\<exists>sl. length sl = ceil_bs e \<and> length sl \<le> length bs \<and> list_all2 reports sl es
    \<and> (\<forall>i<length sl. sd_block_num (sl ! i) = bl_block_num (bs ! i) \<and> sd_ip (sl ! i) = bl_ip (bs ! i)
        \<and> unat (sd_offset (sl ! i)) = part_off (unat offset) i \<and> unat (sd_length (sl ! i)) = part_len (unat offset) e i)
    \<and> sum_list (map (\<lambda>s. unat (sd_length s)) sl) = min (unat len) (unat (fm_flen m) - unat offset)"
proof -
  obtain es1 sl where sl: "wrap_c_read Ec dt fb offset len uid = Some (PyBytes (concat (map enc_bent es1)))"
    "list_all2 reports sl es1" "length sl = ceil_bs e" "length sl \<le> length bs"
    "\<forall>i<length sl. sd_block_num (sl ! i) = bl_block_num (bs ! i) \<and> sd_ip (sl ! i) = bl_ip (bs ! i)
        \<and> unat (sd_offset (sl ! i)) = part_off (unat offset) i \<and> unat (sd_length (sl ! i)) = part_len (unat offset) e i"
    "sum_list (map (\<lambda>s. unat (sd_length s)) sl) = min (unat len) (unat (fm_flen m) - unat offset)"
    using wrap_c_read_gives [OF assms(1-8), of uid] by blast
  moreover have "es1 = es" using sl(1) bindings by (auto dest: entries_inj)
  ultimately show ?thesis by blast
qed

lemma ceil_bs_small: "e < 2 ^ 48 \<Longrightarrow> ceil_bs e < 2 ^ 25"
proof -
  assume "e < 2 ^ 48"
  then have "e + (BS - 1) < 2 ^ 25 * BS" by simp
  then show ?thesis unfolding ceil_bs_def by (intro less_mult_imp_div_less)
qed

lemma file_read_whole:
  assumes disk: "wf_geom dt" "malloc_ok Ec" "file_blocks dt fb m bs" "unat (fm_flen m) < 2 ^ 48"
    and off: "unat (fd_offset d) < BS" "fd_offset d < fm_flen m" "0 < len"
    and bindings: "wrap_c_read Ec dt fb (fd_offset d) len uid = Some (PyBytes (concat (map enc_bent es)))"
      "list_all2 same_range es es'"
    and ctl: "ctl (head_bytes (list_request (lit ''READ'') d len c)) \<in> list_answers es'"
    and nodes: "\<forall>b \<in> set bs. unat (bl_block_num b) < 10" "length xs = length bs" "\<forall>x \<in> set xs. length x = BS"
      "\<forall>i<length es'. serves w (es' ! i) (xs ! i)"
    and c: "session_ok E stack (fd_auth_code d) c" "fds_get c fd = Some (Some d)" "fd_type d = T_FILE"
    and n: "n = min (unat len) (unat (fm_flen m) - unat (fd_offset d))" "n \<le> length ub"
  shows "\<exists>c'. sbp_read E stack (cluster_peer E stack junk ctl) fd ub len c w
      = Some (int n, patch 0 (take n (drop (unat (fd_offset d)) (concat xs))) ub, c', w)
    \<and> fds_get c' fd = Some (Some (d\<lparr>fd_offset := fd_offset d + word_of_nat n\<rparr>)) \<and> same_login c c'"
proof -
  let ?o = "unat (fd_offset d)"
  define e where "e = min (?o + unat len) (unat (fm_flen m))"
  have fl: "?o < unat (fm_flen m)" "0 < unat len"
    using off(2,3) by (simp_all add: word_less_nat_alt)
  have e: "?o < e" "e < 2 ^ 48" "e - ?o = n"
    using fl disk(4) n(1) by (auto simp: e_def min_def)
  obtain sl where sl: "length sl = ceil_bs e" "length sl \<le> length bs" "list_all2 reports sl es"
    "\<forall>i<length sl. sd_block_num (sl ! i) = bl_block_num (bs ! i)
        \<and> unat (sd_offset (sl ! i)) = part_off ?o i \<and> unat (sd_length (sl ! i)) = part_len ?o e i"
    "sum_list (map (\<lambda>s. unat (sd_length s)) sl) = n"
    using wrap_c_read_parts [OF disk off(1) fl(1) off(3) e_def bindings(1)] n(1) by blast
  have e54: "e < 2 ^ 54" using e(2) by simp
  note offered = entries_offered [OF sl(1,2) e54 sl(4) off(1) e(1) sl(3) bindings(2) nodes]
  have total: "total_len es' = n" using offered(3) sl(5) by simp
  have "length es' = length sl" using sl(3) bindings(2) by (simp add: list_all2_lengthD)
  then have small: "32 * length es' < 2 ^ 31" using sl(1) ceil_bs_small [OF e(2)] by simp
  have "0 < length sl" "length sl \<le> length xs" "e \<le> length sl * BS"
    using ceil_bs_bounds [of e] e(1) sl(1,2) nodes(2) by auto
  then have "concat (map (part ?o e xs) [0..<length sl]) = take n (drop ?o (concat xs))"
    using concat_parts [OF nodes(3) off(1), of e "length sl"] e(1,3) by (simp add: part_def [abs_def])
  then show ?thesis
    using sbp_read_whole [where ctl = ctl and d = d and len = len, OF c ctl small offered(2,1), of ub junk] n(2) total by simp
qed

text \<open>
  C2. A file read from end to end: for an open file at an offset in its first 16 MiB, when
  the control node's image holds the file, below 256 TiB, as a list of blocks, it answers the
  client with the entries that the bindings make of \<open>c_read\<close> -- possibly with nodes taken out of
  them --, as \<open>__sendrep\<close> sends them, and of each block the range touches some remaining node has
  the contents, and none has others, then \<open>sbp_read\<close> returns the number of bytes asked for, cut
  off at the end of the file, has put exactly these bytes of the file (the contents of its
  blocks, one behind the other) at the start of the buffer, and has moved the offset on by this
  number. The blocks of the file have numbers below 10 (those are the ones a data node can
  name; from 10 on it overruns an array), each copy has its full 16 MiB, the session is in order
  (\<open>session_ok\<close>: user, password and code fit, no \<open>malloc\<close> fails, and what is left on the stack
  where a reply is received holds no line feed), and the buffer has room for the bytes.
\<close>

theorem file_read_end_to_end:
  assumes disk: "wf_geom dt" "malloc_ok Ec" "file_blocks dt fb m bs" "unat (fm_flen m) < 2 ^ 48"
    and off: "unat (fd_offset d) < BS" "fd_offset d < fm_flen m" "0 < len"
    and bindings: "wrap_c_read Ec dt fb (fd_offset d) len uid = Some (PyBytes (concat (map enc_bent es)))"
      "list_all2 same_range es es'"
    and ctl: "ctl (head_bytes (list_request (lit ''READ'') d len c)) \<in> list_answers es'"
    and nodes: "\<forall>b \<in> set bs. unat (bl_block_num b) < 10" "length xs = length bs" "\<forall>x \<in> set xs. length x = BS"
      "\<forall>i<length es'. serves w (es' ! i) (xs ! i)"
    and c: "session_ok E stack (fd_auth_code d) c" "fds_get c fd = Some (Some d)" "fd_type d = T_FILE"
    and n: "n = min (unat len) (unat (fm_flen m) - unat (fd_offset d))" "n \<le> length ub"
  shows "\<exists>c'. sbp_read E stack (cluster_peer E stack junk ctl) fd ub len c w
      = Some (int n, patch 0 (take n (drop (unat (fd_offset d)) (concat xs))) ub, c', w)
    \<and> fds_get c' fd = Some (Some (d\<lparr>fd_offset := fd_offset d + word_of_nat n\<rparr>))"
  using file_read_whole [where ctl = ctl, OF assms, of junk] by blast

theorem file_read_end_to_end_witness:
  "\<exists>ctl c'. sbp_read calm_env (replicate 4096 7) (cluster_peer calm_env (replicate 4096 7) [] ctl) 0 (fill 0) 16777216
      file_client file_cluster
    = Some (16777216, patch 0 (take 16777216 (drop 10 (concat [fill 70, fill 90]))) (fill 0), c', file_cluster)
    \<and> fds_get c' 0 = Some (Some (file_fd\<lparr>fd_offset := 16777226\<rparr>))"
proof -
  obtain es where es: "wrap_c_read calm_env blk_disk 2 (fd_offset file_fd) 16777216 5 = Some (PyBytes (concat (map enc_bent es)))"
    "\<forall>i<length es. serves file_cluster (es ! i) ([fill 70, fill 90] ! i)"
    using file_entries by (auto simp: file_open(3))
  have same: "list_all2 same_range es es" by (simp add: list_all2_conv_all_nth same_range_def)
  have flen: "fm_flen blk_meta = 16777316" by (simp add: blk_meta_def)
  have bs: "\<forall>b \<in> set blk_list. unat (bl_block_num b) < 10" "length [fill 70, fill 90] = length blk_list"
    by (simp_all add: blk_list_def)
  have xs: "\<forall>x \<in> set [fill 70, fill 90]. length x = BS" by (simp add: length_fill)
  have "\<exists>c'. sbp_read calm_env (replicate 4096 7)
      (cluster_peer calm_env (replicate 4096 7) [] (\<lambda>_. list_answer es)) 0 (fill 0) 16777216 file_client file_cluster
    = Some (int BS, patch 0 (take BS (drop (unat (fd_offset file_fd)) (concat [fill 70, fill 90]))) (fill 0), c', file_cluster)
    \<and> fds_get c' 0 = Some (Some (file_fd\<lparr>fd_offset := fd_offset file_fd + word_of_nat BS\<rparr>))"
    by (rule file_read_end_to_end [OF blk_disk_wf calm_env_ok blk_disk_blocks _ _ _ _ es(1) same _ bs xs es(2)
          file_session file_open(1,2)])
      (simp_all add: list_answer_sent flen file_open(3) length_fill word_less_nat_alt)
  then show ?thesis by (intro exI [of _ "\<lambda>_. list_answer es"]) (simp add: file_open(3))
qed

end
