(* ===== verification/CfsCreate.thy ===== *)
theory CfsCreate
  imports CfsOpsSpec
begin

text \<open>
  Creating and removing files and directories, against the abstract directories of the
  disk: what the parent holds afterwards, what the new object is, which sectors are freed,
  and that every other file is as before.
\<close>

unbundle bit_operations_syntax

section \<open>A sample disk\<close>

text \<open>
  For the witnesses: sixteen sectors of 512 bytes; the root directory in sector 1 has a file
  \<open>a\<close> (sector 2) and an empty directory \<open>d\<close> (sector 3), user 5 owns the root.
\<close>

definition zeros :: "nat \<Rightarrow> buf" where "zeros n = replicate n 0"

definition pad512 :: "buf \<Rightarrow> buf" where "pad512 b = b @ zeros (512 - length b)"

lemma length_zeros [simp]: "length (zeros n) = n" by (simp add: zeros_def)

lemma length_pad512: "length b \<le> 512 \<Longrightarrow> length (pad512 b) = 512" by (simp add: pad512_def)

definition root_meta :: file_meta where
  "root_meta = mini_meta\<lparr>fm_flen := 137, fm_strbase := 64, fm_strlen := 9\<rparr>"

definition root_entries :: "file_entry list" where
  "root_entries = sample_entries @ [\<lparr>fe_name = 7, fe_fb = 3, fe_type = S_DIR, fe_reserve = 0\<rparr>]"

definition root_pool :: buf where "root_pool = sample_pool @ [100, 0]"

definition root_disk :: dtree where
  "root_disk = \<lparr>sb = \<lparr>sb_fstype = 0, sb_bytsPerSec = 512, sb_totSecNum = 16, sb_fatSecNum = 1,
       sb_fatNum = 14, sb_maxBlockNum = 0\<rparr>,
     sb_pad = zeros 472, fat_p = [ENDSEC, ENDSEC, ENDSEC, ENDSEC] @ replicate 124 FREESEC,
     data = pad512 (enc_entry root_entry) @ pad512 (enc_dir root_meta root_entries root_pool)
       @ pad512 (enc_meta mini_meta)
       @ pad512 (enc_dir (new_dir_meta calm_env 5 1) (dot_entries 3 1) dots_pool) @ zeros 5120,
     dt_size = 8192, in_size = 0, dt_max = 8192, in_max = 0, in_buf = []\<rparr>"

lemma root_lengths: "length (enc_dir root_meta root_entries root_pool) = 137"
    "length (enc_dir (new_dir_meta calm_env 5 1) (dot_entries 3 1) dots_pool) = 101"
    "length (pad512 (enc_entry root_entry)) = 512"
    "length (pad512 (enc_dir root_meta root_entries root_pool)) = 512"
    "length (pad512 (enc_meta mini_meta)) = 512"
    "length (pad512 (enc_dir (new_dir_meta calm_env 5 1) (dot_entries 3 1) dots_pool)) = 512"
  by (simp_all add: length_pad512 root_entries_def root_pool_def sample_entries_def sample_pool_def
      dot_entries_def dots_pool_def)

lemma root_disk_in_use: "in_use root_disk"
  by (auto simp: in_use_def wf_geom_def Let_def root_disk_def nth_append nth_Cons' root_lengths)

lemma root_disk_file: "x \<in> {0, 1, 2, 3} \<Longrightarrow> unat fb = x \<Longrightarrow> file_at root_disk fb [x]"
  using small_neq_ENDSEC [of fb] by (auto simp: file_at_def root_disk_def nth_append nth_Cons')

lemma root_disk_content:
  "content root_disk [1] = pad512 (enc_dir root_meta root_entries root_pool)"
  "content root_disk [2] = pad512 (enc_meta mini_meta)"
  "content root_disk [3] = pad512 (enc_dir (new_dir_meta calm_env 5 1) (dot_entries 3 1) dots_pool)"
  by (simp_all add: sector_def root_disk_def root_lengths)

lemma root_wf: "wf_dir root_meta root_entries root_pool"
  by (auto simp: wf_dir_def root_meta_def mini_meta_def root_entries_def root_pool_def
      sample_entries_def sample_pool_def named_def cstr_at_def)

lemma root_names: "map (ent_name root_pool) root_entries = [[46], [46, 46], [97], [100]]"
  by (simp add: root_entries_def root_pool_def sample_entries_def sample_pool_def ent_name_def cstr_at_def)

lemma root_dir_at: "dir_at root_disk 1 root_meta root_entries root_pool"
proof -
  have "content root_disk [1] = enc_dir root_meta root_entries root_pool @ zeros 375"
    using root_disk_content(1) root_lengths(1) by (simp only: pad512_def) simp
  moreover have "unat (fm_blocks root_meta) = length [1 :: nat]" by (simp add: root_meta_def mini_meta_def)
  ultimately show ?thesis unfolding dir_at_def using root_disk_file [of 1 1] root_wf by fastforce
qed

lemma root_sub_at: "dir_at root_disk 3 (new_dir_meta calm_env 5 1) (dot_entries 3 1) dots_pool"
proof -
  let ?d = "enc_dir (new_dir_meta calm_env 5 1) (dot_entries 3 1) dots_pool"
  have "content root_disk [3] = ?d @ zeros 411"
    using root_disk_content(3) root_lengths(2) by (simp only: pad512_def) simp
  moreover have "unat (fm_blocks (new_dir_meta calm_env 5 1)) = length [3 :: nat]"
    by (simp add: new_dir_meta_def new_meta_def)
  ultimately show ?thesis unfolding dir_at_def using root_disk_file [of 3 3] new_dir_wf by fastforce
qed

lemma root_disk_root: "get_entry (data root_disk) 0 = Some root_entry"
  by (simp add: root_disk_def pad512_def entry.get_enc_head)

lemma root_in_dir: "x \<noteq> 0 \<Longrightarrow> x \<noteq> SLASH \<Longrightarrow> in_dir E root_disk [SLASH, x] uid [x] root_entry"
  using root_disk_root
  by (simp add: in_dir_def get_filename_from_path_def gf_scan.simps cstr_def c_lookup_def root_entry_def Let_def)

lemma root_ents: "ent_of root_pool root_entries [97] = Some \<lparr>fe_name = 5, fe_fb = 2, fe_type = S_FIL, fe_reserve = 0\<rparr>"
    "ent_of root_pool root_entries [100] = Some \<lparr>fe_name = 7, fe_fb = 3, fe_type = S_DIR, fe_reserve = 0\<rparr>"
    "ent_of root_pool root_entries [98] = None"
  by (simp_all add: ent_of_def root_entries_def root_pool_def sample_entries_def sample_pool_def
      ent_name_def cstr_at_def)

lemma root_facts: "unat (dt_size root_disk) = 8192" "fe_fb root_entry = 1" "secsz root_disk = 512"
    "nsec root_disk = 14" "unat (fm_flen root_meta) = 137" "fm_uid root_meta = 5"
    "permission_check 5 root_meta opW \<noteq> 0"
  by (simp_all add: root_disk_def root_entry_def root_meta_def mini_meta_def permission_check_def
      opW_def opR_def mode_defs)

section \<open>Frames over files\<close>

text \<open>All files that share no sector with \<open>xs\<close> keep their chain and contents.\<close>

definition keeps :: "nat list \<Rightarrow> dtree \<Rightarrow> dtree \<Rightarrow> bool" where
  "keeps xs dt dt' \<longleftrightarrow> (\<forall>gb zs. file_at dt gb zs \<and> set zs \<inter> set xs = {} \<longrightarrow>
     file_at dt' gb zs \<and> content dt' zs = content dt zs)"

lemma keeps_upd:
  assumes "upd (set xs \<union> N) dt dt'" and "\<forall>y\<in>N. y \<in> set xs \<or> (y < nsec dt \<longrightarrow> fat_p dt ! y = FREESEC)"
  shows "keeps xs dt dt'"
  unfolding keeps_def
proof (intro allI impI, elim conjE)
  fix gb zs assume z: "file_at dt gb zs" "set zs \<inter> set xs = {}"
  then have "set zs \<inter> (set xs \<union> N) = {}" using assms(2) by (auto simp: file_at_def)
  with upd_file_at [OF assms(1) z(1)] show "file_at dt' gb zs \<and> content dt' zs = content dt zs" by blast
qed

lemma keeps_trans: "keeps [] dt dt1 \<Longrightarrow> keeps xs dt1 dt2 \<Longrightarrow> keeps xs dt dt2"
  unfolding keeps_def by (metis inf_bot_right list.set(1))

lemma keeps_dir: "keeps xs dt dt' \<Longrightarrow> dir_at dt gb m es pool \<Longrightarrow> file_at dt gb zs \<Longrightarrow>
    set zs \<inter> set xs = {} \<Longrightarrow> dir_at dt' gb m es pool"
  unfolding keeps_def dir_at_def by (metis chain_unique file_at_def)

text \<open>The file \<open>fb\<close> has no sector in common with a file of before that lay outside \<open>xs\<close>.\<close>

definition apart :: "nat list \<Rightarrow> u32_t \<Rightarrow> dtree \<Rightarrow> dtree \<Rightarrow> bool" where
  "apart xs fb dt dt' \<longleftrightarrow> (\<forall>gb zs ys. file_at dt gb zs \<and> set zs \<inter> set xs = {} \<and> file_at dt' fb ys \<longrightarrow>
     set zs \<inter> set ys = {})"

lemma apart_new:
  assumes "file_at dt' fb ys" and "\<forall>y\<in>set ys. y \<in> set xs \<or> (y < nsec dt \<longrightarrow> fat_p dt ! y = FREESEC)"
  shows "apart xs fb dt dt'"
  unfolding apart_def
proof (intro allI impI, elim conjE)
  fix gb zs ys' assume z: "file_at dt gb zs" "set zs \<inter> set xs = {}" "file_at dt' fb ys'"
  then have "ys' = ys" using assms(1) chain_unique by (auto simp: file_at_def)
  then show "set zs \<inter> set ys' = {}" using z(1,2) assms(2) by (auto simp: file_at_def)
qed

text \<open>
  No sector is lost: what is in use afterwards is one of the sectors \<open>N\<close>, a sector of the
  file \<open>fb\<close>, or was in use before, outside \<open>xs\<close>.
\<close>

definition no_leak :: "nat list \<Rightarrow> u32_t \<Rightarrow> nat set \<Rightarrow> dtree \<Rightarrow> dtree \<Rightarrow> bool" where
  "no_leak xs fb N dt dt' \<longleftrightarrow> (\<forall>y<nsec dt'. fat_p dt' ! y \<noteq> FREESEC \<longrightarrow>
     y \<in> N \<or> (\<exists>ys. file_at dt' fb ys \<and> y \<in> set ys) \<or> (y < nsec dt \<and> y \<notin> set xs \<and> fat_p dt ! y \<noteq> FREESEC))"

lemma no_leak_upd:
  assumes "upd (set xs \<union> set ys) dt dt'" and "file_at dt' fb ys"
    and "\<forall>x\<in>set xs - set ys. fat_p dt' ! x = FREESEC"
  shows "no_leak xs fb {} dt dt'"
  unfolding no_leak_def
proof (intro allI impI)
  fix y assume y: "y < nsec dt'" "fat_p dt' ! y \<noteq> FREESEC"
  show "y \<in> {} \<or> (\<exists>ys. file_at dt' fb ys \<and> y \<in> set ys) \<or> (y < nsec dt \<and> y \<notin> set xs \<and> fat_p dt ! y \<noteq> FREESEC)"
  proof (cases "y \<in> set ys")
    case False
    then have x: "y \<notin> set xs" using y(2) assms(3) by blast
    have "y < nsec dt" using updD(7) [OF assms(1) _ y(1)] y(2) x False by (meson Un_iff leI)
    then show ?thesis using updD(5) [OF assms(1)] y(2) x False by simp
  qed (use assms(2) in blast)
qed

lemma no_leak_before:
  assumes "no_leak xs fb {} dt1 dt'"
    and "\<And>y. y < nsec dt1 \<Longrightarrow> fat_p dt1 ! y \<noteq> FREESEC \<Longrightarrow> y \<in> N \<or> (y < nsec dt \<and> y \<notin> set zs \<and> fat_p dt ! y \<noteq> FREESEC)"
  shows "no_leak (xs @ zs) fb N dt dt'"
  using assms unfolding no_leak_def by (metis Un_iff empty_iff set_append)

text \<open>A new file \<open>fb\<close> of one sector, entered into the directory \<open>pfb\<close> that had the sectors \<open>xs\<close>.\<close>

definition created :: "dtree \<Rightarrow> dtree \<Rightarrow> u32_t \<Rightarrow> nat list \<Rightarrow> u32_t \<Rightarrow> bool" where
  "created dt dt' pfb xs fb \<longleftrightarrow> wf_geom dt' \<and> bps dt' = bps dt
     \<and> sb_maxBlockNum (sb dt') = sb_maxBlockNum (sb dt) \<and> keeps xs dt dt' \<and> apart xs pfb dt dt'
     \<and> file_at dt' fb [unat fb] \<and> apart [] fb dt dt' \<and> (\<forall>ys. file_at dt' pfb ys \<longrightarrow> unat fb \<notin> set ys)
     \<and> no_leak xs pfb {unat fb} dt dt' \<and> unat (dt_size dt') \<le> 4 * unat (dt_size dt)"

lemma new_not_in:
  assumes "file_at dt gb zs" and "unat fb < nsec dt \<longrightarrow> fat_p dt ! unat fb = FREESEC"
  shows "unat fb \<notin> set zs"
  using assms by (auto simp: file_at_def)

lemma read_meta_content:
  assumes "wf_geom dt" and "file_at dt fb xs"
  shows "read_meta dt fb = Some (dec_meta (take 64 (content dt xs)))"
proof -
  have "length (content dt xs) = length xs * secsz dt" "xs \<noteq> []"
    using length_content [OF assms(1), of xs] assms(2) by (auto simp: file_at_def)
  then have "64 \<le> length (content dt xs)"
    using wf_geomD(1) [OF assms(1)] by (cases xs) auto
  then have "length (take 64 (content dt xs)) = 64" by simp
  then obtain m where "take 64 (content dt xs) = enc_meta m" using meta.decode_ex by blast
  moreover from this have "content dt xs = enc_meta m @ drop 64 (content dt xs)"
    by (metis append_take_drop_id)
  ultimately show ?thesis using file_read_meta [OF assms, of m] by simp
qed

lemma newsize_fit:
  fixes a :: u64_t
  assumes "unat a + 16 + n + 1 < 4294967296"
  shows "unat (a + 16 + word_of_nat n + 1) = unat a + 16 + n + 1"
proof -
  have "unat (word_of_nat n :: u64_t) = n" using assms by (intro unat_word_of_nat_fit) simp
  then have "unat (a + word_of_nat n) = unat a + n" using assms by (subst unat_add_fit) simp_all
  then have "unat (a + word_of_nat n + 17) = unat a + n + 17" using assms by (subst unat_add_fit) simp_all
  moreover have "a + 16 + word_of_nat n + 1 = a + word_of_nat n + 17" by simp
  ultimately have "unat (a + 16 + word_of_nat n + 1) = unat a + n + 17" by (simp only:)
  then show ?thesis by linarith
qed

text \<open>What the operations read of the parent before they change it.\<close>

lemma parent_buffer:
  assumes "wf_geom dt" and "malloc_ok E" and "dir_at dt fb m es pool" and "file_at dt fb xs"
  obtains rest where "unat (fm_blocks m) = length xs" "content dt xs = enc_dir m es pool @ rest"
    "wf_dir m es pool" "length (enc_dir m es pool @ rest) = length xs * secsz dt" "read_meta dt fb = Some m"
    "\<And>fail k. with_buf E dt fb m 0 fail k = k (enc_dir m es pool @ rest)"
proof -
  from assms(3) obtain ys rest where y: "file_at dt fb ys" "unat (fm_blocks m) = length ys"
    "content dt ys = enc_dir m es pool @ rest" "wf_dir m es pool"
    "length (enc_dir m es pool @ rest) = length ys * secsz dt" by (rule dir_atE [OF assms(1)])
  have "ys = xs" using y(1) assms(4) chain_unique by (auto simp: file_at_def)
  note y = y [unfolded this]
  show thesis
    by (rule that [OF y(2-5) dir_at_reads(1) [OF assms(1,3)]]) (simp add: with_buf_content [OF assms(1,2) y(1,2)] y(3))
qed

text \<open>Linking what \<open>initfile\<close> or \<open>initdir\<close> put into the new sector \<open>fb\<close>.\<close>

lemma link_new:
  assumes u: "in_use dt" and E: "malloc_ok E" and sz: "unat (dt_size dt) < 1073741824"
    and fl: "file_at dt pfb xs" and wd: "wf_dir m es pool" and nm: "0 \<notin> set nm"
    and fit: "unat (fm_flen m) + 16 + length nm + 1 \<le> nsec dt * 512"
    and ns: "ns = fm_flen m + 16 + word_of_nat (length nm) + 1" and len: "length buf = unat ns"
    and i: "upd {unat fb} dt dt1" "unat fb \<noteq> 0" "unat (dt_size dt1) \<le> 2 * unat (dt_size dt)"
      "unat fb < nsec dt \<longrightarrow> fat_p dt ! unat fb = FREESEC" "file_at dt1 fb [unat fb]"
  shows "\<exists>b b' e dt'. add_slot buf (enc_dir m es pool @ rest) m ty = Some b
     \<and> link_entry b (enc_dir m es pool @ rest) m nm (Some fb) ns 512 links = Some b'
     \<and> get_entry b' (64 + unat (fm_strbase m)) = Some e
     \<and> do_writefile E dt1 pfb b' ns = Some dt' \<and> links_to dt' pfb m es pool nm e links
     \<and> fe_fb e = fb \<and> fe_type e = ty \<and> bps dt1 = 512 \<and> unat fb \<notin> set xs
     \<and> keeps xs dt1 dt' \<and> created dt dt' pfb xs fb \<and> wf_geom dt1"
proof -
  note wf = in_useD(1) [OF u]
  have u1: "in_use dt1" using in_use_upd [OF u i(1)] i(2) by simp
  have k1: "keeps [] dt dt1" using i(1,4) by (intro keeps_upd [of _ "{unat fb}"]) simp_all
  then have f1: "file_at dt1 pfb xs" using fl by (simp add: keeps_def)
  have "nsec dt * 512 < 4294967296" using wf_geomD(5,6) [OF wf] in_useD(2) [OF u] by simp
  then have ns1: "unat ns = unat (fm_flen m) + 16 + length nm + 1"
    unfolding ns using fit by (intro newsize_fit) simp
  have ns2: "unat ns \<le> nsec dt1 * 512"
    using ns1 fit mult_le_mono1 [OF updD(3) [OF i(1)], of 512] by linarith
  have sz1: "unat (dt_size dt1) < 2147483648" using i(3) sz by linarith
  from link_and_write [OF u1 E sz1 f1 wd nm ns1 ns2 len, of rest ty fb links]
  obtain b b' e dt' zs where w: "add_slot buf (enc_dir m es pool @ rest) m ty = Some b"
    "link_entry b (enc_dir m es pool @ rest) m nm (Some fb) ns 512 links = Some b'"
    "get_entry b' (64 + unat (fm_strbase m)) = Some e"
    "do_writefile E dt1 pfb b' ns = Some dt'" "links_to dt' pfb m es pool nm e links"
    "fe_fb e = fb" "fe_type e = ty" "upd (set xs \<union> set zs) dt1 dt'"
    "\<forall>y\<in>set zs. y \<in> set xs \<or> (y < nsec dt1 \<longrightarrow> fat_p dt1 ! y = FREESEC)" "file_at dt' pfb zs"
    "\<forall>x\<in>set xs - set zs. fat_p dt' ! x = FREESEC" "unat (dt_size dt') \<le> 2 * unat (dt_size dt1)" by blast
  have sz': "unat (dt_size dt') \<le> 4 * unat (dt_size dt)" using w(12) i(3) by linarith
  have "y \<in> {unat fb} \<or> (y < nsec dt \<and> y \<notin> set [] \<and> fat_p dt ! y \<noteq> FREESEC)"
    if "y < nsec dt1" "fat_p dt1 ! y \<noteq> FREESEC" for y
    using that updD(5,7) [OF i(1), of y] by (cases "y < nsec dt") auto
  with no_leak_before [OF no_leak_upd [OF w(8,10,11)]] have nl: "no_leak (xs @ []) pfb {unat fb} dt dt'" by blast
  have k2: "keeps xs dt1 dt'" using w(8,9) by (rule keeps_upd)
  have a1: "apart xs pfb dt1 dt'" using w(10,9) by (rule apart_new)
  note x = new_not_in [OF fl i(4)]
  have "file_at dt' fb [unat fb]" using k2 i(5) x by (simp add: keeps_def)
  moreover from this have "apart [] fb dt dt'" by (rule apart_new) (use i(4) in simp)
  moreover have "apart xs pfb dt dt'" using a1 k1 unfolding apart_def keeps_def by (metis Int_empty_right list.set(1))
  moreover have "\<forall>ys. file_at dt' pfb ys \<longrightarrow> unat fb \<notin> set ys"
    using a1 i(5) x by (fastforce simp: apart_def)
  ultimately have "created dt dt' pfb xs fb"
    using keeps_trans [OF k1 k2] updD(1,2,4) [OF w(8)] updD(2,4) [OF i(1)] nl sz' by (simp add: created_def)
  then show ?thesis
    using w(1-7) k2 in_useD(1,2) [OF u1] x by blast
qed

section \<open>Creating\<close>

lemma c_mkdir_creates:
  assumes "in_use dt" and "malloc_ok E" and "unat (dt_size dt) < 1073741824"
    and "in_dir E dt path uid nm parent" and "dir_at dt (fe_fb parent) m es pool"
    and "file_at dt (fe_fb parent) xs" and "permission_check uid m opW \<noteq> 0"
    and "nm \<notin> set (map (ent_name pool) es)"
    and "unat (fm_flen m) + 16 + length nm + 1 \<le> nsec dt * 512"
  shows "\<exists>dt' e. c_mkdir E dt path uid = Some (0, dt') \<and> fe_type e = S_DIR
     \<and> links_to dt' (fe_fb parent) m es pool nm e 1
     \<and> dir_at dt' (fe_fb e) (new_dir_meta E uid 1) (dot_entries (fe_fb e) (fe_fb parent)) dots_pool
     \<and> created dt dt' (fe_fb parent) xs (fe_fb e)"
proof -
  note wf = in_useD(1) [OF assms(1)] and nz = in_dir_name [OF assms(4)]
  obtain rest where y: "wf_dir m es pool" "read_meta dt (fe_fb parent) = Some m"
    "\<And>fail k. with_buf E dt (fe_fb parent) m 0 fail k = (k (enc_dir m es pool @ rest) :: (int \<times> dtree) option)"
    using parent_buffer [OF wf assms(2,5,6)] by metis
  have "unat (dt_size dt) < 2147483648" using assms(3) by simp
  from initdir_ok [OF assms(1,2) this, of uid "Some (fe_fb parent)"] obtain fb dt1 where
    i: "initdir E dt uid (Some (fe_fb parent)) = Some (0, Some fb, dt1)" "upd {unat fb} dt dt1"
    "unat fb \<noteq> 0" "unat (dt_size dt1) \<le> 2 * unat (dt_size dt)"
    "unat fb < nsec dt \<longrightarrow> fat_p dt ! unat fb = FREESEC" "file_at dt1 fb [unat fb]"
    "dir_at dt1 fb (new_dir_meta E uid 1) (dot_entries fb (fe_fb parent)) dots_pool" by auto
  define ns where "ns = fm_flen m + word_of_nat (length nm) + 1 + 16"
  have "ns = fm_flen m + 16 + word_of_nat (length nm) + 1" by (simp add: ns_def)
  from link_new [OF assms(1-3,6) y(1) nz assms(9) this _ i(2-6), of "replicate (unat ns) 0" rest S_DIR 1]
  obtain b b' e dt' where w: "add_slot (replicate (unat ns) 0) (enc_dir m es pool @ rest) m S_DIR = Some b"
    "link_entry b (enc_dir m es pool @ rest) m nm (Some fb) ns 512 1 = Some b'"
    "do_writefile E dt1 (fe_fb parent) b' ns = Some dt'" "links_to dt' (fe_fb parent) m es pool nm e 1"
    "fe_fb e = fb" "fe_type e = S_DIR" "bps dt1 = 512" "unat fb \<notin> set xs" "keeps xs dt1 dt'" "created dt dt' (fe_fb parent) xs fb" by auto
  obtain j where j: "malloc E (unat ns) = Some j" using assms(2) by (rule malloc_okE)
  have "c_mkdir E dt path uid = Some (0, dt')"
    unfolding c_mkdir_def with_parent_in_dir [OF assms(4)] y(2,3) Option.bind.bind_lunit find_in_dir(1) [OF y(1) nz assms(8)]
    using assms(7) j i(1) w(1-3,7) by (simp add: ns_def [symmetric] Let_def)
  moreover have "dir_at dt' fb (new_dir_meta E uid 1) (dot_entries fb (fe_fb parent)) dots_pool"
    using keeps_dir [OF w(9) i(7,6)] w(8) by simp
  ultimately show ?thesis using w(4,5,6,10) by blast
qed

text \<open>
  C10. Making a directory: with write permission on the parent and a new name, on a disk
  below 1 GiB, \<open>c_mkdir\<close> returns 0; the parent then has one more entry, a directory with
  this name and one more link; the entry leads to a directory of the user with mode
  \<open>INITMODE\<close> whose only entries are \<open>.\<close>, itself, and \<open>..\<close>, the parent; and every file that
  shares no sector with the parent is as before.
\<close>
theorem c_mkdir_spec:
  assumes "in_use dt" and "malloc_ok E" and "unat (dt_size dt) < 1073741824"
    and "in_dir E dt path uid nm parent" and "dir_at dt (fe_fb parent) m es pool"
    and "file_at dt (fe_fb parent) xs" and "permission_check uid m opW \<noteq> 0"
    and "nm \<notin> set (map (ent_name pool) es)"
    and "unat (fm_flen m) + 16 + length nm + 1 \<le> nsec dt * 512"
  shows "\<exists>dt' e. c_mkdir E dt path uid = Some (0, dt') \<and> fe_type e = S_DIR
     \<and> links_to dt' (fe_fb parent) m es pool nm e 1
     \<and> dir_at dt' (fe_fb e) (new_dir_meta E uid 1) (dot_entries (fe_fb e) (fe_fb parent)) dots_pool
     \<and> keeps xs dt dt'"
  using c_mkdir_creates [OF assms] unfolding created_def by blast

theorem c_mkdir_spec_witness:
  "\<exists>dt' e. c_mkdir calm_env root_disk [SLASH, 98] 5 = Some (0, dt')
     \<and> links_to dt' 1 root_meta root_entries root_pool [98] e 1 \<and> fe_type e = S_DIR"
  using c_mkdir_spec [OF root_disk_in_use calm_env_ok _ root_in_dir [of 98], where uid = 5 and m = root_meta
      and es = root_entries and pool = root_pool and xs = "[1]"] root_dir_at root_disk_file [of 1 1] root_names
  by (auto simp: root_facts)

lemma c_open_creates:
  assumes "in_use dt" and "malloc_ok E" and "unat (dt_size dt) < 1073741824"
    and "file_at dt (fe_fb parent) xs" and "wf_dir m es pool" and "0 \<notin> set nm"
    and "unat (fm_flen m) + 16 + length nm + 1 \<le> nsec dt * 512"
  shows "\<exists>dt' e. (case malloc E (unat (fm_flen m + 16 + word_of_nat (length nm) + 1)) of
         None \<Rightarrow> Some (- 9, dt)
       | Some buf \<Rightarrow> do {
           buf \<leftarrow> add_slot buf (enc_dir m es pool @ rest) m S_FIL;
           (_, fb, dt) \<leftarrow> initfile E dt uid mode;
           buf \<leftarrow> link_entry buf (enc_dir m es pool @ rest) m nm fb (fm_flen m + 16 + word_of_nat (length nm) + 1) (bps dt) 0;
           dt \<leftarrow> do_writefile E dt (fe_fb parent) buf (fm_flen m + 16 + word_of_nat (length nm) + 1);
           ofile \<leftarrow> get_entry buf (64 + unat (fm_strbase m));
           Some (sint (fe_fb ofile), dt)
         }) = Some (sint (fe_fb e), dt')
     \<and> fe_type e = S_FIL \<and> links_to dt' (fe_fb parent) m es pool nm e 0
     \<and> read_meta dt' (fe_fb e) = Some (new_meta E uid mode 1) \<and> created dt dt' (fe_fb parent) xs (fe_fb e)"
proof -
  have "unat (dt_size dt) < 2147483648" using assms(3) by simp
  from initfile_ok [OF assms(1,2) this, of uid mode] obtain fb dt1 where
    i: "initfile E dt uid mode = Some (0, Some fb, dt1)" "upd {unat fb} dt dt1"
    "unat fb \<noteq> 0" "unat (dt_size dt1) \<le> 2 * unat (dt_size dt)"
    "unat fb < nsec dt \<longrightarrow> fat_p dt ! unat fb = FREESEC" "file_at dt1 fb [unat fb]"
    "read_meta dt1 fb = Some (new_meta E uid mode 1)" by auto
  define ns where "ns = fm_flen m + 16 + word_of_nat (length nm) + 1"
  obtain j where j: "malloc E (unat ns) = Some j" "length j = unat ns" using assms(2) by (rule malloc_okE)
  from link_new [OF assms(1-7) ns_def j(2) i(2-6), of rest S_FIL 0] obtain b b' e dt' where
    w: "add_slot j (enc_dir m es pool @ rest) m S_FIL = Some b"
    "link_entry b (enc_dir m es pool @ rest) m nm (Some fb) ns 512 0 = Some b'"
    "get_entry b' (64 + unat (fm_strbase m)) = Some e"
    "do_writefile E dt1 (fe_fb parent) b' ns = Some dt'" "links_to dt' (fe_fb parent) m es pool nm e 0"
    "fe_fb e = fb" "fe_type e = S_FIL" "bps dt1 = 512" "unat fb \<notin> set xs" "keeps xs dt1 dt'" "created dt dt' (fe_fb parent) xs fb"
    "wf_geom dt1" by blast
  have "set [unat fb] \<inter> set xs = {}" using w(9) by simp
  then have "file_at dt' fb [unat fb]" "content dt' [unat fb] = content dt1 [unat fb]"
    using w(10) i(6) unfolding keeps_def by blast+
  then have "read_meta dt' fb = Some (new_meta E uid mode 1)"
    using read_meta_content [OF w(12) i(6)] read_meta_content [of dt' fb "[unat fb]"] w(11) [unfolded created_def] i(7) by metis
  then show ?thesis
    unfolding ns_def [symmetric] using j(1) i(1) w(1-8,11) by simp blast
qed

lemma c_open_works:
  assumes "in_use dt" and "malloc_ok E" and "unat (dt_size dt) < 1073741824"
    and "in_dir E dt path uid nm parent" and "dir_at dt (fe_fb parent) m es pool"
    and "file_at dt (fe_fb parent) xs"
    and "permission_check uid m opW \<noteq> 0 \<or> permission_check uid m opR \<noteq> 0"
    and "unat (fm_flen m) + 16 + length nm + 1 \<le> nsec dt * 512"
  shows "(case ent_of pool es nm of
       Some e \<Rightarrow> c_open E dt path oflags mode uid
          = Some (if fe_type e = S_DIR then - 2 else sint (fe_fb e), dt)
     | None \<Rightarrow> (\<exists>dt' e. c_open E dt path oflags mode uid = Some (sint (fe_fb e), dt')
         \<and> fe_type e = S_FIL \<and> links_to dt' (fe_fb parent) m es pool nm e 0
         \<and> read_meta dt' (fe_fb e) = Some (new_meta E uid mode 1) \<and> created dt dt' (fe_fb parent) xs (fe_fb e)))"
proof -
  note wf = in_useD(1) [OF assms(1)] and nz = in_dir_name [OF assms(4)]
  obtain rest where y: "wf_dir m es pool" "read_meta dt (fe_fb parent) = Some m"
    "\<And>fail k. with_buf E dt (fe_fb parent) m 0 fail k = (k (enc_dir m es pool @ rest) :: (int \<times> dtree) option)"
    using parent_buffer [OF wf assms(2,5,6)] by metis
  have or: "x OR SBP_O_WRONLY \<noteq> 0" "x OR SBP_O_RDONLY \<noteq> 0" "x OR SBP_O_CREAT \<noteq> 0" for x :: u8_t
    by (simp_all add: SBP_O_WRONLY_def SBP_O_RDONLY_def SBP_O_CREAT_def or_eq_0_iff)
  note start = c_open_def with_parent_in_dir [OF assms(4)] y(2,3) Option.bind.bind_lunit Let_def
  show ?thesis
  proof (cases "ent_of pool es nm")
    case (Some e)
    from find_entry_by_name_ent(2) [OF y(1) nz Some, of rest] obtain i where
      "find_entry_by_name (enc_dir m es pool @ rest) nm = Some (Some (64 + 16 * i))"
      "get_entry (enc_dir m es pool @ rest) (64 + 16 * i) = Some e" by blast
    with Some assms(7) or show ?thesis unfolding start by auto
  next
    case None
    note find = find_entry_by_name_ent(1) [OF y(1) nz None, of rest]
    from c_open_creates [OF assms(1-3,6) y(1) nz assms(8), of rest uid mode] show ?thesis
      unfolding start find None using assms(7) or by auto
  qed
qed

lemma c_open_needs:
  assumes "wf_geom dt" and "in_dir E dt path uid nm parent" and "dir_at dt (fe_fb parent) m es pool"
    and "permission_check uid m opW = 0" and "permission_check uid m opR = 0"
  shows "c_open E dt path oflags mode uid = Some (- 4, dt)"
  unfolding c_open_def with_parent_in_dir [OF assms(2)] dir_at_reads(1) [OF assms(1,3)]
  using assms(4,5) by simp

text \<open>
  C11. Opening, on a well-formed disk below 1 GiB with room for one more entry of the parent, when no
  \<open>malloc\<close> fails: a user who may
  neither read nor write the parent directory gets -4, whatever the name, and the disk is as
  before. For everyone else an existing file is opened by returning its first sector, a
  directory is refused with -2, both without a change of the disk, and a new name makes
  \<open>c_open\<close> create an empty file of the user with exactly the mode asked for, linked into the
  parent, and return its first sector; files that share no sector with the parent are as before.
\<close>
theorem c_open_spec:
  assumes "in_use dt" and "malloc_ok E" and "unat (dt_size dt) < 1073741824"
    and "in_dir E dt path uid nm parent" and "dir_at dt (fe_fb parent) m es pool"
    and "file_at dt (fe_fb parent) xs"
    and "unat (fm_flen m) + 16 + length nm + 1 \<le> nsec dt * 512"
  shows "if permission_check uid m opW = 0 \<and> permission_check uid m opR = 0
     then c_open E dt path oflags mode uid = Some (- 4, dt)
     else (case ent_of pool es nm of
       Some e \<Rightarrow> c_open E dt path oflags mode uid
          = Some (if fe_type e = S_DIR then - 2 else sint (fe_fb e), dt)
     | None \<Rightarrow> (\<exists>dt' e. c_open E dt path oflags mode uid = Some (sint (fe_fb e), dt')
         \<and> fe_type e = S_FIL \<and> links_to dt' (fe_fb parent) m es pool nm e 0
         \<and> read_meta dt' (fe_fb e) = Some (new_meta E uid mode 1) \<and> keeps xs dt dt'))"
proof (cases "permission_check uid m opW = 0 \<and> permission_check uid m opR = 0")
  case True
  then show ?thesis using c_open_needs [OF in_useD(1) [OF assms(1)] assms(4,5)] by simp
next
  case False
  then have "permission_check uid m opW \<noteq> 0 \<or> permission_check uid m opR \<noteq> 0" by simp
  note works = c_open_works [OF assms(1-6) this assms(7), of oflags mode]
  show ?thesis
    unfolding if_not_P [OF False] using works unfolding created_def
    by (cases "ent_of pool es nm"; simp) blast
qed

theorem c_open_spec_witness:
  "c_open calm_env root_disk [SLASH, 97] 1 0 5 = Some (2, root_disk)
   \<and> c_open calm_env root_disk [SLASH, 100] 1 0 5 = Some (- 2, root_disk)
   \<and> (\<exists>dt' e. c_open calm_env root_disk [SLASH, 98] 1 0xC 5 = Some (sint (fe_fb e), dt')
        \<and> links_to dt' 1 root_meta root_entries root_pool [98] e 0)"
  using c_open_spec [OF root_disk_in_use calm_env_ok _ root_in_dir [of 97], where uid = 5 and m = root_meta
      and es = root_entries and pool = root_pool and xs = "[1]" and oflags = 1 and mode = 0]
    c_open_spec [OF root_disk_in_use calm_env_ok _ root_in_dir [of 100], where uid = 5 and m = root_meta
      and es = root_entries and pool = root_pool and xs = "[1]" and oflags = 1 and mode = 0]
    c_open_spec [OF root_disk_in_use calm_env_ok _ root_in_dir [of 98], where uid = 5 and m = root_meta
      and es = root_entries and pool = root_pool and xs = "[1]" and oflags = 1 and mode = "0xC"] root_dir_at root_disk_file [of 1 1]
  by (auto simp: root_facts root_ents S_DIR_def S_FIL_def)

section \<open>Removing\<close>

text \<open>The parent without its \<open>i\<close>-th entry, whose sectors \<open>zs\<close> are free or reused by it.\<close>

definition unlinked ::
  "dtree \<Rightarrow> dtree \<Rightarrow> u32_t \<Rightarrow> file_meta \<Rightarrow> file_entry list \<Rightarrow> buf \<Rightarrow> nat \<Rightarrow> nat list \<Rightarrow> nat list \<Rightarrow> bool" where
  "unlinked dt dt' pfb m es pool i xs zs \<longleftrightarrow>
     (\<exists>m' ys. dir_at dt' pfb m' (take i es @ drop (Suc i) es) pool \<and> fm_count m' = fm_count m - 1
        \<and> file_at dt' pfb ys \<and> (\<forall>z\<in>set zs - set ys. fat_p dt' ! z = FREESEC))
     \<and> wf_geom dt' \<and> bps dt' = bps dt \<and> sb_maxBlockNum (sb dt') = sb_maxBlockNum (sb dt)
     \<and> keeps (xs @ zs) dt dt' \<and> apart (xs @ zs) pfb dt dt'
     \<and> no_leak (xs @ zs) pfb {} dt dt'"

lemma unlink_and_write:
  assumes wf: "wf_geom dt" and E: "malloc_ok E" and sz: "unat (dt_size dt) < 2147483648"
    and fl: "file_at dt pfb xs" "unat (fm_blocks m) = length xs"
    and c: "content dt xs = enc_dir m es pool @ rest" and wd: "wf_dir m es pool"
    and slack: "16 \<le> length rest" and i: "i < length es"
    and z: "file_at dt zfb zs" "set zs \<inter> set xs = {}"
  shows "\<exists>b b' m' fat dt'. upd_meta (enc_dir m es pool @ rest) (\<lambda>m. m\<lparr>fm_count := fm_count m - 1\<rparr>) = Some b
     \<and> reset_fat zfb (fat_p dt) = Some fat \<and> do_remove_entry E b (64 + 16 * i) = Some (0, b')
     \<and> get_meta b' 0 = Some m'
     \<and> do_writefile E (dt\<lparr>fat_p := fat\<rparr>) pfb b' (fm_flen m') = Some dt'
     \<and> unlinked dt dt' pfb m es pool i xs zs"
proof -
  let ?m1 = "m\<lparr>fm_count := fm_count m - 1\<rparr>" and ?es = "take i es @ drop (Suc i) es"
  let ?m2 = "?m1\<lparr>fm_strbase := fm_strbase m - 16, fm_w_time := now E, fm_flen := fm_flen m - 16\<rparr>"
  let ?b1 = "enc_dir ?m1 es pool @ rest" and ?b2 = "enc_dir ?m2 ?es pool @ take 16 rest @ rest"
  define dt1 where "dt1 = dt\<lparr>fat_p := frees zs (fat_p dt)\<rparr>"
  have zch: "chain (fat_p dt) zfb zs" using z(1) by (simp add: file_at_def)
  have u1: "upd (set zs) dt dt1" unfolding dt1_def by (rule upd_frees [OF wf])
  have f1: "file_at dt1 pfb xs" using upd_file_at(1) [OF u1 fl(1)] z(2) by blast
  have wd1: "wf_dir ?m1 es pool" using wd by (simp add: wf_dir_def)
  have wd2: "wf_dir ?m2 ?es pool" using wf_dir_removed [OF wd1 i, of "now E"] by simp
  have b1: "upd_meta (enc_dir m es pool @ rest) (\<lambda>m. m\<lparr>fm_count := fm_count m - 1\<rparr>) = Some ?b1"
    by (simp add: upd_meta_def enc_dir_def meta.get_enc_head meta.put_enc_head)
  have b2: "do_remove_entry E ?b1 (64 + 16 * i) = Some (0, ?b2)"
    using do_remove_entry_dir [OF wd1 i E slack] by simp
  have lx: "length (enc_dir m es pool @ rest) = length xs * secsz dt"
    using length_content [OF wf, of xs] fl(1) c by (auto simp: file_at_def)
  have l2: "length (enc_dir ?m2 ?es pool) + 16 = length (enc_dir m es pool)" using i by simp
  then have "length xs * secsz dt1 \<le> length ?b2" using lx slack by (simp add: dt1_def)
  moreover have "unat (fm_flen ?m2) = length (enc_dir ?m2 ?es pool)" using wd2 by (simp add: wf_dir_def)
  then have "unat (fm_flen ?m2) \<le> length xs * secsz dt1" using lx l2 by (simp add: dt1_def)
  moreover have "unat (fm_blocks ?m2) = length xs" "unat (dt_size dt1) < 2147483648"
    using fl(2) sz by (simp_all add: dt1_def)
  ultimately obtain dt' ys where
    w: "do_writefile E dt1 pfb ?b2 (fm_flen ?m2) = Some dt'" "dir_at dt' pfb ?m2 ?es pool"
    "file_at dt' pfb ys" "upd (set xs \<union> set ys) dt1 dt'"
    "\<forall>y\<in>set ys. y \<in> set xs \<or> (y < nsec dt1 \<longrightarrow> fat_p dt1 ! y = FREESEC)"
    "\<forall>x\<in>set xs - set ys. fat_p dt' ! x = FREESEC"
    using write_dir_back [OF updD(1) [OF u1] E _ f1 _ wd2] by blast
  have fz: "fat_p dt' ! x = FREESEC" if "x \<in> set zs - set ys" for x
  proof -
    have x: "x < nsec dt1" "x < length (fat_p dt)" "x \<notin> set xs \<union> set ys"
      using that z wf_geomD(4) [OF wf] by (auto simp: file_at_def dt1_def)
    then show ?thesis using updD(5) [OF w(4) x(1,3)] that by (simp add: dt1_def nth_frees)
  qed
  have "upd (set (xs @ zs) \<union> set ys) dt dt'"
    using upd_trans [OF u1 w(4)] by (simp add: Un_ac)
  moreover have "\<forall>y\<in>set ys. y \<in> set (xs @ zs) \<or> (y < nsec dt \<longrightarrow> fat_p dt ! y = FREESEC)"
    using w(5) wf_geomD(4) [OF wf] by (auto simp: dt1_def nth_frees split: if_splits)
  ultimately have "keeps (xs @ zs) dt dt'" "apart (xs @ zs) pfb dt dt'"
    using keeps_upd apart_new [OF w(3)] by blast+
  moreover have "y \<in> {} \<or> (y < nsec dt \<and> y \<notin> set zs \<and> fat_p dt ! y \<noteq> FREESEC)"
    if "y < nsec dt1" "fat_p dt1 ! y \<noteq> FREESEC" for y
    using that wf_geomD(4) [OF wf] by (auto simp: dt1_def nth_frees split: if_splits)
  with no_leak_before [OF no_leak_upd [OF w(4,3,6)]] have "no_leak (xs @ zs) pfb {} dt dt'" by blast
  ultimately have "unlinked dt dt' pfb m es pool i xs zs"
    using w(2,3) fz updD(1,2,4) [OF w(4)] updD(2,4) [OF u1] unfolding unlinked_def by fastforce
  moreover have "get_meta ?b2 0 = Some ?m2" by (rule get_meta_enc_dir)
  ultimately show ?thesis
    using b1 b2 reset_fat_chain [OF zch] w(1) unfolding dt1_def by blast
qed

lemma file_has_meta: "wf_geom dt \<Longrightarrow> file_at dt fb xs \<Longrightarrow> \<exists>m. read_meta dt fb = Some m"
  using read_meta_content by blast

text \<open>The step both removing operations end with, when the buffer has no spare bytes.\<close>

lemma unlink_overread:
  assumes "malloc_ok E" and "wf_dir m es pool" and "i < length es" and "length rest < 16"
  shows "upd_meta (enc_dir m es pool @ rest) (\<lambda>m. m\<lparr>fm_count := fm_count m - 1\<rparr>) \<bind> (\<lambda>b. do_remove_entry E b (64 + 16 * i)) = None"
proof -
  let ?m = "m\<lparr>fm_count := fm_count m - 1\<rparr>"
  have "upd_meta (enc_dir m es pool @ rest) (\<lambda>m. m\<lparr>fm_count := fm_count m - 1\<rparr>) = Some (enc_dir ?m es pool @ rest)"
    by (simp add: upd_meta_def enc_dir_def meta.get_enc_head meta.put_enc_head)
  moreover have "wf_dir ?m es pool" using assms(2) by (simp add: wf_dir_def)
  ultimately show ?thesis using do_remove_entry_overread [OF _ assms(3,1,4)] by simp
qed

lemma c_remove_unlinks:
  assumes "wf_geom dt" and "malloc_ok E" and "unat (dt_size dt) < 2147483648"
    and "in_dir E dt path uid nm parent" and "dir_at dt (fe_fb parent) m es pool"
    and "file_at dt (fe_fb parent) xs" and "permission_check uid m opW \<noteq> 0" and "ent_of pool es nm = Some e"
    and "fe_type e \<noteq> S_DIR" and "file_at dt (fe_fb e) zs" and "set zs \<inter> set xs = {}"
  shows "unat (fm_flen m) + 16 \<le> length xs * secsz dt \<Longrightarrow>
      \<exists>dt' i. c_remove E dt path uid = Some (0, dt') \<and> i < length es \<and> es ! i = e
        \<and> ent_name pool e = nm \<and> unlinked dt dt' (fe_fb parent) m es pool i xs zs"
    and "length xs * secsz dt < unat (fm_flen m) + 16 \<Longrightarrow> c_remove E dt path uid = None"
proof -
  note wf = assms(1) and nz = in_dir_name [OF assms(4)]
  obtain rest where y: "unat (fm_blocks m) = length xs" "content dt xs = enc_dir m es pool @ rest" "wf_dir m es pool"
    "length (enc_dir m es pool @ rest) = length xs * secsz dt" "read_meta dt (fe_fb parent) = Some m"
    "\<And>fail k. with_buf E dt (fe_fb parent) m 0 fail k = (k (enc_dir m es pool @ rest) :: (int \<times> dtree) option)"
    using parent_buffer [OF wf assms(2,5,6)] by metis
  obtain mm where mm: "read_meta dt (fe_fb e) = Some mm" using file_has_meta [OF wf assms(10)] by blast
  from find_entry_by_name_ent(2) [OF y(3) nz assms(8), of rest] obtain i where
    i: "i < length es" "es ! i = e" "ent_name pool e = nm"
    "find_entry_by_name (enc_dir m es pool @ rest) nm = Some (Some (64 + 16 * i))"
    "get_entry (enc_dir m es pool @ rest) (64 + 16 * i) = Some e" by blast
  note start = c_remove_def with_parent_in_dir [OF assms(4)] y(5,6) i(4,5) Option.bind.bind_lunit Let_def option.case mm
  show "\<exists>dt' i. c_remove E dt path uid = Some (0, dt') \<and> i < length es \<and> es ! i = e
      \<and> ent_name pool e = nm \<and> unlinked dt dt' (fe_fb parent) m es pool i xs zs"
    if "unat (fm_flen m) + 16 \<le> length xs * secsz dt"
  proof -
    have "16 \<le> length rest" using that y(3,4) by (simp add: wf_dir_def)
    from unlink_and_write [OF wf assms(2,3,6) y(1-3) this i(1) assms(10,11)] assms(7,9) i(1-3) show ?thesis
      unfolding start by auto
  qed
  show "c_remove E dt path uid = None" if "length xs * secsz dt < unat (fm_flen m) + 16"
  proof -
    have "length rest < 16" using that y(3,4) by (simp add: wf_dir_def)
    from unlink_overread [OF assms(2) y(3) i(1) this] assms(7,9) show ?thesis
      unfolding start by (auto simp: bind_eq_None_conv)
  qed
qed

text \<open>
  C12. Removing a file: with write permission on the parent, on an entry that is not a
  directory, and when the parent's last sector has 16 spare bytes, \<open>c_remove\<close> returns 0;
  the parent has lost the entry and one link, the sectors of the file are free (or used
  by the parent), and every file that shares no sector with these two is as before. (The
  link count was not raised when the file was made, as the property on opening shows.) Without permission the result
  is 4, without the entry 1, for a directory 2, and nothing changes.
\<close>
theorem c_remove_spec:
  assumes "wf_geom dt" and "malloc_ok E" and "unat (dt_size dt) < 2147483648"
    and "in_dir E dt path uid nm parent" and "dir_at dt (fe_fb parent) m es pool"
    and "file_at dt (fe_fb parent) xs" and "unat (fm_flen m) + 16 \<le> length xs * secsz dt"
  shows "(if permission_check uid m opW = 0 then c_remove E dt path uid = Some (4, dt) else
     case ent_of pool es nm of
       None \<Rightarrow> c_remove E dt path uid = Some (1, dt)
     | Some e \<Rightarrow>
         if fe_type e = S_DIR then c_remove E dt path uid = Some (2, dt)
         else \<forall>zs. file_at dt (fe_fb e) zs \<and> set zs \<inter> set xs = {} \<longrightarrow>
           (\<exists>dt' i. c_remove E dt path uid = Some (0, dt') \<and> i < length es \<and> es ! i = e
              \<and> ent_name pool e = nm \<and> unlinked dt dt' (fe_fb parent) m es pool i xs zs))"
proof -
  note wf = assms(1) and nz = in_dir_name [OF assms(4)]
  obtain rest where y: "wf_dir m es pool" "read_meta dt (fe_fb parent) = Some m"
    "\<And>fail k. with_buf E dt (fe_fb parent) m 0 fail k = (k (enc_dir m es pool @ rest) :: (int \<times> dtree) option)"
    using parent_buffer [OF wf assms(2,5,6)] by metis
  note start = c_remove_def with_parent_in_dir [OF assms(4)] y(2,3) Option.bind.bind_lunit Let_def
  show ?thesis
  proof (cases "ent_of pool es nm")
    case None
    with find_entry_by_name_ent(1) [OF y(1) nz None, of rest] show ?thesis unfolding start by simp
  next
    case (Some e)
    from find_entry_by_name_ent(2) [OF y(1) nz Some, of rest] obtain i where
      i: "find_entry_by_name (enc_dir m es pool @ rest) nm = Some (Some (64 + 16 * i))"
      "get_entry (enc_dir m es pool @ rest) (64 + 16 * i) = Some e" by blast
    have "permission_check uid m opW = 0 \<Longrightarrow> c_remove E dt path uid = Some (4, dt)"
      "permission_check uid m opW \<noteq> 0 \<Longrightarrow> fe_type e = S_DIR \<Longrightarrow> c_remove E dt path uid = Some (2, dt)"
      unfolding start using i by simp_all
    with Some c_remove_unlinks(1) [OF assms(1-6) _ Some] assms(7) show ?thesis by simp
  qed
qed

theorem c_remove_spec_witness:
  "(\<exists>dt' i. c_remove calm_env root_disk [SLASH, 97] 5 = Some (0, dt')
      \<and> unlinked root_disk dt' 1 root_meta root_entries root_pool i [1] [2])
   \<and> c_remove calm_env root_disk [SLASH, 98] 5 = Some (1, root_disk)"
  using c_remove_spec [OF in_useD(1) [OF root_disk_in_use] calm_env_ok _ root_in_dir [of 97],
      where uid = 5 and m = root_meta and es = root_entries and pool = root_pool and xs = "[1]"]
    c_remove_spec [OF in_useD(1) [OF root_disk_in_use] calm_env_ok _ root_in_dir [of 98],
      where uid = 5 and m = root_meta and es = root_entries and pool = root_pool and xs = "[1]"]
    root_dir_at root_disk_file [of 1 1] root_disk_file [of 2 2]
  by (fastforce simp: root_facts root_ents S_DIR_def S_FIL_def)

lemma c_rmdir_starts:
  assumes "wf_geom dt" and "malloc_ok E" and "in_dir E dt path uid nm parent" and "permission_check uid m opW \<noteq> 0"
    and "read_meta dt (fe_fb parent) = Some m"
    and "\<And>(fail :: int \<Rightarrow> int \<times> dtree) k. with_buf E dt (fe_fb parent) m 0 fail k = k b"
    and "find_entry_by_name b nm = Some (Some off)" "get_entry b off = Some e"
  shows "fe_type e \<noteq> S_DIR \<Longrightarrow> c_rmdir E dt path uid = Some (2, dt)"
    and "fe_type e = S_DIR \<Longrightarrow> dir_at dt (fe_fb e) dm des dpool \<Longrightarrow>
      c_rmdir E dt path uid = (if 2 < length des then Some (3, dt) else do {
        b \<leftarrow> upd_meta b (\<lambda>m. m\<lparr>fm_count := fm_count m - 1\<rparr>);
        fat \<leftarrow> reset_fat (fe_fb e) (fat_p dt);
        (ret, b) \<leftarrow> do_remove_entry E b off;
        if ret \<noteq> 0 then Some (ret, dt\<lparr>fat_p := fat\<rparr>) else do {
          real_pmeta \<leftarrow> get_meta b 0;
          dt \<leftarrow> do_writefile E (dt\<lparr>fat_p := fat\<rparr>) (fe_fb parent) b (fm_flen real_pmeta);
          Some (0, dt)
        } })"
proof -
  note start = c_rmdir_def with_parent_in_dir [OF assms(3)] assms(5-8) Option.bind.bind_lunit Let_def option.case
  show "fe_type e \<noteq> S_DIR \<Longrightarrow> c_rmdir E dt path uid = Some (2, dt)"
    unfolding start using assms(4) by simp
  assume t: "fe_type e = S_DIR" and z: "dir_at dt (fe_fb e) dm des dpool"
  from z obtain ws rest' where w: "file_at dt (fe_fb e) ws" "unat (fm_blocks dm) = length ws"
    "wf_dir dm des dpool" by (auto simp: dir_at_def)
  have "is_dir_empty dm \<longleftrightarrow> \<not> 2 < length des"
    using w(3) by (simp add: is_dir_empty_def word_less_nat_alt wf_dir_def not_less)
  then show "c_rmdir E dt path uid = (if 2 < length des then Some (3, dt) else do {
        b \<leftarrow> upd_meta b (\<lambda>m. m\<lparr>fm_count := fm_count m - 1\<rparr>);
        fat \<leftarrow> reset_fat (fe_fb e) (fat_p dt);
        (ret, b) \<leftarrow> do_remove_entry E b off;
        if ret \<noteq> 0 then Some (ret, dt\<lparr>fat_p := fat\<rparr>) else do {
          real_pmeta \<leftarrow> get_meta b 0;
          dt \<leftarrow> do_writefile E (dt\<lparr>fat_p := fat\<rparr>) (fe_fb parent) b (fm_flen real_pmeta);
          Some (0, dt)
        } })"
    unfolding start dir_at_reads(1) [OF assms(1) z] with_buf_content [OF assms(1,2) w(1,2)]
    using assms(4) t by simp
qed

lemma c_rmdir_unlinks:
  assumes "wf_geom dt" and "malloc_ok E" and "unat (dt_size dt) < 2147483648"
    and "in_dir E dt path uid nm parent" and "dir_at dt (fe_fb parent) m es pool"
    and "file_at dt (fe_fb parent) xs" and "permission_check uid m opW \<noteq> 0" and "ent_of pool es nm = Some e"
    and "fe_type e = S_DIR" and "dir_at dt (fe_fb e) dm des dpool"
  shows "2 < length des \<Longrightarrow> c_rmdir E dt path uid = Some (3, dt)"
    and "length des \<le> 2 \<Longrightarrow> file_at dt (fe_fb e) zs \<Longrightarrow> set zs \<inter> set xs = {} \<Longrightarrow>
      unat (fm_flen m) + 16 \<le> length xs * secsz dt \<Longrightarrow>
      \<exists>dt' i. c_rmdir E dt path uid = Some (0, dt') \<and> i < length es \<and> es ! i = e
        \<and> ent_name pool e = nm \<and> unlinked dt dt' (fe_fb parent) m es pool i xs zs"
    and "length des \<le> 2 \<Longrightarrow> length xs * secsz dt < unat (fm_flen m) + 16 \<Longrightarrow> c_rmdir E dt path uid = None"
proof -
  note wf = assms(1) and nz = in_dir_name [OF assms(4)]
  obtain rest where y: "unat (fm_blocks m) = length xs" "content dt xs = enc_dir m es pool @ rest" "wf_dir m es pool"
    "length (enc_dir m es pool @ rest) = length xs * secsz dt" "read_meta dt (fe_fb parent) = Some m"
    "\<And>fail k. with_buf E dt (fe_fb parent) m 0 fail k = (k (enc_dir m es pool @ rest) :: (int \<times> dtree) option)"
    using parent_buffer [OF wf assms(2,5,6)] by metis
  from find_entry_by_name_ent(2) [OF y(3) nz assms(8), of rest] obtain i where
    i: "i < length es" "es ! i = e" "ent_name pool e = nm"
    "find_entry_by_name (enc_dir m es pool @ rest) nm = Some (Some (64 + 16 * i))"
    "get_entry (enc_dir m es pool @ rest) (64 + 16 * i) = Some e" by blast
  note step = c_rmdir_starts(2) [OF wf assms(2,4,7) y(5,6) i(4,5) assms(9,10)]
  show "2 < length des \<Longrightarrow> c_rmdir E dt path uid = Some (3, dt)" using step by simp
  have l: "length rest + unat (fm_flen m) = length xs * secsz dt" using y(3,4) by (simp add: wf_dir_def)
  show "\<exists>dt' i. c_rmdir E dt path uid = Some (0, dt') \<and> i < length es \<and> es ! i = e
      \<and> ent_name pool e = nm \<and> unlinked dt dt' (fe_fb parent) m es pool i xs zs"
    if "length des \<le> 2" "file_at dt (fe_fb e) zs" "set zs \<inter> set xs = {}" "unat (fm_flen m) + 16 \<le> length xs * secsz dt"
  proof -
    have "16 \<le> length rest" using that(4) l by linarith
    from unlink_and_write [OF wf assms(2,3,6) y(1-3) this i(1) that(2,3)] step that(1) i(1-3) show ?thesis by auto
  qed
  show "c_rmdir E dt path uid = None" if "length des \<le> 2" "length xs * secsz dt < unat (fm_flen m) + 16"
  proof -
    have "length rest < 16" using that(2) l by linarith
    from unlink_overread [OF assms(2) y(3) i(1) this] step that(1) show ?thesis by (auto simp: bind_eq_None_conv)
  qed
qed

text \<open>
  C13. Removing a directory, on a disk below 2 GiB: with write permission on the parent, whose sectors hold at least 16
  more bytes behind its strings, \<open>c_rmdir\<close> removes an entry that is a directory with no entries
  but \<open>.\<close> and \<open>..\<close> and no sector in common with the parent (the entry \<open>.\<close> is not such a
  one), with the same effect on the disk as for a file: the entry is taken out of the parent,
  whose count goes down, and the sectors of the directory are free unless the parent has taken
  them. A directory with more entries is refused with 3, another file with 2, and nothing changes.
\<close>
theorem c_rmdir_spec:
  assumes "wf_geom dt" and "malloc_ok E" and "unat (dt_size dt) < 2147483648"
    and "in_dir E dt path uid nm parent" and "dir_at dt (fe_fb parent) m es pool"
    and "file_at dt (fe_fb parent) xs" and "unat (fm_flen m) + 16 \<le> length xs * secsz dt"
    and "permission_check uid m opW \<noteq> 0" and "ent_of pool es nm = Some e"
  shows "(if fe_type e \<noteq> S_DIR then c_rmdir E dt path uid = Some (2, dt)
     else \<forall>zs dm des dpool. file_at dt (fe_fb e) zs \<and> dir_at dt (fe_fb e) dm des dpool
         \<and> set zs \<inter> set xs = {} \<longrightarrow>
       (if 2 < length des then c_rmdir E dt path uid = Some (3, dt)
        else (\<exists>dt' i. c_rmdir E dt path uid = Some (0, dt') \<and> i < length es \<and> es ! i = e
              \<and> ent_name pool e = nm \<and> unlinked dt dt' (fe_fb parent) m es pool i xs zs)))"
proof (cases "fe_type e = S_DIR")
  case True
  note rm = c_rmdir_unlinks [OF assms(1-6,8,9) True]
  have rd: "if 2 < length des then c_rmdir E dt path uid = Some (3, dt)
      else (\<exists>dt' i. c_rmdir E dt path uid = Some (0, dt') \<and> i < length es \<and> es ! i = e
        \<and> ent_name pool e = nm \<and> unlinked dt dt' (fe_fb parent) m es pool i xs zs)"
    if z: "file_at dt (fe_fb e) zs" "dir_at dt (fe_fb e) dm des dpool" "set zs \<inter> set xs = {}" for zs dm des dpool
    using rm(1) [OF z(2)] rm(2) [OF z(2) _ z(1,3) assms(7)] by simp
  have "\<not> fe_type e \<noteq> S_DIR" using True by simp
  show ?thesis
    unfolding if_not_P [OF \<open>\<not> fe_type e \<noteq> S_DIR\<close>] by (intro allI impI, elim conjE, rule rd)
next
  case False
  obtain rest where y: "wf_dir m es pool" "read_meta dt (fe_fb parent) = Some m"
    "\<And>fail k. with_buf E dt (fe_fb parent) m 0 fail k = (k (enc_dir m es pool @ rest) :: (int \<times> dtree) option)"
    using parent_buffer [OF assms(1,2,5,6)] by metis
  from find_entry_by_name_ent(2) [OF y(1) in_dir_name [OF assms(4)] assms(9), of rest] obtain i where
    "find_entry_by_name (enc_dir m es pool @ rest) nm = Some (Some (64 + 16 * i))"
    "get_entry (enc_dir m es pool @ rest) (64 + 16 * i) = Some e" by blast
  from c_rmdir_starts(1) [OF assms(1,2,4,8) y(2,3) this False] False show ?thesis by simp
qed

theorem c_rmdir_spec_witness:
  "(\<exists>dt' i. c_rmdir calm_env root_disk [SLASH, 100] 5 = Some (0, dt')
      \<and> unlinked root_disk dt' 1 root_meta root_entries root_pool i [1] [3])
   \<and> c_rmdir calm_env root_disk [SLASH, 97] 5 = Some (2, root_disk)"
  using c_rmdir_spec [OF in_useD(1) [OF root_disk_in_use] calm_env_ok _ root_in_dir [of 100],
      where uid = 5 and m = root_meta and es = root_entries and pool = root_pool and xs = "[1]"]
    c_rmdir_spec [OF in_useD(1) [OF root_disk_in_use] calm_env_ok _ root_in_dir [of 97],
      where uid = 5 and m = root_meta and es = root_entries and pool = root_pool and xs = "[1]"]
    root_dir_at root_disk_file [of 1 1] root_disk_file [of 3 3] root_sub_at
  by (fastforce simp: root_facts root_ents S_DIR_def S_FIL_def dot_entries_def)

end
