(* ===== verification/CfsWriteSpec.thy ===== *)
theory CfsWriteSpec
  imports CfsBlocksSpec CfsCreate
begin

text \<open>
  What \<open>c_write\<close> does to the block list of a file: blocks keep their identity, appended
  ranges get fresh blocks, the file stays well formed and other files are untouched.
\<close>

unbundle bit_operations_syntax

definition bid :: "file_block \<Rightarrow> u64_t \<times> ip_array" where "bid b = (bl_block_num b, bl_ip b)"
definition sid :: "sendblock \<Rightarrow> u64_t \<times> ip_array" where "sid s = (sd_block_num s, sd_ip s)"

lemma sid_of [simp]: "sid (sendblock_of b x y) = bid b"
  by (simp add: sid_def bid_def sendblock_of_def)

section \<open>The steps of the loops\<close>

lemma sendblock_of_bid: "bid b = bid b' \<Longrightarrow> sendblock_of b x y = sendblock_of b' x y"
  by (simp add: sendblock_of_def bid_def)

lemma read_block_bid:
  assumes "bid (bs' ! (unat offset div BS + i)) = bid (bs ! (unat offset div BS + i))"
  shows "read_block bs' offset len n i = read_block bs offset len n i"
  unfolding read_block_def Let_def by (simp only: sendblock_of_bid [OF assms])

lemma over_piece_step:
  assumes "unat offset < 2 ^ 56" and i: "unat offset div BS + i < length bs" and n: "n \<noteq> 1"
  shows "\<exists>bs'. over_piece offset len (int n) (enc_meta m @ enc_blocks bs @ rest) i
      = Some (enc_meta m @ enc_blocks bs' @ rest, read_block bs offset len n i)
     \<and> map bid bs' = map bid bs"
proof -
  have at: "fb_start offset + 32 * i = 64 + 32 * (unat offset div BS + i)"
    using fb_start_val [OF assms(1)] by simp
  note gp = get_block [OF i, of m rest] put_block [OF i, of m rest]
  have same: "map bid (bs[unat offset div BS + i := b]) = map bid bs"
    if "bid b = bid (bs ! (unat offset div BS + i))" for b
    using that by (metis list_update_id map_update)
  show ?thesis
    unfolding over_piece_def at gp Option.bind.bind_lunit Let_def
    using same [of "(bs ! (unat offset div BS + i))\<lparr>bl_length := _\<rparr>"] n
    by (auto simp: bid_def read_block_def Let_def)
qed

lemma over_pieces:
  assumes "unat offset < 2 ^ 56" and "\<forall>i\<in>set is. unat offset div BS + i < length bs" and n: "n \<noteq> 1"
  shows "\<exists>bs'. pieces (over_piece offset len (int n)) (enc_meta m @ enc_blocks bs @ rest) is
      = Some (enc_meta m @ enc_blocks bs' @ rest, map (read_block bs offset len n) is)
     \<and> map bid bs' = map bid bs"
  using assms(2)
proof (induction "is" arbitrary: bs)
  case Nil
  show ?case by (intro exI [of _ bs]) simp
next
  case (Cons i "is")
  from over_piece_step [OF assms(1) _ n, of i bs len m rest] Cons.prems obtain bs1 where
    1: "over_piece offset len (int n) (enc_meta m @ enc_blocks bs @ rest) i
      = Some (enc_meta m @ enc_blocks bs1 @ rest, read_block bs offset len n i)"
    "map bid bs1 = map bid bs" by auto
  have l: "length bs1 = length bs" using 1(2) by (metis length_map)
  with Cons.IH [of bs1] Cons.prems obtain bs' where
    2: "pieces (over_piece offset len (int n)) (enc_meta m @ enc_blocks bs1 @ rest) is
      = Some (enc_meta m @ enc_blocks bs' @ rest, map (read_block bs1 offset len n) is)"
    "map bid bs' = map bid bs1" by auto
  have "read_block bs1 offset len n j = read_block bs offset len n j" if "j \<in> set is" for j
  proof (rule read_block_bid)
    show "bid (bs1 ! (unat offset div BS + j)) = bid (bs ! (unat offset div BS + j))"
      using Cons.prems that 1(2) l by (metis list.set_intros(2) nth_map)
  qed
  then have "map (read_block bs1 offset len n) is = map (read_block bs offset len n) is" by simp
  with 1 2 show ?case by (intro exI [of _ bs']) simp
qed

lemma sid_read_block: "sid (read_block bs offset len n i) = bid (bs ! (unat offset div BS + i))"
  by (simp add: read_block_def Let_def)

text \<open>Replicas: on as many nodes as there are, at most three, no two on the same.\<close>

definition placed :: "u32_t list \<Rightarrow> file_block \<Rightarrow> bool" where
  "placed ips b \<longleftrightarrow>
     (\<forall>k<3. if k < length ips then ip_get k (bl_ip b) \<in> set ips else ip_get k (bl_ip b) = 0)
     \<and> (\<forall>j<3. \<forall>k<3. j \<noteq> k \<and> j < length ips \<and> k < length ips \<longrightarrow> ip_get j (bl_ip b) \<noteq> ip_get k (bl_ip b))"

lemma pick_ip_in: "ips \<noteq> [] \<Longrightarrow> pick_ip ips ctr k \<in> set ips"
  unfolding pick_ip_def by (intro nth_mem) (simp add: nat_less_iff)

lemma alloc_block_some:
  assumes "ips \<noteq> []" and "0 \<le> ctr" and "ctr < 2 ^ 31 - 3"
  shows "\<exists>b c. alloc_block dt ctr ips (int (length ips))
      = Some (b, dt\<lparr>sb := (sb dt)\<lparr>sb_maxBlockNum := sb_maxBlockNum (sb dt) + 1\<rparr>\<rparr>, c)
     \<and> bl_block_num b = sb_maxBlockNum (sb dt) \<and> ctr \<le> c \<and> c \<le> ctr + 3 \<and> (distinct ips \<longrightarrow> placed ips b)"
proof -
  note step = alloc_ips_step [OF _ assms(2), of ips]
  have "\<exists>b c. alloc_ips ips (int (length ips)) 0 ctr blank_block = Some (b, c) \<and> ctr \<le> c \<and> c \<le> ctr + 3"
    using step [of 0 blank_block] step [of 1] step [of 2] assms(1,3)
    by (auto simp: NR_COPY_def alloc_ips_done numeral_2_eq_2)
  then obtain b c where b: "alloc_block dt ctr ips (int (length ips))
      = Some (b, dt\<lparr>sb := (sb dt)\<lparr>sb_maxBlockNum := sb_maxBlockNum (sb dt) + 1\<rparr>\<rparr>, c)"
    "bl_block_num b = sb_maxBlockNum (sb dt)" "ctr \<le> c" "c \<le> ctr + 3" by (auto simp: alloc_block_def Let_def)
  moreover have "placed ips b" if "distinct ips"
    using alloc_block_replicas [OF that assms, of dt] b(1) pick_ip_in [OF assms(1)] by (auto simp: placed_def)
  ultimately show ?thesis by blast
qed

text \<open>
  The lengths the send blocks of a write get that goes over the last block: \<open>old\<close> of the
  \<open>n\<close> blocks are there already.
\<close>

definition new_len :: "u64_t \<Rightarrow> int \<Rightarrow> nat \<Rightarrow> u64_t" where
  "new_len len n i = (if int i = n - 1 then (if len mod BLOCKSIZE \<noteq> 0 then len mod BLOCKSIZE else BLOCKSIZE)
     else BLOCKSIZE)"

definition append_len :: "u64_t \<Rightarrow> u64_t \<Rightarrow> nat \<Rightarrow> nat \<Rightarrow> nat \<Rightarrow> u64_t" where
  "append_len offset len old n i = (if i < old then if i = 0 then BLOCKSIZE - offset else BLOCKSIZE
     else new_len len (int n - int old) (i - old))"

lemma new_piece_step:
  assumes ips: "ips \<noteq> []" "0 \<le> ctr" "ctr < 2 ^ 31 - 3"
    and m: "unat (fm_strbase m) = 32 * length bs" and rest: "32 \<le> length rest"
  shows "\<exists>b s c. new_piece ips (int (length ips)) len n (enc_meta m @ enc_blocks bs @ rest, dt, ctr) i
      = Some ((enc_meta (m\<lparr>fm_strbase := fm_strbase m + 32\<rparr>) @ enc_blocks (bs @ [b]) @ drop 32 rest,
          dt\<lparr>sb := (sb dt)\<lparr>sb_maxBlockNum := sb_maxBlockNum (sb dt) + 1\<rparr>\<rparr>, c), s)
     \<and> sid s = bid b \<and> sd_length s = ucast (new_len len n i)
     \<and> bl_block_num b = sb_maxBlockNum (sb dt) \<and> ctr \<le> c \<and> c \<le> ctr + 3
     \<and> (distinct ips \<longrightarrow> placed ips b)"
proof -
  obtain b c where b: "alloc_block dt ctr ips (int (length ips))
      = Some (b, dt\<lparr>sb := (sb dt)\<lparr>sb_maxBlockNum := sb_maxBlockNum (sb dt) + 1\<rparr>\<rparr>, c)"
     "bl_block_num b = sb_maxBlockNum (sb dt)" "ctr \<le> c" "c \<le> ctr + 3" "distinct ips \<longrightarrow> placed ips b"
    using alloc_block_some [OF ips] by blast
  define s where "s = sendblock_of b 0 (if int i = n - 1
               then (if len mod BLOCKSIZE \<noteq> 0 then len mod BLOCKSIZE else BLOCKSIZE) else BLOCKSIZE)"
  define b' where "b' = b\<lparr>bl_length := sd_length s\<rparr>"
  have put: "put_fblock (enc_meta m @ enc_blocks bs @ rest) (64 + unat (fm_strbase m)) x
      = Some (enc_meta m @ enc_blocks (bs @ [x]) @ drop 32 rest)" for x
    using rest m by (simp add: fblock.put_some)
  have "new_piece ips (int (length ips)) len n (enc_meta m @ enc_blocks bs @ rest, dt, ctr) i
      = Some ((enc_meta (m\<lparr>fm_strbase := fm_strbase m + 32\<rparr>) @ enc_blocks (bs @ [b']) @ drop 32 rest,
          dt\<lparr>sb := (sb dt)\<lparr>sb_maxBlockNum := sb_maxBlockNum (sb dt) + 1\<rparr>\<rparr>, c), s)"
    by (simp add: new_piece_def meta.get_enc_head b(1) put s_def [symmetric] b'_def [symmetric]
        upd_meta_def meta.put_enc_head Let_def)
  moreover have "sid s = bid b'" by (simp add: s_def b'_def bid_def)
  moreover have "sd_length s = ucast (new_len len n i)" by (simp add: s_def new_len_def sendblock_of_def)
  moreover have "bl_block_num b' = sb_maxBlockNum (sb dt)" by (simp add: b'_def b(2))
  moreover have "distinct ips \<longrightarrow> placed ips b'" using b(5) by (simp add: placed_def b'_def)
  ultimately show ?thesis using b(3,4) by blast
qed

lemma new_pieces:
  assumes "ips \<noteq> []" and "0 \<le> ctr" and "ctr + 3 * int (length is) < 2 ^ 31 - 3"
    and "unat (fm_strbase m) = 32 * length bs" and "32 * length is \<le> length rest"
    and "32 * (length bs + length is) < 2 ^ 64"
  shows "\<exists>bs' m' dt' c ss. pieces (new_piece ips (int (length ips)) len n) (enc_meta m @ enc_blocks bs @ rest, dt, ctr) is
      = Some ((enc_meta m' @ enc_blocks (bs @ bs') @ drop (32 * length is) rest, dt', c), ss)
     \<and> length bs' = length is \<and> m' = m\<lparr>fm_strbase := fm_strbase m'\<rparr>
     \<and> unat (fm_strbase m') = 32 * (length bs + length is)
     \<and> dt' = dt\<lparr>sb := (sb dt)\<lparr>sb_maxBlockNum := sb_maxBlockNum (sb dt) + word_of_nat (length is)\<rparr>\<rparr>
     \<and> map sid ss = map bid bs' \<and> map sd_length ss = map (\<lambda>i. ucast (new_len len n i)) is
     \<and> (\<forall>j<length is. bl_block_num (bs' ! j) = sb_maxBlockNum (sb dt) + word_of_nat j)
     \<and> (distinct ips \<longrightarrow> (\<forall>b\<in>set bs'. placed ips b))"
  using assms
proof (induction "is" arbitrary: bs m rest dt ctr)
  case Nil
  then show ?case by (intro exI [of _ "[]"] exI [of _ m] exI [of _ dt]) simp
next
  case (Cons i "is")
  let ?m1 = "m\<lparr>fm_strbase := fm_strbase m + 32\<rparr>"
  let ?dt1 = "dt\<lparr>sb := (sb dt)\<lparr>sb_maxBlockNum := sb_maxBlockNum (sb dt) + 1\<rparr>\<rparr>"
  from new_piece_step [OF Cons.prems(1,2) _ Cons.prems(4), of rest len n dt i] Cons.prems(3,5) obtain b s c where
    1: "new_piece ips (int (length ips)) len n (enc_meta m @ enc_blocks bs @ rest, dt, ctr) i
      = Some ((enc_meta ?m1 @ enc_blocks (bs @ [b]) @ drop 32 rest, ?dt1, c), s)"
     "sid s = bid b" "bl_block_num b = sb_maxBlockNum (sb dt)" "ctr \<le> c" "c \<le> ctr + 3"
     "distinct ips \<longrightarrow> placed ips b" "sd_length s = ucast (new_len len n i)" by auto
  have m1: "unat (fm_strbase ?m1) = 32 * length (bs @ [b])"
    using Cons.prems(4,6) by (simp add: unat_add_fit)
  have "\<exists>bs' m' dt' c' ss. pieces (new_piece ips (int (length ips)) len n)
        (enc_meta ?m1 @ enc_blocks (bs @ [b]) @ drop 32 rest, ?dt1, c) is
      = Some ((enc_meta m' @ enc_blocks ((bs @ [b]) @ bs') @ drop (32 * length is) (drop 32 rest), dt', c'), ss)
     \<and> length bs' = length is \<and> m' = ?m1\<lparr>fm_strbase := fm_strbase m'\<rparr>
     \<and> unat (fm_strbase m') = 32 * (length (bs @ [b]) + length is)
     \<and> dt' = ?dt1\<lparr>sb := (sb ?dt1)\<lparr>sb_maxBlockNum := sb_maxBlockNum (sb ?dt1) + word_of_nat (length is)\<rparr>\<rparr>
     \<and> map sid ss = map bid bs' \<and> map sd_length ss = map (\<lambda>i. ucast (new_len len n i)) is
     \<and> (\<forall>j<length is. bl_block_num (bs' ! j) = sb_maxBlockNum (sb ?dt1) + word_of_nat j)
     \<and> (distinct ips \<longrightarrow> (\<forall>b\<in>set bs'. placed ips b))"
    using Cons.prems(1-3,5,6) 1(4,5) m1 by (intro Cons.IH) simp_all
  then obtain bs' m' dt' c' ss where
    2: "pieces (new_piece ips (int (length ips)) len n)
        (enc_meta ?m1 @ enc_blocks (bs @ [b]) @ drop 32 rest, ?dt1, c) is
      = Some ((enc_meta m' @ enc_blocks ((bs @ [b]) @ bs') @ drop (32 * length is) (drop 32 rest), dt', c'), ss)"
     "length bs' = length is" "m' = ?m1\<lparr>fm_strbase := fm_strbase m'\<rparr>"
     "unat (fm_strbase m') = 32 * (length (bs @ [b]) + length is)"
     "dt' = ?dt1\<lparr>sb := (sb ?dt1)\<lparr>sb_maxBlockNum := sb_maxBlockNum (sb ?dt1) + word_of_nat (length is)\<rparr>\<rparr>"
     "map sid ss = map bid bs'"
     "\<forall>j<length is. bl_block_num (bs' ! j) = sb_maxBlockNum (sb ?dt1) + word_of_nat j"
     "distinct ips \<longrightarrow> (\<forall>b\<in>set bs'. placed ips b)" "map sd_length ss = map (\<lambda>i. ucast (new_len len n i)) is" by blast
  have num: "\<forall>j<length (i # is). bl_block_num ((b # bs') ! j) = sb_maxBlockNum (sb dt) + word_of_nat j"
    using 1(3) 2(7) by (auto simp: nth_Cons' less_Suc_eq_0_disj)
  have run: "pieces (new_piece ips (int (length ips)) len n) (enc_meta m @ enc_blocks bs @ rest, dt, ctr) (i # is)
      = Some ((enc_meta m' @ enc_blocks (bs @ b # bs') @ drop (32 * length (i # is)) rest, dt', c'), s # ss)"
    using 1(1) 2(1) by (simp add: add.commute)
  have m': "m' = m\<lparr>fm_strbase := fm_strbase m'\<rparr>" using 2(3) by (metis file_meta.update_convs(7) file_meta.surjective)
  show ?case
    using run m' num 1(2,6,7) 2(2,4,5,6,8,9)
    by (intro exI [of _ "b # bs'"] exI [of _ m'] exI [of _ dt'] exI [of _ c'] exI [of _ "s # ss"]) simp
qed

section \<open>Arithmetic of the block counts\<close>

lemma sint_diff:
  assumes "A < 2147483648" and "C < 2147483648"
  shows "sint (ucast (word_of_nat A - word_of_nat C :: u64_t) :: 32 word) = int A - int C"
proof -
  have e: "(word_of_nat A - word_of_nat C :: u64_t) = word_of_int (int A - int C)" by simp
  have "(ucast (word_of_int k :: u64_t) :: 32 word) = word_of_int k" for k
    by (rule bit_word_eqI) (simp add: bit_simps)
  then have "sint (ucast (word_of_nat A - word_of_nat C :: u64_t) :: 32 word)
      = sint (word_of_int (int A - int C) :: 32 word)" by (simp only: e)
  also have "\<dots> = signed_take_bit 31 (int A - int C)"
    by (simp add: signed_of_int del: of_int_diff)
  also have "\<dots> = int A - int C"
    using assms by (intro signed_take_bit_int_eq_self) simp_all
  finally show ?thesis .
qed

section \<open>Writing\<close>

text \<open>A range inside the blocks the file has: they stay, but for the lengths noted in them.\<close>

lemma write_list_inside:
  assumes o56: "unat offset < 2 ^ 56" and k: "k \<le> 0" and inb: "\<And>i. i < n \<Longrightarrow> unat offset div BS + i < length bs"
  shows "\<exists>bs' ss. write_list ips mx offset len (int n) k (enc_meta m @ enc_blocks bs @ rest, dt, ctr)
        = Some ((enc_meta m @ enc_blocks bs' @ rest, dt, ctr), ss)
     \<and> map bid bs' = map bid bs \<and> ss = map (read_block bs offset len n) [0..<n]"
proof (cases "n = 1")
  case one: True
  let ?q = "unat offset div BS"
  have q: "?q < length bs" using inb [of 0] one by simp
  let ?b = "(bs ! ?q)\<lparr>bl_length := ucast (len + offset)\<rparr>"
  have "bid ?b = bid (bs ! ?q)" by (simp add: bid_def)
  then have "map bid (bs[?q := ?b]) = map bid bs" by (metis list_update_id map_update)
  moreover have "[0..<n] = [0]" using one by simp
  ultimately show ?thesis
    using one k fb_start_val [OF o56] get_block [OF q, of m rest] put_block [OF q, of m rest ?b]
    by (intro exI [of _ "bs[?q := ?b]"]) (simp add: write_list_def read_block_def)
next
  case False
  with over_pieces [OF o56, of "[0..<n]" bs n len m rest] inb k show ?thesis
    by (auto simp: write_list_def)
qed

text \<open>A range that goes over the last block: the old blocks from the offset on, then new ones.\<close>

lemma write_list_beyond:
  assumes o56: "unat offset < 2 ^ 56" and small: "length bs < 1073741825" "length bs + new < 1073741825"
    and m: "unat (fm_strbase m) = 32 * length bs" and q: "unat offset div BS \<le> length bs" "0 < new"
    and n: "n = length bs - unat offset div BS + new" and rest: "32 * new \<le> length rest"
    and ips: "ips \<noteq> []" "0 \<le> ctr" "ctr + 3 * int new < 2 ^ 31 - 3"
  shows "\<exists>bs' m' dt' c ss. write_list ips (int (length ips)) offset len (int n) (int new)
      (enc_meta m @ enc_blocks bs @ rest, dt, ctr)
      = Some ((enc_meta m' @ enc_blocks (bs @ bs') @ drop (32 * new) rest, dt', c), ss)
    \<and> length bs' = new \<and> m' = m\<lparr>fm_strbase := fm_strbase m'\<rparr> \<and> unat (fm_strbase m') = 32 * (length bs + new)
    \<and> dt' = dt\<lparr>sb := (sb dt)\<lparr>sb_maxBlockNum := sb_maxBlockNum (sb dt) + word_of_nat new\<rparr>\<rparr>
    \<and> map sid ss = map (\<lambda>i. bid ((bs @ bs') ! (unat offset div BS + i))) [0..<n]
    \<and> map sd_length ss = map (\<lambda>i. ucast (append_len offset len (length bs - unat offset div BS) n i)) [0..<n]
    \<and> (\<forall>j<new. bl_block_num (bs' ! j) = sb_maxBlockNum (sb dt) + word_of_nat j)
    \<and> (distinct ips \<longrightarrow> (\<forall>b\<in>set bs'. placed ips b))"
proof -
  let ?q = "unat offset div BS" and ?buf = "enc_meta m @ enc_blocks bs @ rest"
  have st: "fb_start offset + 32 * i = 64 + 32 * (?q + i)" for i using fb_start_val [OF o56] by simp
  define old where "old = length bs - ?q"
  have n': "n = old + new" by (simp add: n old_def)
  have "int n - int new = int old" using n' by simp
  then have on: "unat (word_of_int (int n - int new) :: u64_t) = old"
    using small(1) by (simp add: old_def unat_word_of_nat_fit)
  have oldp: "pieces (old_piece offset) ?buf [0..<old] = Some (?buf, map (\<lambda>i. if i = 0
      then sendblock_of (bs ! (?q + i)) (offset mod BLOCKSIZE) (BLOCKSIZE - offset)
      else sendblock_of (bs ! (?q + i)) 0 BLOCKSIZE) [0..<old])" (is "_ = Some (_, map ?f _)")
  proof (rule pieces_map)
    fix i assume "i \<in> set [0..<old]"
    then have "?q + i < length bs" by (simp add: old_def)
    from get_block [OF this, of m rest] show "old_piece offset ?buf i = Some (?buf, ?f i)"
      unfolding old_piece_def st by simp
  qed
  obtain bs' m' dt' c ss where
    np: "pieces (new_piece ips (int (length ips)) len (int new)) (?buf, dt, ctr) [0..<new]
      = Some ((enc_meta m' @ enc_blocks (bs @ bs') @ drop (32 * new) rest, dt', c), ss)"
    "length bs' = new" "m' = m\<lparr>fm_strbase := fm_strbase m'\<rparr>" "unat (fm_strbase m') = 32 * (length bs + new)"
    "dt' = dt\<lparr>sb := (sb dt)\<lparr>sb_maxBlockNum := sb_maxBlockNum (sb dt) + word_of_nat new\<rparr>\<rparr>"
    "map sid ss = map bid bs'" "\<forall>j<new. bl_block_num (bs' ! j) = sb_maxBlockNum (sb dt) + word_of_nat j"
    "distinct ips \<longrightarrow> (\<forall>b\<in>set bs'. placed ips b)"
    "map sd_length ss = map (\<lambda>i. ucast (new_len len (int new) i)) [0..<new]"
    using new_pieces [OF ips(1,2) _ m, of "[0..<new]" rest len "int new" dt] ips(3) rest small(2) by auto
  have "write_list ips (int (length ips)) offset len (int n) (int new) (?buf, dt, ctr)
    = Some ((enc_meta m' @ enc_blocks (bs @ bs') @ drop (32 * new) rest, dt', c), map ?f [0..<old] @ ss)"
    using q(2) on oldp np(1) by (simp add: write_list_def Let_def)
  moreover have "map sid (map ?f [0..<old] @ ss) = map (\<lambda>i. bid ((bs @ bs') ! (?q + i))) [0..<n]"
  proof (rule nth_equalityI)
    have ls: "length ss = new" using np(2,6) by (metis length_map)
    then show "length (map sid (map ?f [0..<old] @ ss)) = length (map (\<lambda>i. bid ((bs @ bs') ! (?q + i))) [0..<n])"
      using n' by simp
    fix i assume "i < length (map sid (map ?f [0..<old] @ ss))"
    then have i: "i < n" using ls n' by simp
    show "map sid (map ?f [0..<old] @ ss) ! i = map (\<lambda>i. bid ((bs @ bs') ! (?q + i))) [0..<n] ! i"
    proof (cases "i < old")
      case True
      then have "?q + i < length bs" by (simp add: old_def)
      with True i show ?thesis by (simp add: nth_append)
    next
      case False
      then have "?q + i - length bs = i - old" "i - old < new" "\<not> ?q + i < length bs"
        using q(1) i n' by (auto simp: old_def add.commute)
      moreover have "sid (ss ! (i - old)) = bid (bs' ! (i - old))"
        using np(2,6) ls calculation(2) by (metis nth_map)
      ultimately show ?thesis using False i ls by (simp add: nth_append)
    qed
  qed
  moreover have "map sd_length (map ?f [0..<old] @ ss) = map (\<lambda>i. ucast (append_len offset len old n i)) [0..<n]"
  proof -
    have "[0..<n] = [0..<old] @ map (\<lambda>i. i + old) [0..<new]"
      using map_add_upt [of old new] upt_add_eq_append [of 0 old new] by (simp add: n' add.commute [of new old])
    moreover have "map sd_length (map ?f [0..<old]) = map (\<lambda>i. ucast (append_len offset len old n i)) [0..<old]"
      by (auto simp: append_len_def sendblock_of_def)
    ultimately show ?thesis using np(9) by (simp add: append_len_def n')
  qed
  ultimately show ?thesis
    using np(2-5,7,8) unfolding old_def
    by (intro exI [of _ bs'] exI [of _ m'] exI [of _ dt'] exI [of _ c] exI [of _ "map ?f [0..<old] @ ss"]) (simp add: old_def)
qed

text \<open>
  What the middle part of \<open>c_write\<close> does with the buffer: it ends with a well-formed block
  list that extends the old one up to the end of the range.
\<close>

lemma c_write_list:
  assumes off: "unat offset \<le> flen" and fit: "flen < 2 ^ 54" "unat offset + unat len < 2 ^ 54"
    and bs: "length bs = ceil_bs flen" and m: "unat (fm_strbase m) = 32 * length bs"
    and e: "unat (offset + len) = unat offset + unat len"
    and rest: "32 * (ceil_bs (unat offset + unat len) - length bs) \<le> length rest"
    and ips: "ips \<noteq> []" "0 \<le> ctr" "ctr + 3 * int (ceil_bs (unat offset + unat len)) < 2 ^ 31 - 3"
  defines "C \<equiv> ceil_bs (unat offset + unat len)"
  defines "n \<equiv> C - unat offset div BS"
  defines "new \<equiv> C - length bs"
  shows "\<exists>bs' m' dt' ctr' ss.
    write_list ips (int (length ips)) offset len (int n) (int C - int (length bs))
      (enc_meta m @ enc_blocks bs @ rest, dt, ctr)
    = Some ((enc_meta m' @ enc_blocks bs' @ drop (32 * new) rest, dt', ctr'), ss)
    \<and> length bs' = length bs + new \<and> map bid (take (length bs) bs') = map bid bs
    \<and> m' = m\<lparr>fm_strbase := fm_strbase m'\<rparr> \<and> unat (fm_strbase m') = 32 * length bs'
    \<and> dt' = dt\<lparr>sb := (sb dt)\<lparr>sb_maxBlockNum := sb_maxBlockNum (sb dt) + word_of_nat new\<rparr>\<rparr>
    \<and> (\<forall>j<new. bl_block_num (bs' ! (length bs + j)) = sb_maxBlockNum (sb dt) + word_of_nat j)
    \<and> map sid ss = map (\<lambda>i. bid (bs' ! (unat offset div BS + i))) [0..<n]
    \<and> (C \<le> length bs \<longrightarrow> ss = map (read_block bs offset len n) [0..<n])
    \<and> (length bs < C \<longrightarrow>
        map sd_length ss = map (\<lambda>i. ucast (append_len offset len (length bs - unat offset div BS) n i)) [0..<n])
    \<and> (distinct ips \<longrightarrow> (\<forall>b\<in>set (drop (length bs) bs'). placed ips b))"
proof -
  let ?q = "unat offset div BS" and ?buf = "enc_meta m @ enc_blocks bs @ rest"
  have o56: "unat offset < 2 ^ 56" using fit(2) by simp
  have C30: "C < 1073741825" "length bs < 1073741825" using fit unfolding C_def bs ceil_bs_def by auto
  have qC: "?q \<le> C" unfolding C_def ceil_bs_mod using div_le_mono [of "unat offset" "unat offset + unat len" BS] by simp
  show ?thesis
  proof (cases "C \<le> length bs")
    case True
    have k: "new = 0" "int C - int (length bs) \<le> 0" using True by (simp_all add: new_def)
    have inb: "?q + i < length bs" if "i < n" for i using that True by (simp add: n_def)
    from write_list_inside [OF o56 k(2) inb, of n] obtain bs' ss where
      w: "write_list ips (int (length ips)) offset len (int n) (int C - int (length bs)) (?buf, dt, ctr)
        = Some ((enc_meta m @ enc_blocks bs' @ rest, dt, ctr), ss)"
      "map bid bs' = map bid bs" "ss = map (read_block bs offset len n) [0..<n]" by blast
    have l: "length bs' = length bs" using w(2) by (metis length_map)
    have "bid (bs' ! i) = bid (bs ! i)" if "i < length bs" for i using w(2) that l by (metis nth_map)
    then have "map sid ss = map (\<lambda>i. bid (bs' ! (?q + i))) [0..<n]" using inb by (simp add: w(3) sid_read_block)
    with w k(1) l m True show ?thesis
      by (intro exI [of _ bs'] exI [of _ m] exI [of _ dt] exI [of _ ctr] exI [of _ ss]) simp
  next
    case False
    then have nw: "int C - int (length bs) = int new" "0 < new" "C = length bs + new" by (auto simp: new_def)
    have qb: "?q \<le> length bs" unfolding bs ceil_bs_mod using off by (simp add: div_le_mono trans_le_add1)
    have n: "n = length bs - ?q + new" using nw(3) qb by (simp add: n_def)
    have s: "32 * new \<le> length rest" "ctr + 3 * int new < 2 ^ 31 - 3" "length bs + new < 1073741825"
      using rest ips(3) C30(1) nw(3) by (simp_all add: new_def C_def)
    from write_list_beyond [OF o56 C30(2) s(3) m qb nw(2) n s(1) ips(1,2) s(2), of len dt] obtain bs' m' dt' c ss where
      np: "write_list ips (int (length ips)) offset len (int n) (int new) (?buf, dt, ctr)
        = Some ((enc_meta m' @ enc_blocks (bs @ bs') @ drop (32 * new) rest, dt', c), ss)"
      "length bs' = new" "m' = m\<lparr>fm_strbase := fm_strbase m'\<rparr>" "unat (fm_strbase m') = 32 * (length bs + new)"
      "dt' = dt\<lparr>sb := (sb dt)\<lparr>sb_maxBlockNum := sb_maxBlockNum (sb dt) + word_of_nat new\<rparr>\<rparr>"
      "map sid ss = map (\<lambda>i. bid ((bs @ bs') ! (?q + i))) [0..<n]"
      "map sd_length ss = map (\<lambda>i. ucast (append_len offset len (length bs - ?q) n i)) [0..<n]"
      "\<forall>j<new. bl_block_num (bs' ! j) = sb_maxBlockNum (sb dt) + word_of_nat j"
      "distinct ips \<longrightarrow> (\<forall>b\<in>set bs'. placed ips b)" by blast
    then show ?thesis
      using \<open>\<not> C \<le> length bs\<close>
      by (intro exI [of _ "bs @ bs'"] exI [of _ m'] exI [of _ dt'] exI [of _ c] exI [of _ ss])
        (simp add: nth_append nw(1))
  qed
qed

text \<open>The buffer of \<open>c_write\<close> after the block list was read into it.\<close>

lemma c_write_buffer:
  assumes wf: "wf_geom dt" and fl: "file_at dt fb xs" "unat (fm_blocks m) = length xs"
    and b: "length b = unat (if szof_meta + up_div s BLOCKSIZE * szof_fblock > ucast (fm_blocks m * bps dt)
        then szof_meta + up_div s BLOCKSIZE * szof_fblock else ucast (fm_blocks m * bps dt))"
    and s: "unat s < 2 ^ 50"
  shows "\<exists>junk. do_readfile dt fb b = Some (content dt xs @ junk) \<and> length (content dt xs @ junk) = length b"
    and "64 + 32 * ceil_bs (unat s) \<le> length b" and "length xs * secsz dt \<le> length b"
    and "length b < 4294967296"
proof -
  note fit = file_at_fit [OF wf fl(1)]
  have l: "unat (fm_blocks m * bps dt) = length xs * secsz dt" using fl(2) fit by (simp add: unat_mult_fit)
  have c: "ceil_bs (unat s) < 67108865" using s by (simp add: ceil_bs_def)
  have u: "unat (up_div s BLOCKSIZE) = ceil_bs (unat s)" using s by (intro unat_up_div_bs) simp
  then have "unat (up_div s BLOCKSIZE * szof_fblock) = 32 * ceil_bs (unat s)" using c by (subst unat_mult_fit) simp_all
  then have "unat (szof_meta + up_div s BLOCKSIZE * szof_fblock) = 64 + 32 * ceil_bs (unat s)"
    using c by (subst unat_add_fit) simp_all
  then have lb: "length b = max (64 + 32 * ceil_bs (unat s)) (length xs * secsz dt)"
    using b l by (auto simp: word_less_nat_alt)
  then show "64 + 32 * ceil_bs (unat s) \<le> length b" "length xs * secsz dt \<le> length b" by simp_all
  show "length b < 4294967296" using lb c fit by simp
  with do_readfile_file [OF wf fl(1), of b] lb length_content [OF wf, of xs] fl(1)
  show "\<exists>junk. do_readfile dt fb b = Some (content dt xs @ junk) \<and> length (content dt xs @ junk) = length b"
    by (auto simp: file_at_def)
qed

lemma up_div_small:
  assumes "0 < unat b" and "unat a + unat b < 4294967296"
  defines "k \<equiv> unat (ucast (up_div a b) :: u32_t)"
  shows "unat a \<le> k * unat b" "(k - 1) * unat b \<le> unat a" "0 < unat a \<Longrightarrow> 0 < k"
    "k * unat b < 4294967296" "unat a \<le> j * unat b \<Longrightarrow> k \<le> j"
proof -
  have u: "unat (up_div a b) = (unat a + unat b - 1) div unat b" using assms(1,2) by (intro unat_up_div) simp_all
  have "(unat a + unat b - 1) div unat b < 4294967296"
    using assms(2) by (intro le_less_trans [OF div_le_dividend]) simp
  then have k: "k = (unat a + unat b - 1) div unat b"
    unfolding k_def using u by (subst unat_ucast_fit) simp_all
  show "unat a \<le> k * unat b" unfolding k using assms(1) by (rule ceil_div_ge)
  have kb: "k * unat b \<le> unat a + unat b - 1" unfolding k by simp
  then show "(k - 1) * unat b \<le> unat a" "k * unat b < 4294967296"
    using assms(2) by (simp_all add: diff_mult_distrib)
  show "0 < unat a \<Longrightarrow> 0 < k" unfolding k using assms(1) by (simp add: div_greater_zero_iff)
  show "unat a \<le> j * unat b \<Longrightarrow> k \<le> j" unfolding k using assms(1) by (rule ceil_div_le)
qed

text \<open>Changing the block counter leaves files alone.\<close>

lemma max_block_same:
  "wf_geom (dt\<lparr>sb := (sb dt)\<lparr>sb_maxBlockNum := v\<rparr>\<rparr>) = wf_geom dt"
  "file_at (dt\<lparr>sb := (sb dt)\<lparr>sb_maxBlockNum := v\<rparr>\<rparr>) fb xs = file_at dt fb xs"
  "content (dt\<lparr>sb := (sb dt)\<lparr>sb_maxBlockNum := v\<rparr>\<rparr>) xs = content dt xs"
proof -
  have "sector (dt\<lparr>sb := (sb dt)\<lparr>sb_maxBlockNum := v\<rparr>\<rparr>) = sector dt"
    by (rule ext) (simp add: sector_def)
  then show "content (dt\<lparr>sb := (sb dt)\<lparr>sb_maxBlockNum := v\<rparr>\<rparr>) xs = content dt xs"
    by (simp add: content_def)
qed (simp_all add: wf_geom_def file_at_def Let_def)

lemma word_from_unat: "unat w = n \<Longrightarrow> w = word_of_nat n"
  by auto

text \<open>Files elsewhere keep their blocks.\<close>

lemma file_blocks_kept:
  assumes "file_blocks dt gb m bs" and "keeps xs dt dt'" and "\<And>zs. file_at dt gb zs \<Longrightarrow> set zs \<inter> set xs = {}"
  shows "file_blocks dt' gb m bs"
  using assms unfolding file_blocks_def keeps_def by metis

text \<open>Writing back the buffer of a file whose block list has changed.\<close>

lemma write_blocks_back:
  assumes wf: "wf_geom dt" and E: "malloc_ok E" and sz: "unat (dt_size dt) < 2147483648"
    and fl: "file_at dt fb xs" and m: "unat (fm_strbase m) = 32 * length bs" "length bs = ceil_bs (unat (fm_flen m))"
      "fm_blocks m = ucast (up_div (szof_meta + fm_strbase m) (ucast (bps dt)))"
    and fit: "length bs < 67108865" "64 + 32 * length bs \<le> nsec dt * secsz dt"
  shows "\<exists>dt'. do_writefile E dt fb (enc_meta m @ enc_blocks bs @ rest) (szof_meta + fm_strbase m) = Some dt'
     \<and> file_blocks dt' fb m bs \<and> wf_geom dt' \<and> bps dt' = bps dt
     \<and> sb_maxBlockNum (sb dt') = sb_maxBlockNum (sb dt) \<and> keeps xs dt dt' \<and> apart xs fb dt dt'
     \<and> no_leak xs fb {} dt dt' \<and> unat (dt_size dt') \<le> 2 * unat (dt_size dt)"
proof -
  let ?s = "szof_meta + fm_strbase m" and ?dat = "enc_meta m @ enc_blocks bs @ rest"
  have s64: "unat ?s = 64 + 32 * length bs" using m(1) fit(1) by (subst unat_add_fit) auto
  have "nsec dt * secsz dt \<le> unat (dt_size dt)"
    using wf by (auto simp: wf_geom_def Let_def intro: mult_le_mono1)
  then have s32: "unat ?s + unat (ucast (bps dt) :: u64_t) < 4294967296"
    using fit(2) s64 sz wf_geomD(3) [OF wf] by simp
  have B0: "0 < unat (ucast (bps dt) :: u64_t)" using wf_geomD(1) [OF wf] by simp
  note k = up_div_small [OF B0 s32, unfolded unat_ucast_32_64]
  have fitN: "unat ?s \<le> nsec dt * secsz dt" using fit(2) s64 by simp
  have "unat ?s \<le> length ?dat" by (simp add: s64)
  then have cov: "covers ?dat (secsz dt) (unat (fm_blocks m)) 0 (unat ?s)"
    unfolding covers_def m(3) using k(2) by simp
  have p: "0 < unat (fm_blocks m)" "unat (fm_blocks m) * secsz dt < 4294967296" "unat (fm_blocks m) \<le> nsec dt + 2"
    unfolding m(3) using k(3,4) k(5) [OF fitN] s64 by simp_all
  have gm: "get_meta ?dat 0 = Some m" by (rule meta.get_enc_head)
  from do_writefile_file [OF wf E fl gm p(1,2) cov sz p(3)] obtain dt' zs where d:
    "do_writefile E dt fb ?dat ?s = Some dt'" "file_at dt' fb zs" "length zs = unat (fm_blocks m)"
    "upd (set xs \<union> set zs) dt dt'"
    "\<forall>y\<in>set zs. y \<in> set xs \<or> (y < nsec dt \<longrightarrow> fat_p dt ! y = FREESEC)"
    "\<forall>x\<in>set xs - set zs. fat_p dt' ! x = FREESEC"
    "take (min (unat ?s) (length zs * secsz dt)) (content dt' zs)
       = take (min (unat ?s) (length zs * secsz dt)) ?dat"
    "unat (dt_size dt') \<le> 2 * unat (dt_size dt)" by blast
  have mins: "min (unat ?s) (length zs * secsz dt) = unat ?s" unfolding d(3) m(3) using k(1) by simp
  have "take (unat ?s) ?dat = enc_meta m @ enc_blocks bs" by (simp add: s64)
  then have "content dt' zs = enc_meta m @ enc_blocks bs @ drop (unat ?s) (content dt' zs)"
    using d(7) unfolding mins by (metis append.assoc append_take_drop_id)
  then have "file_blocks dt' fb m bs" unfolding file_blocks_def using d(2,3) m(1,2) by auto
  then show ?thesis
    using d(1) keeps_upd [OF d(4,5)] apart_new [OF d(2,5)] no_leak_upd [OF d(4,2,6)] updD(1,2,4) [OF d(4)] d(8) by blast
qed

lemma file_blocks_fit:
  assumes wf: "wf_geom dt" and fb: "file_blocks dt fb m bs"
  shows "64 + 32 * length bs \<le> nsec dt * secsz dt"
proof -
  from fb obtain xs rest where x: "file_at dt fb xs" "content dt xs = enc_meta m @ enc_blocks bs @ rest"
    by (auto simp: file_blocks_def)
  have "distinct xs" "set xs \<subseteq> {..<nsec dt}" using x(1) chain_distinct by (auto simp: file_at_def)
  then have "length xs \<le> nsec dt" by (metis card_mono distinct_card finite_lessThan card_lessThan)
  then have "length (content dt xs) \<le> nsec dt * secsz dt"
    using length_content [OF wf, of xs] x(1) by (simp add: file_at_def)
  then show ?thesis by (simp add: x(2))
qed

lemma c_write_runs:
  assumes "wf_geom dt" and "malloc_ok E" and "unat (dt_size dt) < 2147483648"
    and "file_blocks dt fb m bs" and "file_at dt fb xs"
    and "offset \<le> fm_flen m" and "unat (fm_flen m) < 2 ^ 50" and "unat offset + unat len < 2 ^ 50"
    and "ips \<noteq> []" and "0 \<le> ctr" and "ctr + 3 * int (ceil_bs (unat offset + unat len)) < 2 ^ 31 - 3"
    and "64 + 32 * ceil_bs (unat offset + unat len) \<le> nsec dt * secsz dt"
  shows "\<exists>sl dt' ctr' m' bs'. c_write E dt ctr fb offset len uid ips (int (length ips))
        = Some (int (length sl), sl, dt', ctr')
     \<and> file_blocks dt' fb m' bs' \<and> unat (fm_flen m') = max (unat (fm_flen m)) (unat offset + unat len)
     \<and> fm_uid m' = fm_uid m \<and> fm_flags m' = fm_flags m \<and> map bid (take (length bs) bs') = map bid bs
     \<and> (\<forall>j. length bs + j < length bs' \<longrightarrow>
          bl_block_num (bs' ! (length bs + j)) = sb_maxBlockNum (sb dt) + word_of_nat j)
     \<and> sb_maxBlockNum (sb dt') = sb_maxBlockNum (sb dt) + word_of_nat (length bs' - length bs)
     \<and> map sid sl = map (\<lambda>i. bid (bs' ! i)) [unat offset div BS..<ceil_bs (unat offset + unat len)]
     \<and> length sl \<le> unat len div BS + 2 \<and> keeps xs dt dt'
     \<and> length sl = ceil_bs (unat offset + unat len) - unat offset div BS
     \<and> (ceil_bs (unat offset + unat len) \<le> length bs \<longrightarrow>
          sl = map (read_block bs offset len (length sl)) [0..<length sl])
     \<and> (length bs < ceil_bs (unat offset + unat len) \<longrightarrow> map sd_length sl
          = map (\<lambda>i. ucast (append_len offset len (length bs - unat offset div BS) (length sl) i)) [0..<length sl])
     \<and> wf_geom dt' \<and> bps dt' = bps dt \<and> apart xs fb dt dt' \<and> no_leak xs fb {} dt dt'
     \<and> (distinct ips \<longrightarrow> (\<forall>b\<in>set (drop (length bs) bs'). placed ips b))
     \<and> unat (dt_size dt') \<le> 2 * unat (dt_size dt)"
proof -
  let ?q = "unat offset div BS" and ?C = "ceil_bs (unat offset + unat len)"
  note wf = assms(1)
  from assms(4) obtain ys rest where y: "file_at dt fb ys" "unat (fm_blocks m) = length ys"
    "content dt ys = enc_meta m @ enc_blocks bs @ rest" "unat (fm_strbase m) = 32 * length bs"
    "length bs = ceil_bs (unat (fm_flen m))" by (auto simp: file_blocks_def)
  have "ys = xs" using y(1) assms(5) chain_unique by (auto simp: file_at_def)
  note y = y [unfolded this]
  have rm: "read_meta dt fb = Some m" using file_read_meta [OF wf y(1,3)] .
  have off: "unat offset \<le> unat (fm_flen m)" using assms(6) by (simp add: word_le_nat_alt)
  have e: "unat (offset + len) = unat offset + unat len" using assms(8) by (simp add: unat_add_fit)
  define bufsize where "bufsize = (if szof_meta + up_div (offset + len) BLOCKSIZE * szof_fblock > ucast (fm_blocks m * bps dt)
        then szof_meta + up_div (offset + len) BLOCKSIZE * szof_fblock else ucast (fm_blocks m * bps dt))"
  obtain b where b: "malloc E (unat bufsize) = Some b" "length b = unat bufsize" using assms(2) by (rule malloc_okE)
  note buf = c_write_buffer [OF wf y(1,2) b(2) [unfolded bufsize_def], unfolded e, OF assms(8)]
  from buf(1) obtain junk where j: "do_readfile dt fb b = Some (enc_meta m @ enc_blocks bs @ rest @ junk)"
    "length (content dt xs @ junk) = length b" using y(3) by auto
  define n where "n = ?C - ?q"
  define new where "new = ?C - length bs"
  have qC: "?q \<le> ?C" unfolding ceil_bs_mod using div_le_mono [of "unat offset" "unat offset + unat len" BS] by simp
  have span: "block_span offset len = int n"
    using block_span_val [of offset len] assms(8) qC by (simp add: n_def of_nat_diff)
  have C30: "?C < 67108865" "length bs < 67108865"
    using assms(7,8) unfolding y(5) by (simp_all add: ceil_bs_def)
  have ud: "up_div (offset + len) BLOCKSIZE = word_of_nat ?C" "up_div (fm_flen m) BLOCKSIZE = word_of_nat (length bs)"
    using unat_up_div_bs [of "offset + len"] unat_up_div_bs [of "fm_flen m"] e assms(7,8) y(5)
    by (auto intro!: word_from_unat)
  have nbn: "sint (ucast (up_div (offset + len) BLOCKSIZE - up_div (fm_flen m) BLOCKSIZE) :: 32 word)
      = int ?C - int (length bs)"
    unfolding ud using C30 by (intro sint_diff) simp_all
  have "32 * (?C - length bs) \<le> length (rest @ junk)"
    using j(2) buf(2) by (simp add: y(3) diff_mult_distrib2)
  from c_write_list [OF off _ _ y(5,4) e this assms(9-11), of dt] assms(7,8)
  obtain bs' m' dt1 ctr' ss where w:
    "write_list ips (int (length ips)) offset len (int n) (int ?C - int (length bs))
      (enc_meta m @ enc_blocks bs @ rest @ junk, dt, ctr)
      = Some ((enc_meta m' @ enc_blocks bs' @ drop (32 * new) (rest @ junk), dt1, ctr'), ss)"
    "length bs' = length bs + new" "map bid (take (length bs) bs') = map bid bs"
    "m' = m\<lparr>fm_strbase := fm_strbase m'\<rparr>" "unat (fm_strbase m') = 32 * length bs'"
    "dt1 = dt\<lparr>sb := (sb dt)\<lparr>sb_maxBlockNum := sb_maxBlockNum (sb dt) + word_of_nat new\<rparr>\<rparr>"
    "\<forall>j<new. bl_block_num (bs' ! (length bs + j)) = sb_maxBlockNum (sb dt) + word_of_nat j"
    "map sid ss = map (\<lambda>i. bid (bs' ! (?q + i))) [0..<n]"
    "?C \<le> length bs \<longrightarrow> ss = map (read_block bs offset len n) [0..<n]"
    "distinct ips \<longrightarrow> (\<forall>b\<in>set (drop (length bs) bs'). placed ips b)"
    "length bs < ?C \<longrightarrow> map sd_length ss = map (\<lambda>i. ucast (append_len offset len (length bs - ?q) n i)) [0..<n]"
    by (auto simp: n_def new_def)
  define ns where "ns = (if fm_flen m < offset + len then offset + len else fm_flen m)"
  have ns: "unat ns = max (unat (fm_flen m)) (unat offset + unat len)"
    using e by (auto simp: ns_def word_less_nat_alt)
  define m2 where "m2 = m'\<lparr>fm_flen := ns, fm_w_time := now E,
      fm_blocks := ucast (up_div (szof_meta + fm_strbase m') (ucast (bps dt)))\<rparr>"
  define dat where "dat = enc_meta m2 @ enc_blocks bs' @ drop (32 * new) (rest @ junk)"
  have lbs: "length bs' = ceil_bs (unat ns)"
  proof -
    have "ceil_bs (unat ns) = max (length bs) ?C"
      unfolding ns y(5) by (rule max_of_mono [OF monoI, symmetric]) (rule ceil_bs_mono)
    then show ?thesis using w(2) by (simp add: new_def max_def)
  qed
  have lbs2: "length bs' = length bs \<or> length bs' = ?C" using w(2) by (auto simp: new_def)
  have fitN: "64 + 32 * length bs' \<le> nsec dt * secsz dt"
    using lbs2 file_blocks_fit [OF wf assms(4)] assms(12) by auto
  have 1: "wf_geom dt1" "unat (dt_size dt1) < 2147483648" "file_at dt1 fb xs" "bps dt1 = bps dt" "nsec dt1 = nsec dt"
    using wf y(1) assms(3) by (simp_all add: w(6) max_block_same)
  have m2: "unat (fm_strbase m2) = 32 * length bs'" "length bs' = ceil_bs (unat (fm_flen m2))"
    "fm_blocks m2 = ucast (up_div (szof_meta + fm_strbase m2) (ucast (bps dt1)))" "length bs' < 67108865"
    "64 + 32 * length bs' \<le> nsec dt1 * secsz dt1"
    using w(5) lbs fitN C30 lbs2 by (auto simp: m2_def 1)
  from write_blocks_back [OF 1(1) assms(2) 1(2,3) m2, of "drop (32 * new) (rest @ junk)"] obtain dt' where
    d: "do_writefile E dt1 fb dat (szof_meta + fm_strbase m2) = Some dt'" "file_blocks dt' fb m2 bs'" "wf_geom dt'"
    "bps dt' = bps dt1" "sb_maxBlockNum (sb dt') = sb_maxBlockNum (sb dt1)" "keeps xs dt1 dt'" "apart xs fb dt1 dt'"
    "no_leak xs fb {} dt1 dt'" "unat (dt_size dt') \<le> 2 * unat (dt_size dt1)" unfolding dat_def by blast
  have kp: "keeps xs dt dt'" "apart xs fb dt dt'" "no_leak xs fb {} dt dt'"
    using d(6-8) unfolding keeps_def apart_def no_leak_def w(6) max_block_same by (blast, simp_all)
  have um: "upd_meta (enc_meta m' @ enc_blocks bs' @ drop (32 * new) (rest @ junk))
      (\<lambda>m. m\<lparr>fm_flen := ns, fm_w_time := now E,
        fm_blocks := ucast (up_div (szof_meta + fm_strbase m) (ucast (bps dt)))\<rparr>) = Some dat"
    by (simp add: upd_meta_def meta.get_enc_head meta.put_enc_head dat_def m2_def)
  have gm: "get_meta dat 0 = Some m2" by (simp add: dat_def meta.get_enc_head)
  have "bps dt \<noteq> 0" using wf_geomD(1) [OF wf] by auto
  then have run: "c_write E dt ctr fb offset len uid ips (int (length ips)) = Some (int n, ss, dt', ctr')"
    using assms(6) rm b(1) j(1) w(1) um gm d(1)
    unfolding c_write_def by (simp add: Let_def bufsize_def [symmetric] span nbn ns_def [symmetric] not_less 1 m2_def)
  have ls: "length ss = n" using w(8) by (metis length_map length_upt minus_nat.diff_0)
  have "map (\<lambda>i. bid (bs' ! (?q + i))) [0..<n] = map (\<lambda>i. bid (bs' ! i)) [?q..<?C]"
    using qC by (intro nth_equalityI) (simp_all add: n_def)
  moreover have "n \<le> unat len div BS + 2" unfolding n_def by (rule span_bound)
  moreover have "fm_uid m' = fm_uid m" "fm_flags m' = fm_flags m"
    by (subst w(4); simp)+
  ultimately show ?thesis
    using run d(2-5,9) ns w(2,3,7,8) ls kp 1(4)
    by (intro exI [of _ ss] exI [of _ dt'] exI [of _ ctr'] exI [of _ m2] exI [of _ bs'])
       (use w(9-11) in \<open>simp add: m2_def w(6) n_def [symmetric]\<close>)
qed

text \<open>
  C9. Writing: for a file of less than 1 PiB on a disk below 2 GiB with room for the longer block
  list, a write that starts inside or at the end of the file succeeds. The send blocks it
  returns are, in order, the blocks of the new block list from the one that contains the
  offset to the one that contains the end; there are never more of them than the two
  more than \<open>length / BLOCKSIZE\<close> that the caller allocates. Old blocks keep their numbers
  and replicas, new ones get the next unused numbers and, when the addresses of the data nodes
  are distinct, replicas on as many different nodes as there are, at most three; the length of the file is the
  maximum of the old length and the end of the range, the file is well formed again, and
  every other file is as before.
\<close>
theorem c_write_spec:
  assumes "wf_geom dt" and "malloc_ok E" and "unat (dt_size dt) < 2147483648"
    and "file_blocks dt fb m bs" and "file_at dt fb xs"
    and "offset \<le> fm_flen m" and "unat (fm_flen m) < 2 ^ 50" and "unat offset + unat len < 2 ^ 50"
    and "ips \<noteq> []" and "0 \<le> ctr" and "ctr + 3 * int (ceil_bs (unat offset + unat len)) < 2 ^ 31 - 3"
    and "64 + 32 * ceil_bs (unat offset + unat len) \<le> nsec dt * secsz dt"
  shows "\<exists>sl dt' ctr' m' bs'. c_write E dt ctr fb offset len uid ips (int (length ips))
        = Some (int (length sl), sl, dt', ctr')
     \<and> file_blocks dt' fb m' bs' \<and> unat (fm_flen m') = max (unat (fm_flen m)) (unat offset + unat len)
     \<and> fm_uid m' = fm_uid m \<and> fm_flags m' = fm_flags m \<and> map bid (take (length bs) bs') = map bid bs
     \<and> (\<forall>j. length bs + j < length bs' \<longrightarrow>
          bl_block_num (bs' ! (length bs + j)) = sb_maxBlockNum (sb dt) + word_of_nat j)
     \<and> sb_maxBlockNum (sb dt') = sb_maxBlockNum (sb dt) + word_of_nat (length bs' - length bs)
     \<and> map sid sl = map (\<lambda>i. bid (bs' ! i)) [unat offset div BS..<ceil_bs (unat offset + unat len)]
     \<and> (distinct ips \<longrightarrow> (\<forall>b\<in>set (drop (length bs) bs'). placed ips b))
     \<and> length sl \<le> unat len div BS + 2 \<and> keeps xs dt dt'"
  using c_write_runs [OF assms, of uid] by blast

theorem c_write_spec_witness:
  "\<exists>sl dt' ctr' m' bs'. c_write calm_env blk_disk 0 2 16777316 16777216 5 [1, 2, 3] 3
      = Some (int (length sl), sl, dt', ctr') \<and> file_blocks dt' 2 m' bs' \<and> unat (fm_flen m') = 33554532
     \<and> length sl \<le> 3"
  using c_write_spec [OF blk_disk_wf calm_env_ok _ blk_disk_blocks blk_disk_file, of 16777316 16777216 "[1, 2, 3]" 0 5]
  by (fastforce simp: blk_meta_def blk_disk_def sample_disk_def word_le_nat_alt ceil_bs_def)

text \<open>The lengths of an append do not add up unless it starts at the front of a block.\<close>

definition last_len :: "nat \<Rightarrow> nat" where
  "last_len l = (if l mod BS = 0 then BS else l mod BS)"

lemma last_len_ceil: "0 < l \<Longrightarrow> l = (ceil_bs l - 1) * BS + last_len l"
proof -
  assume "0 < l"
  then have "ceil_bs l - 1 = (if l mod BS = 0 then l div BS - 1 else l div BS)" by (simp add: ceil_bs_mod)
  moreover have "l = l div BS * BS + l mod BS" by simp
  moreover have "l mod BS = 0 \<Longrightarrow> 0 < l div BS" using \<open>0 < l\<close> by (metis gr0I mod_eq_self_iff_div_eq_0 less_not_refl)
  ultimately show ?thesis by (auto simp: last_len_def diff_mult_distrib)
qed

lemma last_len_bounds: "0 < last_len l" "last_len l \<le> BS"
  by (auto simp: last_len_def)

lemma unat_append_len:
  assumes "unat offset < BS" and "old < n" and "old = 0 \<Longrightarrow> offset = 0" and "i < n"
  shows "unat (ucast (append_len offset len old n i) :: u32_t)
    = (if i = n - 1 then last_len (unat len) else if i = 0 then BS - unat offset else BS)"
proof -
  have B: "unat BLOCKSIZE = BS" by (simp add: BLOCKSIZE_val)
  have m: "unat (len mod BLOCKSIZE) = unat len mod BS" by (simp add: unat_mod B)
  then have nz: "len mod BLOCKSIZE = 0 \<longleftrightarrow> unat len mod BS = 0" by (metis unat_eq_0)
  have d: "unat (BLOCKSIZE - offset) = BS - unat offset"
    using assms(1) unat_sub [of offset BLOCKSIZE] by (simp add: B word_le_nat_alt)
  have l: "unat (append_len offset len old n i)
    = (if i = n - 1 then last_len (unat len) else if i = 0 then BS - unat offset else BS)"
    using assms(2-4) by (auto simp: append_len_def new_len_def last_len_def m nz d B)
  then have "unat (append_len offset len old n i) < 2 ^ LENGTH(32)" using last_len_bounds(2) [of "unat len"] by auto
  then have "unat (ucast (append_len offset len old n i) :: u32_t) = unat (append_len offset len old n i)"
    by (simp add: unat_ucast_fit)
  then show ?thesis using l by simp
qed

lemma append_total:
  assumes "o' < BS" and "0 < n" and "n = 1 \<Longrightarrow> o' = 0" and "n = ceil_bs (o' + l)" and "0 < l"
  shows "(\<Sum>i\<leftarrow>[0..<n]. if i = n - 1 then last_len l else if i = 0 then BS - o' else BS) = l \<longleftrightarrow> o' = 0"
proof -
  let ?f = "\<lambda>i. if i = n - 1 then last_len l else if i = 0 then BS - o' else BS"
  obtain k where k: "n = Suc k" using assms(2) gr0_implies_Suc by blast
  have up: "[0..<n] = [0..<k] @ [k]" by (simp add: k)
  have "(\<Sum>i\<leftarrow>[0..<k]. ?f i) = k * BS - o'"
  proof (cases k)
    case 0
    then show ?thesis by simp
  next
    case (Suc j)
    have "(\<Sum>i\<leftarrow>[0..<k]. ?f i) = (BS - o') + (\<Sum>i\<leftarrow>[1..<k]. ?f i)"
      using Suc k by (simp add: upt_conv_Cons)
    also have "map ?f [1..<k] = map (\<lambda>_. BS) [1..<k]" using k by (intro map_cong) auto
    finally have "(\<Sum>i\<leftarrow>[0..<k]. ?f i) = (BS - o') + (\<Sum>i\<leftarrow>[1..<k]. BS)" .
    moreover have "(\<Sum>i\<leftarrow>[1..<k]. BS) = j * BS" using Suc by (simp add: sum_list_triv del: upt_Suc)
    ultimately show ?thesis using assms(1) Suc by simp
  qed
  then have sum: "(\<Sum>i\<leftarrow>[0..<n]. ?f i) = k * BS - o' + last_len l" by (simp add: up k)
  have k0: "k = 0 \<Longrightarrow> o' = 0" using assms(3) k by simp
  then have ok: "o' \<le> k * BS" using assms(1) by (cases k) auto
  have L: "o' + l = k * BS + last_len (o' + l)" using last_len_ceil [of "o' + l"] assms(4,5) k by simp
  show ?thesis
  proof
    assume "(\<Sum>i\<leftarrow>[0..<n]. ?f i) = l"
    then have "last_len l = last_len (o' + l)" using sum ok L by linarith
    then have "l mod BS = (o' + l) mod BS"
      by (auto simp: last_len_def split: if_splits)
    then have "o' mod BS = 0" by (metis add.commute add_diff_cancel_left' mod_eq_dvd_iff_nat le_add2 dvd_eq_mod_eq_0)
    then show "o' = 0" using assms(1) by simp
  next
    assume "o' = 0"
    then show "(\<Sum>i\<leftarrow>[0..<n]. ?f i) = l" using sum L by simp
  qed
qed

text \<open>
  C40. The lengths of a write that appends: when \<open>c_write\<close> starts in the first 16 MiB of a file,
  inside or at its end, and goes over the last block the file has, it returns one send block for
  each block up to the end of the range; the first is sent from the offset to the end of its
  block and those in between whole, but the length of the last is the rest of \<open>length\<close>, not
  of the end of the range, by \<open>BLOCKSIZE\<close>. So the lengths add up to the length asked for
  exactly when the write starts at offset 0: every other append sends too much or too little.
  File and range end before 1 PiB, the disk is below 2 GiB and has room for the longer block
  list, there is a data node, no \<open>malloc\<close> fails and the counter of nodes does not overflow.
\<close>
theorem c_write_append_lengths:
  assumes "wf_geom dt" and "malloc_ok E" and "unat (dt_size dt) < 2147483648"
    and "file_blocks dt fb m bs" and "file_at dt fb xs"
    and "offset \<le> fm_flen m" and "unat (fm_flen m) < 2 ^ 50" and "unat offset + unat len < 2 ^ 50"
    and "ips \<noteq> []" and "0 \<le> ctr" and "ctr + 3 * int (ceil_bs (unat offset + unat len)) < 2 ^ 31 - 3"
    and "64 + 32 * ceil_bs (unat offset + unat len) \<le> nsec dt * secsz dt"
    and "unat offset < BS" and "length bs < ceil_bs (unat offset + unat len)"
  shows "\<exists>sl dt' ctr'. c_write E dt ctr fb offset len uid ips (int (length ips))
        = Some (int (length sl), sl, dt', ctr')
     \<and> length sl = ceil_bs (unat offset + unat len)
     \<and> (\<forall>i<length sl. unat (sd_length (sl ! i)) =
          (if i = length sl - 1 then if unat len mod BS = 0 then BS else unat len mod BS
           else if i = 0 then BS - unat offset else BS))
     \<and> (sum_list (map (\<lambda>s. unat (sd_length s)) sl) = unat len \<longleftrightarrow> offset = 0)"
proof -
  let ?C = "ceil_bs (unat offset + unat len)"
  have q: "unat offset div BS = 0" using assms(13) by simp
  from c_write_runs [OF assms(1-12), of uid] assms(14) obtain sl dt' ctr' where
    c: "c_write E dt ctr fb offset len uid ips (int (length ips)) = Some (int (length sl), sl, dt', ctr')"
    "length sl = ?C" "map sd_length sl = map (\<lambda>i. ucast (append_len offset len (length bs) (length sl) i)) [0..<length sl]"
    unfolding q by auto
  from assms(4) have lb: "length bs = ceil_bs (unat (fm_flen m))" by (auto simp: file_blocks_def)
  have off: "unat offset \<le> unat (fm_flen m)" using assms(6) by (simp add: word_le_nat_alt)
  have o0: "offset = 0" if "length bs = 0"
  proof -
    have "unat (fm_flen m) = 0" using that lb by (auto simp: ceil_bs_def)
    then show ?thesis using off by (simp add: unat_eq_0 [symmetric])
  qed
  have len0: "0 < unat len"
  proof (rule ccontr)
    assume "\<not> 0 < unat len"
    then have "?C \<le> length bs" using off lb ceil_bs_mono [of "unat offset" "unat (fm_flen m)"] by simp
    then show False using assms(14) by simp
  qed
  have n1: "length sl = 1 \<Longrightarrow> offset = 0" using c(2) assms(14) o0 by simp
  have each: "unat (sd_length (sl ! i)) = (if i = length sl - 1 then last_len (unat len) else if i = 0 then BS - unat offset else BS)"
    if i: "i < length sl" for i
  proof -
    have "sd_length (sl ! i) = ucast (append_len offset len (length bs) (length sl) i)"
      using arg_cong [OF c(3), of "\<lambda>x. x ! i"] i by simp
    moreover have "length bs < length sl" using assms(14) c(2) by simp
    note unat_append_len [OF assms(13) this o0 i, where len = len]
    ultimately show ?thesis by (simp only:)
  qed
  have "map (\<lambda>s. unat (sd_length s)) sl = map (\<lambda>i. if i = length sl - 1 then last_len (unat len)
      else if i = 0 then BS - unat offset else BS) [0..<length sl]"
    using each by (intro nth_equalityI) simp_all
  moreover have "0 < length sl" using c(2) assms(14) by simp
  ultimately have "sum_list (map (\<lambda>s. unat (sd_length s)) sl) = unat len \<longleftrightarrow> unat offset = 0"
    using append_total [OF assms(13) _ _ c(2) len0] n1 by (simp add: unat_eq_0)
  then show ?thesis using c(1,2) each by (auto simp: last_len_def unat_eq_0)
qed

theorem c_write_append_lengths_witness:
  "\<exists>sl dt' ctr'. c_write calm_env blk_disk 0 2 10 33554432 5 [1, 2, 3] 3 = Some (3, sl, dt', ctr')
     \<and> unat (sd_length (sl ! 0)) = 16777206 \<and> unat (sd_length (sl ! 1)) = 16777216
     \<and> unat (sd_length (sl ! 2)) = 16777216"
proof -
  have "length blk_list < ceil_bs (unat (10 :: u64_t) + unat (33554432 :: u64_t))" by (simp add: blk_list_def ceil_bs_def)
  from c_write_append_lengths [OF blk_disk_wf calm_env_ok _ blk_disk_blocks blk_disk_file, of 10 33554432 "[1, 2, 3]" 0, OF _ _ _ _ _ _ _ _ _ this, of 5]
  obtain sl dt' ctr' where "c_write calm_env blk_disk 0 2 10 33554432 5 [1, 2, 3] 3 = Some (int (length sl), sl, dt', ctr')"
    "length sl = 3" "\<forall>i<3. unat (sd_length (sl ! i)) = (if i = 2 then BS else if i = 0 then BS - 10 else BS)"
    by (auto simp: blk_meta_def blk_disk_def sample_disk_def word_le_nat_alt ceil_bs_def)
  then show ?thesis by auto
qed

end
