(* ===== verification/FileImage.thy ===== *)
theory FileImage
  imports EndToEnd CfsWriteSpec
begin

text \<open>
  The abstract file: control node and data nodes together represent a sequence of bytes. A
  write of the client through the control node's block list replaces the range in this
  sequence. That the file is again represented afterwards is proved for the disk image, the
  block list and every replica.
\<close>

section \<open>A patch, block by block\<close>

lemma nth_patch:
  "p + length d \<le> length x \<Longrightarrow> j < length x \<Longrightarrow>
    patch p d x ! j = (if j < p then x ! j else if j < p + length d then d ! (j - p) else x ! j)"
  by (auto simp: patch_def nth_append min_def)

lemma concat_blocks:
  "k * BS \<le> length z \<Longrightarrow> concat (map (\<lambda>i. take BS (drop (i * BS) z)) [0..<k]) = take (k * BS) z"
proof (induction k)
  case (Suc k)
  have "take (Suc k * BS) z = take (k * BS) z @ take BS (drop (k * BS) z)"
    using take_add [of "k * BS" BS z] by (simp add: add.commute)
  then show ?case using Suc by simp
qed simp

lemma length_concat_blocks: "\<forall>x \<in> set xs. length x = BS \<Longrightarrow> length (concat xs) = length xs * BS"
  by (induction xs) simp_all

text \<open>The part of the buffer that belongs to block \<open>i\<close>, and the block with it.\<close>

definition buf_part :: "nat \<Rightarrow> nat \<Rightarrow> buf \<Rightarrow> nat \<Rightarrow> buf" where
  "buf_part o' e ub i = take (part_len o' e i) (drop (max o' (i * BS) - o') ub)"

definition new_block :: "nat \<Rightarrow> nat \<Rightarrow> buf \<Rightarrow> buf list \<Rightarrow> nat \<Rightarrow> buf" where
  "new_block o' e ub xs i = patch (part_off o' i) (buf_part o' e ub i) (xs ! i)"

lemma length_buf_part:
  assumes "o' < BS" and "o' \<le> e" and "e - o' \<le> length ub"
  shows "length (buf_part o' e ub i) = part_len o' e i" and "part_off o' i + part_len o' e i \<le> BS"
proof -
  define k where "k = max o' (i * BS)"
  have "part_len o' e i \<le> e - k" by (simp add: part_len_def k_def diff_le_mono)
  moreover have "o' \<le> k" by (simp add: k_def)
  ultimately have "part_len o' e i \<le> length ub - (k - o')" using assms(2,3) by linarith
  then show "length (buf_part o' e ub i) = part_len o' e i" by (simp add: buf_part_def k_def)
  show "part_off o' i + part_len o' e i \<le> BS"
  proof -
    define t where "t = i * BS"
    have "part_off o' i = k - t" "part_len o' e i \<le> t + BS - k" "t \<le> k" "k \<le> t + BS"
      using assms(1) by (simp_all add: part_off_def part_len_def k_def t_def add.commute diff_le_mono)
    then show ?thesis by linarith
  qed
qed

lemma block_of_patch:
  assumes xs: "\<forall>x \<in> set xs. length x = BS" and o': "o' < BS" "o' \<le> e" "e \<le> length xs * BS"
    and ub: "e - o' \<le> length ub" and i: "i < length xs"
  shows "new_block o' e ub xs i = take BS (drop (i * BS) (patch o' (take (e - o') ub) (concat xs)))"
proof (rule nth_equalityI)
  let ?C = "concat xs" and ?d = "take (e - o') ub"
  note lc = length_concat_blocks [OF xs] and lb = length_buf_part [OF o'(1,2) ub, of i]
  have lx: "length (xs ! i) = BS" using xs i by simp
  have ib: "i * BS + BS \<le> length xs * BS" using i by (metis Suc_leI add.commute mult_Suc mult_le_mono1)
  have ld: "length ?d = e - o'" using ub by simp
  have lp: "length (patch o' ?d ?C) = length xs * BS" using o' ub lc by simp
  have ln: "length (new_block o' e ub xs i) = BS" using lb lx by (simp add: new_block_def)
  show "length (new_block o' e ub xs i) = length (take BS (drop (i * BS) (patch o' ?d ?C)))"
    using ln lp ib by simp
  fix j assume "j < length (new_block o' e ub xs i)"
  then have j: "j < BS" using ln by simp
  have x: "xs ! i ! j = ?C ! (i * BS + j)" using nth_block [OF xs i] j lc ib by simp
  have L: "new_block o' e ub xs i ! j = (if j < part_off o' i then ?C ! (i * BS + j)
      else if j < part_off o' i + part_len o' e i then buf_part o' e ub i ! (j - part_off o' i) else ?C ! (i * BS + j))"
    unfolding new_block_def using lb lx j x by (simp add: nth_patch)
  have R: "take BS (drop (i * BS) (patch o' ?d ?C)) ! j = (if i * BS + j < o' then ?C ! (i * BS + j)
      else if i * BS + j < e then ub ! (i * BS + j - o') else ?C ! (i * BS + j))"
    using j o' ib lc lp ld by (simp add: nth_patch)
  have B: "buf_part o' e ub i ! k = ub ! (max o' (i * BS) - o' + k)" if "k < part_len o' e i" for k
    using that lb(1) ub by (simp add: buf_part_def)
  consider "i = 0" | "BS \<le> i * BS" by (cases i) simp_all
  then show "new_block o' e ub xs i ! j = take BS (drop (i * BS) (patch o' ?d ?C)) ! j"
  proof cases
    case 1
    then have "part_off o' i = o'" "part_len o' e i = min e BS - o'"
      using o'(1) by (simp_all add: part_off_def part_len_def max_def)
    then show ?thesis unfolding L R using B [of "j - o'"] j o'(1) 1 by auto
  next
    case 2
    then have "part_off o' i = 0" "part_len o' e i = min e (i * BS + BS) - i * BS" "max o' (i * BS) = i * BS"
      using o'(1) by (simp_all add: part_off_def part_len_def max_def add.commute)
    then show ?thesis unfolding L R using B [of j] j o'(1) 2 by auto
  qed
qed

lemma concat_new_blocks:
  assumes xs: "\<forall>x \<in> set xs. length x = BS" and o': "o' < BS" "o' \<le> e" "e \<le> length xs * BS"
    and ub: "e - o' \<le> length ub"
  shows "concat (map (new_block o' e ub xs) [0..<length xs]) = patch o' (take (e - o') ub) (concat xs)"
proof -
  let ?z = "patch o' (take (e - o') ub) (concat xs)"
  have l: "length ?z = length xs * BS" using length_concat_blocks [OF xs] o' ub by simp
  have "map (new_block o' e ub xs) [0..<length xs] = map (\<lambda>i. take BS (drop (i * BS) ?z)) [0..<length xs]"
    using block_of_patch [OF assms] by (intro map_cong) simp_all
  moreover have "concat (map (\<lambda>i. take BS (drop (i * BS) ?z)) [0..<length xs]) = ?z"
    using concat_blocks [of "length xs" ?z] l by simp
  ultimately show ?thesis by (simp only:)
qed

section \<open>Files of the two sides together\<close>

definition ips_of :: "file_block \<Rightarrow> u32_t list" where
  "ips_of b = (case bl_ip b of (x, y, z) \<Rightarrow> [x, y, z])"

text \<open>Every data node of the block has the contents \<open>x\<close>, and there is such a node.\<close>

definition copies :: "cluster \<Rightarrow> file_block \<Rightarrow> buf \<Rightarrow> bool" where
  "copies w b x \<longleftrightarrow> length x = BS \<and> (\<exists>n \<in> set (ips_of b). n \<noteq> 0)
     \<and> (\<forall>n \<in> set (ips_of b). n \<noteq> 0 \<longrightarrow> node_block w n (bl_block_num b) = Some x)"

text \<open>
  The file at \<open>fb\<close> consists of \<open>bytes\<close>: the contents of the blocks in its list, cut off at
  its length. The numbers of its blocks have one digit, as the names of the data node allow.
\<close>

definition file_of :: "cluster \<Rightarrow> dtree \<Rightarrow> u32_t \<Rightarrow> buf \<Rightarrow> bool" where
  "file_of w dt fb bytes \<longleftrightarrow> wf_geom dt \<and> (\<exists>m bs xs. file_blocks dt fb m bs
     \<and> distinct (map bl_block_num bs) \<and> (\<forall>b \<in> set bs. unat (bl_block_num b) < 10)
     \<and> list_all2 (copies w) bs xs \<and> bytes = take (unat (fm_flen m)) (concat xs))"

lemma copies_bid: "bid b = bid b' \<Longrightarrow> copies w b x = copies w b' x"
  by (simp add: copies_def ips_of_def bid_def)

lemma copies_same_bids:
  assumes "map bid bs = map bid bs'" and "list_all2 (copies w) bs xs"
  shows "list_all2 (copies w) bs' xs"
proof -
  have l: "length bs = length bs'" using assms(1) by (metis length_map)
  then have "bid (bs ! i) = bid (bs' ! i)" if "i < length bs'" for i using assms(1) that by (metis nth_map)
  then have "copies w (bs' ! i) (xs ! i) = copies w (bs ! i) (xs ! i)" if "i < length bs'" for i
    using that by (intro copies_bid) simp
  then show ?thesis using assms(2) l by (simp add: list_all2_conv_all_nth)
qed

lemma copies_length:
  assumes "list_all2 (copies w) bs xs"
  shows "length xs = length bs" and "\<forall>x \<in> set xs. length x = BS"
proof -
  show "length xs = length bs" using assms by (simp add: list_all2_lengthD)
  then show "\<forall>x \<in> set xs. length x = BS"
    using assms by (auto simp: list_all2_conv_all_nth in_set_conv_nth copies_def)
qed

lemma take_patch:
  assumes "p \<le> f" and "f \<le> length x" and "p + length d \<le> length x"
  shows "take (max f (p + length d)) (patch p d x) = patch p d (take f x)"
proof (cases d)
  case Nil
  then show ?thesis using assms by (simp add: max_def)
next
  case Cons
  then have "0 < length d" by simp
  then show ?thesis using assms by (auto simp: patch_def max_def min_def drop_take simp del: length_greater_0_conv)
qed

text \<open>What the entries of a block list do to the blocks.\<close>

lemma block_entries:
  assumes sl: "length sl = ceil_bs e" "length sl \<le> length bs"
    and parts: "\<forall>i<length sl. sd_block_num (sl ! i) = bl_block_num (bs ! i) \<and> sd_ip (sl ! i) = bl_ip (bs ! i)
        \<and> unat (sd_offset (sl ! i)) = part_off o' i \<and> unat (sd_length (sl ! i)) = part_len o' e i"
    and o': "o' < BS" "o' < e" and es: "list_all2 reports sl es"
    and bs: "distinct (map bl_block_num bs)" "\<forall>b \<in> set bs. unat (bl_block_num b) < 10" "list_all2 (copies w) bs xs"
  shows entries_writable: "\<forall>e \<in> set es. nameable e \<and> writable (node_block w) e (nodes_of e)"
    and entries_total: "total_len es = e - o'"
    and entries_written: "e - o' \<le> length ub \<Longrightarrow> node_block w' = stored_blocks (node_block w) es ub 0 \<Longrightarrow>
      list_all2 (copies w') bs (map (new_block o' e ub xs) [0..<length xs])"
proof -
  note xs = copies_length [OF bs(3)]
  have l: "length es = length sl" using es by (simp add: list_all2_lengthD)
  have at: "be_block_id (es ! i) = bl_block_num (bs ! i)" "unat (be_offset (es ! i)) = part_off o' i"
    "len_of (es ! i) = part_len o' e i" "nodes_of (es ! i) = ips_of (bs ! i)" if "i < length sl" for i
  proof -
    have "reports (sl ! i) (es ! i)" using es l that by (auto simp: list_all2_conv_all_nth)
    then show "be_block_id (es ! i) = bl_block_num (bs ! i)" "unat (be_offset (es ! i)) = part_off o' i"
      "len_of (es ! i) = part_len o' e i" "nodes_of (es ! i) = ips_of (bs ! i)"
      using parts that by (simp_all add: reports_def nodes_of_def ips_of_def)
  qed
  have before: "i * BS < e" if "i < length sl" for i
  proof -
    have "(length sl - 1) * BS < e" using ceil_bs_bounds(2) [of e] o'(2) sl(1) by simp
    moreover have "i * BS \<le> (length sl - 1) * BS" using that by (intro mult_le_mono1) simp
    ultimately show ?thesis by simp
  qed
  have copy: "copies w (bs ! i) (xs ! i)" if "i < length bs" for i
    using bs(3) that by (simp add: list_all2_conv_all_nth)
  have ins: "inside (es ! i) (xs ! i)" if i: "i < length sl" for i
    using at [OF i] part_bounds(1) [OF o' before [OF i]] copy [of i] i sl(2) by (simp add: inside_def copies_def)
  have "nameable (es ! i) \<and> writable (node_block w) (es ! i) (nodes_of (es ! i))" if i: "i < length sl" for i
  proof -
    have "bs ! i \<in> set bs" using i sl(2) by (intro nth_mem) simp
    then have "nameable (es ! i)"
      using at [OF i] bs(2) part_bounds [OF o' before [OF i]] by (simp add: nameable_def del: unat_gt_0)
    then show ?thesis using at [OF i] ins [OF i] copy [of i] i sl(2) by (auto simp: writable_def copies_def)
  qed
  then show "\<forall>e \<in> set es. nameable e \<and> writable (node_block w) e (nodes_of e)" by (metis in_set_conv_nth l)
  have lens: "map len_of es = map (part_len o' e) [0..<length sl]"
    by (rule nth_equalityI) (simp_all add: l at)
  then show total: "total_len es = e - o'"
    using sum_part_len [of o' e "length sl"] o' ceil_bs_bounds(1) [of e] sl(1) by simp
  have "total_len (take i es) = max o' (i * BS) - o'" if i: "i < length sl" for i
  proof -
    have "map len_of (take i es) = take i (map (part_len o' e) [0..<length sl])"
      unfolding lens [symmetric] by (rule take_map [symmetric])
    also have "\<dots> = map (part_len o' e) [0..<i]" using i by (simp add: take_map)
    finally have "total_len (take i es) = sum_list (map (part_len o' e) [0..<i])" by (rule arg_cong)
    then show ?thesis
      using sum_part_len_upto [of o' e i] before [OF i] o' by (cases "i = 0") (simp_all add: max_def min_def)
  qed
  then have cut: "cut es ub ! i = buf_part o' e ub i" if "i < length sl" for ub i
    using that at [OF that] by (simp add: nth_cut l buf_part_def)
  have dist: "distinct (map be_block_id es)"
  proof -
    have "map be_block_id es = take (length sl) (map bl_block_num bs)"
      by (rule nth_equalityI) (use l at sl(2) in simp_all)
    then show ?thesis using bs(1) by simp
  qed
  assume ub: "e - o' \<le> length ub" and w': "node_block w' = stored_blocks (node_block w) es ub 0"
  have "copies w' (bs ! i) (new_block o' e ub xs i)" if i: "i < length bs" for i
  proof -
    have lx: "length (xs ! i) = BS" and some: "\<exists>n \<in> set (ips_of (bs ! i)). n \<noteq> 0"
      and all: "\<forall>n \<in> set (ips_of (bs ! i)). n \<noteq> 0 \<longrightarrow> node_block w n (bl_block_num (bs ! i)) = Some (xs ! i)"
      using copy [OF i] by (simp_all add: copies_def)
    have "length (new_block o' e ub xs i) = BS"
      using length_buf_part [of o' e ub i] o' ub lx by (simp add: new_block_def)
    moreover have "node_block w' n (bl_block_num (bs ! i)) = Some (new_block o' e ub xs i)"
      if n: "n \<in> set (ips_of (bs ! i))" "n \<noteq> 0" for n
    proof (cases "i < length sl")
      case True
      have H: "node_block w n (be_block_id (es ! i)) = Some (xs ! i)" using all n at(1) [OF True] by simp
      have "i < length es" "0 + total_len es \<le> length ub" using True l total ub by simp_all
      from stored_blocks_patch [where H = "node_block w" and n = n, OF dist this(1) H ins [OF True] this(2)] show ?thesis
        using n at [OF True] cut [OF True] by (simp add: w' new_block_def)
    next
      case False
      then have "ceil_bs e \<le> i" using sl(1) by simp
      then have "e \<le> i * BS" using ceil_bs_bounds(1) [of e] by (meson le_trans mult_le_mono1)
      then have "part_len o' e i = 0" "part_off o' i = 0" using o' by (simp_all add: part_len_def part_off_def)
      then have "new_block o' e ub xs i = xs ! i" by (simp add: new_block_def buf_part_def)
      moreover have "bl_block_num (bs ! i) \<notin> be_block_id ` set es"
      proof
        assume "bl_block_num (bs ! i) \<in> be_block_id ` set es"
        then obtain j where j: "j < length es" "bl_block_num (bs ! i) = be_block_id (es ! j)"
          by (metis imageE in_set_conv_nth)
        then have "map bl_block_num bs ! i = map bl_block_num bs ! j" using i l sl(2) at(1) [of j] by simp
        then have "i = j" using bs(1) i j(1) l sl(2) by (simp add: nth_eq_iff_index_eq del: nth_map)
        then show False using False j(1) l by simp
      qed
      ultimately show ?thesis using all n by (simp add: w' stored_blocks_other)
    qed
    ultimately show ?thesis using some by (simp add: copies_def)
  qed
  then show "list_all2 (copies w') bs (map (new_block o' e ub xs) [0..<length xs])"
    using xs(1) by (simp add: list_all2_conv_all_nth)
qed

section \<open>Other files\<close>

lemma file_blocks_unique:
  assumes "wf_geom dt" and "file_blocks dt fb m bs" and "file_blocks dt fb m' cs"
  shows "m' = m" and "cs = bs"
proof -
  from assms(2) obtain xs rest where x: "file_at dt fb xs" "content dt xs = enc_meta m @ enc_blocks bs @ rest"
    "unat (fm_strbase m) = 32 * length bs" by (auto simp: file_blocks_def)
  from assms(3) obtain ys rest' where y: "file_at dt fb ys" "content dt ys = enc_meta m' @ enc_blocks cs @ rest'"
    "unat (fm_strbase m') = 32 * length cs" by (auto simp: file_blocks_def)
  have "ys = xs" using x(1) y(1) chain_unique by (auto simp: file_at_def)
  then have e: "enc_meta m @ enc_blocks bs @ rest = enc_meta m' @ enc_blocks cs @ rest'" using x(2) y(2) by simp
  then have "get_meta (enc_meta m @ enc_blocks bs @ rest) 0 = get_meta (enc_meta m' @ enc_blocks cs @ rest') 0" by simp
  then show m: "m' = m" unfolding meta.get_enc_head by simp
  then have l: "length cs = length bs" using x(3) y(3) by simp
  show "cs = bs"
  proof (rule nth_equalityI [OF l])
    fix i assume i: "i < length cs"
    with l have "i < length bs" by simp
    from get_block [OF this, of m rest] get_block [OF i, of m' rest'] e show "cs ! i = bs ! i" by simp
  qed
qed

text \<open>Two files that share neither sectors on the disk nor blocks on the data nodes.\<close>

definition separate :: "dtree \<Rightarrow> u32_t \<Rightarrow> u32_t \<Rightarrow> bool" where
  "separate dt fb gb \<longleftrightarrow> (\<forall>xs zs. file_at dt fb xs \<and> file_at dt gb zs \<longrightarrow> set zs \<inter> set xs = {})
     \<and> (\<forall>m bs m' cs. file_blocks dt fb m bs \<and> file_blocks dt gb m' cs \<longrightarrow>
          bl_block_num ` set bs \<inter> bl_block_num ` set cs = {})"

lemma file_of_others:
  assumes other: "separate dt fb gb" "file_of w dt gb bytes"
    and f: "file_blocks dt fb m bs" "file_at dt fb ys" "keeps ys dt dt'" "wf_geom dt'"
    and w': "node_block w' = stored_blocks (node_block w) es ub 0" "be_block_id ` set es \<subseteq> bl_block_num ` set bs"
  shows "file_of w' dt' gb bytes"
proof -
  from other(2) obtain m' cs xs where g: "file_blocks dt gb m' cs" "distinct (map bl_block_num cs)"
    "\<forall>b \<in> set cs. unat (bl_block_num b) < 10" "list_all2 (copies w) cs xs" "bytes = take (unat (fm_flen m')) (concat xs)"
    by (auto simp: file_of_def)
  have "file_blocks dt' gb m' cs"
  proof (rule file_blocks_kept [OF g(1) f(3)])
    fix zs assume "file_at dt gb zs"
    with other(1) f(2) show "set zs \<inter> set ys = {}" unfolding separate_def by blast
  qed
  moreover have apart: "bl_block_num ` set bs \<inter> bl_block_num ` set cs = {}"
    using other(1) f(1) g(1) unfolding separate_def by simp
  have "copies w' b = copies w b" if "b \<in> set cs" for b
  proof -
    have "bl_block_num b \<in> bl_block_num ` set cs" using that by simp
    then have "bl_block_num b \<notin> be_block_id ` set es" using apart w'(2) by (meson disjoint_iff subsetD)
    then show ?thesis by (simp add: fun_eq_iff copies_def w'(1) stored_blocks_other)
  qed
  then have "list_all2 (copies w') cs xs" using g(4) by (simp cong: list.rel_cong)
  ultimately show ?thesis using g(2,3,5) f(4) unfolding file_of_def by blast
qed

section \<open>Reading and writing the file\<close>

lemma length_file:
  assumes "file_blocks dt fb m bs" and "list_all2 (copies w) bs xs" and "bytes = take (unat (fm_flen m)) (concat xs)"
  shows "length bytes = unat (fm_flen m)" and "unat (fm_flen m) \<le> length xs * BS"
    and "length xs = ceil_bs (unat (fm_flen m))"
proof -
  note xs = copies_length [OF assms(2)]
  show l: "length xs = ceil_bs (unat (fm_flen m))" using xs(1) assms(1) by (auto simp: file_blocks_def)
  then show "unat (fm_flen m) \<le> length xs * BS" using ceil_bs_bounds(1) by simp
  then show "length bytes = unat (fm_flen m)" by (simp add: assms(3) length_concat_blocks [OF xs(2)])
qed

text \<open>The control node's part of a write inside the blocks the file has.\<close>

lemma wrap_c_write_gives:
  assumes disk: "wf_geom dt" "malloc_ok Ec" "file_blocks dt fb m bs" "unat (fm_flen m) < 2 ^ 48"
      "unat (dt_size dt) < 2147483648"
    and off: "unat offset < BS" "offset \<le> fm_flen m" "0 < len"
    and e: "e = unat offset + unat len" "e \<le> length bs * BS"
    and place: "ns \<noteq> []" "0 \<le> ctr" "ctr + 3 * int (length bs) < 2 ^ 31 - 3"
  shows "\<exists>es sl dt' ctr' m' bs'.
      wrap_c_write Ec dt ctr fb offset len (comma_join (map get_dnode_hostname ns)) uid
        = Some (PyBytes (concat (map enc_bent es)), dt', ctr')
    \<and> list_all2 reports sl es \<and> length sl = ceil_bs e \<and> length sl \<le> length bs
    \<and> (\<forall>i<length sl. sd_block_num (sl ! i) = bl_block_num (bs ! i) \<and> sd_ip (sl ! i) = bl_ip (bs ! i)
        \<and> unat (sd_offset (sl ! i)) = part_off (unat offset) i \<and> unat (sd_length (sl ! i)) = part_len (unat offset) e i)
    \<and> wf_geom dt' \<and> file_blocks dt' fb m' bs' \<and> unat (fm_flen m') = max (unat (fm_flen m)) e
    \<and> map bid bs' = map bid bs \<and> (\<forall>ys. file_at dt fb ys \<longrightarrow> keeps ys dt dt')
    \<and> c_write Ec dt ctr fb offset len uid (rev ns) (int (length (rev ns))) = Some (int (length sl), sl, dt', ctr')"
proof -
  obtain ys where ys: "file_at dt fb ys" and lbs: "length bs = ceil_bs (unat (fm_flen m))"
    using disk(3) by (auto simp: file_blocks_def)
  have "e + (BS - 1) < Suc (length bs) * BS" using e(2) by simp
  then have "ceil_bs e < Suc (length bs)" unfolding ceil_bs_def by (intro less_mult_imp_div_less)
  then have ce: "ceil_bs e \<le> length bs" by simp
  have "length bs * BS \<le> 2 ^ 25 * BS"
    using ceil_bs_small [OF disk(4)] unfolding lbs by (intro mult_le_mono1) simp
  then have e50: "e < 2 ^ 50" using e(2) by simp
  have w: "unat (fm_flen m) < 2 ^ 50" "rev ns \<noteq> []" "ctr + 3 * int (ceil_bs e) < 2 ^ 31 - 3"
    "64 + 32 * ceil_bs e \<le> nsec dt * secsz dt"
    using disk(4) place ce file_blocks_fit [OF disk(1,3)] by simp_all
  obtain sl dt' ctr' m' bs' where run:
    "c_write Ec dt ctr fb offset len uid (rev ns) (int (length ns)) = Some (int (length sl), sl, dt', ctr')"
    "file_blocks dt' fb m' bs'" "unat (fm_flen m') = max (unat (fm_flen m)) e"
    "map bid (take (length bs) bs') = map bid bs" "length sl \<le> unat len div BS + 2"
    "length sl = ceil_bs e" "sl = map (CfsBlocksSpec.read_block bs offset len (length sl)) [0..<length sl]" "wf_geom dt'"
    "keeps ys dt dt'"
    using c_write_runs [OF disk(1,2,5,3) ys off(2) w(1) e50 [unfolded e(1)] w(2) place(2) w(3,4) [unfolded e(1)],
        of uid, folded e(1)] off(1) ce by auto
  obtain es where es: "wrap_c_write Ec dt ctr fb offset len (comma_join (map get_dnode_hostname ns)) uid
      = Some (if es = [] then PyNone else PyBytes (concat (map enc_bent es)), dt', ctr')" "list_all2 reports sl es"
    using wrap_c_write_entries [OF run(1,5) disk(2) place(1)] by blast
  have "e \<noteq> 0" using off(3) e(1) by (simp add: word_less_nat_alt)
  then have "es \<noteq> []" using es(2) run(6) ceil_bs_bounds(3) [of e] by auto
  then have es': "wrap_c_write Ec dt ctr fb offset len (comma_join (map get_dnode_hostname ns)) uid
      = Some (PyBytes (concat (map enc_bent es)), dt', ctr')" using es(1) by simp
  have "unat offset + unat len < 2 ^ 54" using e50 by (simp add: e(1))
  note rb = read_block_part [OF off(1) this run(6) [unfolded e(1)], folded e(1)]
  have parts: "sd_block_num (sl ! i) = bl_block_num (bs ! i) \<and> sd_ip (sl ! i) = bl_ip (bs ! i)
      \<and> unat (sd_offset (sl ! i)) = part_off (unat offset) i \<and> unat (sd_length (sl ! i)) = part_len (unat offset) e i"
    if i: "i < length sl" for i
  proof -
    have "sl ! i = CfsBlocksSpec.read_block bs offset len (length sl) i" by (subst run(7)) (simp add: i)
    moreover have "sd_block_num (CfsBlocksSpec.read_block bs offset len (length sl) i) = bl_block_num (bs ! i)"
      "sd_ip (CfsBlocksSpec.read_block bs offset len (length sl) i) = bl_ip (bs ! i)"
      using off(1) by (simp_all add: CfsBlocksSpec.read_block_def sendblock_of_def Let_def)
    ultimately show ?thesis using rb [OF i] by simp
  qed
  have "length bs' = length bs"
  proof -
    have "length bs' = ceil_bs (max (unat (fm_flen m)) e)" using run(2,3) by (auto simp: file_blocks_def)
    also have "\<dots> = max (ceil_bs (unat (fm_flen m))) (ceil_bs e)"
      by (rule max_of_mono [OF monoI, symmetric]) (rule ceil_bs_mono)
    finally show ?thesis using ce lbs by simp
  qed
  then have "map bid bs' = map bid bs" using run(4) by simp
  moreover have "\<forall>xs. file_at dt fb xs \<longrightarrow> keeps xs dt dt'"
    using run(9) ys chain_unique by (auto simp: file_at_def)
  ultimately show ?thesis
    using es' es(2) run(1,2,3,6,8) ce parts
    by (intro exI [of _ es] exI [of _ sl] exI [of _ dt'] exI [of _ ctr'] exI [of _ m'] exI [of _ bs']) simp
qed

lemma file_of_patched:
  assumes f: "file_blocks dt fb m bs" "distinct (map bl_block_num bs)" "\<forall>b \<in> set bs. unat (bl_block_num b) < 10"
      "list_all2 (copies w) bs xs"
    and o': "o' < BS" "o' \<le> unat (fm_flen m)" "o' \<le> e" "e \<le> length bs * BS" "e - o' \<le> length ub"
    and g: "wf_geom dt'" "file_blocks dt' fb m' bs'" "unat (fm_flen m') = max (unat (fm_flen m)) e" "map bid bs' = map bid bs"
    and w': "list_all2 (copies w') bs (map (new_block o' e ub xs) [0..<length xs])"
  shows "file_of w' dt' fb (patch o' (take (e - o') ub) (take (unat (fm_flen m)) (concat xs)))"
proof -
  let ?xs = "map (new_block o' e ub xs) [0..<length xs]" and ?d = "take (e - o') ub"
  note xs = copies_length [OF f(4)] and lf = length_file [OF f(1,4) refl]
  have nums: "map bl_block_num bs' = map bl_block_num bs"
    using arg_cong [OF g(4), of "map fst"] by (simp add: bid_def comp_def)
  have e: "e \<le> length xs * BS" using o'(4) xs(1) by simp
  have "e = o' + length ?d" using o'(3,5) by simp
  then have "take (unat (fm_flen m')) (concat ?xs) = patch o' ?d (take (unat (fm_flen m)) (concat xs))"
    using take_patch [of o' "unat (fm_flen m)" "concat xs" ?d] o'(2) lf(2) e g(3)
      concat_new_blocks [OF xs(2) o'(1,3) e o'(5)] length_concat_blocks [OF xs(2)] by simp
  moreover have "distinct (map bl_block_num bs')" unfolding nums by (rule f(2))
  moreover have "\<forall>x \<in> set (map bl_block_num bs'). unat x < 10" unfolding nums using f(3) by simp
  then have "\<forall>b \<in> set bs'. unat (bl_block_num b) < 10" by simp
  ultimately show ?thesis
    using copies_same_bids [OF g(4) [symmetric] w'] g(1,2) unfolding file_of_def by metis
qed

text \<open>A write replaces the range in the file and leaves separate files as they are.\<close>

lemma file_write_others:
  assumes img: "file_of w dt fb bytes" "malloc_ok Ec" "unat (dt_size dt) < 2147483648" "length bytes < 2 ^ 47"
    and range: "unat (fd_offset d) < BS" "unat (fd_offset d) \<le> length bytes" "0 < len"
      "unat (fd_offset d) + unat len \<le> ceil_bs (length bytes) * BS" "unat len \<le> length ub"
    and place: "ns \<noteq> []" "0 \<le> ctr" "ctr + 3 * int (ceil_bs (length bytes)) < 2 ^ 31 - 3"
    and c: "session_ok E stack (fd_auth_code d) c" "fds_get c fd = Some (Some d)" "fd_type d = T_FILE"
  shows "\<exists>es dt' ctr'.
      wrap_c_write Ec dt ctr fb (fd_offset d) len (comma_join (map get_dnode_hostname ns)) uid
        = Some (PyBytes (concat (map enc_bent es)), dt', ctr')
    \<and> (\<exists>n sl. c_write Ec dt ctr fb (fd_offset d) len uid (rev ns) (int (length (rev ns))) = Some (n, sl, dt', ctr'))
    \<and> (\<forall>ctl. ctl (head_bytes (list_request (lit ''WRITE'') d len c)) \<in> list_answers es \<longrightarrow>
        (\<exists>c' w'. sbp_write E stack (cluster_peer E stack junk ctl) fd ub len c w = Some (int (unat len), c', w')
          \<and> file_of w' dt' fb (patch (unat (fd_offset d)) (take (unat len) ub) bytes)
          \<and> (\<forall>gb gbytes. separate dt fb gb \<and> file_of w dt gb gbytes \<longrightarrow> file_of w' dt' gb gbytes)
          \<and> fds_get c' fd = Some (Some (d\<lparr>fd_offset := fd_offset d + len\<rparr>)) \<and> same_login c c'))"
proof -
  let ?o = "unat (fd_offset d)" and ?B = "length bytes"
  define e where "e = ?o + unat len"
  from img(1) obtain m bs xs where f: "wf_geom dt" "file_blocks dt fb m bs" "distinct (map bl_block_num bs)"
    "\<forall>b \<in> set bs. unat (bl_block_num b) < 10" "list_all2 (copies w) bs xs" "bytes = take (unat (fm_flen m)) (concat xs)"
    by (auto simp: file_of_def)
  note xs = copies_length [OF f(5)] and lf = length_file [OF f(2,5,6)]
  have lbs: "length bs = ceil_bs ?B" using lf xs(1) by simp
  have e: "?o < e" "e \<le> length bs * BS" using range(3,4) lbs by (simp_all add: e_def word_less_nat_alt)
  have w: "unat (fm_flen m) < 2 ^ 48" "fd_offset d \<le> fm_flen m" "ctr + 3 * int (length bs) < 2 ^ 31 - 3"
    using img(4) lf(1) range(2) place(3) lbs by (simp_all add: word_le_nat_alt)
  obtain es sl dt' ctr' m' bs' where g:
    "wrap_c_write Ec dt ctr fb (fd_offset d) len (comma_join (map get_dnode_hostname ns)) uid
        = Some (PyBytes (concat (map enc_bent es)), dt', ctr')"
    "list_all2 reports sl es" "length sl = ceil_bs e" "length sl \<le> length bs"
    "\<forall>i<length sl. sd_block_num (sl ! i) = bl_block_num (bs ! i) \<and> sd_ip (sl ! i) = bl_ip (bs ! i)
        \<and> unat (sd_offset (sl ! i)) = part_off ?o i \<and> unat (sd_length (sl ! i)) = part_len ?o e i"
    "wf_geom dt'" "file_blocks dt' fb m' bs'" "unat (fm_flen m') = max (unat (fm_flen m)) e" "map bid bs' = map bid bs" "\<forall>ys. file_at dt fb ys \<longrightarrow> keeps ys dt dt'"
    "c_write Ec dt ctr fb (fd_offset d) len uid (rev ns) (int (length (rev ns))) = Some (int (length sl), sl, dt', ctr')"
    using wrap_c_write_gives [OF f(1) img(2) f(2) w(1) img(3) range(1) w(2) range(3) e_def e(2) place(1,2) w(3), of uid]
    by blast
  note ent = g(3-5) range(1) e(1) g(2) f(3-5)
  note wr = entries_writable [OF ent] entries_total [OF ent] entries_written [OF ent]
  have el: "e - ?o = unat len" "e - ?o \<le> length ub" using range(5) by (simp_all add: e_def)
  have "length es = length sl" using g(2) by (simp add: list_all2_lengthD)
  then have small: "32 * length es < 2 ^ 31"
    using g(4) ceil_bs_small [of ?B] img(4) lbs by simp
  have image: "file_of w' dt' fb (patch ?o (take (unat len) ub) bytes)"
    if "node_block w' = stored_blocks (node_block w) es ub 0" for w'
    using file_of_patched [OF f(2-5) range(1) _ _ e(2) el(2) g(6-9) wr(3) [OF el(2) that]] range(2) lf(1) e(1) el(1) f(6)
    by simp
  obtain ys where ys: "file_at dt fb ys" using f(2) by (auto simp: file_blocks_def)
  have "be_block_id ` set es \<subseteq> bl_block_num ` set bs"
  proof
    fix x assume "x \<in> be_block_id ` set es"
    then obtain i where i: "i < length es" "x = be_block_id (es ! i)" by (auto simp: in_set_conv_nth)
    then have "reports (sl ! i) (es ! i)" "i < length sl" using g(2) by (auto simp: list_all2_conv_all_nth)
    then have "x = bl_block_num (bs ! i)" "i < length bs" using g(4,5) i(2) by (simp_all add: reports_def)
    then show "x \<in> bl_block_num ` set bs" by simp
  qed
  note others = file_of_others [OF _ _ f(2) ys g(10) [rule_format, OF ys] g(6) _ this]
  show ?thesis
  proof (rule exI [of _ es], rule exI [of _ dt'], rule exI [of _ ctr'], intro conjI g(1) allI impI)
    show "\<exists>n sl. c_write Ec dt ctr fb (fd_offset d) len uid (rev ns) (int (length (rev ns))) = Some (n, sl, dt', ctr')"
      using g(11) by blast
    fix ctl assume ctl: "ctl (head_bytes (list_request (lit ''WRITE'') d len c)) \<in> list_answers es"
    show "\<exists>c' w'. sbp_write E stack (cluster_peer E stack junk ctl) fd ub len c w = Some (int (unat len), c', w')
      \<and> file_of w' dt' fb (patch ?o (take (unat len) ub) bytes)
      \<and> (\<forall>gb gbytes. separate dt fb gb \<and> file_of w dt gb gbytes \<longrightarrow> file_of w' dt' gb gbytes)
      \<and> fds_get c' fd = Some (Some (d\<lparr>fd_offset := fd_offset d + len\<rparr>)) \<and> same_login c c'"
    proof -
      obtain c' w' where "sbp_write E stack (cluster_peer E stack junk ctl) fd ub len c w = Some (int (unat len), c', w')"
        "node_block w' = stored_blocks (node_block w) es ub 0"
        "fds_get c' fd = Some (Some (d\<lparr>fd_offset := fd_offset d + len\<rparr>))" "same_login c c'"
        using sbp_write_whole [where ctl = ctl and d = d and len = len, OF c ctl small wr(1), of ub junk] wr(2) el by auto
      with image others show ?thesis by (intro exI [of _ c'] exI [of _ w']) blast
    qed
  qed
qed

lemma file_write_bytes:
  assumes img: "file_of w dt fb bytes" "malloc_ok Ec" "unat (dt_size dt) < 2147483648" "length bytes < 2 ^ 47"
    and range: "unat (fd_offset d) < BS" "unat (fd_offset d) \<le> length bytes" "0 < len"
      "unat (fd_offset d) + unat len \<le> ceil_bs (length bytes) * BS" "unat len \<le> length ub"
    and place: "ns \<noteq> []" "0 \<le> ctr" "ctr + 3 * int (ceil_bs (length bytes)) < 2 ^ 31 - 3"
    and c: "session_ok E stack (fd_auth_code d) c" "fds_get c fd = Some (Some d)" "fd_type d = T_FILE"
  shows "\<exists>es dt' ctr'.
      wrap_c_write Ec dt ctr fb (fd_offset d) len (comma_join (map get_dnode_hostname ns)) uid
        = Some (PyBytes (concat (map enc_bent es)), dt', ctr')
    \<and> (\<forall>ctl. ctl (head_bytes (list_request (lit ''WRITE'') d len c)) \<in> list_answers es \<longrightarrow>
        (\<exists>c' w'. sbp_write E stack (cluster_peer E stack junk ctl) fd ub len c w = Some (int (unat len), c', w')
          \<and> file_of w' dt' fb (patch (unat (fd_offset d)) (take (unat len) ub) bytes)
          \<and> fds_get c' fd = Some (Some (d\<lparr>fd_offset := fd_offset d + len\<rparr>)) \<and> same_login c c'))"
  using file_write_others [OF assms, of uid junk] by blast

end
