(* ===== verification/WholeFile.thy ===== *)
theory WholeFile
  imports FileImage ClientFds
begin

text \<open>
  The promise of the file system, across its programs: a file is a sequence of bytes, a write
  replaces a range of it, a read returns a range of it. For files whose data nodes are all up
  and that are written inside the blocks they have.
\<close>

section \<open>Reading the sequence of bytes\<close>

text \<open>
  What the control node may answer to a request to read whose entries are \<open>es\<close>: its Python
  program (\<open>__flit_read\<close> of \<open>c_node/dtree.py\<close>) puts 0 for nodes that are not there; of an
  entry that has a node, one is left.
\<close>

definition fewer_nodes :: "block_entry \<Rightarrow> block_entry \<Rightarrow> bool" where
  "fewer_nodes e e' \<longleftrightarrow> same_range e e' \<and> set (nodes_of e') \<subseteq> insert 0 (set (nodes_of e))
     \<and> ((\<exists>n \<in> set (nodes_of e). n \<noteq> 0) \<longrightarrow> (\<exists>n \<in> set (nodes_of e'). n \<noteq> 0))"

definition read_answers :: "block_entry list \<Rightarrow> buf set" where
  "read_answers es = {wire. \<exists>es'. list_all2 fewer_nodes es es' \<and> wire \<in> list_answers es'}"

lemma read_answer_sent: "list_answer es \<in> read_answers es"
proof -
  have "list_all2 fewer_nodes es es" by (auto simp: list_all2_conv_all_nth fewer_nodes_def same_range_def)
  then show ?thesis using list_answer_sent by (auto simp: read_answers_def)
qed

lemma copies_serves:
  assumes "copies w b x" and "reports s e" and "sd_block_num s = bl_block_num b" and "sd_ip s = bl_ip b"
    and "fewer_nodes e e'"
  shows "serves w e' x"
proof -
  have n: "nodes_of e = ips_of b" "be_block_id e' = bl_block_num b"
    using assms(2-5) by (simp_all add: reports_def nodes_of_def ips_of_def fewer_nodes_def same_range_def)
  have one: "\<exists>n \<in> set (nodes_of e'). n \<noteq> 0" and sub: "set (nodes_of e') \<subseteq> insert 0 (set (ips_of b))"
    using assms(1,5) unfolding copies_def fewer_nodes_def n(1) by blast+
  have "node_block w k (be_block_id e') = Some x" if "k \<in> set (nodes_of e')" "k \<noteq> 0" for k
    using sub that assms(1) unfolding copies_def n(2) by blast
  then show ?thesis using one unfolding serves_def some_copy_def by fastforce
qed

lemma file_read_bytes:
  assumes img: "file_of w dt fb bytes" "malloc_ok Ec" "length bytes < 2 ^ 48"
    and range: "unat (fd_offset d) < BS" "unat (fd_offset d) < length bytes" "0 < len"
    and c: "session_ok E stack (fd_auth_code d) c" "fds_get c fd = Some (Some d)" "fd_type d = T_FILE"
    and n: "n = min (unat len) (length bytes - unat (fd_offset d))" "n \<le> length ub"
  shows "\<exists>es. wrap_c_read Ec dt fb (fd_offset d) len uid = Some (PyBytes (concat (map enc_bent es)))
    \<and> (\<forall>ctl. ctl (head_bytes (list_request (lit ''READ'') d len c)) \<in> read_answers es \<longrightarrow>
        (\<exists>c'. sbp_read E stack (cluster_peer E stack junk ctl) fd ub len c w
            = Some (int n, patch 0 (take n (drop (unat (fd_offset d)) bytes)) ub, c', w)
          \<and> fds_get c' fd = Some (Some (d\<lparr>fd_offset := fd_offset d + word_of_nat n\<rparr>)) \<and> same_login c c'))"
proof -
  from img(1) obtain m bs xs where f: "wf_geom dt" "file_blocks dt fb m bs" "distinct (map bl_block_num bs)"
    "\<forall>b \<in> set bs. unat (bl_block_num b) < 10" "list_all2 (copies w) bs xs" "bytes = take (unat (fm_flen m)) (concat xs)"
    by (auto simp: file_of_def)
  note xs = copies_length [OF f(5)] and lf = length_file [OF f(2,5,6)]
  have fl: "unat (fm_flen m) < 2 ^ 48" "unat (fd_offset d) < unat (fm_flen m)" "fd_offset d < fm_flen m"
    using img(3) range(2) lf(1) by (simp_all add: word_less_nat_alt)
  obtain es sl where g: "wrap_c_read Ec dt fb (fd_offset d) len uid = Some (PyBytes (concat (map enc_bent es)))"
    "list_all2 reports sl es" "length sl \<le> length bs"
    "\<forall>i<length sl. sd_block_num (sl ! i) = bl_block_num (bs ! i) \<and> sd_ip (sl ! i) = bl_ip (bs ! i)"
    using wrap_c_read_gives [OF f(1) img(2) f(2) fl(1) range(1) fl(2) range(3) refl, of uid] by blast
  have same: "list_all2 same_range es es'" if "list_all2 fewer_nodes es es'" for es'
    using that by (auto simp: list_all2_conv_all_nth fewer_nodes_def)
  have serves: "\<forall>i<length es'. serves w (es' ! i) (xs ! i)" if fewer: "list_all2 fewer_nodes es es'" for es'
  proof (intro allI impI)
    fix i assume "i < length es'"
    then have i: "i < length sl" "i < length bs" "i < length es" using g(2,3) fewer by (simp_all add: list_all2_lengthD)
    have "copies w (bs ! i) (xs ! i)" "reports (sl ! i) (es ! i)"
      using f(5) g(2) i by (simp_all add: list_all2_conv_all_nth)
    moreover have "sd_block_num (sl ! i) = bl_block_num (bs ! i)" "sd_ip (sl ! i) = bl_ip (bs ! i)"
      using g(4) i(1) by blast+
    moreover have "fewer_nodes (es ! i) (es' ! i)" using fewer i(3) by (simp add: list_all2_conv_all_nth)
    ultimately show "serves w (es' ! i) (xs ! i)" by (rule copies_serves)
  qed
  have nn: "n = min (unat len) (unat (fm_flen m) - unat (fd_offset d))" using n(1) lf(1) by simp
  have "take n (drop (unat (fd_offset d)) bytes) = take n (drop (unat (fd_offset d)) (concat xs))"
    unfolding f(6) nn by (simp add: drop_take min_def)
  then have "\<exists>c'. sbp_read E stack (cluster_peer E stack junk ctl) fd ub len c w
        = Some (int n, patch 0 (take n (drop (unat (fd_offset d)) bytes)) ub, c', w)
      \<and> fds_get c' fd = Some (Some (d\<lparr>fd_offset := fd_offset d + word_of_nat n\<rparr>)) \<and> same_login c c'"
    if "list_all2 fewer_nodes es es'" "ctl (head_bytes (list_request (lit ''READ'') d len c)) \<in> list_answers es'" for ctl es'
    using file_read_whole [where xs = xs and ctl = ctl and c = c and d = d and len = len, OF f(1) img(2) f(2) fl(1) range(1) fl(3) range(3) g(1) same [OF that(1)] that(2) f(4)
        xs serves [OF that(1)] c nn n(2), of junk] by simp
  then show ?thesis using g(1) unfolding read_answers_def by blast
qed

section \<open>A file, written\<close>

text \<open>
  C3. A file written from end to end: the control node's image and the data nodes represent
  a file of \<open>bytes\<close>; a client has it open at an offset in the first 16 MiB and
  writes a buffer to a range that begins inside or at the end of the bytes and ends inside the
  blocks the file has. Then the bindings hand the list of blocks of \<open>c_write\<close> out, and when the control
  node answers the client's request with this list, as \<open>__sendrep\<close> sends it, \<open>sbp_write\<close>
  returns the number of bytes; the image and the data nodes now represent the bytes with the
  range replaced by the buffer (and longer, if the range went over the end), and the client's
  offset has moved to the end of the range. The limits
  are those of \<open>file_of\<close> -- block numbers below 10, which a data node can name, and copies of the
  full 16 MiB --, a disk below 2 GiB, a file below 128 TiB, at least one data node, counters
  of the nodes that do not overflow, and a session in order (\<open>session_ok\<close>: user, password and
  code fit, no \<open>malloc\<close> fails, and what is left on the stack where a reply is received holds
  no line feed).
\<close>

theorem file_write_end_to_end:
  assumes "file_of w dt fb bytes" "malloc_ok Ec" "unat (dt_size dt) < 2147483648" "length bytes < 2 ^ 47"
    and "unat (fd_offset d) < BS" "unat (fd_offset d) \<le> length bytes" "0 < len"
      "unat (fd_offset d) + unat len \<le> ceil_bs (length bytes) * BS" "unat len \<le> length ub"
    and "ns \<noteq> []" "0 \<le> ctr" "ctr + 3 * int (ceil_bs (length bytes)) < 2 ^ 31 - 3"
    and "session_ok E stack (fd_auth_code d) c" "fds_get c fd = Some (Some d)" "fd_type d = T_FILE"
  shows "\<exists>es dt' ctr'.
      wrap_c_write Ec dt ctr fb (fd_offset d) len (comma_join (map get_dnode_hostname ns)) uid
        = Some (PyBytes (concat (map enc_bent es)), dt', ctr')
    \<and> (\<forall>ctl. ctl (head_bytes (list_request (lit ''WRITE'') d len c)) \<in> list_answers es \<longrightarrow>
        (\<exists>c' w'. sbp_write E stack (cluster_peer E stack junk ctl) fd ub len c w = Some (int (unat len), c', w')
          \<and> file_of w' dt' fb (patch (unat (fd_offset d)) (take (unat len) ub) bytes)
          \<and> fds_get c' fd = Some (Some (d\<lparr>fd_offset := fd_offset d + len\<rparr>))))"
proof -
  obtain es dt' ctr' where "wrap_c_write Ec dt ctr fb (fd_offset d) len (comma_join (map get_dnode_hostname ns)) uid
        = Some (PyBytes (concat (map enc_bent es)), dt', ctr')"
    "\<forall>ctl. ctl (head_bytes (list_request (lit ''WRITE'') d len c)) \<in> list_answers es \<longrightarrow>
        (\<exists>c' w'. sbp_write E stack (cluster_peer E stack junk ctl) fd ub len c w = Some (int (unat len), c', w')
          \<and> file_of w' dt' fb (patch (unat (fd_offset d)) (take (unat len) ub) bytes)
          \<and> fds_get c' fd = Some (Some (d\<lparr>fd_offset := fd_offset d + len\<rparr>)) \<and> same_login c c')"
    using file_write_bytes [OF assms, of uid junk] by blast
  then show ?thesis by blast
qed

text \<open>The sample disk's file on three nodes, for the witnesses.\<close>

definition full_cluster :: cluster where
  "full_cluster = \<lparr>cl_mtu = 1459, cl_nodes = [1 \<mapsto> file_node, 2 \<mapsto> file_node, 3 \<mapsto> file_node]\<rparr>"

definition file_bytes :: buf where
  "file_bytes = take 16777316 (fill 70 @ fill 90)"

lemma full_file: "file_of full_cluster blk_disk 2 file_bytes" "length file_bytes = 16777316"
proof -
  have "node_block full_cluster n = [7 \<mapsto> fill 70, 9 \<mapsto> fill 90]" if "n \<in> {1, 2, 3}" for n
    using that by (auto simp: node_block_def full_cluster_def block_of_def file_node_def fun_eq_iff block_path_inj)
  then have "list_all2 (copies full_cluster) blk_list [fill 70, fill 90]"
    by (simp add: blk_list_def copies_def ips_of_def length_fill)
  moreover have "file_bytes = take (unat (fm_flen blk_meta)) (concat [fill 70, fill 90])"
    by (simp add: file_bytes_def blk_meta_def)
  moreover have "distinct (map bl_block_num blk_list)" "\<forall>b \<in> set blk_list. unat (bl_block_num b) < 10"
    by (simp_all add: blk_list_def)
  ultimately show "file_of full_cluster blk_disk 2 file_bytes"
    using blk_disk_wf blk_disk_blocks unfolding file_of_def by blast
  show "length file_bytes = 16777316" by (simp add: file_bytes_def length_fill)
qed

lemma small_disk: "unat (dt_size blk_disk) < 2147483648"
  by (simp add: blk_disk_def sample_disk_def)

lemma file_range: "unat (fd_offset file_fd) < BS" "unat (fd_offset file_fd) \<le> length file_bytes" "0 < (3 :: u64_t)"
  "unat (fd_offset file_fd) + unat (3 :: u64_t) \<le> ceil_bs (length file_bytes) * BS"
  "unat (3 :: u64_t) \<le> length [65, 66, 67 :: u8_t]"
  by (simp_all add: file_open(3) full_file(2) ceil_bs_def)

lemma file_place: "[1, 2, 3 :: u32_t] \<noteq> []" "(0 :: int) \<le> 0" "(0 :: int) + 3 * int (ceil_bs (length file_bytes)) < 2 ^ 31 - 3"
  "length file_bytes < 2 ^ 47"
  by (simp_all add: full_file(2) ceil_bs_def)

lemmas file_setting = full_file(1) calm_env_ok small_disk file_place(4) file_range file_place(1-3) file_session file_open(1,2)

theorem file_write_end_to_end_witness:
  "\<exists>es dt' ctr'. wrap_c_write calm_env blk_disk 0 2 10 3 (comma_join (map get_dnode_hostname [1, 2, 3])) 5
        = Some (PyBytes (concat (map enc_bent es)), dt', ctr')
    \<and> (\<exists>c' w'. sbp_write calm_env (replicate 4096 7) (cluster_peer calm_env (replicate 4096 7) [] (\<lambda>_. list_answer es))
            0 [65, 66, 67] 3 file_client full_cluster = Some (3, c', w')
        \<and> file_of w' dt' 2 (patch 10 [65, 66, 67] file_bytes))"
proof -
  obtain es dt' ctr' where w:
    "wrap_c_write calm_env blk_disk 0 2 (fd_offset file_fd) 3 (comma_join (map get_dnode_hostname [1, 2, 3])) 5
        = Some (PyBytes (concat (map enc_bent es)), dt', ctr')"
    "\<forall>ctl. ctl (head_bytes (list_request (lit ''WRITE'') file_fd 3 file_client)) \<in> list_answers es \<longrightarrow>
      (\<exists>c' w'. sbp_write calm_env (replicate 4096 7) (cluster_peer calm_env (replicate 4096 7) [] ctl)
            0 [65, 66, 67] 3 file_client full_cluster = Some (int (unat (3 :: u64_t)), c', w')
        \<and> file_of w' dt' 2 (patch (unat (fd_offset file_fd)) (take (unat (3 :: u64_t)) [65, 66, 67]) file_bytes))"
    using file_write_end_to_end [OF file_setting, of 5 "[]"]
    by blast
  then show ?thesis
    using w(2) [rule_format, of "\<lambda>_. list_answer es", OF list_answer_sent]
    by (intro exI [of _ es] exI [of _ dt'] exI [of _ ctr']) (simp add: file_open(3))
qed

section \<open>Written, then read\<close>

lemma read_patched: "off \<le> length x \<Longrightarrow> take (length d) (drop off (patch off d x)) = d"
  by (simp add: patch_def)

lemma length_patched: "off \<le> length x \<Longrightarrow> length (patch off d x) = max (length x) (off + length d)"
  by (simp add: patch_def max_def)

text \<open>Back to where the write began.\<close>

lemma seek_back:
  assumes "fds_get c fd = Some (Some (d\<lparr>fd_offset := fd_offset d + len\<rparr>))" and "unat (fd_offset d) < BS"
  shows "\<exists>c'. sbp_seek fd (- len) c = Some (0, c') \<and> fds_get c' fd = Some (Some d) \<and> same_login c c'"
proof -
  have "sint (fd_offset d) = int (unat (fd_offset d))"
    using sint_of_nat_fit [of "unat (fd_offset d)", where 'a = 64] assms(2) by simp
  then have s: "\<not> sint (fd_offset d) < 0" by linarith
  have fd: "\<not> fd < 0" "0 \<le> fd \<and> nat fd < length (fds c)" using assms(1) by (auto simp: fds_get_def split: if_splits)
  then obtain c' where c': "fds_set c fd (Some d) = Some c'" by (simp add: fds_set_def)
  then have "fds_get c' fd = Some (Some d)" using fd by (auto simp: fds_set_def fds_get_def)
  then show ?thesis using c' s fd(1) assms(1) same_login_fds by (simp add: sbp_seek_def)
qed

text \<open>
  C5. Written, then read, through the whole system: a client writes a range of a file, from an
  offset in its first 16 MiB that is inside or at the end of its bytes to an end inside the
  blocks it has. After \<open>sbp_write\<close>, \<open>sbp_seek\<close> back by the length of the range and \<open>sbp_read\<close>
  of as many bytes -- the control node answers both requests in the form of \<open>__sendrep\<close>, the
  second from the image the first one left, with all of the nodes of each entry or some of them --
  the client has the bytes it wrote. The limits
  are those of \<open>file_of\<close> -- block numbers below 10, which a data node can name, and copies of the
  full 16 MiB --, a disk below 2 GiB, a file below 128 TiB, at least one data node, counters
  of the nodes that do not overflow, and a session in order (\<open>session_ok\<close>: user, password and
  code fit, no \<open>malloc\<close> fails, and what is left on the stack where a reply is received holds
  no line feed).
\<close>

theorem file_write_then_read:
  assumes img: "file_of w dt fb bytes" "malloc_ok Ec" "unat (dt_size dt) < 2147483648" "length bytes < 2 ^ 47"
    and range: "unat (fd_offset d) < BS" "unat (fd_offset d) \<le> length bytes" "0 < len"
      "unat (fd_offset d) + unat len \<le> ceil_bs (length bytes) * BS" "unat len \<le> length ub"
    and place: "ns \<noteq> []" "0 \<le> ctr" "ctr + 3 * int (ceil_bs (length bytes)) < 2 ^ 31 - 3"
    and c: "session_ok E stack (fd_auth_code d) c" "fds_get c fd = Some (Some d)" "fd_type d = T_FILE"
    and ub': "unat len \<le> length ub'"
  shows "\<exists>es dt' ctr'.
      wrap_c_write Ec dt ctr fb (fd_offset d) len (comma_join (map get_dnode_hostname ns)) uid
        = Some (PyBytes (concat (map enc_bent es)), dt', ctr')
    \<and> (\<forall>ctl. ctl (head_bytes (list_request (lit ''WRITE'') d len c)) \<in> list_answers es \<longrightarrow>
      (\<exists>c1 w' c2 es'. sbp_write E stack (cluster_peer E stack junk ctl) fd ub len c w = Some (int (unat len), c1, w')
        \<and> sbp_seek fd (- len) c1 = Some (0, c2)
        \<and> wrap_c_read Ec dt' fb (fd_offset d) len uid' = Some (PyBytes (concat (map enc_bent es')))
        \<and> (\<forall>ctl'. ctl' (head_bytes (list_request (lit ''READ'') d len c)) \<in> read_answers es' \<longrightarrow>
          (\<exists>c3. sbp_read E stack (cluster_peer E stack junk ctl') fd ub' len c2 w'
            = Some (int (unat len), patch 0 (take (unat len) ub) ub', c3, w')))))"
proof -
  let ?o = "unat (fd_offset d)" and ?d = "take (unat len) ub"
  let ?new = "patch ?o ?d bytes"
  have new: "take (unat len) (drop ?o ?new) = ?d" "length ?new = max (length bytes) (?o + unat len)"
    using read_patched [OF range(2), of ?d] length_patched [OF range(2), of ?d] range(5) by simp_all
  have "ceil_bs (length bytes) * BS < 2 ^ 48"
  proof -
    have "ceil_bs (length bytes) * BS \<le> length bytes + (BS - 1)" unfolding ceil_bs_def by simp
    then show ?thesis using img(4) by simp
  qed
  then have small: "length ?new < 2 ^ 48" "?o < length ?new" "unat len = min (unat len) (length ?new - ?o)"
    using range(3,4) img(4) new(2) by (auto simp: word_less_nat_alt)
  obtain es dt' ctr' where g:
    "wrap_c_write Ec dt ctr fb (fd_offset d) len (comma_join (map get_dnode_hostname ns)) uid
      = Some (PyBytes (concat (map enc_bent es)), dt', ctr')"
    "\<forall>ctl. ctl (head_bytes (list_request (lit ''WRITE'') d len c)) \<in> list_answers es \<longrightarrow>
        (\<exists>c' w'. sbp_write E stack (cluster_peer E stack junk ctl) fd ub len c w = Some (int (unat len), c', w')
          \<and> file_of w' dt' fb ?new
          \<and> fds_get c' fd = Some (Some (d\<lparr>fd_offset := fd_offset d + len\<rparr>)) \<and> same_login c c')"
    using file_write_bytes [OF img range place c, of uid junk] by blast
  show ?thesis
  proof (intro exI [of _ es] exI [of _ dt'] exI [of _ ctr'] conjI g(1) allI impI)
    fix ctl assume "ctl (head_bytes (list_request (lit ''WRITE'') d len c)) \<in> list_answers es"
    with g(2) obtain c1 w' where w: "sbp_write E stack (cluster_peer E stack junk ctl) fd ub len c w = Some (int (unat len), c1, w')"
      "file_of w' dt' fb ?new" "fds_get c1 fd = Some (Some (d\<lparr>fd_offset := fd_offset d + len\<rparr>))" "same_login c c1"
      by blast
    obtain c2 where c2: "sbp_seek fd (- len) c1 = Some (0, c2)" "fds_get c2 fd = Some (Some d)" "same_login c1 c2"
      using seek_back [OF w(3) range(1)] by blast
    have login: "same_login c c2" using w(4) c2(3) by (rule same_login_trans)
    obtain es' where r: "wrap_c_read Ec dt' fb (fd_offset d) len uid' = Some (PyBytes (concat (map enc_bent es')))"
      "\<forall>ctl'. ctl' (head_bytes (list_request (lit ''READ'') d len c2)) \<in> read_answers es' \<longrightarrow>
        (\<exists>c'. sbp_read E stack (cluster_peer E stack junk ctl') fd ub' len c2 w'
            = Some (int (unat len), patch 0 (take (unat len) (drop ?o ?new)) ub', c', w')
          \<and> fds_get c' fd = Some (Some (d\<lparr>fd_offset := fd_offset d + word_of_nat (unat len)\<rparr>)) \<and> same_login c2 c')"
      using file_read_bytes [OF w(2) img(2) small(1) range(1) small(2) range(3)
          same_login_session_ok [OF login c(1)] c2(2) c(3) small(3) ub', of uid' junk] by blast
    show "\<exists>c1 w' c2 es'. sbp_write E stack (cluster_peer E stack junk ctl) fd ub len c w = Some (int (unat len), c1, w')
        \<and> sbp_seek fd (- len) c1 = Some (0, c2)
        \<and> wrap_c_read Ec dt' fb (fd_offset d) len uid' = Some (PyBytes (concat (map enc_bent es')))
        \<and> (\<forall>ctl'. ctl' (head_bytes (list_request (lit ''READ'') d len c)) \<in> read_answers es' \<longrightarrow>
          (\<exists>c3. sbp_read E stack (cluster_peer E stack junk ctl') fd ub' len c2 w'
            = Some (int (unat len), patch 0 ?d ub', c3, w')))"
      using w(1) c2(1) r(1) r(2) [unfolded new(1) same_login_request [OF login]] by blast
  qed
qed

theorem file_write_then_read_witness:
  "\<exists>es dt' ctr'. wrap_c_write calm_env blk_disk 0 2 10 3 (comma_join (map get_dnode_hostname [1, 2, 3])) 5
        = Some (PyBytes (concat (map enc_bent es)), dt', ctr')
    \<and> (\<exists>c1 w' c2 es' c3. sbp_write calm_env (replicate 4096 7)
          (cluster_peer calm_env (replicate 4096 7) [] (\<lambda>_. list_answer es)) 0 [65, 66, 67] 3 file_client full_cluster
          = Some (3, c1, w')
      \<and> sbp_seek 0 (- 3) c1 = Some (0, c2)
      \<and> wrap_c_read calm_env dt' 2 10 3 5 = Some (PyBytes (concat (map enc_bent es')))
      \<and> sbp_read calm_env (replicate 4096 7)
          (cluster_peer calm_env (replicate 4096 7) [] (\<lambda>_. list_answer es')) 0 [0, 0, 0] 3 c2 w'
          = Some (3, [65, 66, 67], c3, w'))"
proof -
  have ub': "unat (3 :: u64_t) \<le> length [0, 0, 0 :: u8_t]" by simp
  obtain es dt' ctr' where g:
    "wrap_c_write calm_env blk_disk 0 2 (fd_offset file_fd) 3 (comma_join (map get_dnode_hostname [1, 2, 3])) 5
      = Some (PyBytes (concat (map enc_bent es)), dt', ctr')"
    "\<forall>ctl. ctl (head_bytes (list_request (lit ''WRITE'') file_fd 3 file_client)) \<in> list_answers es \<longrightarrow>
      (\<exists>c1 w' c2 es'. sbp_write calm_env (replicate 4096 7) (cluster_peer calm_env (replicate 4096 7) [] ctl)
            0 [65, 66, 67] 3 file_client full_cluster = Some (int (unat (3 :: u64_t)), c1, w')
        \<and> sbp_seek 0 (- 3) c1 = Some (0, c2)
        \<and> wrap_c_read calm_env dt' 2 (fd_offset file_fd) 3 5 = Some (PyBytes (concat (map enc_bent es')))
        \<and> (\<forall>ctl'. ctl' (head_bytes (list_request (lit ''READ'') file_fd 3 file_client)) \<in> read_answers es' \<longrightarrow>
          (\<exists>c3. sbp_read calm_env (replicate 4096 7) (cluster_peer calm_env (replicate 4096 7) [] ctl') 0 [0, 0, 0] 3 c2 w'
            = Some (int (unat (3 :: u64_t)), patch 0 (take (unat (3 :: u64_t)) [65, 66, 67]) [0, 0, 0], c3, w'))))"
    using file_write_then_read [OF file_setting ub', of 5 "[]" 5] by blast
  obtain c1 w' c2 es' where h:
    "sbp_write calm_env (replicate 4096 7) (cluster_peer calm_env (replicate 4096 7) [] (\<lambda>_. list_answer es))
            0 [65, 66, 67] 3 file_client full_cluster = Some (int (unat (3 :: u64_t)), c1, w')"
    "sbp_seek 0 (- 3) c1 = Some (0, c2)"
    "wrap_c_read calm_env dt' 2 (fd_offset file_fd) 3 5 = Some (PyBytes (concat (map enc_bent es')))"
    "\<forall>ctl'. ctl' (head_bytes (list_request (lit ''READ'') file_fd 3 file_client)) \<in> read_answers es' \<longrightarrow>
          (\<exists>c3. sbp_read calm_env (replicate 4096 7) (cluster_peer calm_env (replicate 4096 7) [] ctl') 0 [0, 0, 0] 3 c2 w'
            = Some (int (unat (3 :: u64_t)), patch 0 (take (unat (3 :: u64_t)) [65, 66, 67]) [0, 0, 0], c3, w'))"
    using g(2) [rule_format, of "\<lambda>_. list_answer es", OF list_answer_sent] by blast
  obtain c3 where r: "sbp_read calm_env (replicate 4096 7)
      (cluster_peer calm_env (replicate 4096 7) [] (\<lambda>_. list_answer es')) 0 [0, 0, 0] 3 c2 w'
        = Some (int (unat (3 :: u64_t)), patch 0 (take (unat (3 :: u64_t)) [65, 66, 67]) [0, 0, 0], c3, w')"
    using h(4) [rule_format, of "\<lambda>_. list_answer es'", OF read_answer_sent] by blast
  have n: "int (unat (3 :: u64_t)) = 3" "patch 0 (take (unat (3 :: u64_t)) [65, 66, 67]) [0, 0, 0] = [65, 66, 67]"
    by (simp_all add: patch_def)
  show ?thesis using g(1) h(1-3) r unfolding n file_open(3) by blast
qed

end
