(* ===== verification/CfsTree.thy ===== *)
theory CfsTree
  imports CfsWriteSpec
begin

text \<open>
  The file system as a whole: a disk stores a tree of directories and files when every
  directory of the tree is on the disk, every node has its own sectors, and every sector in
  use belongs to a node. Formatting makes such a disk, and the operations on paths keep it
  one, whatever they return.
\<close>

section \<open>Trees\<close>

text \<open>
  The nodes by their first sectors: a directory has its metadata, its entries and its pool of
  names, a file has the numbers of its blocks on the data nodes, and both have the directory
  they are entered in (the root itself).
\<close>

datatype node = is_Dir: Dir (up: u32_t) file_meta "file_entry list" buf | Fil (up: u32_t) "u64_t list"

type_synonym fs = "u32_t \<Rightarrow> node option"

definition kind :: "node \<Rightarrow> bool \<times> u32_t" where "kind n = (is_Dir n, up n)"

definition kids :: "fs \<Rightarrow> u32_t \<Rightarrow> u32_t list" where
  "kids T d = (case T d of Some (Dir _ _ es _) \<Rightarrow> map fe_fb (drop 2 es) | _ \<Rightarrow> [])"

definition good_dir :: "fs \<Rightarrow> u32_t \<Rightarrow> u32_t \<Rightarrow> u32_t \<Rightarrow> file_entry list \<Rightarrow> buf \<Rightarrow> bool" where
  "good_dir T r d p es pool \<longleftrightarrow> (\<exists>a b ks. es = a # b # ks
     \<and> ent_name pool a = [46] \<and> fe_fb a = d \<and> fe_type a = S_DIR
     \<and> ent_name pool b = [46, 46] \<and> fe_fb b = p \<and> fe_type b = S_DIR
     \<and> distinct (map (ent_name pool) es) \<and> distinct (map fe_fb ks)
     \<and> (\<forall>e\<in>set ks. fe_fb e \<noteq> r \<and> map_option kind (T (fe_fb e)) = Some (fe_type e = S_DIR, d)))"

definition tree :: "u32_t \<Rightarrow> fs \<Rightarrow> bool" where
  "tree r T \<longleftrightarrow> (\<exists>m es pool. T r = Some (Dir r m es pool))
     \<and> (\<forall>d p m es pool. T d = Some (Dir p m es pool) \<longrightarrow> good_dir T r d p es pool)
     \<and> (\<exists>rank :: u32_t \<Rightarrow> nat. \<forall>x n. T x = Some n \<and> x \<noteq> r \<longrightarrow>
          x \<in> set (kids T (up n)) \<and> rank (up n) < rank x)"

lemma kind_simps [simp]: "kind (Dir p m es pool) = (True, p)" "kind (Fil p ns) = (False, p)"
  by (simp_all add: kind_def)

lemma kids_Dir: "T d = Some (Dir p m es pool) \<Longrightarrow> kids T d = map fe_fb (drop 2 es)"
  by (simp add: kids_def)

lemma kidsE:
  assumes "x \<in> set (kids T d)"
  obtains p m es pool e where "T d = Some (Dir p m es pool)" "e \<in> set (drop 2 es)" "x = fe_fb e"
proof -
  from assms obtain p m es pool where d: "T d = Some (Dir p m es pool)"
    by (cases "T d"; cases "the (T d)") (auto simp: kids_def)
  with assms that show thesis by (auto simp: kids_def)
qed

lemma treeD:
  assumes "tree r T"
  shows "\<exists>m es pool. T r = Some (Dir r m es pool)"
    and "T d = Some (Dir p m es pool) \<Longrightarrow> good_dir T r d p es pool"
    and "\<exists>rank :: u32_t \<Rightarrow> nat. \<forall>x n. T x = Some n \<and> x \<noteq> r \<longrightarrow> x \<in> set (kids T (up n)) \<and> rank (up n) < rank x"
  using assms unfolding tree_def by blast+

lemma kid_kind:
  assumes "tree r T" and "x \<in> set (kids T d)"
  shows "x \<noteq> r" "\<exists>n. T x = Some n \<and> up n = d"
proof -
  from assms(2) obtain p m es pool e where e: "T d = Some (Dir p m es pool)" "e \<in> set (drop 2 es)" "x = fe_fb e"
    by (rule kidsE)
  from treeD(2) [OF assms(1) e(1)] e(2,3) show "x \<noteq> r" "\<exists>n. T x = Some n \<and> up n = d"
    by (auto simp: good_dir_def kind_def)
qed

lemma kid_not_self: "tree r T \<Longrightarrow> x \<in> set (kids T d) \<Longrightarrow> x \<noteq> d"
  using kid_kind [of r T x d] treeD(3) [of r T] by (metis less_irrefl)

text \<open>Every entry of a directory leads to a node of its kind, also \<open>.\<close> and \<open>..\<close>.\<close>

lemma tree_up: "tree r T \<Longrightarrow> T x = Some n \<Longrightarrow> \<exists>q m es pool. T (up n) = Some (Dir q m es pool)"
proof (cases "x = r")
  case False
  assume "tree r T" "T x = Some n"
  with treeD(3) [of r T] False have "x \<in> set (kids T (up n))" by blast
  then show ?thesis by (elim kidsE) blast
next
  case True
  assume "tree r T" "T x = Some n"
  with treeD(1) [of r T] True show ?thesis by auto
qed

lemma tree_entry:
  assumes "tree r T" and "T d = Some (Dir p m es pool)" and "e \<in> set es"
  shows "\<exists>n. T (fe_fb e) = Some n \<and> is_Dir n = (fe_type e = S_DIR)"
  using treeD(2) [OF assms(1,2)] tree_up [OF assms(1,2)] assms(2,3)
  by (fastforce simp: good_dir_def kind_def)

lemma good_dir_kinds:
  assumes "good_dir T r d p es pool" and "\<forall>x\<in>set (map fe_fb (drop 2 es)). map_option kind (T' x) = map_option kind (T x)"
  shows "good_dir T' r d p es pool"
  using assms unfolding good_dir_def by fastforce

lemma new_good_dir: "good_dir T r fb d (dot_entries fb d) dots_pool"
  using new_dir_names [of fb d] by (auto simp: good_dir_def dot_entries_def names_def)

text \<open>Entering a new node, and taking a node without entries out.\<close>

lemma tree_add:
  assumes t: "tree r T" and d: "T d = Some (Dir p m es pool)" and fb: "T fb = None"
    and nms: "map (ent_name pool') (es @ [e]) = map (ent_name pool) es @ [nm]" "nm \<notin> set (map (ent_name pool) es)"
    and e: "fe_fb e = fb" and n: "kind n = (fe_type e = S_DIR, d)"
    and new: "n = Fil d [] \<or> (\<exists>mm. n = Dir d mm (dot_entries fb d) dots_pool)"
  shows "tree r (T(d \<mapsto> Dir p m' (es @ [e]) pool', fb \<mapsto> n))" (is "tree r ?T")
proof -
  have neq: "fb \<noteq> d" "fb \<noteq> r" using d fb treeD(1) [OF t] by auto
  have k: "map_option kind (?T x) = map_option kind (T x)" if "T x \<noteq> None" for x
    using that d fb by auto
  have kd: "set (kids T q) \<subseteq> set (kids ?T q)" for q
    using d fb by (auto simp: kids_def)
  have kdom: "T x \<noteq> None" if "x \<in> set (kids T q)" for x q using kid_kind(2) [OF t that] by auto
  have old: "good_dir ?T r c q cs cpool" if "T c = Some (Dir q cm cs cpool)" for c q cm cs cpool
    using good_dir_kinds [OF treeD(2) [OF t that]] k kdom [of _ c] kids_Dir [of T c, OF that] by metis
  have self: "good_dir ?T r d p (es @ [e]) pool'"
  proof -
    from old [OF d] obtain a b ks where g: "es = a # b # ks" "ent_name pool a = [46]" "fe_fb a = d" "fe_type a = S_DIR"
     "ent_name pool b = [46, 46]" "fe_fb b = p" "fe_type b = S_DIR" "distinct (map (ent_name pool) es)"
     "distinct (map fe_fb ks)" "\<forall>e\<in>set ks. fe_fb e \<noteq> r \<and> map_option kind (?T (fe_fb e)) = Some (fe_type e = S_DIR, d)"
      unfolding good_dir_def by blast
    have "fb \<notin> set (map fe_fb ks)" using kdom [of fb d] fb kids_Dir [of T, OF d] g(1) by auto
    moreover have "distinct (map (ent_name pool') (es @ [e]))" unfolding nms(1) using g(8) nms(2) by simp
    ultimately show ?thesis
      unfolding good_dir_def using g nms(1) e n neq by (intro exI [of _ a] exI [of _ b] exI [of _ "ks @ [e]"]) auto
  qed
  have "good_dir ?T r c q cs cpool" if "?T c = Some (Dir q cm cs cpool)" for c q cm cs cpool
    using that old self new neq new_good_dir by (auto split: if_splits)
  moreover obtain rank :: "u32_t \<Rightarrow> nat" where
    rank: "\<And>x n. T x = Some n \<Longrightarrow> x \<noteq> r \<Longrightarrow> x \<in> set (kids T (up n)) \<and> rank (up n) < rank x"
    using treeD(3) [OF t] by blast
  have "x \<in> set (kids ?T (up nx)) \<and> (rank(fb := Suc (rank d))) (up nx) < (rank(fb := Suc (rank d))) x"
    if x: "?T x = Some nx" "x \<noteq> r" for x nx
  proof (cases "x = fb")
    case True
    then have "up nx = d" using x n by (auto simp: kind_def)
    moreover have "2 \<le> length es" using treeD(2) [OF t d] by (auto simp: good_dir_def)
    ultimately show ?thesis using True neq e by (simp add: kids_def)
  next
    case False
    then obtain ny where y: "T x = Some ny" "up ny = up nx" using x d by (auto split: if_splits)
    with rank [OF y(1) x(2)] have q: "x \<in> set (kids T (up nx))" "rank (up nx) < rank x" by simp_all
    from q(1) have "up nx \<noteq> fb" using fb by (auto simp: kids_def)
    with q kd False show ?thesis by auto
  qed
  moreover have "\<exists>m es pool. ?T r = Some (Dir r m es pool)" using treeD(1) [OF t] d neq by auto
  ultimately show ?thesis unfolding tree_def by blast
qed

lemma tree_remove:
  assumes t: "tree r T" and d: "T d = Some (Dir p m es pool)" and i: "i < length es" "2 \<le> i"
    and z: "z = fe_fb (es ! i)" "kids T z = []"
  shows "tree r (T(d \<mapsto> Dir p m' (take i es @ drop (Suc i) es) pool, z := None))" (is "tree r ?T")
    and "z \<noteq> d" "T z \<noteq> None"
proof -
  let ?es = "take i es @ drop (Suc i) es"
  obtain j where j: "i = Suc (Suc j)" using i(2) by (metis Suc_le_D numeral_2_eq_2 Suc_le_mono)
  from treeD(2) [OF t d] obtain a b ks where g: "es = a # b # ks" "ent_name pool a = [46]" "fe_fb a = d" "fe_type a = S_DIR"
     "ent_name pool b = [46, 46]" "fe_fb b = p" "fe_type b = S_DIR" "distinct (map (ent_name pool) es)"
     "distinct (map fe_fb ks)" "\<forall>e\<in>set ks. fe_fb e \<noteq> r \<and> map_option kind (T (fe_fb e)) = Some (fe_type e = S_DIR, d)"
    unfolding good_dir_def by blast
  let ?ks = "take j ks @ drop (Suc j) ks"
  have jl: "j < length ks" "z = fe_fb (ks ! j)" using i(1) z(1) g(1) j by simp_all
  have ks: "ks = take j ks @ ks ! j # drop (Suc j) ks" using id_take_nth_drop [OF jl(1)] .
  have es: "?es = a # b # ?ks" using g(1) j by simp
  have kz: "z \<in> set (kids T d)" using kids_Dir [of T, OF d] g(1) jl by auto
  note kk = kid_kind [OF t kz]
  show zd: "z \<noteq> d" using kid_not_self [OF t kz] .
  show "T z \<noteq> None" using kk(2) by auto
  have k: "map_option kind (?T x) = map_option kind (T x)" if "x \<noteq> z" for x
    using that d zd by auto
  have dk: "distinct (map fe_fb (take j ks @ ks ! j # drop (Suc j) ks))" using g(9) ks by simp
  then have zk: "z \<notin> set (map fe_fb ?ks)" "distinct (map fe_fb ?ks)" using jl(2) by auto
  have "distinct (map (ent_name pool) (a # b # take j ks @ ks ! j # drop (Suc j) ks))" using g(1,8) ks by simp
  then have dn: "distinct (map (ent_name pool) ?es)" unfolding es by auto
  have sub: "set ?ks \<subseteq> set ks" using set_take_subset set_drop_subset by fastforce
  have "\<forall>e\<in>set ?ks. fe_fb e \<noteq> r \<and> map_option kind (?T (fe_fb e)) = Some (fe_type e = S_DIR, d)"
  proof
    fix e assume "e \<in> set ?ks"
    then have "e \<in> set ks" "fe_fb e \<noteq> z" using sub zk(1) by (blast, auto)
    with g(10) show "fe_fb e \<noteq> r \<and> map_option kind (?T (fe_fb e)) = Some (fe_type e = S_DIR, d)"
      using k by metis
  qed
  then have "good_dir ?T r d p ?es pool"
    unfolding good_dir_def using es g(2-7) dn zk(2) by blast
  moreover have "good_dir ?T r c q cs cpool" if c: "T c = Some (Dir q cm cs cpool)" "c \<noteq> d" for c q cm cs cpool
  proof -
    have "z \<notin> set (map fe_fb (drop 2 cs))"
      using kid_kind(2) [OF t, of z c] kids_Dir [of T c, OF c(1)] kk(2) c(2) by auto
    with k show ?thesis by (intro good_dir_kinds [OF treeD(2) [OF t c(1)]]) metis
  qed
  ultimately have "good_dir ?T r c q cs cpool" if "?T c = Some (Dir q cm cs cpool)" for c q cm cs cpool
    using that by (cases "c = z"; cases "c = d") auto
  moreover obtain rank :: "u32_t \<Rightarrow> nat" where
    rank: "\<And>x n. T x = Some n \<Longrightarrow> x \<noteq> r \<Longrightarrow> x \<in> set (kids T (up n)) \<and> rank (up n) < rank x"
    using treeD(3) [OF t] by blast
  have "x \<in> set (kids ?T (up nx)) \<and> rank (up nx) < rank x" if x: "?T x = Some nx" "x \<noteq> r" for x nx
  proof -
    have xz: "x \<noteq> z" using x(1) by auto
    obtain ny where y: "T x = Some ny" "up ny = up nx" using x(1) d xz by (auto split: if_splits)
    with rank [OF y(1) x(2)] have q: "x \<in> set (kids T (up nx))" "rank (up nx) < rank x" by simp_all
    from q(1) z(2) have nz: "up nx \<noteq> z" by auto
    have "x \<in> set (kids ?T (up nx))"
    proof (cases "up nx = d")
      case True
      then have "x \<in> fe_fb ` set ks" using q(1) kids_Dir [of T, OF d] g(1) by simp
      then have "x \<in> fe_fb ` set (take j ks @ ks ! j # drop (Suc j) ks)" using ks by simp
      then have "x \<in> fe_fb ` set ?ks" using jl(2) xz by auto
      then show ?thesis using True nz es by (auto simp: kids_def)
    next
      case False
      then show ?thesis using q(1) nz by (simp add: kids_def)
    qed
    with q(2) show ?thesis by blast
  qed
  moreover have "\<exists>m es pool. ?T r = Some (Dir r m es pool)" using treeD(1) [OF t] d kk(1) by auto
  ultimately show "tree r ?T" unfolding tree_def by blast
qed

section \<open>Disks that store a tree\<close>

text \<open>
  The root entry in sector 0 leads to \<open>r\<close>; every node has a chain of sectors, two nodes have
  none in common and none has sector 0; the directories and the block lists of the files are
  on the disk; and a sector that is not free is sector 0 or a sector of a node.
\<close>

definition blocks_at :: "dtree \<Rightarrow> u32_t \<Rightarrow> u64_t list \<Rightarrow> bool" where
  "blocks_at dt x ns \<longleftrightarrow> (\<exists>m bs. file_blocks dt x m bs \<and> ns = map bl_block_num bs \<and> unat (fm_flen m) < 2 ^ 50)"

lemma blocks_at_kept:
  assumes "blocks_at dt x ns" and "keeps xs dt dt'" and "\<And>zs. file_at dt x zs \<Longrightarrow> set zs \<inter> set xs = {}"
  shows "blocks_at dt' x ns"
  using assms file_blocks_kept [OF _ assms(2,3)] unfolding blocks_at_def by blast

definition stored :: "u32_t \<Rightarrow> fs \<Rightarrow> dtree \<Rightarrow> bool" where
  "stored r T dt \<longleftrightarrow> wf_geom dt \<and> bps dt = 512 \<and> file_at dt 0 [0]
     \<and> (\<exists>root. get_entry (data dt) 0 = Some root \<and> fe_fb root = r \<and> fe_type root = S_DIR)
     \<and> (\<forall>x. T x \<noteq> None \<longrightarrow> (\<exists>xs. file_at dt x xs \<and> 0 \<notin> set xs))
     \<and> (\<forall>x y xs ys. T x \<noteq> None \<and> T y \<noteq> None \<and> x \<noteq> y \<and> file_at dt x xs \<and> file_at dt y ys \<longrightarrow>
          set xs \<inter> set ys = {})
     \<and> (\<forall>d p m es pool. T d = Some (Dir p m es pool) \<longrightarrow> dir_at dt d m es pool)
     \<and> (\<forall>x p ns. T x = Some (Fil p ns) \<longrightarrow> blocks_at dt x ns)
     \<and> (\<forall>y<nsec dt. fat_p dt ! y \<noteq> FREESEC \<longrightarrow> y = 0 \<or> (\<exists>x xs. T x \<noteq> None \<and> file_at dt x xs \<and> y \<in> set xs))"

lemma storedD:
  assumes "stored r T dt"
  shows "wf_geom dt" "bps dt = 512" "file_at dt 0 [0]"
    "\<exists>root. get_entry (data dt) 0 = Some root \<and> fe_fb root = r \<and> fe_type root = S_DIR"
    "T x \<noteq> None \<Longrightarrow> \<exists>xs. file_at dt x xs \<and> 0 \<notin> set xs"
    "T x \<noteq> None \<Longrightarrow> T y \<noteq> None \<Longrightarrow> x \<noteq> y \<Longrightarrow> file_at dt x xs \<Longrightarrow> file_at dt y ys \<Longrightarrow> set xs \<inter> set ys = {}"
    "T d = Some (Dir p m es pool) \<Longrightarrow> dir_at dt d m es pool"
    "k < nsec dt \<Longrightarrow> fat_p dt ! k \<noteq> FREESEC \<Longrightarrow> k = 0 \<or> (\<exists>x xs. T x \<noteq> None \<and> file_at dt x xs \<and> k \<in> set xs)"
    "T x = Some (Fil p ns) \<Longrightarrow> blocks_at dt x ns"
  using assms unfolding stored_def by blast+

lemma file_at_unique: "file_at dt fb xs \<Longrightarrow> file_at dt fb ys \<Longrightarrow> xs = ys"
  using chain_unique by (auto simp: file_at_def)

lemma stored_in_use: "stored r T dt \<Longrightarrow> in_use dt"
  using storedD(1-3) [of r T dt] by (auto simp: in_use_def file_at_def)

lemma stored_chain:
  assumes "stored r T dt" and "T x \<noteq> None" and "file_at dt x xs"
  shows "0 \<notin> set xs"
  using storedD(5) [OF assms(1,2)] file_at_unique [OF assms(3)] by blast

lemma root_entry_kept:
  assumes "wf_geom dt" "wf_geom dt'" "bps dt' = bps dt" "content dt' [0] = content dt [0]"
  shows "get_entry (data dt') 0 = get_entry (data dt) 0"
proof -
  have l: "secsz dt \<le> length (data dt)" "secsz dt \<le> length (data dt')" "16 \<le> secsz dt"
    using assms(3) wf_geomD(1,5,7) [OF assms(1)] wf_geomD(5,7) [OF assms(2)] by simp_all
  have "take 16 (take (secsz dt) (data dt')) = take 16 (take (secsz dt) (data dt))"
    using assms(3,4) by (simp add: sector_def)
  then have "take 16 (data dt') = take 16 (data dt)" using l(3) by (simp only: take_take min_absorb1)
  with l show ?thesis by (simp add: get_at_def rd_def)
qed

text \<open>
  A change of the nodes \<open>C\<close>, with the obligations it leaves: all other nodes and sector 0 keep
  their sectors, those of the changed nodes are their own, and no sector is lost.
\<close>

lemma stored_change:
  assumes st: "stored r T dt" and g: "wf_geom dt'" "bps dt' = bps dt"
    and old: "\<And>x. x \<notin> C \<Longrightarrow> T' x = T x"
    and keep: "\<And>x zs. file_at dt x zs \<Longrightarrow> x = 0 \<or> x \<notin> C \<and> T x \<noteq> None \<Longrightarrow>
      file_at dt' x zs \<and> content dt' zs = content dt zs"
    and new: "\<And>x. x \<in> C \<Longrightarrow> T' x \<noteq> None \<Longrightarrow> \<exists>ys. file_at dt' x ys \<and> 0 \<notin> set ys"
    and ap: "\<And>x y ys zs. x \<in> C \<Longrightarrow> T' x \<noteq> None \<Longrightarrow> file_at dt' x ys \<Longrightarrow> y \<notin> C \<Longrightarrow> T y \<noteq> None \<Longrightarrow>
      file_at dt y zs \<Longrightarrow> set zs \<inter> set ys = {}"
    and own: "\<And>x y xs ys. x \<in> C \<Longrightarrow> y \<in> C \<Longrightarrow> x \<noteq> y \<Longrightarrow> T' x \<noteq> None \<Longrightarrow> T' y \<noteq> None \<Longrightarrow>
      file_at dt' x xs \<Longrightarrow> file_at dt' y ys \<Longrightarrow> set xs \<inter> set ys = {}"
    and dirs: "\<And>x p m es pool. x \<in> C \<Longrightarrow> T' x = Some (Dir p m es pool) \<Longrightarrow> dir_at dt' x m es pool"
    and files: "\<And>x p ns. x \<in> C \<Longrightarrow> T' x = Some (Fil p ns) \<Longrightarrow> blocks_at dt' x ns"
    and used: "\<And>y. y < nsec dt' \<Longrightarrow> fat_p dt' ! y \<noteq> FREESEC \<Longrightarrow>
      (\<exists>x xs. x \<in> C \<and> T' x \<noteq> None \<and> file_at dt' x xs \<and> y \<in> set xs)
      \<or> (y < nsec dt \<and> fat_p dt ! y \<noteq> FREESEC \<and> (\<forall>x xs. x \<in> C \<and> T x \<noteq> None \<and> file_at dt x xs \<longrightarrow> y \<notin> set xs))"
  shows "stored r T' dt'"
proof -
  note s = storedD [OF st]
  have sec0: "file_at dt' 0 [0]" "content dt' [0] = content dt [0]" using keep [OF s(3)] by auto
  have was: "file_at dt x zs" if x: "x \<notin> C" "T x \<noteq> None" "file_at dt' x zs" for x zs
    using s(5) [OF x(2)] keep x file_at_unique by blast
  have disj: "set xs \<inter> set ys = {}"
    if x: "T' x \<noteq> None" "T' y \<noteq> None" "x \<noteq> y" "file_at dt' x xs" "file_at dt' y ys" for x y xs ys
  proof (cases "x \<in> C"; cases "y \<in> C")
    assume "x \<in> C" "y \<in> C" with own x show ?thesis by blast
  next
    assume c: "x \<in> C" "y \<notin> C"
    then have "T y \<noteq> None" using old x(2) by auto
    with ap [OF c(1) x(1,4) c(2)] was [OF c(2)] x(5) show ?thesis by blast
  next
    assume c: "x \<notin> C" "y \<in> C"
    then have "T x \<noteq> None" using old x(1) by auto
    with ap [OF c(2) x(2,5) c(1)] was [OF c(1)] x(4) show ?thesis by blast
  next
    assume c: "x \<notin> C" "y \<notin> C"
    then have t: "T x \<noteq> None" "T y \<noteq> None" using old x(1,2) by auto
    show ?thesis using s(6) [OF t x(3)] was c t x(4,5) by blast
  qed
  have dirs': "dir_at dt' d m es pool" if d: "T' d = Some (Dir p m es pool)" for d p m es pool
  proof (cases "d \<in> C")
    case False
    then have td: "T d = Some (Dir p m es pool)" using d old by auto
    from s(7) [OF this] obtain xs rest where "file_at dt d xs" "unat (fm_blocks m) = length xs"
      "content dt xs = enc_dir m es pool @ rest" "wf_dir m es pool" by (auto simp: dir_at_def)
    with keep [of d xs] False td show ?thesis unfolding dir_at_def by force
  qed (rule dirs, use d in auto)
  have files': "blocks_at dt' x ns" if x: "T' x = Some (Fil p ns)" for x p ns
  proof (cases "x \<in> C")
    case False
    then have tx: "T x = Some (Fil p ns)" using x old by auto
    from s(9) [OF this] obtain m bs xs rest where b: "file_at dt x xs" "unat (fm_blocks m) = length xs"
      "content dt xs = enc_meta m @ enc_blocks bs @ rest" "unat (fm_strbase m) = 32 * length bs"
      "length bs = ceil_bs (unat (fm_flen m))" "ns = map bl_block_num bs" "unat (fm_flen m) < 2 ^ 50"
      unfolding blocks_at_def file_blocks_def by blast
    with keep [of x xs] False tx have "file_blocks dt' x m bs" unfolding file_blocks_def by auto
    with b(6,7) show ?thesis unfolding blocks_at_def by blast
  qed (rule files, use x in auto)
  have "\<exists>xs. file_at dt' x xs \<and> 0 \<notin> set xs" if "T' x \<noteq> None" for x
    using new old s(5) keep that by (cases "x \<in> C") (blast, metis)
  moreover have "y = 0 \<or> (\<exists>x xs. T' x \<noteq> None \<and> file_at dt' x xs \<and> y \<in> set xs)"
    if y: "y < nsec dt'" "fat_p dt' ! y \<noteq> FREESEC" for y
    using used [OF y]
  proof (elim disjE)
    assume a: "y < nsec dt \<and> fat_p dt ! y \<noteq> FREESEC \<and> (\<forall>x xs. x \<in> C \<and> T x \<noteq> None \<and> file_at dt x xs \<longrightarrow> y \<notin> set xs)"
    then show ?thesis using s(8) [of y] keep old by metis
  qed blast
  moreover have "\<exists>root. get_entry (data dt') 0 = Some root \<and> fe_fb root = r \<and> fe_type root = S_DIR" "bps dt' = 512"
    using s(2,4) g(2) root_entry_kept [OF s(1) g sec0(2)] by simp_all
  ultimately show ?thesis unfolding stored_def using g(1) sec0(1) disj dirs' files' by blast
qed

text \<open>No block of a data node belongs to two files, and the number to be given next is unused.\<close>

definition own_blocks :: "fs \<Rightarrow> u64_t \<Rightarrow> bool" where
  "own_blocks T mx \<longleftrightarrow>
     (\<forall>x p ns. T x = Some (Fil p ns) \<longrightarrow> distinct ns \<and> (\<forall>n\<in>set ns. n < mx))
     \<and> (\<forall>x y p q ns ks. T x = Some (Fil p ns) \<and> T y = Some (Fil q ks) \<and> x \<noteq> y \<longrightarrow> set ns \<inter> set ks = {})"

lemma own_blocks_sub:
  assumes "own_blocks T mx" and "\<And>x p ns. T' x = Some (Fil p ns) \<Longrightarrow> ns = [] \<or> T x = Some (Fil p ns)"
  shows "own_blocks T' mx"
proof -
  have a: "distinct ns \<and> (\<forall>n\<in>set ns. n < mx)" if "T' x = Some (Fil p ns)" for x p ns
    using assms(2) [OF that] assms(1) by (auto simp: own_blocks_def)
  have "set ns \<inter> set ks = {}" if x: "T' x = Some (Fil p ns)" "T' y = Some (Fil q ks)" "x \<noteq> y" for x y p q ns ks
  proof (cases "ns = [] \<or> ks = []")
    case False
    then have "T x = Some (Fil p ns)" "T y = Some (Fil q ks)" using assms(2) x(1,2) by blast+
    with assms(1) x(3) show ?thesis unfolding own_blocks_def by blast
  qed auto
  with a show ?thesis unfolding own_blocks_def by blast
qed

text \<open>Changes that leave the tree as it is.\<close>

fun shape :: "node \<Rightarrow> u32_t \<times> (file_entry list \<times> buf) option" where
  "shape (Dir p m es pool) = (p, Some (es, pool))"
| "shape (Fil p ns) = (p, None)"

lemma shape_eq: "shape n = (p, Some (es, pool)) \<Longrightarrow> \<exists>m. n = Dir p m es pool"
  and shape_kind: "shape n = shape n' \<Longrightarrow> kind n = kind n' \<and> up n = up n'"
  by (cases n; cases n'; simp)+

lemma tree_same:
  assumes t: "tree r T" and eq: "\<And>x. map_option shape (T' x) = map_option shape (T x)"
  shows "tree r T'"
proof -
  have was: "\<exists>n. T x = Some n \<and> shape n = shape n'" if "T' x = Some n'" for x n'
    using eq [of x] that by (cases "T x") auto
  have d: "\<exists>m. T x = Some (Dir p m es pool)" if "T' x = Some (Dir p m' es pool)" for x p m' es pool
    using was [OF that] shape_eq by fastforce
  have k: "map_option kind (T' x) = map_option kind (T x)" for x
  proof (cases "T' x")
    case None
    then show ?thesis using eq [of x] by (cases "T x") simp_all
  next
    case (Some n')
    from was [OF this] obtain n where n: "T x = Some n" "shape n = shape n'" by blast
    with shape_kind [OF n(2)] Some show ?thesis by simp
  qed
  have kd: "kids T' x = kids T x" for x
  proof (cases "T' x")
    case None
    then show ?thesis using eq [of x] by (cases "T x") (simp_all add: kids_def)
  next
    case (Some n')
    from was [OF this] obtain n where n: "T x = Some n" "shape n = shape n'" by blast
    then show ?thesis using Some by (cases n; cases n') (simp_all add: kids_def)
  qed
  have "good_dir T' r c q cs cpool" if "T' c = Some (Dir q cm cs cpool)" for c q cm cs cpool
  proof -
    from d [OF that] obtain m where "T c = Some (Dir q m cs cpool)" by blast
    from good_dir_kinds [OF treeD(2) [OF t this]] k show ?thesis by blast
  qed
  moreover obtain rank :: "u32_t \<Rightarrow> nat" where
    rank: "\<And>x n. T x = Some n \<Longrightarrow> x \<noteq> r \<Longrightarrow> x \<in> set (kids T (up n)) \<and> rank (up n) < rank x"
    using treeD(3) [OF t] by blast
  have "x \<in> set (kids T' (up n)) \<and> rank (up n) < rank x" if x: "T' x = Some n" "x \<noteq> r" for x n
  proof -
    from was [OF x(1)] obtain n' where n': "T x = Some n'" "up n' = up n" using shape_kind by blast
    with rank [OF n'(1) x(2)] kd show ?thesis by simp
  qed
  moreover have "\<exists>m es pool. T' r = Some (Dir r m es pool)"
    using treeD(1) [OF t] eq [of r] shape_eq by (cases "T' r") fastforce+
  ultimately show ?thesis unfolding tree_def by blast
qed

section \<open>Creating and removing nodes\<close>

lemma stored_add:
  assumes st: "stored r T dt" and d: "T d = Some (Dir p m es pool)" and xs: "file_at dt d xs"
    and c: "created dt dt' d xs fb" and dd: "dir_at dt' d m' es' pool'"
    and n: "\<And>q nm nes npool. n = Dir q nm nes npool \<Longrightarrow> dir_at dt' fb nm nes npool"
      "\<And>q ns. n = Fil q ns \<Longrightarrow> blocks_at dt' fb ns"
  shows "T fb = None" "stored r (T(d \<mapsto> Dir p m' es' pool', fb \<mapsto> n)) dt'"
proof -
  from c have c: "wf_geom dt'" "bps dt' = bps dt" "keeps xs dt dt'" "apart xs d dt dt'" "file_at dt' fb [unat fb]"
    "apart [] fb dt dt'" "\<And>ys. file_at dt' d ys \<Longrightarrow> unat fb \<notin> set ys"
    "sb_maxBlockNum (sb dt') = sb_maxBlockNum (sb dt)" "no_leak xs d {unat fb} dt dt'"
    by (simp_all add: created_def)
  have fb: "unat fb \<notin> set zs" if "file_at dt x zs" for x zs
    using c(5,6) that by (fastforce simp: apart_def)
  show tfb: "T fb = None"
  proof (rule ccontr)
    assume "T fb \<noteq> None"
    then obtain zs where "file_at dt fb zs" using storedD(5) [OF st] by blast
    with fb [OF this] show False by (cases zs) (auto simp: file_at_def)
  qed
  have fbd: "fb \<noteq> d" using tfb d by auto
  have td: "T d \<noteq> None" using d by simp
  have dis: "set zs \<inter> set xs = {}" if "file_at dt x zs" "x = 0 \<or> x \<noteq> d \<and> T x \<noteq> None" for x zs
    using that storedD(6) [OF st _ td _ _ xs, of x zs] file_at_unique [OF storedD(3) [OF st]] stored_chain [OF st td xs] by fastforce
  have kp: "file_at dt' x zs \<and> content dt' zs = content dt zs" if "file_at dt x zs" "x = 0 \<or> x \<noteq> d \<and> T x \<noteq> None" for x zs
    using c(3) dis [OF that] that(1) by (auto simp: keeps_def)
  have ap: "set zs \<inter> set ys = {}"
    if "x \<in> {d, fb}" "file_at dt' x ys" "file_at dt y zs" "y = 0 \<or> y \<noteq> d \<and> T y \<noteq> None" for x y ys zs
    using c(4,6) that(1-3) dis [OF that(3,4)] unfolding apart_def list.set(1) Int_empty_right by blast
  have one: "vs = [unat fb]" if "file_at dt' fb vs" for vs using file_at_unique [OF that c(5)] .
  obtain ys where ys: "file_at dt' d ys" using dd by (auto simp: dir_at_def)
  have z: "0 \<notin> set zs" if "x \<in> {d, fb}" "file_at dt' x zs" for x zs
    using ap [OF that storedD(3) [OF st]] by simp
  show "stored r (T(d \<mapsto> Dir p m' es' pool', fb \<mapsto> n)) dt'"
  proof (rule stored_change [OF st c(1,2), where C = "{d, fb}"], goal_cases)
    case (2 x zs)
    then show ?case using kp by auto
  next
    case (3 x)
    then show ?case using ys c(5) z by auto
  next
    case (4 x y ys zs)
    then show ?case using ap by auto
  next
    case (5 x y us vs)
    then consider "x = d" "y = fb" | "x = fb" "y = d" by blast
    then show ?case
    proof cases
      case 1
      then have "vs = [unat fb]" using one 5(7) by simp
      then show ?thesis using 1 5(6) c(7) [of us] by simp
    next
      case 2
      then have "us = [unat fb]" using one 5(6) by simp
      then show ?thesis using 2 5(7) c(7) [of vs] by simp
    qed
  next
    case (6 x)
    then show ?case using dd n(1) fbd by (auto split: if_splits)
  next
    case (7 x)
    then show ?case using n(2) fbd by (auto split: if_splits)
  next
    case (8 k)
    from c(9) [unfolded no_leak_def, rule_format, OF 8] show ?case
    proof (elim disjE)
      assume "k < nsec dt \<and> k \<notin> set xs \<and> fat_p dt ! k \<noteq> FREESEC"
      then show ?thesis using file_at_unique [OF xs] tfb by (intro disjI2) auto
    next
      assume "k \<in> {unat fb}"
      then show ?thesis using c(5) by (intro disjI1 exI [of _ fb] exI [of _ "[unat fb]"]) simp
    next
      assume "\<exists>ys. file_at dt' d ys \<and> k \<in> set ys"
      then show ?thesis using fbd by (intro disjI1 exI [of _ d]) auto
    qed
  qed auto
qed

lemma stored_remove:
  assumes st: "stored r T dt" and d: "T d = Some (Dir p m es pool)" and xs: "file_at dt d xs"
    and z: "z \<noteq> d" "T z \<noteq> None" "file_at dt z zs" and u: "unlinked dt dt' d m es pool i xs zs"
  shows "\<exists>m'. stored r (T(d \<mapsto> Dir p m' (take i es @ drop (Suc i) es) pool, z := None)) dt'"
proof -
  from u obtain m' ys where dd: "dir_at dt' d m' (take i es @ drop (Suc i) es) pool" "file_at dt' d ys" and
    c: "wf_geom dt'" "bps dt' = bps dt" "keeps (xs @ zs) dt dt'" "apart (xs @ zs) d dt dt'" "no_leak (xs @ zs) d {} dt dt'"
    by (auto simp: unlinked_def)
  have td: "T d \<noteq> None" using d by simp
  have dis: "set us \<inter> set (xs @ zs) = {}" if "file_at dt x us" "x = 0 \<or> x \<noteq> d \<and> x \<noteq> z \<and> T x \<noteq> None" for x us
    using that storedD(6) [OF st _ td _ _ xs, of x us] storedD(6) [OF st _ z(2) _ _ z(3), of x us]
      file_at_unique [OF storedD(3) [OF st]] stored_chain [OF st td xs] stored_chain [OF st z(2,3)] by fastforce
  have kp: "file_at dt' x us \<and> content dt' us = content dt us"
    if "file_at dt x us" "x = 0 \<or> x \<noteq> d \<and> x \<noteq> z \<and> T x \<noteq> None" for x us
    using c(3) dis [OF that] that(1) by (simp add: keeps_def)
  have ap: "set us \<inter> set vs = {}"
    if "file_at dt' d vs" "file_at dt y us" "y = 0 \<or> y \<noteq> d \<and> y \<noteq> z \<and> T y \<noteq> None" for y us vs
    using c(4) that(1,2) dis [OF that(2,3)] unfolding apart_def by blast
  have z0: "0 \<notin> set ys" using ap [OF dd(2) storedD(3) [OF st]] by simp
  have "stored r (T(d \<mapsto> Dir p m' (take i es @ drop (Suc i) es) pool, z := None)) dt'"
  proof (rule stored_change [OF st c(1,2), where C = "{d, z}"], goal_cases)
    case (2 x us)
    then show ?case using kp by auto
  next
    case (3 x)
    then show ?case using dd(2) z0 by (auto split: if_splits)
  next
    case (4 x y us vs)
    then show ?case using ap by (auto split: if_splits)
  next
    case (5 x y us vs)
    then show ?case by (auto split: if_splits)
  next
    case (6 x)
    then show ?case using dd(1) z(1) by (auto split: if_splits)
  next
    case (7 x)
    then show ?case by (auto split: if_splits)
  next
    case (8 k)
    from c(5) [unfolded no_leak_def, rule_format, OF 8] show ?case
    proof (elim disjE)
      assume "k < nsec dt \<and> k \<notin> set (xs @ zs) \<and> fat_p dt ! k \<noteq> FREESEC"
      then show ?thesis using file_at_unique [OF xs] file_at_unique [OF z(3)] by (intro disjI2) auto
    qed (use z(1) in auto)
  qed auto
  then show ?thesis by blast
qed

section \<open>Paths in a tree\<close>

lemma after_slash:
  assumes "SLASH \<in> set path"
  shows "length (tl (dropWhile (\<lambda>c. c \<noteq> SLASH) path)) < length path"
    and "0 \<notin> set path \<Longrightarrow> 0 \<notin> set (tl (dropWhile (\<lambda>c. c \<noteq> SLASH) path))"
proof -
  have dw: "dropWhile (\<lambda>c. c \<noteq> SLASH) path \<noteq> []" using assms by (auto simp: dropWhile_eq_Nil_conv)
  then show "length (tl (dropWhile (\<lambda>c. c \<noteq> SLASH) path)) < length path"
    using length_dropWhile_le [of "\<lambda>c. c \<noteq> SLASH" path]
    by (cases "dropWhile (\<lambda>c. c \<noteq> SLASH) path") auto
  show "0 \<notin> set path \<Longrightarrow> 0 \<notin> set (tl (dropWhile (\<lambda>c. c \<noteq> SLASH) path))"
    using list.set_sel(2) [OF dw] set_dropWhileD by fast
qed

lemma find_in_tree:
  assumes "stored r T dt" and "tree r T" and "malloc_ok E"
    and "T (fe_fb b) = Some (Dir p m es pool)" and "0 \<notin> set path"
    and "c_find_entry E dt b path uid = Some (Inr e)"
  shows "\<exists>n. T (fe_fb e) = Some n \<and> is_Dir n = (fe_type e = S_DIR)"
  using assms(4-6)
proof (induction path arbitrary: b p m es pool rule: measure_induct_rule [of length])
  case (less path)
  let ?n = "takeWhile (\<lambda>c. c \<noteq> SLASH) path" and ?rest = "tl (dropWhile (\<lambda>c. c \<noteq> SLASH) path)"
  note eq = less.prems(3) [unfolded c_find_entry_level [OF storedD(1) [OF assms(1)] assms(3)
      storedD(7) [OF assms(1) less.prems(1)] less.prems(2)]]
  then obtain e' where e': "ent_of pool es ?n = Some e'" by (cases "ent_of pool es ?n") auto
  then have "e' \<in> set es" by (auto simp: ent_of_def find_Some_iff)
  from tree_entry [OF assms(2) less.prems(1) this] obtain n where
    n: "T (fe_fb e') = Some n" "is_Dir n = (fe_type e' = S_DIR)" by blast
  show ?case
  proof (cases "SLASH \<in> set path")
    case False
    with eq e' n show ?thesis by auto
  next
    case True
    with eq e' have f: "fe_type e' = S_DIR" "c_find_entry E dt e' ?rest uid = Some (Inr e)"
      by (auto split: if_splits)
    have "length ?rest < length path" "0 \<notin> set ?rest"
      using after_slash(1) [OF True] after_slash(2) [OF True less.prems(2)] .
    moreover obtain q mm ces cpool where "T (fe_fb e') = Some (Dir q mm ces cpool)"
      using n f(1) by (cases n) auto
    ultimately show ?thesis using less.IH f(2) by blast
  qed
qed

lemma lookup_in_tree:
  assumes "stored r T dt" and "tree r T" and "malloc_ok E" and "0 \<notin> set path"
    and "c_lookup E dt path uid = Some (Inr e)"
  shows "\<exists>n. T (fe_fb e) = Some n \<and> is_Dir n = (fe_type e = S_DIR)"
proof -
  obtain root where root: "get_entry (data dt) 0 = Some root" "fe_fb root = r" "fe_type root = S_DIR"
    using storedD(4) [OF assms(1)] by blast
  obtain m es pool where t: "T r = Some (Dir r m es pool)" using treeD(1) [OF assms(2)] by blast
  define p where "p = (case path of c # cs \<Rightarrow> if c = SLASH then cs else path | [] \<Rightarrow> [])"
  have "0 \<notin> set p" using assms(4) by (auto simp: p_def split: list.splits)
  with assms(5) root t find_in_tree [OF assms(1-3), of root] show ?thesis
    by (auto simp: c_lookup_def Let_def p_def [symmetric] split: if_splits)
qed

text \<open>The directory an operation works in, and the room there is for one more short name.\<close>

lemma filename_parts:
  assumes "get_filename_from_path path = Some (d, nm)"
  shows "0 \<notin> set d" "length nm \<le> length path"
proof -
  have c: "0 \<notin> set (cstr b)" "length (cstr b) \<le> length b" for b
    by (auto simp: cstr_def length_takeWhile_le dest: set_takeWhileD)
  have len: "length (fst (gf_scan n i path l)) = length path" for n i l
  proof (induction n i path l rule: gf_scan.induct)
    case (1 n i path l)
    then show ?case by (subst gf_scan.simps) auto
  qed
  obtain q l where g: "gf_scan (length path) 0 path (- 1) = (q, l)" by fastforce
  have "length q = length path" using len [of "length path" 0 "- 1"] g by simp
  then have "length (drop (nat l + 1) (q[nat l := 0])) \<le> length path" by simp
  then show "0 \<notin> set d" "length nm \<le> length path"
    using assms c(1) le_trans [OF c(2)] g by (auto simp: get_filename_from_path_def Let_def split: if_splits)
qed

lemma in_tree_dir:
  assumes "stored r T dt" and "tree r T" and "malloc_ok E" and "in_dir E dt path uid nm parent"
  shows "\<exists>p m es pool xs. T (fe_fb parent) = Some (Dir p m es pool)
     \<and> dir_at dt (fe_fb parent) m es pool \<and> file_at dt (fe_fb parent) xs \<and> length nm \<le> length path
     \<and> unat (fm_flen m) + 512 \<le> nsec dt * 512 \<and> distinct (map (ent_name pool) es)"
proof -
  note s = storedD [OF assms(1)]
  from assms(4) obtain d where d: "get_filename_from_path path = Some (d, nm)"
    "c_lookup E dt d uid = Some (Inr parent)" "fe_type parent = S_DIR" by (auto simp: in_dir_def)
  from lookup_in_tree [OF assms(1-3) filename_parts(1) [OF d(1)] d(2)] d(3) obtain n where
    "T (fe_fb parent) = Some n" "is_Dir n" by auto
  then obtain p m es pool where n: "T (fe_fb parent) = Some (Dir p m es pool)" by (cases n) auto
  note at = s(7) [OF this]
  from dir_atE [OF s(1) at] obtain xs rest where x: "file_at dt (fe_fb parent) xs" "xs \<noteq> []"
    "wf_dir m es pool" "length (enc_dir m es pool @ rest) = length xs * secsz dt" by metis
  have "0 \<notin> set xs" using stored_chain [OF assms(1) _ x(1)] n by simp
  then have "set xs \<subseteq> {1..<nsec dt}" using x(1) by (auto simp: file_at_def Suc_le_eq intro: gr0I)
  moreover have "distinct xs" using x(1) chain_distinct by (auto simp: file_at_def)
  ultimately have "length xs \<le> nsec dt - 1" by (metis card_atLeastLessThan card_mono distinct_card finite_atLeastLessThan)
  moreover have "0 < length xs" "unat (fm_flen m) \<le> length xs * 512"
    using x(2-4) s(2) by (auto simp: wf_dir_def)
  ultimately have "unat (fm_flen m) + 512 \<le> nsec dt * 512" by linarith
  with n at x(1) filename_parts(2) [OF d(1)] treeD(2) [OF assms(2) n] show ?thesis
    by (auto simp: good_dir_def)
qed

end
