(* ===== verification/CfsReach.thy ===== *)
theory CfsReach
  imports CfsTree
begin

text \<open>
  The operations on paths keep a disk that stores a tree one that stores a tree, and every
  disk made by formatting and any sequence of them does.
\<close>

unbundle bit_operations_syntax

definition consistent :: "dtree \<Rightarrow> bool" where
  "consistent dt \<longleftrightarrow> (\<exists>r T. tree r T \<and> stored r T dt \<and> own_blocks T (sb_maxBlockNum (sb dt)))"

lemma consistentI: "tree r T \<Longrightarrow> stored r T dt \<Longrightarrow> own_blocks T (sb_maxBlockNum (sb dt)) \<Longrightarrow> consistent dt"
  by (auto simp: consistent_def)

lemma consistentE:
  assumes "consistent dt"
  obtains r T where "tree r T" "stored r T dt" "own_blocks T (sb_maxBlockNum (sb dt))"
  using assms by (auto simp: consistent_def)

section \<open>Where an operation can act\<close>

lemma with_parentD:
  assumes "with_parent E dt path uid a f b fail k = Some x"
  shows "(\<exists>e. x = fail e) \<or> (\<exists>nm p. in_dir E dt path uid nm p)"
proof (cases "get_filename_from_path path")
  case None
  with assms show ?thesis by (auto simp: with_parent_def)
next
  case (Some y)
  with assms obtain q where "c_lookup E dt (fst y) uid = Some q"
    by (cases y) (auto simp: with_parent_def bind_eq_Some_conv)
  with Some assms show ?thesis
    by (cases y; cases q) (auto simp: with_parent_def in_dir_def split: if_splits)
qed

text \<open>What the operations need in order to change anything.\<close>

lemma c_mkdir_refuses:
  assumes "wf_geom dt" and "malloc_ok E" and "in_dir E dt path uid nm parent"
    and "dir_at dt (fe_fb parent) m es pool" and "file_at dt (fe_fb parent) xs"
  shows "permission_check uid m opW = 0 \<Longrightarrow> c_mkdir E dt path uid = Some (4, dt)"
    and "permission_check uid m opW \<noteq> 0 \<Longrightarrow> nm \<in> set (map (ent_name pool) es) \<Longrightarrow> c_mkdir E dt path uid = Some (3, dt)"
proof -
  obtain rest where y: "wf_dir m es pool" "read_meta dt (fe_fb parent) = Some m"
    "\<And>fail k. with_buf E dt (fe_fb parent) m 0 fail k = (k (enc_dir m es pool @ rest) :: (int \<times> dtree) option)"
    using parent_buffer [OF assms(1,2,4,5)] by metis
  note start = c_mkdir_def with_parent_in_dir [OF assms(3)] y(2,3) Option.bind.bind_lunit
  show "permission_check uid m opW = 0 \<Longrightarrow> c_mkdir E dt path uid = Some (4, dt)" unfolding start by simp
  show "c_mkdir E dt path uid = Some (3, dt)"
    if "permission_check uid m opW \<noteq> 0" "nm \<in> set (map (ent_name pool) es)"
    using find_in_dir(2) [OF y(1) in_dir_name [OF assms(3)] that(2), of rest] that(1) unfolding start by auto
qed

lemma c_mkdir_needs:
  assumes "wf_geom dt" and "malloc_ok E" and "in_dir E dt path uid nm parent"
    and "dir_at dt (fe_fb parent) m es pool" and "file_at dt (fe_fb parent) xs"
    and "c_mkdir E dt path uid = Some (0, dt')"
  shows "permission_check uid m opW \<noteq> 0" and "nm \<notin> set (map (ent_name pool) es)"
  using c_mkdir_refuses [OF assms(1-5)] assms(6) by (auto simp: image_iff)

lemma removal_needs:
  assumes "wf_geom dt" and "malloc_ok E" and "in_dir E dt path uid nm parent"
    and "dir_at dt (fe_fb parent) m es pool" and "file_at dt (fe_fb parent) xs"
  shows "c_remove E dt path uid = Some (0, dt') \<Longrightarrow>
      permission_check uid m opW \<noteq> 0 \<and> (\<exists>e. ent_of pool es nm = Some e \<and> fe_type e \<noteq> S_DIR)"
    and "c_rmdir E dt path uid = Some (0, dt') \<Longrightarrow>
      permission_check uid m opW \<noteq> 0 \<and> (\<exists>e. ent_of pool es nm = Some e \<and> fe_type e = S_DIR)"
proof -
  obtain rest where y: "wf_dir m es pool" "read_meta dt (fe_fb parent) = Some m"
    "\<And>fail k. with_buf E dt (fe_fb parent) m 0 fail k = (k (enc_dir m es pool @ rest) :: (int \<times> dtree) option)"
    using parent_buffer [OF assms(1,2,4,5)] by metis
  note nz = in_dir_name [OF assms(3)]
  note start = with_parent_in_dir [OF assms(3)] y(2,3) Option.bind.bind_lunit
  have find: "(\<exists>e off. ent_of pool es nm = Some e \<and> find_entry_by_name (enc_dir m es pool @ rest) nm = Some (Some off)
      \<and> get_entry (enc_dir m es pool @ rest) off = Some e)
    \<or> find_entry_by_name (enc_dir m es pool @ rest) nm = Some None"
    using find_entry_by_name_ent [OF y(1) nz, where rest = rest] by (cases "ent_of pool es nm") blast+
  show "permission_check uid m opW \<noteq> 0 \<and> (\<exists>e. ent_of pool es nm = Some e \<and> fe_type e \<noteq> S_DIR)"
    if "c_remove E dt path uid = Some (0, dt')"
    using that find unfolding c_remove_def start by (auto split: if_splits)
  show "permission_check uid m opW \<noteq> 0 \<and> (\<exists>e. ent_of pool es nm = Some e \<and> fe_type e = S_DIR)"
    if "c_rmdir E dt path uid = Some (0, dt')"
    using that find unfolding c_rmdir_def start by (auto split: if_splits)
qed

section \<open>The operations keep the tree\<close>

lemma links_toE:
  assumes "links_to dt' d m es pool nm e links"
  obtains m' where "dir_at dt' d m' (es @ [e]) (pool @ nm @ [0])"
    "map (ent_name (pool @ nm @ [0])) (es @ [e]) = map (ent_name pool) es @ [nm]"
  using assms by (auto simp: links_to_def)

lemma add_keeps:
  assumes t: "tree r T" and st: "stored r T dt" and ob: "own_blocks T (sb_maxBlockNum (sb dt))"
    and d: "T d = Some (Dir p m es pool)" "file_at dt d xs"
    and nm: "nm \<notin> set (map (ent_name pool) es)" and l: "links_to dt' d m es pool nm e links"
    and c: "created dt dt' d xs (fe_fb e)"
    and n: "fe_type e = S_FIL \<and> n = Fil d [] \<and> blocks_at dt' (fe_fb e) [] \<or> fe_type e = S_DIR \<and>
      n = Dir d mm (dot_entries (fe_fb e) d) dots_pool \<and> dir_at dt' (fe_fb e) mm (dot_entries (fe_fb e) d) dots_pool"
  shows "consistent dt'"
proof -
  from l obtain m' where m': "dir_at dt' d m' (es @ [e]) (pool @ nm @ [0])"
    "map (ent_name (pool @ nm @ [0])) (es @ [e]) = map (ent_name pool) es @ [nm]" by (rule links_toE)
  have nd: "\<And>q nm nes npool. n = Dir q nm nes npool \<Longrightarrow> dir_at dt' (fe_fb e) nm nes npool"
    "\<And>q ns. n = Fil q ns \<Longrightarrow> blocks_at dt' (fe_fb e) ns" using n by auto
  have k: "kind n = (fe_type e = S_DIR, d)" "n = Fil d [] \<or> (\<exists>mm. n = Dir d mm (dot_entries (fe_fb e) d) dots_pool)"
    using n by (auto simp: S_FIL_def S_DIR_def)
  note added = stored_add [OF st d c m'(1), of n]
  have st': "stored r (T(d \<mapsto> Dir p m' (es @ [e]) (pool @ nm @ [0]), fe_fb e \<mapsto> n)) dt'" and fb: "T (fe_fb e) = None"
    by (rule added, use nd in blast, use nd in blast)+
  have "tree r (T(d \<mapsto> Dir p m' (es @ [e]) (pool @ nm @ [0]), fe_fb e \<mapsto> n))"
    using tree_add [OF t d(1) fb m'(2) nm refl k] .
  moreover have "own_blocks (T(d \<mapsto> Dir p m' (es @ [e]) (pool @ nm @ [0]), fe_fb e \<mapsto> n)) (sb_maxBlockNum (sb dt))"
    using n by (intro own_blocks_sub [OF ob]) (auto split: if_splits)
  moreover have "sb_maxBlockNum (sb dt') = sb_maxBlockNum (sb dt)" using c by (simp add: created_def)
  ultimately show ?thesis using st' by (intro consistentI) simp_all
qed

text \<open>A new file has no blocks.\<close>

lemma new_file_blocks:
  assumes "wf_geom dt" and "file_at dt fb [x]" and "read_meta dt fb = Some (new_meta E uid mode 1)"
  shows "blocks_at dt fb []"
proof -
  from read_meta_content [OF assms(1,2)] assms(3) have m: "dec_meta (take 64 (content dt [x])) = new_meta E uid mode 1" by simp
  have "64 \<le> length (content dt [x])"
    using length_content [OF assms(1), of "[x]"] assms(2) wf_geomD(1) [OF assms(1)] by (auto simp: file_at_def)
  then have "enc_meta (new_meta E uid mode 1) = take 64 (content dt [x])" by (simp add: m [symmetric] meta.enc_dec)
  then have "content dt [x] = enc_meta (new_meta E uid mode 1) @ enc_blocks [] @ drop 64 (content dt [x])" by simp
  then have "file_blocks dt fb (new_meta E uid mode 1) []"
    unfolding file_blocks_def using assms(2) by (intro conjI exI [of _ "[x]"]) (auto simp: new_meta_def ceil_bs_def)
  then show ?thesis by (auto simp: blocks_at_def new_meta_def)
qed

lemma c_mkdir_keeps:
  assumes "consistent dt" and "malloc_ok E" and "unat (dt_size dt) < 1073741824" and "length path \<le> 495"
    and "c_mkdir E dt path uid = Some (ret, dt')"
  shows "consistent dt'"
proof (cases "ret = 0 \<and> (\<exists>nm p. in_dir E dt path uid nm p)")
  case False
  have "dt' = dt" using False c_mkdir_fail [OF assms(5)] with_parentD [OF assms(5) [unfolded c_mkdir_def]] by auto
  then show ?thesis using assms(1) by simp
next
  case True
  then obtain nm parent where i: "in_dir E dt path uid nm parent" by blast
  from assms(1) obtain r T where t: "tree r T" "stored r T dt" "own_blocks T (sb_maxBlockNum (sb dt))" by (rule consistentE)
  from in_tree_dir [OF t(2,1) assms(2) i] obtain p m es pool xs where d:
    "T (fe_fb parent) = Some (Dir p m es pool)" "dir_at dt (fe_fb parent) m es pool" "file_at dt (fe_fb parent) xs"
    "length nm \<le> length path" "unat (fm_flen m) + 512 \<le> nsec dt * 512" by blast
  note u = stored_in_use [OF t(2)]
  have r0: "c_mkdir E dt path uid = Some (0, dt')" using True assms(5) by simp
  note need = c_mkdir_needs [OF in_useD(1) [OF u] assms(2) i d(2,3) r0]
  have "unat (fm_flen m) + 16 + length nm + 1 \<le> nsec dt * 512" using d(4,5) assms(4) by linarith
  from c_mkdir_creates [OF u assms(2,3) i d(2,3) need this] obtain e where
    e: "fe_type e = S_DIR" "links_to dt' (fe_fb parent) m es pool nm e 1"
    "dir_at dt' (fe_fb e) (new_dir_meta E uid 1) (dot_entries (fe_fb e) (fe_fb parent)) dots_pool"
    "created dt dt' (fe_fb parent) xs (fe_fb e)" using r0 by auto
  show ?thesis using add_keeps [OF t d(1,3) need(2) e(2,4)] e(1,3) by blast
qed

lemma c_open_keeps:
  assumes "consistent dt" and "malloc_ok E" and "unat (dt_size dt) < 1073741824" and "length path \<le> 495"
    and "c_open E dt path oflags mode uid = Some (ret, dt')"
  shows "consistent dt'"
proof (cases "\<exists>nm p. in_dir E dt path uid nm p")
  case False
  have "dt' = dt" using False with_parentD [OF assms(5) [unfolded c_open_def]] by auto
  then show ?thesis using assms(1) by simp
next
  case True
  then obtain nm parent where i: "in_dir E dt path uid nm parent" by blast
  from assms(1) obtain r T where t: "tree r T" "stored r T dt" "own_blocks T (sb_maxBlockNum (sb dt))" by (rule consistentE)
  from in_tree_dir [OF t(2,1) assms(2) i] obtain p m es pool xs where d:
    "T (fe_fb parent) = Some (Dir p m es pool)" "dir_at dt (fe_fb parent) m es pool" "file_at dt (fe_fb parent) xs"
    "length nm \<le> length path" "unat (fm_flen m) + 512 \<le> nsec dt * 512" by blast
  note u = stored_in_use [OF t(2)]
  show ?thesis
  proof (cases "permission_check uid m opW \<noteq> 0 \<or> permission_check uid m opR \<noteq> 0")
    case False
    then show ?thesis using c_open_needs [OF in_useD(1) [OF u] i d(2), of oflags mode] assms(1,5) by auto
  next
    case perm: True
    have "unat (fm_flen m) + 16 + length nm + 1 \<le> nsec dt * 512" using d(4,5) assms(4) by linarith
    note works = c_open_works [OF u assms(2,3) i d(2,3) perm this, of oflags mode]
    show ?thesis
    proof (cases "ent_of pool es nm")
      case None
      then have "nm \<notin> set (map (ent_name pool) es)" by (auto simp: ent_of_def find_None_iff)
      moreover from works None assms(5) obtain e where "fe_type e = S_FIL"
        "links_to dt' (fe_fb parent) m es pool nm e 0" "created dt dt' (fe_fb parent) xs (fe_fb e)"
        "read_meta dt' (fe_fb e) = Some (new_meta E uid mode 1)" by auto
      moreover from calculation have "blocks_at dt' (fe_fb e) []" using new_file_blocks by (auto simp: created_def)
      ultimately show ?thesis using add_keeps [OF t d(1,3)] by blast
    next
      case (Some e)
      with works assms(1,5) show ?thesis by simp
    qed
  qed
qed

lemma remove_keeps:
  assumes t: "tree r T" and st: "stored r T dt" and ob: "own_blocks T (sb_maxBlockNum (sb dt))"
    and d: "T d = Some (Dir p m es pool)" "file_at dt d xs"
    and i: "i < length es" "2 \<le> i" "kids T (fe_fb (es ! i)) = []"
    and z: "file_at dt (fe_fb (es ! i)) zs" and u: "unlinked dt dt' d m es pool i xs zs"
  shows "consistent dt'"
proof -
  note rm = tree_remove [OF t d(1) i(1,2) refl i(3)]
  from stored_remove [OF st d rm(2,3) z u] obtain m' where
    "stored r (T(d \<mapsto> Dir p m' (take i es @ drop (Suc i) es) pool, fe_fb (es ! i) := None)) dt'" by blast
  moreover have "own_blocks (T(d \<mapsto> Dir p m' (take i es @ drop (Suc i) es) pool, fe_fb (es ! i) := None))
      (sb_maxBlockNum (sb dt))"
    by (intro own_blocks_sub [OF ob]) (auto split: if_splits)
  moreover have "sb_maxBlockNum (sb dt') = sb_maxBlockNum (sb dt)" using u by (auto simp: unlinked_def)
  ultimately show ?thesis using rm(1) by (intro consistentI) simp_all
qed

lemma beyond_dots:
  assumes "good_dir T r d p es pool" and "i < length es" and "fe_type (es ! i) \<noteq> S_DIR \<or> ent_name pool (es ! i) \<notin> {[46], [46, 46]}"
  shows "2 \<le> i"
proof (rule ccontr)
  assume "\<not> 2 \<le> i"
  then have "i = 0 \<or> i = 1" by linarith
  with assms show False by (auto simp: good_dir_def)
qed

lemma ent_of_nth: "ent_of pool es nm = Some e \<Longrightarrow> e \<in> set es"
  by (auto simp: ent_of_def find_Some_iff)

lemma c_remove_keeps:
  assumes "consistent dt" and "malloc_ok E" and "unat (dt_size dt) < 2147483648"
    and "c_remove E dt path uid = Some (ret, dt')"
  shows "consistent dt'"
proof (cases "ret = 0 \<and> (\<exists>nm p. in_dir E dt path uid nm p)")
  case False
  have "dt' = dt"
    using False c_remove_fail [OF assms(2,4)] with_parentD [OF assms(4) [unfolded c_remove_def]] by auto
  then show ?thesis using assms(1) by simp
next
  case True
  then obtain nm parent where i: "in_dir E dt path uid nm parent" by blast
  from assms(1) obtain r T where t: "tree r T" "stored r T dt" "own_blocks T (sb_maxBlockNum (sb dt))" by (rule consistentE)
  note s = storedD [OF t(2)]
  from in_tree_dir [OF t(2,1) assms(2) i] obtain p m es pool xs where d:
    "T (fe_fb parent) = Some (Dir p m es pool)" "dir_at dt (fe_fb parent) m es pool" "file_at dt (fe_fb parent) xs" by blast
  have r0: "c_remove E dt path uid = Some (0, dt')" using True assms(4) by simp
  from removal_needs(1) [OF s(1) assms(2) i d(2,3) r0] obtain e where
    e: "permission_check uid m opW \<noteq> 0" "ent_of pool es nm = Some e" "fe_type e \<noteq> S_DIR" by blast
  from tree_entry [OF t(1) d(1) ent_of_nth [OF e(2)]] e(3) obtain n where "T (fe_fb e) = Some n" "\<not> is_Dir n" by auto
  then obtain q ns where n: "T (fe_fb e) = Some (Fil q ns)" by (cases n) auto
  then obtain zs where z: "file_at dt (fe_fb e) zs" using s(5) [of "fe_fb e"] by auto
  have "fe_fb e \<noteq> fe_fb parent" using n d(1) by auto
  then have "set zs \<inter> set xs = {}" using s(6) [OF _ _ _ z d(3)] n d(1) by simp
  note rm = c_remove_unlinks [OF s(1) assms(2,3) i d(2,3) e z this]
  have "unat (fm_flen m) + 16 \<le> length xs * secsz dt" using rm(2) r0 not_less by auto
  from rm(1) [OF this] r0 obtain k where
    k: "k < length es" "es ! k = e" "unlinked dt dt' (fe_fb parent) m es pool k xs zs" by auto
  have "2 \<le> k" using beyond_dots [OF treeD(2) [OF t(1) d(1)] k(1)] k(2) e(3) by simp
  then show ?thesis using remove_keeps [OF t d(1,3) k(1) _ _ _ k(3)] k(2) n z by (simp add: kids_def)
qed

text \<open>The last component of the path must not be \<open>.\<close> or \<open>..\<close>.\<close>

definition dots_last :: "buf \<Rightarrow> bool" where
  "dots_last path \<longleftrightarrow> (case get_filename_from_path path of Some (_, nm) \<Rightarrow> nm \<in> {[46], [46, 46]} | None \<Rightarrow> False)"

lemma c_rmdir_keeps:
  assumes "consistent dt" and "malloc_ok E" and "unat (dt_size dt) < 2147483648" and "\<not> dots_last path"
    and "c_rmdir E dt path uid = Some (ret, dt')"
  shows "consistent dt'"
proof (cases "ret = 0 \<and> (\<exists>nm p. in_dir E dt path uid nm p)")
  case False
  have "dt' = dt"
    using False c_rmdir_fail [OF assms(2,5)] with_parentD [OF assms(5) [unfolded c_rmdir_def]] by auto
  then show ?thesis using assms(1) by simp
next
  case True
  then obtain nm parent where i: "in_dir E dt path uid nm parent" by blast
  from assms(1) obtain r T where t: "tree r T" "stored r T dt" "own_blocks T (sb_maxBlockNum (sb dt))" by (rule consistentE)
  note s = storedD [OF t(2)]
  from in_tree_dir [OF t(2,1) assms(2) i] obtain p m es pool xs where d:
    "T (fe_fb parent) = Some (Dir p m es pool)" "dir_at dt (fe_fb parent) m es pool" "file_at dt (fe_fb parent) xs" by blast
  have r0: "c_rmdir E dt path uid = Some (0, dt')" using True assms(5) by simp
  from removal_needs(2) [OF s(1) assms(2) i d(2,3) r0] obtain e where
    e: "permission_check uid m opW \<noteq> 0" "ent_of pool es nm = Some e" "fe_type e = S_DIR" by blast
  from tree_entry [OF t(1) d(1) ent_of_nth [OF e(2)]] e(3) obtain n where "T (fe_fb e) = Some n" "is_Dir n" by auto
  then obtain q dm des dpool where n: "T (fe_fb e) = Some (Dir q dm des dpool)" by (cases n) auto
  note rm = c_rmdir_unlinks [OF s(1) assms(2,3) i d(2,3) e s(7) [OF n]]
  have l: "length des \<le> 2" using rm(1) r0 not_less by auto
  have slack: "unat (fm_flen m) + 16 \<le> length xs * secsz dt" using rm(3) [OF l] r0 not_less by auto
  have nd: "nm \<notin> {[46], [46, 46]}" using assms(4) i by (auto simp: dots_last_def in_dir_def)
  have "ent_name pool e = nm" using e(2) by (auto simp: ent_of_def find_Some_iff)
  from ent_of_nth [OF e(2)] obtain j where "j < length es" "es ! j = e" by (auto simp: in_set_conv_nth)
  have "fe_fb e \<noteq> fe_fb parent"
  proof
    assume same: "fe_fb e = fe_fb parent"
    have "2 \<le> j" using beyond_dots [OF treeD(2) [OF t(1) d(1)] \<open>j < length es\<close>] nd
      \<open>es ! j = e\<close> \<open>ent_name pool e = nm\<close> by simp
    then have "drop 2 es ! (j - 2) = e" using \<open>j < length es\<close> \<open>es ! j = e\<close> \<open>2 \<le> j\<close>
      by (metis le_add_diff_inverse nth_drop le_trans less_imp_le_nat)
    then have "e \<in> set (drop 2 es)" using \<open>2 \<le> j\<close> \<open>j < length es\<close> nth_mem [of "j - 2" "drop 2 es"] by simp
    then have "fe_fb e \<in> set (kids T (fe_fb parent))" using kids_Dir [of T, OF d(1)] by simp
    with kid_not_self [OF t(1) this] same show False by simp
  qed
  moreover obtain zs where z: "file_at dt (fe_fb e) zs" using s(5) [of "fe_fb e"] n by auto
  ultimately have "set zs \<inter> set xs = {}" using s(6) [OF _ _ _ z d(3)] n d(1) by simp
  from rm(2) [OF l z this slack] r0 obtain k where
    k: "k < length es" "es ! k = e" "ent_name pool e = nm" "unlinked dt dt' (fe_fb parent) m es pool k xs zs" by auto
  have "2 \<le> k" using beyond_dots [OF treeD(2) [OF t(1) d(1)] k(1)] k(2,3) nd by simp
  then show ?thesis using remove_keeps [OF t d(1,3) k(1) _ _ _ k(4)] k(2) n l z by (simp add: kids_def)
qed

section \<open>Changing metadata\<close>

lemma file_starts_with_meta:
  assumes "wf_geom dt" and "file_at dt fb xs"
  obtains m rest where "content dt xs = enc_meta m @ rest" "read_meta dt fb = Some m"
proof -
  from read_meta_content [OF assms] obtain m where m: "read_meta dt fb = Some m" "m = dec_meta (take 64 (content dt xs))" by simp
  have "1 \<le> length xs" using assms(2) by (cases xs) (auto simp: file_at_def)
  then have "1 * 64 \<le> length xs * secsz dt" using wf_geomD(1) [OF assms(1)] by (rule mult_le_mono)
  then have "64 \<le> length (content dt xs)"
    using length_content [OF assms(1), of xs] assms(2) by (auto simp: file_at_def)
  then have "enc_meta m = take 64 (content dt xs)" using m(2) by (simp add: meta.enc_dec)
  then have "content dt xs = enc_meta m @ drop 64 (content dt xs)" by simp
  with m(1) that show thesis by blast
qed

text \<open>A directory and a file whose owner and flags have changed.\<close>

lemma owner_changed:
  assumes wf: "wf_geom dt" and xs: "file_at dt x xs" "content dt xs = enc_meta m @ rest"
    and new: "file_at dt' x xs" "content dt' xs = enc_meta (m\<lparr>fm_uid := u, fm_flags := f\<rparr>) @ rest"
  shows owner_changed_dir: "dir_at dt x m2 es pool \<Longrightarrow> m2 = m \<and> dir_at dt' x (m\<lparr>fm_uid := u, fm_flags := f\<rparr>) es pool"
    and owner_changed_file: "blocks_at dt x ns \<Longrightarrow> blocks_at dt' x ns"
proof -
  let ?m = "m\<lparr>fm_uid := u, fm_flags := f\<rparr>"
  have m: "read_meta dt x = Some m" using file_read_meta [OF wf xs] .
  {
    assume d: "dir_at dt x m2 es pool"
    have m2: "m2 = m" using dir_at_reads(1) [OF wf d] m by simp
    from d obtain zs r' where z: "file_at dt x zs" "unat (fm_blocks m) = length zs"
      "content dt zs = enc_dir m es pool @ r'" "wf_dir m es pool" by (auto simp: dir_at_def m2)
    have "zs = xs" using file_at_unique [OF z(1) xs(1)] .
    then have "content dt' xs = enc_dir ?m es pool @ r'" using new(2) xs(2) z(3) by (simp add: enc_dir_def)
    then show "m2 = m \<and> dir_at dt' x ?m es pool"
      using new(1) z(2,4) m2 \<open>zs = xs\<close> by (auto simp: dir_at_def wf_dir_def)
  next
    assume "blocks_at dt x ns"
    then obtain m2 bs zs r' where b: "file_at dt x zs" "unat (fm_blocks m2) = length zs"
      "content dt zs = enc_meta m2 @ enc_blocks bs @ r'" "unat (fm_strbase m2) = 32 * length bs"
      "length bs = ceil_bs (unat (fm_flen m2))" "ns = map bl_block_num bs" "unat (fm_flen m2) < 2 ^ 50"
      unfolding blocks_at_def file_blocks_def by blast
    have z: "zs = xs" "m2 = m" using file_at_unique [OF xs(1) b(1)] file_read_meta [OF wf b(1,3)] m by simp_all
    then have "content dt' xs = enc_meta ?m @ enc_blocks bs @ r'" using new(2) b(3) xs(2) by simp
    then have "file_blocks dt' x ?m bs" unfolding file_blocks_def using new(1) b(2,4,5) z by auto
    moreover have "unat (fm_flen ?m) < 2 ^ 50" using b(7) z by simp
    ultimately show "blocks_at dt' x ns" unfolding blocks_at_def using b(6) by blast
  }
qed

lemma write_meta_keeps:
  assumes t: "tree r T" and st: "stored r T dt" and ob: "own_blocks T (sb_maxBlockNum (sb dt))" and n: "T x \<noteq> None" and m: "read_meta dt x = Some m"
    and w: "write_meta dt x (m\<lparr>fm_uid := u, fm_flags := f\<rparr>) = Some dt'"
  shows "consistent dt'"
proof -
  let ?m = "m\<lparr>fm_uid := u, fm_flags := f\<rparr>"
  note s = storedD [OF st]
  obtain xs where xs: "file_at dt x xs" using s(5) [OF n] by blast
  obtain m0 rest where c: "content dt xs = enc_meta m0 @ rest" "read_meta dt x = Some m0"
    using file_starts_with_meta [OF s(1) xs] .
  then have c': "content dt xs = enc_meta m @ rest" using m by simp
  from write_meta_file [OF s(1) xs c', of ?m] w have
    u: "upd {unat x} dt dt'" "file_at dt' x xs" "content dt' xs = enc_meta ?m @ rest" by auto
  note changed = owner_changed [OF s(1) xs c' u(2,3)]
  have x: "unat x \<in> set xs" using xs by (cases xs) (auto simp: file_at_def)
  define T' where "T' = (case T x of Some (Dir p _ es pool) \<Rightarrow> T(x \<mapsto> Dir p ?m es pool) | _ \<Rightarrow> T)"
  have other: "T' y = T y" if "y \<noteq> x" for y
    using that by (auto simp: T'_def split: option.splits node.splits)
  have dom: "T' y \<noteq> None \<longleftrightarrow> T y \<noteq> None" for y
    by (auto simp: T'_def split: option.splits node.splits)
  have "tree r T'"
    by (rule tree_same [OF t]) (auto simp: T'_def split: option.splits node.splits)
  moreover have "own_blocks T' (sb_maxBlockNum (sb dt'))"
    unfolding updD(4) [OF u(1)]
    by (intro own_blocks_sub [OF ob]) (auto simp: T'_def split: option.splits node.splits if_splits)
  moreover have "stored r T' dt'"
  proof (rule stored_change [OF st updD(1,2) [OF u(1)], where C = "{x}"], goal_cases)
    case (2 y zs)
    then have "set zs \<inter> set xs = {}"
      using s(6) [OF _ n _ _ xs, of y zs] file_at_unique [OF s(3)] stored_chain [OF st n xs] by fastforce
    then show ?case using upd_file_at [OF u(1) 2(1)] x by blast
  next
    case (3 y)
    then show ?case using u(2) stored_chain [OF st n xs] by blast
  next
    case (4 y y' ys zs)
    then have "ys = xs" using file_at_unique [OF u(2)] by simp
    then show ?case using s(6) [OF 4(5) n _ 4(6) xs] 4(4) by simp
  next
    case (6 y p m2 es pool)
    then have y: "y = x" by simp
    from 6(2) y obtain m1 where t1: "T x = Some (Dir p m1 es pool)" "m2 = ?m"
      by (auto simp: T'_def split: option.splits node.splits if_splits)
    then show ?case using changed(1) [OF s(7) [OF t1(1)]] y by simp
  next
    case (7 y p ns)
    then have y: "y = x" "T x = Some (Fil p ns)"
      by (auto simp: T'_def split: option.splits node.splits if_splits)
    then show ?case using changed(2) [OF s(9) [OF y(2)]] by simp
  next
    case (8 k)
    then show ?case
    proof (cases "k \<in> set xs")
      case True
      then show ?thesis using u(2) n dom by blast
    next
      case False
      then have "k \<noteq> unat x" using x by auto
      moreover from this 8 have "k < nsec dt" using updD(7) [OF u(1), of k] by (auto simp: not_less [symmetric])
      ultimately show ?thesis using 8(2) updD(5) [OF u(1), of k] False file_at_unique [OF xs] by auto
    qed
  qed (use other in auto)
  ultimately show ?thesis by (intro consistentI)
qed

lemma c_chmod_keeps:
  assumes "consistent dt" and "malloc_ok E" and "0 \<notin> set path" and "c_chmod E dt path mode uid = Some (ret, dt')"
  shows "consistent dt'"
proof -
  from assms(1) obtain r T where t: "tree r T" "stored r T dt" "own_blocks T (sb_maxBlockNum (sb dt))" by (rule consistentE)
  show ?thesis
  proof (cases "dt' = dt")
    case False
    with assms(4) obtain e m where e: "c_lookup E dt path uid = Some (Inr e)" "read_meta dt (fe_fb e) = Some m"
      "write_meta dt (fe_fb e) (m\<lparr>fm_flags := (fm_flags m AND NOT S_ALL) OR mode\<rparr>) = Some dt'"
      unfolding c_chmod_def by (auto elim!: bindE split: sum.splits if_splits)
    have "T (fe_fb e) \<noteq> None" using lookup_in_tree [OF t(2,1) assms(2,3) e(1)] by auto
    from write_meta_keeps [OF t this e(2), where u = "fm_uid m"] e(3) show ?thesis by simp
  qed (use assms(1) in simp)
qed

lemma c_chown_keeps:
  assumes "consistent dt" and "malloc_ok E" and "0 \<notin> set path" and "c_chown E dt path newuid uid = Some (ret, dt')"
  shows "consistent dt'"
proof -
  from assms(1) obtain r T where t: "tree r T" "stored r T dt" "own_blocks T (sb_maxBlockNum (sb dt))" by (rule consistentE)
  show ?thesis
  proof (cases "dt' = dt")
    case False
    with assms(4) obtain e m where e: "c_lookup E dt path uid = Some (Inr e)" "read_meta dt (fe_fb e) = Some m"
      "write_meta dt (fe_fb e) (m\<lparr>fm_uid := newuid\<rparr>) = Some dt'"
      unfolding c_chown_def by (auto elim!: bindE split: sum.splits if_splits)
    have "T (fe_fb e) \<noteq> None" using lookup_in_tree [OF t(2,1) assms(2,3) e(1)] by auto
    from write_meta_keeps [OF t this e(2), where f = "fm_flags m"] e(3) show ?thesis by simp
  qed (use assms(1) in simp)
qed

section \<open>Writing\<close>

text \<open>The numbers of the blocks after a write: the old ones and then the next unused ones.\<close>

lemma written_numbers:
  assumes "map bid (take (length bs) bs') = map bid bs"
    and "\<forall>j. length bs + j < length bs' \<longrightarrow> bl_block_num (bs' ! (length bs + j)) = mx + word_of_nat j"
  shows "map bl_block_num bs' = map bl_block_num bs @ map (\<lambda>j. mx + word_of_nat j) [0..<length bs' - length bs]"
proof (rule nth_equalityI)
  have l: "length bs \<le> length bs'" using arg_cong [OF assms(1), of length] by simp
  then show "length (map bl_block_num bs') = length (map bl_block_num bs @ map (\<lambda>j. mx + word_of_nat j) [0..<length bs' - length bs])"
    by simp
  fix i assume i: "i < length (map bl_block_num bs')"
  show "map bl_block_num bs' ! i = (map bl_block_num bs @ map (\<lambda>j. mx + word_of_nat j) [0..<length bs' - length bs]) ! i"
  proof (cases "i < length bs")
    case True
    then have "map bid (take (length bs) bs') ! i = map bid bs ! i" using assms(1) by simp
    then have "bl_block_num (bs' ! i) = bl_block_num (bs ! i)" using True l by (simp add: bid_def)
    then show ?thesis using True i by (simp add: nth_append)
  next
    case False
    then obtain j where j: "i = length bs + j" using le_Suc_ex not_less by blast
    with i assms(2) have "bl_block_num (bs' ! i) = mx + word_of_nat j" "j < length bs' - length bs" by simp_all
    with i j show ?thesis by (simp add: nth_append)
  qed
qed

lemma fresh_numbers:
  fixes mx :: u64_t
  assumes "unat mx + k < 2 ^ 64"
  shows "distinct (map (\<lambda>j. mx + word_of_nat j) [0..<k])"
    and "x \<in> set (map (\<lambda>j. mx + word_of_nat j) [0..<k]) \<Longrightarrow> mx \<le> x \<and> x < mx + word_of_nat k"
    and "mx \<le> mx + word_of_nat k"
proof -
  have u: "unat (mx + word_of_nat j) = unat mx + j" if "j \<le> k" for j
  proof -
    have "unat (word_of_nat j :: u64_t) = j" using assms that by (intro unat_word_of_nat_fit) simp
    then show ?thesis using assms that by (subst unat_add_fit) simp_all
  qed
  show "distinct (map (\<lambda>j. mx + word_of_nat j) [0..<k])"
    unfolding distinct_map using u by (auto intro!: inj_onI) (metis add_left_cancel less_imp_le_nat)
  show "mx \<le> x \<and> x < mx + word_of_nat k" if "x \<in> set (map (\<lambda>j. mx + word_of_nat j) [0..<k])"
    using that u by (auto simp: word_le_nat_alt word_less_nat_alt)
  show "mx \<le> mx + word_of_nat k" using u by (simp add: word_le_nat_alt)
qed

lemma own_blocks_grow:
  assumes ob: "own_blocks T mx" and f: "T f = Some (Fil p ns)" and k: "unat mx + k < 2 ^ 64"
  shows "own_blocks (T(f \<mapsto> Fil p (ns @ map (\<lambda>j. mx + word_of_nat j) [0..<k]))) (mx + word_of_nat k)"
proof -
  let ?new = "map (\<lambda>j. mx + word_of_nat j) [0..<k]"
  note fr = fresh_numbers [OF k]
  have below: "distinct ks \<and> (\<forall>n\<in>set ks. n < mx + word_of_nat k) \<and> set ks \<inter> set ?new = {}"
    if "T x = Some (Fil q ks)" for x q ks
  proof -
    have "distinct ks" "\<forall>n\<in>set ks. n < mx" using ob that by (auto simp: own_blocks_def)
    then show ?thesis using fr(2,3) by (meson disjoint_iff leD less_le_trans)
  qed
  have other: "set ks \<inter> set ls = {}" if "T x = Some (Fil q ks)" "T y = Some (Fil u ls)" "x \<noteq> y" for x y q u ks ls
    using ob that unfolding own_blocks_def by blast
  have self: "distinct (ns @ ?new)" "\<forall>n\<in>set (ns @ ?new). n < mx + word_of_nat k"
    using below [OF f] fr(1,2) by auto
  have disj: "set (ns @ ?new) \<inter> set ks = {}" if "T x = Some (Fil q ks)" "x \<noteq> f" for x q ks
    using other [OF f that(1)] below [OF that(1)] that(2) by auto
  show ?thesis
    unfolding own_blocks_def
  proof (intro conjI allI impI, goal_cases)
    case (1 x q ks)
    then show ?case using self(1) below by (auto split: if_splits)
  next
    case (2 x q ks)
    then show ?case using self(2) below by (auto split: if_splits)
  next
    case (3 x y q u ks ls)
    consider "x = f" "y \<noteq> f" | "x \<noteq> f" "y = f" | "x \<noteq> f" "y \<noteq> f" using 3 by blast
    then show ?case
    proof cases
      case 1
      then show ?thesis using 3 disj [of y u ls] by simp
    next
      case 2
      then show ?thesis using 3 disj [of x q ks] by (simp add: Int_commute)
    next
      case 3
      then show ?thesis using \<open>_ \<and> _ \<and> x \<noteq> y\<close> other [of x q ks y u ls] by simp
    qed
  qed
qed

text \<open>A handle: what \<open>c_open\<close> returns for a file that is there.\<close>

lemma with_parent_outside:
  assumes "with_parent E dt path uid a (\<lambda>_. a) a fail k = Some x" and "\<not> (\<exists>nm p. in_dir E dt path uid nm p)"
  shows "x = fail a"
proof (cases "get_filename_from_path path")
  case None
  with assms show ?thesis by (auto simp: with_parent_def)
next
  case (Some y)
  with assms(1) obtain q where "c_lookup E dt (fst y) uid = Some q"
    by (cases y) (auto simp: with_parent_def bind_eq_Some_conv)
  with Some assms show ?thesis
    by (cases y; cases q) (auto simp: with_parent_def in_dir_def split: if_splits)
qed

lemma c_open_outside:
  assumes "\<not> (\<exists>nm p. in_dir E dt path uid nm p)" and "c_open E dt path oflags mode uid = Some (ret, dt')"
  shows "ret = - 1"
  using with_parent_outside [OF assms(2) [unfolded c_open_def] assms(1)] by simp

lemma c_open_entry:
  assumes t: "tree r T" and st: "stored r T dt" and E: "malloc_ok E" and sz: "unat (dt_size dt) < 1073741824"
    and p: "length path \<le> 495" and op: "c_open E dt path oflags mode uid = Some (sint fb, dt)" "0 \<le> sint fb"
  shows "\<exists>nm parent m es pool e q ns. in_dir E dt path uid nm parent \<and> dir_at dt (fe_fb parent) m es pool
     \<and> ent_of pool es nm = Some e \<and> fb = fe_fb e \<and> T fb = Some (Fil q ns)"
proof -
  have "\<exists>nm p. in_dir E dt path uid nm p" using c_open_outside [of E dt path uid, OF _ op(1)] op(2) by force
  then obtain nm parent where i: "in_dir E dt path uid nm parent" by blast
  from in_tree_dir [OF st t E i] obtain q m es pool xs where d:
    "T (fe_fb parent) = Some (Dir q m es pool)" "dir_at dt (fe_fb parent) m es pool" "file_at dt (fe_fb parent) xs"
    "length nm \<le> length path" "unat (fm_flen m) + 512 \<le> nsec dt * 512" by blast
  note u = stored_in_use [OF st]
  have perm: "permission_check uid m opW \<noteq> 0 \<or> permission_check uid m opR \<noteq> 0"
    using c_open_needs [OF in_useD(1) [OF u] i d(2), of oflags mode] op by auto
  have "unat (fm_flen m) + 16 + length nm + 1 \<le> nsec dt * 512" using d(4,5) p by linarith
  note works = c_open_works [OF u E sz i d(2,3) perm this, of oflags mode]
  show ?thesis
  proof (cases "ent_of pool es nm")
    case None
    with works op(1) obtain e where "links_to dt (fe_fb parent) m es pool nm e 0" by auto
    then obtain m' where m': "dir_at dt (fe_fb parent) m' (es @ [e]) (pool @ nm @ [0])" by (rule links_toE)
    have "m' = m" using dir_at_reads(1) [OF in_useD(1) [OF u] m'] dir_at_reads(1) [OF in_useD(1) [OF u] d(2)] by simp
    then show ?thesis using m' d(2) by (auto simp: dir_at_def wf_dir_def)
  next
    case (Some e)
    with works op have "fe_type e \<noteq> S_DIR" "sint fb = sint (fe_fb e)" by (auto split: if_splits)
    then have e: "fe_type e \<noteq> S_DIR" "fb = fe_fb e" by (simp_all add: signed_word_eqI)
    from tree_entry [OF t d(1) ent_of_nth [OF Some]] e obtain n where "T fb = Some n" "\<not> is_Dir n" by auto
    then obtain q ns where "T fb = Some (Fil q ns)" by (cases n) auto
    with i d(2) Some e(2) show ?thesis by blast
  qed
qed

lemma c_write_keeps:
  assumes t: "tree r T" and st: "stored r T dt" and ob: "own_blocks T (sb_maxBlockNum (sb dt))"
    and f: "T fb = Some (Fil p ns)" and E: "malloc_ok E" and sz: "unat (dt_size dt) < 2147483648"
    and rng: "unat offset + unat len < 2 ^ 50" and ips: "ips \<noteq> []" "0 \<le> ctr"
      "ctr + 3 * int (ceil_bs (unat offset + unat len)) < 2 ^ 31 - 3"
    and room: "64 + 32 * ceil_bs (unat offset + unat len) \<le> nsec dt * secsz dt"
    and nums: "unat (sb_maxBlockNum (sb dt)) + ceil_bs (unat offset + unat len) < 2 ^ 64"
    and w: "c_write E dt ctr fb offset len uid ips (int (length ips)) = Some (n, sl, dt', ctr')"
  shows "consistent dt'"
proof -
  note s = storedD [OF st]
  have tf: "T fb \<noteq> None" using f by simp
  from s(9) [OF f] obtain m bs where b: "file_blocks dt fb m bs" "ns = map bl_block_num bs" "unat (fm_flen m) < 2 ^ 50"
    by (auto simp: blocks_at_def)
  then obtain xs rest where xs: "file_at dt fb xs" "content dt xs = enc_meta m @ enc_blocks bs @ rest" by (auto simp: file_blocks_def)
  show ?thesis
  proof (cases "offset \<le> fm_flen m")
    case False
    then have "dt' = dt"
      using w file_read_meta [OF s(1) xs] by (auto simp: c_write_def Let_def not_le split: if_splits)
    then show ?thesis using t st ob by (intro consistentI) simp_all
  next
    case True
    from c_write_runs [OF s(1) E sz b(1) xs(1) True b(3) rng ips room, of uid] w obtain m' bs' where
      c: "file_blocks dt' fb m' bs'" "unat (fm_flen m') = max (unat (fm_flen m)) (unat offset + unat len)"
      "map bid (take (length bs) bs') = map bid bs"
      "\<forall>j. length bs + j < length bs' \<longrightarrow> bl_block_num (bs' ! (length bs + j)) = sb_maxBlockNum (sb dt) + word_of_nat j"
      "sb_maxBlockNum (sb dt') = sb_maxBlockNum (sb dt) + word_of_nat (length bs' - length bs)"
      "keeps xs dt dt'" "wf_geom dt'" "bps dt' = bps dt" "apart xs fb dt dt'" "no_leak xs fb {} dt dt'" by auto
    define k where "k = length bs' - length bs"
    define ns' where "ns' = ns @ map (\<lambda>j. sb_maxBlockNum (sb dt) + word_of_nat j) [0..<k]"
    have num: "map bl_block_num bs' = ns'" using written_numbers [OF c(3,4)] b(2) by (simp add: ns'_def k_def)
    have "length bs' = ceil_bs (max (unat (fm_flen m)) (unat offset + unat len))" "length bs = ceil_bs (unat (fm_flen m))"
      using c(1,2) b(1) by (simp_all add: file_blocks_def)
    then have "k \<le> ceil_bs (unat offset + unat len)" unfolding k_def by (simp add: max_def split: if_splits)
    then have kn: "unat (sb_maxBlockNum (sb dt)) + k < 2 ^ 64" using nums by linarith
    let ?T = "T(fb \<mapsto> Fil p ns')"
    have "tree r ?T" by (rule tree_same [OF t]) (simp add: f)
    moreover have "own_blocks ?T (sb_maxBlockNum (sb dt'))"
      unfolding c(5) k_def [symmetric] ns'_def using ob f kn by (rule own_blocks_grow)
    moreover have "stored r ?T dt'"
    proof (rule stored_change [OF st c(7,8), where C = "{fb}"], goal_cases)
      case (2 x zs)
      then have "set zs \<inter> set xs = {}"
        using s(6) [OF _ tf _ _ xs(1), of x zs] file_at_unique [OF s(3)] stored_chain [OF st tf xs(1)] by fastforce
      then show ?case using c(6) 2(1) by (auto simp: keeps_def)
    next
      case (3 x)
      obtain ys where ys: "file_at dt' fb ys" using c(1) by (auto simp: file_blocks_def)
      have "set [0] \<inter> set ys = {}"
        using c(9) s(3) ys stored_chain [OF st tf xs(1)] unfolding apart_def by (metis Int_insert_left_if0 inf_bot_left list.set)
      then show ?case using 3 ys by auto
    next
      case (4 x y ys zs)
      then have "set zs \<inter> set xs = {}" using s(6) [OF 4(5) tf _ 4(6) xs(1)] by auto
      then show ?case using c(9) 4(1,3,6) by (auto simp: apart_def)
    next
      case (7 x q ls)
      have "unat (fm_flen m') < 2 ^ 50" using c(2) b(3) rng by simp
      then show ?case using 7 c(1) num unfolding blocks_at_def by (auto split: if_splits)
    next
      case (8 j)
      from c(10) [unfolded no_leak_def, rule_format, OF 8] show ?case
        using file_at_unique [OF xs(1)] by auto
    qed (use f in auto)
    ultimately show ?thesis by (intro consistentI)
  qed
qed

end
