(* ===== verification/CfsGetBlocks.thy ===== *)
theory CfsGetBlocks
  imports CfsWriteSpec
begin

text \<open>
  The block numbers of a file by its path: \<open>c_getblocknum\<close> and \<open>c_getblocks\<close>, which the
  control node uses to tell the data nodes what to delete.
\<close>

lemma getblocks_loop_blocks:
  assumes "length pre = ptr" and "e = ptr + 32 * length bs"
  shows "getblocks_loop (pre @ enc_blocks bs @ rest) e ptr = Some (map bl_block_num bs)"
  using assms
proof (induction bs arbitrary: pre ptr)
  case Nil
  then show ?case by (subst getblocks_loop.simps) simp
next
  case (Cons x bs)
  have g: "get_fblock (pre @ enc_blocks (x # bs) @ rest) ptr = Some x"
    using fblock.get_enc_append [of pre x "enc_blocks bs @ rest"] Cons.prems(1) by simp
  have "getblocks_loop ((pre @ enc_fblock x) @ enc_blocks bs @ rest) e (ptr + 32) = Some (map bl_block_num bs)"
    using Cons.prems by (intro Cons.IH) simp_all
  then have "getblocks_loop (pre @ enc_blocks (x # bs) @ rest) e (ptr + 32) = Some (map bl_block_num bs)" by simp
  then show ?case
    unfolding getblocks_loop.simps [of _ _ ptr] g using Cons.prems(2) by simp
qed

text \<open>An end that the steps of 32 bytes do not hit is missed: the loop runs off the buffer.\<close>

lemma getblocks_loop_misses: "\<forall>j. ptr + 32 * j \<noteq> e \<Longrightarrow> getblocks_loop b e ptr = None"
proof (induction b e ptr rule: getblocks_loop.induct)
  case (1 b e ptr)
  have "ptr + 32 * 0 \<noteq> e" using "1.prems" by blast
  then have e: "ptr \<noteq> e" by simp
  show ?case
  proof (cases "get_fblock b ptr")
    case None
    then show ?thesis using e by (subst getblocks_loop.simps) simp
  next
    case (Some x)
    have "ptr + 32 + 32 * j \<noteq> e" for j using "1.prems" [rule_format, of "Suc j"] by simp
    with "1.IH" [OF e Some] have "getblocks_loop b e (ptr + 32) = None" by blast
    then show ?thesis using e Some by (subst getblocks_loop.simps) simp
  qed
qed

lemma half_block_end: "odd n \<Longrightarrow> (64::nat) + 32 * j \<noteq> 64 + 16 * n"
  by presburger

text \<open>Both operations up to the entry they find.\<close>

lemma getblocks_start:
  assumes "wf_geom dt" and "malloc_ok E" and "in_dir E dt path 0 nm parent"
    and "dir_at dt (fe_fb parent) m es pool" and "ent_of pool es nm = Some e"
    and "file_at dt (fe_fb e) xs" and "read_meta dt (fe_fb e) = Some mm" and "unat (fm_blocks mm) = length xs"
  shows "c_getblocknum E dt path = Some (sint (ucast (fm_strbase mm div 32) :: 32 word))"
    and "c_getblocks E dt path
      = map_option (\<lambda>l. (int (length l), l)) (getblocks_loop (content dt xs) (64 + unat (fm_strbase mm)) 64)"
proof -
  from assms(4) obtain ys where ys: "file_at dt (fe_fb parent) ys" by (auto simp: dir_at_def)
  obtain rest where y: "wf_dir m es pool" "read_meta dt (fe_fb parent) = Some m"
    "\<And>(fail :: int \<Rightarrow> int) k. with_buf E dt (fe_fb parent) m 0 fail k = k (enc_dir m es pool @ rest)"
    "\<And>(fail :: int \<Rightarrow> int \<times> u64_t list) k. with_buf E dt (fe_fb parent) m 0 fail k = k (enc_dir m es pool @ rest)"
  proof -
    from dir_atE [OF assms(1,4)] obtain zs rest where z: "file_at dt (fe_fb parent) zs" "unat (fm_blocks m) = length zs"
      "content dt zs = enc_dir m es pool @ rest" "wf_dir m es pool" by metis
    show thesis
      by (rule that [OF z(4) dir_at_reads(1) [OF assms(1,4)]])
         (simp_all add: with_buf_content [OF assms(1,2) z(1,2)] z(3))
  qed
  from find_entry_by_name_ent(2) [OF y(1) in_dir_name [OF assms(3)] assms(5), of rest] obtain off where
    f: "find_entry_by_name (enc_dir m es pool @ rest) nm = Some (Some off)"
    "get_entry (enc_dir m es pool @ rest) off = Some e" by blast
  note start = with_parent_in_dir [OF assms(3)] y(2-4) f assms(7) Option.bind.bind_lunit option.case
  show "c_getblocknum E dt path = Some (sint (ucast (fm_strbase mm div 32) :: 32 word))"
    unfolding c_getblocknum_def start ..
  show "c_getblocks E dt path
      = map_option (\<lambda>l. (int (length l), l)) (getblocks_loop (content dt xs) (64 + unat (fm_strbase mm)) 64)"
    unfolding c_getblocks_def start with_buf_content [OF assms(1,2,6,8)]
    by (cases "getblocks_loop (content dt xs) (64 + unat (fm_strbase mm)) 64") simp_all
qed

lemma getblocks_of_file:
  assumes "wf_geom dt" and "malloc_ok E" and "in_dir E dt path 0 nm parent"
    and "dir_at dt (fe_fb parent) m es pool" and "ent_of pool es nm = Some e" and "file_blocks dt (fe_fb e) mm bs"
  shows "c_getblocks E dt path = Some (int (length bs), map bl_block_num bs)"
    and "length bs < 2 ^ 31 \<Longrightarrow> c_getblocknum E dt path = Some (int (length bs))"
proof -
  from assms(6) obtain xs rest where b: "file_at dt (fe_fb e) xs" "unat (fm_blocks mm) = length xs"
    "content dt xs = enc_meta mm @ enc_blocks bs @ rest" "unat (fm_strbase mm) = 32 * length bs" by (auto simp: file_blocks_def)
  note g = getblocks_start [OF assms(1-5) b(1) file_read_meta [OF assms(1) b(1,3)] b(2)]
  show "c_getblocks E dt path = Some (int (length bs), map bl_block_num bs)"
    unfolding g(2) b(3,4) by (subst getblocks_loop_blocks) simp_all
  assume l: "length bs < 2 ^ 31"
  have d: "unat (fm_strbase mm div 32) = length bs" using b(4) by (simp add: unat_div)
  then have "unat (ucast (fm_strbase mm div 32) :: 32 word) = length bs"
    using l by (subst unat_ucast_fit) simp_all
  then have "(ucast (fm_strbase mm div 32) :: 32 word) = word_of_nat (length bs)" by (rule word_from_unat)
  then have "sint (ucast (fm_strbase mm div 32) :: 32 word) = int (length bs)"
    using l by (simp only:) (rule sint_of_nat_fit, simp)
  then show "c_getblocknum E dt path = Some (int (length bs))" unfolding g(1) by simp
qed

lemma getblocks_of_dir:
  assumes "wf_geom dt" and "malloc_ok E" and "in_dir E dt path 0 nm parent"
    and "dir_at dt (fe_fb parent) m es pool" and "ent_of pool es nm = Some e"
    and "dir_at dt (fe_fb e) dm des dpool" and "odd (length des)"
  shows "c_getblocks E dt path = None"
proof -
  from dir_atE [OF assms(1,6)] obtain xs where x: "file_at dt (fe_fb e) xs" "unat (fm_blocks dm) = length xs"
    "wf_dir dm des dpool" by metis
  have "64 + 32 * j \<noteq> 64 + unat (fm_strbase dm)" for j
    using half_block_end [OF assms(7)] x(3) by (simp add: wf_dir_def)
  then have "getblocks_loop (content dt xs) (64 + unat (fm_strbase dm)) 64 = None"
    by (intro getblocks_loop_misses) simp
  with getblocks_start(2) [OF assms(1-5) x(1) dir_at_reads(1) [OF assms(1,6)] x(2)] show ?thesis by simp
qed

section \<open>Properties\<close>

lemma blk_in_dir: "x \<noteq> 0 \<Longrightarrow> x \<noteq> SLASH \<Longrightarrow> in_dir E blk_disk [SLASH, x] uid [x] root_entry"
proof -
  have "get_entry (data blk_disk) 0 = Some root_entry"
    by (simp add: blk_disk_def pad128_def entry.get_enc_head)
  then show "x \<noteq> 0 \<Longrightarrow> x \<noteq> SLASH \<Longrightarrow> in_dir E blk_disk [SLASH, x] uid [x] root_entry"
    by (simp add: in_dir_def get_filename_from_path_def gf_scan.simps cstr_def c_lookup_def root_entry_def Let_def)
qed

lemma blk_dir_at: "dir_at blk_disk 1 sample_meta sample_entries sample_pool"
proof -
  have "file_at blk_disk 1 [1]" by (auto simp: file_at_def blk_disk_def sample_disk_def nth_append)
  moreover have "content blk_disk [1] = pad128 (enc_dir sample_meta sample_entries sample_pool)"
    by (simp add: sector_def blk_disk_def sample_disk_def sample_lengths)
  ultimately show ?thesis
    unfolding dir_at_def using sample_wf
    by (intro exI [of _ "[1]"] exI [of _ "replicate 9 0"])
       (simp_all add: sample_meta_def mini_meta_def pad128_def sample_entries_def sample_pool_def)
qed

lemma blk_ents: "ent_of sample_pool sample_entries [97] = Some \<lparr>fe_name = 5, fe_fb = 2, fe_type = S_FIL, fe_reserve = 0\<rparr>"
    "ent_of sample_pool sample_entries [46] = Some \<lparr>fe_name = 0, fe_fb = 1, fe_type = S_DIR, fe_reserve = 0\<rparr>"
  by (simp_all add: ent_of_def sample_entries_def ent_name_def sample_pool_def cstr_at_def)

text \<open>
  C26. The blocks of a file by its path: for an entry that leads to a file with a well-formed
  block list, \<open>c_getblocks\<close> returns the numbers of its blocks in their order, and
  \<open>c_getblocknum\<close>, with which the caller sizes the array, as many as there are. Neither
  checks the type of the entry: on a directory with an odd number of entries the end of
  the loop, compared for equality, is never hit, and \<open>c_getblocks\<close> reads past its buffer.
\<close>
theorem c_getblocks_lists:
  assumes "wf_geom dt" and "malloc_ok E" and "in_dir E dt path 0 nm parent"
    and "dir_at dt (fe_fb parent) m es pool" and "ent_of pool es nm = Some e"
  shows "(\<forall>mm bs. file_blocks dt (fe_fb e) mm bs \<and> length bs < 2 ^ 31 \<longrightarrow>
       c_getblocks E dt path = Some (int (length bs), map bl_block_num bs)
       \<and> c_getblocknum E dt path = Some (int (length bs)))
    \<and> (\<forall>dm des dpool. dir_at dt (fe_fb e) dm des dpool \<and> odd (length des) \<longrightarrow> c_getblocks E dt path = None)"
  using getblocks_of_file [OF assms] getblocks_of_dir [OF assms] by blast

theorem c_getblocks_lists_witness:
  "c_getblocks calm_env blk_disk [SLASH, 97] = Some (2, [7, 9]) \<and> c_getblocknum calm_env blk_disk [SLASH, 97] = Some 2
   \<and> c_getblocks calm_env blk_disk [SLASH, 46] = None"
proof -
  have "dir_at blk_disk (fe_fb root_entry) sample_meta sample_entries sample_pool" "odd (length sample_entries)"
    using blk_dir_at by (simp_all add: root_entry_def sample_entries_def)
  with c_getblocks_lists [OF blk_disk_wf calm_env_ok blk_in_dir [of 97] _ blk_ents(1)]
    c_getblocks_lists [OF blk_disk_wf calm_env_ok blk_in_dir [of 46] _ blk_ents(2)] blk_disk_blocks length_blk_list
  show ?thesis by (fastforce simp: blk_list_def root_entry_def)
qed

end
