(* ===== verification/CfsHistory.thy ===== *)
theory CfsHistory
  imports CfsReach CfsGetBlocks
begin

text \<open>
  The histories of a disk: formatting it and then any sequence of calls of the operations on
  paths and of \<open>c_write\<close> on a handle. Every disk a history reaches stores a tree, and on such
  a disk the operations stay inside their buffers.
\<close>

unbundle bit_operations_syntax

section \<open>Histories\<close>

text \<open>
  One call, successful or not. The allocator does not fail; the disk is below 1 GiB (it can
  still double); paths have no NUL and at most 495 characters, which leaves room for a name in
  the last sector. \<open>c_rmdir\<close> is not called on \<open>.\<close> or \<open>..\<close>, and \<open>c_write\<close> gets a first sector
  that \<open>c_open\<close> returns for some path at the time of the call, a range below 1 PiB, and a disk
  with room for its block list and its block numbers. \<open>c_move\<close> is left out: it loses names.
\<close>

inductive fs_step :: "dtree \<Rightarrow> dtree \<Rightarrow> bool" where
  mkdir: "malloc_ok E \<Longrightarrow> unat (dt_size dt) < 2 ^ 30 \<Longrightarrow> length path \<le> 495 \<Longrightarrow>
    c_mkdir E dt path uid = Some (ret, dt') \<Longrightarrow> fs_step dt dt'"
| opens: "malloc_ok E \<Longrightarrow> unat (dt_size dt) < 2 ^ 30 \<Longrightarrow> length path \<le> 495 \<Longrightarrow>
    c_open E dt path oflags mode uid = Some (ret, dt') \<Longrightarrow> fs_step dt dt'"
| remove: "malloc_ok E \<Longrightarrow> unat (dt_size dt) < 2 ^ 30 \<Longrightarrow>
    c_remove E dt path uid = Some (ret, dt') \<Longrightarrow> fs_step dt dt'"
| rmdir: "malloc_ok E \<Longrightarrow> unat (dt_size dt) < 2 ^ 30 \<Longrightarrow> \<not> dots_last path \<Longrightarrow>
    c_rmdir E dt path uid = Some (ret, dt') \<Longrightarrow> fs_step dt dt'"
| chmod: "malloc_ok E \<Longrightarrow> 0 \<notin> set path \<Longrightarrow> c_chmod E dt path mode uid = Some (ret, dt') \<Longrightarrow> fs_step dt dt'"
| chown: "malloc_ok E \<Longrightarrow> 0 \<notin> set path \<Longrightarrow> c_chown E dt path newuid uid = Some (ret, dt') \<Longrightarrow> fs_step dt dt'"
| writes: "malloc_ok E \<Longrightarrow> unat (dt_size dt) < 2 ^ 30 \<Longrightarrow> length path \<le> 495 \<Longrightarrow>
    c_open E dt path oflags mode uid' = Some (sint fb, dt) \<Longrightarrow> 0 \<le> sint fb \<Longrightarrow>
    unat offset + unat len < 2 ^ 50 \<Longrightarrow> ips \<noteq> [] \<Longrightarrow> 0 \<le> ctr \<Longrightarrow>
    ctr + 3 * int (ceil_bs (unat offset + unat len)) < 2 ^ 31 - 3 \<Longrightarrow>
    64 + 32 * ceil_bs (unat offset + unat len) \<le> nsec dt * secsz dt \<Longrightarrow>
    unat (sb_maxBlockNum (sb dt)) + ceil_bs (unat offset + unat len) < 2 ^ 64 \<Longrightarrow>
    c_write E dt ctr fb offset len uid ips (int (length ips)) = Some (n, sl, dt', ctr') \<Longrightarrow> fs_step dt dt'"

inductive fs_reach :: "dtree \<Rightarrow> bool" where
  formatted: "malloc_ok E \<Longrightarrow> length b = 32768 \<Longrightarrow> dt_size dt = INIT_MAX \<Longrightarrow>
    do_mkcfs E dt b INIT_MAX BYTSPERSEC = Some dt' \<Longrightarrow> fs_reach dt'"
| called: "fs_reach dt \<Longrightarrow> fs_step dt dt' \<Longrightarrow> fs_reach dt'"

lemma fs_step_consistent:
  assumes "fs_step dt dt'" and "consistent dt" shows "consistent dt'"
  using assms
proof (induction rule: fs_step.induct)
  case (writes E dt path oflags mode uid' fb offset len ips ctr uid n sl dt' ctr')
  obtain r T where t: "tree r T" "stored r T dt" "own_blocks T (sb_maxBlockNum (sb dt))"
    using writes.prems by (rule consistentE)
  have sz: "unat (dt_size dt) < 1073741824" "unat (dt_size dt) < 2147483648" using writes.hyps(2) by simp_all
  from c_open_entry [OF t(1,2) writes.hyps(1) sz(1) writes.hyps(3-5)] obtain p ns where "T fb = Some (Fil p ns)" by blast
  from c_write_keeps [OF t this writes.hyps(1) sz(2) writes.hyps(6-12)] show ?case .
next
  case (mkdir E dt path uid ret dt')
  then show ?case using c_mkdir_keeps [of dt E path uid ret dt'] by simp
next
  case (opens E dt path oflags mode uid ret dt')
  then show ?case using c_open_keeps [of dt E path oflags mode uid ret dt'] by simp
next
  case (remove E dt path uid ret dt')
  then show ?case using c_remove_keeps [of dt E path uid ret dt'] by simp
next
  case (rmdir E dt path uid ret dt')
  then show ?case using c_rmdir_keeps [of dt E path uid ret dt'] by simp
next
  case (chmod E path dt mode uid ret dt')
  then show ?case using c_chmod_keeps by blast
next
  case (chown E path dt newuid uid ret dt')
  then show ?case using c_chown_keeps by blast
qed

lemma formatted_consistent:
  assumes "malloc_ok E" and "length b = 32768" and "dt_size dt = INIT_MAX"
    and "do_mkcfs E dt b INIT_MAX BYTSPERSEC = Some dt'"
  shows "consistent dt'"
proof -
  from do_mkcfs_root [OF assms(1-3)] assms(4) have d: "in_use dt'"
    "get_entry (data dt') 0 = Some \<lparr>fe_name = 0, fe_fb = 1, fe_type = S_DIR, fe_reserve = 0\<rparr>"
    "dir_at dt' 1 (new_dir_meta E 0 1) (dot_entries 1 1) dots_pool"
    "\<forall>x<nsec dt'. (fat_p dt' ! x = FREESEC) = (x \<notin> {0, 1})" "file_at dt' 0 [0]" "file_at dt' 1 [1]" by auto
  let ?T = "[1 \<mapsto> Dir 1 (new_dir_meta E 0 1) (dot_entries 1 1) dots_pool] :: fs"
  have "tree 1 ?T" unfolding tree_def using new_good_dir [of ?T 1 1 1] by (auto split: if_splits)
  moreover have "stored 1 ?T dt'"
    unfolding stored_def
  proof (intro conjI allI impI, goal_cases)
    case (5 x)
    then show ?case using d(6) by (auto split: if_splits)
  next
    case (9 y)
    then show ?case using d(4,6) by (cases "y = 0") auto
  qed (use d in_useD [OF d(1)] in \<open>auto split: if_splits\<close>)
  moreover have "own_blocks ?T (sb_maxBlockNum (sb dt'))" by (auto simp: own_blocks_def split: if_splits)
  ultimately show ?thesis by (rule consistentI)
qed

lemma fs_reach_consistent: "fs_reach dt \<Longrightarrow> consistent dt"
proof (induction rule: fs_reach.induct)
  case (formatted E b dt dt')
  then show ?case by (rule formatted_consistent)
next
  case (called dt dt')
  then show ?case using fs_step_consistent by blast
qed

section \<open>Staying inside the buffers\<close>

lemma find_safe:
  assumes "stored r T dt" and "tree r T" and "malloc_ok E"
    and "T (fe_fb b) = Some (Dir p m es pool)" and "0 \<notin> set path"
  shows "c_find_entry E dt b path uid \<noteq> None"
  using assms(4,5)
proof (induction path arbitrary: b p m es pool rule: measure_induct_rule [of length])
  case (less path)
  let ?n = "takeWhile (\<lambda>c. c \<noteq> SLASH) path" and ?rest = "tl (dropWhile (\<lambda>c. c \<noteq> SLASH) path)"
  note level = c_find_entry_level [OF storedD(1) [OF assms(1)] assms(3) storedD(7) [OF assms(1) less.prems(1)] less.prems(2), of uid]
  show ?case
  proof (cases "\<exists>e. ent_of pool es ?n = Some e \<and> fe_type e = S_DIR \<and> SLASH \<in> set path")
    case False
    then show ?thesis unfolding level by (cases "ent_of pool es ?n") auto
  next
    case True
    then obtain e where e: "ent_of pool es ?n = Some e" "fe_type e = S_DIR" "SLASH \<in> set path" by blast
    from tree_entry [OF assms(2) less.prems(1) ent_of_nth [OF e(1)]] e(2) obtain n where
      "T (fe_fb e) = Some n" "is_Dir n" by auto
    then obtain q mm ces cpool where n: "T (fe_fb e) = Some (Dir q mm ces cpool)" by (cases n) auto
    from less.IH [OF after_slash(1) [OF e(3)] n] after_slash(2) [OF e(3) less.prems(2)] show ?thesis
      unfolding level using e by simp
  qed
qed

lemma lookup_safe:
  assumes "stored r T dt" and "tree r T" and "malloc_ok E" and "0 \<notin> set path"
  shows "c_lookup E dt path uid \<noteq> None"
proof -
  obtain root where root: "get_entry (data dt) 0 = Some root" "fe_fb root = r"
    using storedD(4) [OF assms(1)] by blast
  obtain m es pool where t: "T r = Some (Dir r m es pool)" using treeD(1) [OF assms(2)] by blast
  define p where "p = (case path of c # cs \<Rightarrow> if c = SLASH then cs else path | [] \<Rightarrow> [])"
  have "0 \<notin> set p" using assms(4) by (auto simp: p_def split: list.splits)
  with root t find_safe [OF assms(1-3), of root] show ?thesis
    by (auto simp: c_lookup_def Let_def p_def [symmetric])
qed

lemma with_parent_safe:
  assumes "stored r T dt" and "tree r T" and "malloc_ok E"
    and "\<And>nm parent. in_dir E dt path uid nm parent \<Longrightarrow> k nm parent \<noteq> None"
  shows "with_parent E dt path uid a f b fail k \<noteq> None"
proof (cases "get_filename_from_path path")
  case (Some y)
  obtain d nm where y: "y = (d, nm)" by fastforce
  with lookup_safe [OF assms(1-3) filename_parts(1), of path d nm uid] Some obtain q where
    "c_lookup E dt d uid = Some q" by auto
  with Some y assms(4) show ?thesis by (cases q) (auto simp: with_parent_def in_dir_def)
qed (simp add: with_parent_def)

text \<open>What an operation finds in its parent: nothing, or an entry whose file has metadata.\<close>

lemma parent_safe:
  assumes "stored r T dt" and "tree r T" and "malloc_ok E" and "in_dir E dt path uid nm parent"
  shows "\<exists>m b. read_meta dt (fe_fb parent) = Some m
     \<and> (\<forall>(fail :: int \<Rightarrow> 'r) k. with_buf E dt (fe_fb parent) m 0 fail k = k b)
     \<and> (find_entry_by_name b nm = Some None \<or>
        (\<exists>off e mm. find_entry_by_name b nm = Some (Some off) \<and> get_entry b off = Some e
           \<and> read_meta dt (fe_fb e) = Some mm))"
proof -
  note s = storedD [OF assms(1)]
  from in_tree_dir [OF assms] obtain p m es pool xs where d: "T (fe_fb parent) = Some (Dir p m es pool)"
    "dir_at dt (fe_fb parent) m es pool" "file_at dt (fe_fb parent) xs" by blast
  obtain rest where y: "wf_dir m es pool" "read_meta dt (fe_fb parent) = Some m"
    "\<And>(fail :: int \<Rightarrow> 'r) k. with_buf E dt (fe_fb parent) m 0 fail k = k (enc_dir m es pool @ rest)"
    using parent_buffer [OF s(1) assms(3) d(2,3)] by metis
  note find = find_entry_by_name_ent [OF y(1) in_dir_name [OF assms(4)], where rest = rest]
  show ?thesis
  proof (cases "ent_of pool es nm")
    case None
    with y(2,3) find(1) show ?thesis by blast
  next
    case (Some e)
    from tree_entry [OF assms(2) d(1) ent_of_nth [OF Some]] obtain zs where "file_at dt (fe_fb e) zs"
      using s(5) [of "fe_fb e"] by auto
    from file_has_meta [OF s(1) this] find(2) [OF Some] y(2,3) show ?thesis by blast
  qed
qed

lemma reads_safe:
  assumes "stored r T dt" and "tree r T" and "malloc_ok E"
  shows "c_getblocknum E dt path \<noteq> None" and "c_stat E dt path uid \<noteq> None"
proof -
  have "(\<lambda>filename parent. do {
       pmeta \<leftarrow> read_meta dt (fe_fb parent);
       with_buf E dt (fe_fb parent) pmeta 0 id (\<lambda>pdata. do {
         p \<leftarrow> find_entry_by_name pdata filename;
         case p of
           None \<Rightarrow> Some (- 1)
         | Some off \<Rightarrow> do {
             ofile \<leftarrow> get_entry pdata off;
             meta \<leftarrow> read_meta dt (fe_fb ofile);
             Some (sint (ucast (fm_strbase meta div szof_fblock) :: 32 word))
           }
       })
     }) nm parent \<noteq> None" if i: "in_dir E dt path 0 nm parent" for nm parent
    using parent_safe [OF assms i, where 'r = int] by fastforce
  then show "c_getblocknum E dt path \<noteq> None"
    unfolding c_getblocknum_def by (intro with_parent_safe [OF assms])
  show "c_stat E dt path uid \<noteq> None"
    unfolding c_stat_def
  proof (rule with_parent_safe [OF assms], goal_cases)
    case (1 nm parent)
    show ?case using parent_safe [OF assms 1, where 'r = "int \<times> c_stat_t option"] by fastforce
  qed
qed

lemma c_opendir_safe:
  assumes "stored r T dt" and "tree r T" and "malloc_ok E" and "0 \<notin> set path"
  shows "c_opendir E dt path uid \<noteq> None" and "c_chmod E dt path mode uid \<noteq> None" and "c_chown E dt path newuid uid \<noteq> None"
proof -
  note s = storedD [OF assms(1)]
  obtain ret where ret: "c_lookup E dt path uid = Some ret" using lookup_safe [OF assms] by blast
  have e: "\<exists>m. read_meta dt (fe_fb e) = Some m \<and> (\<forall>m'. \<exists>dt'. write_meta dt (fe_fb e) m' = Some dt')"
    if "ret = Inr e" for e
  proof -
    from lookup_in_tree [OF assms(1-4)] ret that obtain xs where xs: "file_at dt (fe_fb e) xs"
      using s(5) [of "fe_fb e"] by fastforce
    obtain m rest where m: "content dt xs = enc_meta m @ rest" "read_meta dt (fe_fb e) = Some m"
      using file_starts_with_meta [OF s(1) xs] .
    with write_meta_file [OF s(1) xs m(1)] show ?thesis by blast
  qed
  show "c_opendir E dt path uid \<noteq> None"
    using ret e by (cases ret) (auto simp: c_opendir_def)
  show "c_chmod E dt path mode uid \<noteq> None"
  proof (cases ret)
    case (Inr f)
    from e [OF this] obtain m where "read_meta dt (fe_fb f) = Some m"
      "\<And>m'. \<exists>dt'. write_meta dt (fe_fb f) m' = Some dt'" by blast
    moreover from this(2) obtain dt' where
      "write_meta dt (fe_fb f) (m\<lparr>fm_flags := (fm_flags m AND NOT S_ALL) OR mode\<rparr>) = Some dt'" by blast
    ultimately show ?thesis using ret Inr by (simp add: c_chmod_def)
  qed (use ret in \<open>simp add: c_chmod_def\<close>)
  show "c_chown E dt path newuid uid \<noteq> None"
  proof (cases ret)
    case (Inr f)
    from e [OF this] obtain m where "read_meta dt (fe_fb f) = Some m"
      "\<And>m'. \<exists>dt'. write_meta dt (fe_fb f) m' = Some dt'" by blast
    moreover from this(2) obtain dt' where "write_meta dt (fe_fb f) (m\<lparr>fm_uid := newuid\<rparr>) = Some dt'" by blast
    ultimately show ?thesis using ret Inr by (simp add: c_chown_def)
  qed (use ret in \<open>simp add: c_chown_def\<close>)
qed

lemma creating_safe:
  assumes "stored r T dt" and "tree r T" and "malloc_ok E" and "unat (dt_size dt) < 1073741824" and "length path \<le> 495"
  shows "c_mkdir E dt path uid \<noteq> None" and "c_open E dt path oflags mode uid \<noteq> None"
proof -
  have "c_mkdir E dt path uid \<noteq> None \<and> c_open E dt path oflags mode uid \<noteq> None"
  proof (cases "\<exists>nm p. in_dir E dt path uid nm p")
    case False
    then show ?thesis
      unfolding c_mkdir_def c_open_def by (intro conjI with_parent_safe [OF assms(1-3)]) blast+
  next
    case True
    then obtain nm parent where i: "in_dir E dt path uid nm parent" by blast
    from in_tree_dir [OF assms(1-3) i] obtain p m es pool xs where d:
      "T (fe_fb parent) = Some (Dir p m es pool)" "dir_at dt (fe_fb parent) m es pool" "file_at dt (fe_fb parent) xs"
      "length nm \<le> length path" "unat (fm_flen m) + 512 \<le> nsec dt * 512" by blast
    note u = stored_in_use [OF assms(1)]
    have room: "unat (fm_flen m) + 16 + length nm + 1 \<le> nsec dt * 512" using d(4,5) assms(5) by linarith
    have "c_mkdir E dt path uid \<noteq> None"
      using c_mkdir_refuses [OF in_useD(1) [OF u] assms(3) i d(2,3)] c_mkdir_creates [OF u assms(3,4) i d(2,3) _ _ room]
      by (metis option.distinct(1))
    moreover have "c_open E dt path oflags mode uid \<noteq> None"
    proof (cases "permission_check uid m opW \<noteq> 0 \<or> permission_check uid m opR \<noteq> 0")
      case True
      from c_open_works [OF u assms(3,4) i d(2,3) True room, of oflags mode] show ?thesis
        by (cases "ent_of pool es nm") auto
    qed (use c_open_needs [OF in_useD(1) [OF u] i d(2), of oflags mode] in simp)
    ultimately show ?thesis ..
  qed
  then show "c_mkdir E dt path uid \<noteq> None" "c_open E dt path oflags mode uid \<noteq> None" by simp_all
qed

section \<open>Blocks by path\<close>

text \<open>Path resolution does not look at the user.\<close>

lemma c_find_entry_uid: "c_find_entry E dt b path uid = c_find_entry E dt b path uid'"
proof (induction E dt b path uid rule: c_find_entry.induct)
  case (1 E dt base path uid)
  show ?case
    unfolding c_find_entry.simps [of E dt base path uid] c_find_entry.simps [of E dt base path uid']
    by (intro Option.bind_cong refl option.case_cong if_cong) (use 1 in \<open>auto simp: Let_def intro!: Option.bind_cong split: option.splits\<close>)
qed

lemma in_dir_uid: "in_dir E dt path uid nm parent \<longleftrightarrow> in_dir E dt path uid' nm parent"
proof -
  have "c_lookup E dt p uid = c_lookup E dt p uid'" for p
    unfolding c_lookup_def Let_def by (intro Option.bind_cong refl if_cong c_find_entry_uid)
  then show ?thesis by (simp add: in_dir_def)
qed

text \<open>A handle and the blocks of its path: the file of the tree.\<close>

lemma handle_blocks:
  assumes t: "tree r T" and st: "stored r T dt" and E: "malloc_ok E" and sz: "unat (dt_size dt) < 1073741824"
    and p: "length path \<le> 495" and op: "c_open E dt path oflags mode uid = Some (sint fb, dt)" "0 \<le> sint fb"
  shows "\<exists>q ns. T fb = Some (Fil q ns) \<and> c_getblocks E dt path = Some (int (length ns), ns)"
proof -
  note wf = storedD(1) [OF st]
  from c_open_entry [OF t st E sz p op] obtain nm parent m es pool e q ns where
    i: "in_dir E dt path uid nm parent" "dir_at dt (fe_fb parent) m es pool" "ent_of pool es nm = Some e" "fb = fe_fb e"
    "T fb = Some (Fil q ns)" by blast
  from storedD(9) [OF st i(5)] obtain mm bs where b: "file_blocks dt (fe_fb e) mm bs" "ns = map bl_block_num bs"
    unfolding i(4) blocks_at_def by blast
  have "in_dir E dt path 0 nm parent" using i(1) in_dir_uid by blast
  from getblocks_of_file(1) [OF wf E this i(2,3) b(1)] b(2) i(5) show ?thesis by simp
qed

section \<open>Properties\<close>

text \<open>
  For the witnesses: one more file in the root directory of a reachable disk, and the history
  that formats a disk and then creates \<open>/a\<close> and \<open>/b\<close>.
\<close>

definition rooted :: "dtree \<Rightarrow> file_entry list \<Rightarrow> buf \<Rightarrow> bool" where
  "rooted dt es pool \<longleftrightarrow> fs_reach dt \<and> get_entry (data dt) 0 = Some root_entry
     \<and> (\<exists>m. dir_at dt 1 m es pool \<and> permission_check 0 m opW \<noteq> 0)"

lemma rooted_in_dir: "rooted dt es pool \<Longrightarrow> x \<noteq> 0 \<Longrightarrow> x \<noteq> SLASH \<Longrightarrow> in_dir E dt [SLASH, x] uid [x] root_entry"
  by (auto simp: rooted_def in_dir_def get_filename_from_path_def gf_scan.simps cstr_def c_lookup_def root_entry_def Let_def)

lemma rooted_room:
  assumes "rooted dt es pool" and "dir_at dt 1 m es pool" and "x \<noteq> 0" and "x \<noteq> SLASH"
  shows "in_use dt" "unat (fm_flen m) + 16 + length [x] + 1 \<le> nsec dt * 512"
    and "\<And>xs. file_at dt 1 xs \<Longrightarrow> 0 \<notin> set xs" and "file_at dt 0 [0]"
proof -
  have "consistent dt" using assms(1) fs_reach_consistent by (simp add: rooted_def)
  then obtain r T where t: "tree r T" "stored r T dt" by (rule consistentE)
  from in_tree_dir [OF t(2,1) calm_env_ok rooted_in_dir [OF assms(1,3,4), of _ 0]] obtain p m' es' pool' where
    d: "T 1 = Some (Dir p m' es' pool')" "dir_at dt 1 m' es' pool'" "unat (fm_flen m') + 512 \<le> nsec dt * 512"
    by (auto simp: root_entry_def)
  show "in_use dt" using stored_in_use [OF t(2)] .
  have "m' = m"
    using dir_at_reads(1) [OF storedD(1) [OF t(2)] d(2)] dir_at_reads(1) [OF storedD(1) [OF t(2)] assms(2)] by simp
  then show "unat (fm_flen m) + 16 + length [x] + 1 \<le> nsec dt * 512" using d(3) by simp
  show "\<And>xs. file_at dt 1 xs \<Longrightarrow> 0 \<notin> set xs" using stored_chain [OF t(2)] d(1) by blast
  show "file_at dt 0 [0]" using storedD(3) [OF t(2)] .
qed

lemma created_facts:
  assumes "created dt dt' pfb xs fb"
  shows "file_at dt' fb [unat fb]" "unat fb < 2 ^ 31" "unat (dt_size dt') \<le> 4 * unat (dt_size dt)"
    and "sb_maxBlockNum (sb dt') = sb_maxBlockNum (sb dt)" "file_at dt gb zs \<Longrightarrow> unat fb \<notin> set zs"
    and "file_at dt' pfb ys \<Longrightarrow> unat fb \<notin> set ys" "keeps xs dt dt'"
proof -
  show f: "file_at dt' fb [unat fb]" using assms by (simp add: created_def)
  show "unat fb < 2 ^ 31" using assms f wf_geomD(8) [of dt'] by (auto simp: created_def file_at_def)
  show "file_at dt gb zs \<Longrightarrow> unat fb \<notin> set zs" using assms f by (fastforce simp: created_def apart_def)
qed (use assms in \<open>simp_all add: created_def\<close>)

lemma rooted_open:
  assumes r: "rooted dt es pool" and sz: "unat (dt_size dt) < 2 ^ 30" and x: "x \<noteq> 0" "x \<noteq> SLASH"
    and nm: "[x] \<notin> set (map (ent_name pool) es)"
  shows "\<exists>dt' e xs. c_open calm_env dt [SLASH, x] 0 0 0 = Some (sint (fe_fb e), dt') \<and> rooted dt' (es @ [e]) (pool @ [x, 0])
     \<and> map (ent_name (pool @ [x, 0])) (es @ [e]) = map (ent_name pool) es @ [[x]] \<and> fe_type e = S_FIL
     \<and> file_at dt 1 xs \<and> created dt dt' 1 xs (fe_fb e) \<and> blocks_at dt' (fe_fb e) []"
proof -
  from r obtain m where m: "dir_at dt 1 m es pool" "permission_check 0 m opW \<noteq> 0" "fs_reach dt"
    "get_entry (data dt) 0 = Some root_entry" by (auto simp: rooted_def)
  note room = rooted_room [OF r m(1) x]
  have root: "dir_at dt (fe_fb root_entry) m es pool" using m(1) by (simp add: root_entry_def)
  then obtain xs where xs: "file_at dt (fe_fb root_entry) xs" by (auto simp: dir_at_def)
  have sz': "unat (dt_size dt) < 1073741824" using sz by simp
  have "ent_of pool es [x] = None" using nm unfolding ent_of_def find_None_iff by (metis image_eqI list.set_map)
  with c_open_works [OF room(1) calm_env_ok sz' rooted_in_dir [OF r x] root xs _ room(2), where uid = 0 and oflags = 0 and mode = 0]
    m(2) obtain dt' e where e: "c_open calm_env dt [SLASH, x] 0 0 0 = Some (sint (fe_fb e), dt')" "fe_type e = S_FIL"
    "links_to dt' 1 m es pool [x] e 0" "created dt dt' 1 xs (fe_fb e)"
    "read_meta dt' (fe_fb e) = Some (new_meta calm_env 0 0 1)" by (auto simp: root_entry_def)
  have "fs_step dt dt'" using opens [OF calm_env_ok sz _ e(1)] by simp
  with m(3) have reach: "fs_reach dt'" by (rule called)
  have "set [0] \<inter> set xs = {}" using room(3) xs by (simp add: root_entry_def)
  then have "content dt' [0] = content dt [0]" using e(4) room(4) unfolding created_def keeps_def by blast
  then have root': "get_entry (data dt') 0 = Some root_entry"
    using root_entry_kept [OF in_useD(1) [OF room(1)], of dt'] e(4) m(4) by (simp add: created_def)
  from e(3) obtain m' where m': "dir_at dt' 1 m' (es @ [e]) (pool @ [x, 0])" "fm_uid m' = fm_uid m" "fm_flags m' = fm_flags m"
    "map (ent_name (pool @ [x, 0])) (es @ [e]) = map (ent_name pool) es @ [[x]]" by (auto simp: links_to_def)
  then have "permission_check 0 m' opW \<noteq> 0" using m(2) by (simp add: permission_check_def)
  with reach root' m'(1) have "rooted dt' (es @ [e]) (pool @ [x, 0])" unfolding rooted_def by blast
  moreover have "wf_geom dt'" using e(4) by (simp add: created_def)
  then have "blocks_at dt' (fe_fb e) []" using created_facts(1) [OF e(4)] e(5) by (rule new_file_blocks)
  moreover have "file_at dt 1 xs" using xs by (simp add: root_entry_def)
  ultimately show ?thesis using e m'(4) by (intro exI [of _ dt'] exI [of _ e] exI [of _ xs]) simp
qed

text \<open>Opening a file that is there returns its handle.\<close>

lemma rooted_handle:
  assumes r: "rooted dt es pool" and sz: "unat (dt_size dt) < 2 ^ 30" and x: "x \<noteq> 0" "x \<noteq> SLASH"
    and e: "ent_of pool es [x] = Some e" "fe_type e = S_FIL" "unat (fe_fb e) < 2 ^ 31"
  shows "c_open calm_env dt [SLASH, x] 0 0 0 = Some (sint (fe_fb e), dt)" "0 \<le> sint (fe_fb e)"
proof -
  from r obtain m where m: "dir_at dt 1 m es pool" "permission_check 0 m opW \<noteq> 0" by (auto simp: rooted_def)
  note room = rooted_room [OF r m(1) x]
  have root: "dir_at dt (fe_fb root_entry) m es pool" using m(1) by (simp add: root_entry_def)
  then obtain xs where xs: "file_at dt (fe_fb root_entry) xs" by (auto simp: dir_at_def)
  have sz': "unat (dt_size dt) < 1073741824" using sz by simp
  show "c_open calm_env dt [SLASH, x] 0 0 0 = Some (sint (fe_fb e), dt)"
    using c_open_works [OF room(1) calm_env_ok sz' rooted_in_dir [OF r x] root xs _ room(2), where uid = 0 and oflags = 0 and mode = 0]
      m(2) e(1,2) by (simp add: S_DIR_def S_FIL_def)
  have "sint (word_of_nat (unat (fe_fb e)) :: 32 word) = int (unat (fe_fb e))" using e(3) by (intro sint_of_nat_fit) simp
  then show "0 \<le> sint (fe_fb e)" by simp
qed

text \<open>Two files of no blocks, \<open>/a\<close> and \<open>/b\<close>, on a disk on which no block has been given.\<close>

definition two_rooted :: "dtree \<Rightarrow> file_entry list \<Rightarrow> buf \<Rightarrow> file_entry \<Rightarrow> file_entry \<Rightarrow> bool" where
  "two_rooted dt es pool a b \<longleftrightarrow> rooted dt es pool \<and> unat (dt_size dt) < 2 ^ 30
     \<and> ent_of pool es [97] = Some a \<and> fe_type a = S_FIL \<and> unat (fe_fb a) < 2 ^ 31
     \<and> ent_of pool es [98] = Some b \<and> fe_type b = S_FIL \<and> unat (fe_fb b) < 2 ^ 31 \<and> fe_fb a \<noteq> fe_fb b"

lemma two_rooted_handles:
  assumes "two_rooted dt es pool a b"
  shows "c_open calm_env dt [SLASH, 97] 0 0 0 = Some (sint (fe_fb a), dt)" "0 \<le> sint (fe_fb a)"
    and "c_open calm_env dt [SLASH, 98] 0 0 0 = Some (sint (fe_fb b), dt)" "0 \<le> sint (fe_fb b)"
  using assms rooted_handle [of dt es pool 97 a] rooted_handle [of dt es pool 98 b] by (simp_all add: two_rooted_def)

lemma two_rooted_ex:
  "\<exists>dt es pool a b. two_rooted dt es pool a b \<and> sb_maxBlockNum (sb dt) = 0
     \<and> unat (dt_size dt) \<le> 2 ^ 20 \<and> blocks_at dt (fe_fb a) [] \<and> blocks_at dt (fe_fb b) []"
proof -
  let ?d = "mini_disk\<lparr>dt_size := INIT_MAX\<rparr>" and ?b = "replicate 32768 0 :: buf" and ?es = "dot_entries 1 1"
  from do_mkcfs_root [OF calm_env_ok, of ?b ?d] obtain dt0 where d:
    "do_mkcfs calm_env ?d ?b INIT_MAX BYTSPERSEC = Some dt0" "get_entry (data dt0) 0 = Some root_entry"
    "dir_at dt0 1 (new_dir_meta calm_env 0 1) ?es dots_pool" "unat (dt_size dt0) \<le> 65536"
    "sb_maxBlockNum (sb dt0) = 0" by (auto simp: root_entry_def)
  have "fs_reach dt0" using formatted [OF calm_env_ok _ _ d(1)] by simp
  moreover have "permission_check 0 (new_dir_meta calm_env 0 1) opW \<noteq> 0"
    by (simp add: permission_check_def new_dir_meta_def new_meta_def opW_def opR_def mode_defs)
  ultimately have r0: "rooted dt0 ?es dots_pool" using d(2,3) by (auto simp: rooted_def)
  have n0: "map (ent_name dots_pool) ?es = [[46], [46, 46]]"
    using new_dir_names [of 1 1] by (simp add: names_def dot_entries_def)
  from rooted_open [OF r0 _ _ _, of 97] d(4) n0 obtain dt1 a xs where
    1: "rooted dt1 (?es @ [a]) (dots_pool @ [97, 0])" "fe_type a = S_FIL" "created dt0 dt1 1 xs (fe_fb a)"
      "map (ent_name (dots_pool @ [97, 0])) (?es @ [a]) = [[46], [46, 46], [97]]" "blocks_at dt1 (fe_fb a) []" by fastforce
  note c1 = created_facts [OF 1(3)]
  from rooted_open [OF 1(1) _ _ _, of 98] c1(3) d(4) 1(4) obtain dt2 b ys where
    2: "rooted dt2 ((?es @ [a]) @ [b]) ((dots_pool @ [97, 0]) @ [98, 0])" "fe_type b = S_FIL"
      "file_at dt1 1 ys" "created dt1 dt2 1 ys (fe_fb b)"
      "map (ent_name ((dots_pool @ [97, 0]) @ [98, 0])) ((?es @ [a]) @ [b]) = [[46], [46, 46], [97], [98]]"
      "blocks_at dt2 (fe_fb b) []" by fastforce
  note c2 = created_facts [OF 2(4)]
  note ents = 2(5) [unfolded dot_entries_def, simplified]
  have e: "ent_of ((dots_pool @ [97, 0]) @ [98, 0]) ((?es @ [a]) @ [b]) [97] = Some a"
    "ent_of ((dots_pool @ [97, 0]) @ [98, 0]) ((?es @ [a]) @ [b]) [98] = Some b"
    using ents by (simp_all add: ent_of_def dot_entries_def)
  have "blocks_at dt2 (fe_fb a) []"
  proof (rule blocks_at_kept [OF 1(5) c2(7)])
    fix zs assume "file_at dt1 (fe_fb a) zs"
    then have "zs = [unat (fe_fb a)]" using c1(1) by (rule file_at_unique)
    then show "set zs \<inter> set ys = {}" using c1(6) [OF 2(3)] by simp
  qed
  moreover have "fe_fb a \<noteq> fe_fb b" using c2(5) [OF c1(1)] by auto
  then have "two_rooted dt2 ((?es @ [a]) @ [b]) ((dots_pool @ [97, 0]) @ [98, 0]) a b"
    unfolding two_rooted_def using 1(2) 2(1,2) c1(2,3) c2(2,3) d(4) e by simp
  moreover have "sb_maxBlockNum (sb dt2) = 0" using c1(4) c2(4) d(5) by simp
  moreover have "unat (dt_size dt2) \<le> 2 ^ 20" using c1(3) c2(3) d(4) by simp
  ultimately show ?thesis using 2(6) by blast
qed

lemma two_files:
  "\<exists>dt (f :: u32_t) (g :: u32_t). fs_reach dt \<and> unat (dt_size dt) < 2 ^ 30 \<and> f \<noteq> g
     \<and> c_open calm_env dt [SLASH, 97] 0 0 0 = Some (sint f, dt) \<and> 0 \<le> sint f
     \<and> c_open calm_env dt [SLASH, 98] 0 0 0 = Some (sint g, dt) \<and> 0 \<le> sint g"
proof -
  from two_rooted_ex obtain dt es pool a b where t: "two_rooted dt es pool a b" by blast
  with two_rooted_handles [OF t] show ?thesis
    by (intro exI [of _ dt] exI [of _ "fe_fb a"] exI [of _ "fe_fb b"]) (simp add: two_rooted_def rooted_def)
qed

text \<open>
  C1. Every disk of a history stores a tree: after formatting and any sequence of calls of
  \<open>c_mkdir\<close>, \<open>c_open\<close>, \<open>c_remove\<close>, \<open>c_rmdir\<close>, \<open>c_chmod\<close>, \<open>c_chown\<close> and \<open>c_write\<close>, with whatever
  return codes, that satisfy the conditions below, the disk has a root whose \<open>..\<close> is itself, every
  other node is entered in exactly one directory, which its \<open>..\<close> names, the names in a directory
  are distinct and its entries have the types of their nodes; no two nodes share a sector, no
  sector in use is outside the tree, every file has a well-formed block list, and no block
  number is used twice or is still to be given. The conditions on the calls (\<open>fs_step\<close>): no
  \<open>malloc\<close> fails; the disk is below 1 GiB before each but \<open>c_chmod\<close> and \<open>c_chown\<close>; the
  paths of \<open>c_mkdir\<close> and \<open>c_open\<close> have at most 495 characters, those of \<open>c_chmod\<close> and \<open>c_chown\<close>
  no NUL; \<open>c_rmdir\<close> is not called on a path that ends in \<open>.\<close> or \<open>..\<close>; \<open>c_write\<close> gets a
  handle that \<open>c_open\<close> returns for some path on the disk as it is, at least one data node, a
  range that ends before 1 PiB and whose block list fits on the disk as it is, with counters
  (of the nodes and of the blocks) that do not overflow. \<open>c_move\<close> is not among the calls.
  Outside these conditions the tree can break (removing \<open>.\<close>, writing to a stale handle).
\<close>
theorem reachable_disks_store_trees:
  assumes "fs_reach dt"
  shows "\<exists>r T. tree r T \<and> stored r T dt \<and> own_blocks T (sb_maxBlockNum (sb dt))"
  using fs_reach_consistent [OF assms] by (simp add: consistent_def)

theorem reachable_disks_store_trees_witness:
  "\<exists>dt r T. fs_reach dt \<and> c_open calm_env dt [SLASH, 97] 0 0 0 \<noteq> None
     \<and> tree r T \<and> stored r T dt \<and> own_blocks T (sb_maxBlockNum (sb dt))"
proof -
  obtain dt and f :: u32_t where d: "fs_reach dt" "c_open calm_env dt [SLASH, 97] 0 0 0 = Some (sint f, dt)"
    using two_files by blast
  from reachable_disks_store_trees [OF d(1)] obtain r T where
    "tree r T" "stored r T dt" "own_blocks T (sb_maxBlockNum (sb dt))" by blast
  with d show ?thesis by (intro exI [of _ dt] exI [of _ r] exI [of _ T]) simp
qed

text \<open>
  C7. On a disk of a history no call leaves its buffers, whatever the path and the user:
  \<open>c_lookup\<close>, \<open>c_stat\<close>, \<open>c_getblocknum\<close>, \<open>c_opendir\<close>, \<open>c_chmod\<close> and \<open>c_chown\<close> return, and below
  1 GiB and for paths of at most 495 characters so do \<open>c_mkdir\<close> and \<open>c_open\<close>. (Removal can
  read past the parent's buffer; \<open>c_getblocks\<close> can on a directory.)
\<close>
theorem reachable_calls_stay_inside:
  assumes "fs_reach dt" and "malloc_ok E" and "0 \<notin> set path"
  shows "c_lookup E dt path uid \<noteq> None \<and> c_stat E dt path uid \<noteq> None \<and> c_getblocknum E dt path \<noteq> None
     \<and> c_opendir E dt path uid \<noteq> None \<and> c_chmod E dt path mode uid \<noteq> None \<and> c_chown E dt path newuid uid \<noteq> None
     \<and> (unat (dt_size dt) < 2 ^ 30 \<and> length path \<le> 495 \<longrightarrow>
          c_mkdir E dt path uid \<noteq> None \<and> c_open E dt path oflags mode uid \<noteq> None)"
proof -
  from fs_reach_consistent [OF assms(1)] obtain r T where t: "tree r T" "stored r T dt" by (rule consistentE)
  show ?thesis
    using lookup_safe [OF t(2,1) assms(2,3)] reads_safe [OF t(2,1) assms(2)] c_opendir_safe [OF t(2,1) assms(2,3)]
      creating_safe [OF t(2,1) assms(2)] by simp
qed

theorem reachable_calls_stay_inside_witness:
  "\<exists>dt. fs_reach dt \<and> c_stat calm_env dt [SLASH, 97, SLASH, 98] 7 \<noteq> None
     \<and> c_mkdir calm_env dt [SLASH, 97, SLASH, 98] 7 \<noteq> None"
proof -
  obtain dt where d: "fs_reach dt" "unat (dt_size dt) < 2 ^ 30" using two_files by blast
  from reachable_calls_stay_inside [OF d(1) calm_env_ok, of "[SLASH, 97, SLASH, 98]" 7] d show ?thesis
    by (intro exI [of _ dt]) simp
qed

text \<open>
  C6. Files of a history share no block: when two paths open to different first sectors,
  \<open>c_getblocks\<close> lists the blocks of each, every number once and none of them in both lists,
  and all of them below the number that is given next. So deleting the blocks of one file
  on the data nodes, or writing through one of them, never touches another file.
\<close>
theorem files_share_no_block:
  fixes f g :: u32_t
  assumes "fs_reach dt" and "malloc_ok E" and "unat (dt_size dt) < 2 ^ 30"
    and "length p \<le> 495" and "c_open E dt p oflags mode uid = Some (sint f, dt)" and "0 \<le> sint f"
    and "length q \<le> 495" and "c_open E dt q oflags mode uid = Some (sint g, dt)" and "0 \<le> sint g"
    and "f \<noteq> g"
  shows "\<exists>l k. c_getblocks E dt p = Some (int (length l), l) \<and> c_getblocks E dt q = Some (int (length k), k)
     \<and> distinct l \<and> distinct k \<and> set l \<inter> set k = {} \<and> (\<forall>n\<in>set l \<union> set k. n < sb_maxBlockNum (sb dt))"
proof -
  from fs_reach_consistent [OF assms(1)] obtain r T where
    t: "tree r T" "stored r T dt" "own_blocks T (sb_maxBlockNum (sb dt))" by (rule consistentE)
  have sz: "unat (dt_size dt) < 1073741824" using assms(3) by simp
  from handle_blocks [OF t(1,2) assms(2) sz assms(4-6)] obtain u l where
    l: "T f = Some (Fil u l)" "c_getblocks E dt p = Some (int (length l), l)" by blast
  from handle_blocks [OF t(1,2) assms(2) sz assms(7-9)] obtain v k where
    k: "T g = Some (Fil v k)" "c_getblocks E dt q = Some (int (length k), k)" by blast
  have "distinct l \<and> (\<forall>n\<in>set l. n < sb_maxBlockNum (sb dt))" "distinct k \<and> (\<forall>n\<in>set k. n < sb_maxBlockNum (sb dt))"
    "set l \<inter> set k = {}" using t(3) l(1) k(1) assms(10) unfolding own_blocks_def by blast+
  with l(2) k(2) show ?thesis by blast
qed

theorem files_share_no_block_witness:
  "\<exists>dt l k. fs_reach dt \<and> c_getblocks calm_env dt [SLASH, 97] = Some (int (length l), l)
     \<and> c_getblocks calm_env dt [SLASH, 98] = Some (int (length k), k) \<and> set l \<inter> set k = {}"
proof -
  obtain dt and f g :: u32_t where d: "fs_reach dt" "unat (dt_size dt) < 2 ^ 30" "f \<noteq> g"
    "c_open calm_env dt [SLASH, 97] 0 0 0 = Some (sint f, dt)" "0 \<le> sint f"
    "c_open calm_env dt [SLASH, 98] 0 0 0 = Some (sint g, dt)" "0 \<le> sint g" using two_files by blast
  from files_share_no_block [OF d(1) calm_env_ok d(2) _ d(4,5) _ d(6,7,3)] d(1) show ?thesis by auto
qed

end
