(* ===== verification/Isolation.thy ===== *)
theory Isolation
  imports WholeFile CfsHistory
begin

text \<open>
  The whole system: the tree on the control node's disk, the blocks on the data nodes and the
  client's writes. What a client writes through one file changes this file and no other.
\<close>

section \<open>Files of a history are separate\<close>

lemma stored_separate:
  assumes st: "CfsTree.stored r T dt" and ob: "own_blocks T mx"
    and f: "T f = Some (Fil p ns)" and g: "T g = Some (Fil q ks)" and neq: "g \<noteq> f"
  shows "separate dt f g"
proof -
  note s = CfsTree.storedD [OF st]
  have nums: "bl_block_num ` set bs = set ls" if "T x = Some (Fil u ls)" "file_blocks dt x m bs" for x u ls m bs
  proof -
    from s(9) [OF that(1)] obtain m' cs where "file_blocks dt x m' cs" "ls = map bl_block_num cs"
      by (auto simp: blocks_at_def)
    with file_blocks_unique(2) [OF s(1) that(2)] show ?thesis by simp
  qed
  have "set ks \<inter> set ns = {}" using ob f g neq unfolding own_blocks_def by blast
  then have "bl_block_num ` set bs \<inter> bl_block_num ` set cs = {}"
    if "file_blocks dt f m bs" "file_blocks dt g m' cs" for m bs m' cs
    using nums [OF f that(1)] nums [OF g that(2)] by auto
  moreover have "set zs \<inter> set xs = {}" if "file_at dt f xs" "file_at dt g zs" for xs zs
    using s(6) [OF _ _ neq that(2,1)] f g by simp
  ultimately show ?thesis unfolding separate_def by blast
qed

lemma handles_separate:
  fixes f g :: u32_t
  assumes "fs_reach dt" and "malloc_ok E" and "unat (dt_size dt) < 2 ^ 30"
    and "length p \<le> 495" and "c_open E dt p oflags mode uid = Some (sint f, dt)" and "0 \<le> sint f"
    and "length q \<le> 495" and "c_open E dt q oflags' mode' uid' = Some (sint g, dt)" and "0 \<le> sint g"
    and "g \<noteq> f"
  shows "separate dt f g"
proof -
  from fs_reach_consistent [OF assms(1)] obtain r T where
    t: "tree r T" "CfsTree.stored r T dt" "own_blocks T (sb_maxBlockNum (sb dt))" by (rule consistentE)
  have sz: "unat (dt_size dt) < 1073741824" using assms(3) by simp
  from handle_blocks [OF t(1,2) assms(2) sz assms(4-6)] obtain u l where "T f = Some (Fil u l)" by blast
  moreover from handle_blocks [OF t(1,2) assms(2) sz assms(7-9)] obtain v k where "T g = Some (Fil v k)" by blast
  ultimately show ?thesis using stored_separate [OF t(2,3)] assms(10) by blast
qed

text \<open>The write of a client is a step of the disk's history.\<close>

lemma write_is_step:
  assumes "malloc_ok E" and "unat (dt_size dt) < 2 ^ 30"
    and "length p \<le> 495" and "c_open E dt p oflags mode uid = Some (sint f, dt)" and "0 \<le> sint f"
    and img: "file_of w dt f bytes" and small: "length bytes < 2 ^ 47"
    and e: "unat offset + unat len \<le> ceil_bs (length bytes) * BS"
    and place: "ips \<noteq> []" "0 \<le> ctr" "ctr + 3 * int (ceil_bs (length bytes)) < 2 ^ 31 - 3"
    and mx: "unat (sb_maxBlockNum (sb dt)) < 2 ^ 63"
    and run: "c_write E dt ctr f offset len uid' ips (int (length ips)) = Some (n, sl, dt', ctr')"
  shows "fs_step dt dt'"
proof -
  from img obtain m bs xs where b: "wf_geom dt" "file_blocks dt f m bs" "list_all2 (copies w) bs xs"
    "bytes = take (unat (fm_flen m)) (concat xs)" by (auto simp: file_of_def)
  note lf = length_file [OF b(2-4)] and xs = copies_length [OF b(3)]
  have lbs: "length bs = ceil_bs (length bytes)" using lf xs(1) by simp
  let ?e = "unat offset + unat len" and ?C = "ceil_bs (length bytes)"
  have "?e + (BS - 1) < Suc ?C * BS" using e by simp
  then have "ceil_bs ?e < Suc ?C" unfolding ceil_bs_def by (intro less_mult_imp_div_less)
  then have ce: "ceil_bs ?e \<le> ?C" by simp
  have C: "?C < 2 ^ 24" using small by (simp add: ceil_bs_def div_less_iff_less_mult)
  have "?C * BS \<le> 2 ^ 24 * BS" using C by (intro mult_le_mono1) simp
  then have e50: "?e < 2 ^ 50" using e by simp
  have room: "64 + 32 * ceil_bs ?e \<le> nsec dt * secsz dt" using file_blocks_fit [OF b(1,2)] ce lbs by simp
  show ?thesis
    by (rule writes [OF assms(1-5) e50 place(1,2) _ room _ run]) (use ce place(3) mx C in simp_all)
qed

section \<open>Properties\<close>

text \<open>
  For the witness: three bytes written to a file without blocks, on a disk with the files
  \<open>/a\<close> and \<open>/b\<close>, and a data node with the two blocks.
\<close>

lemma written_block:
  assumes "placed [1] b" shows "ips_of b = [1, 0, 0]"
proof -
  have "ip_get 0 (bl_ip b) = 1" "ip_get 1 (bl_ip b) = 0" "ip_get 2 (bl_ip b) = 0"
    using assms unfolding placed_def by (auto dest: spec [of _ 0] spec [of _ 1] spec [of _ 2])
  then show ?thesis by (cases "bl_ip b") (simp add: ips_of_def ip_get_def)
qed

lemma empty_file_write:
  assumes wf: "wf_geom dt" "bps dt = 512" "unat (dt_size dt) < 2147483648" and x: "file_blocks dt x m0 []" "file_at dt x xs"
  shows "\<exists>sl dt' ctr' m' k. c_write calm_env dt 0 x 0 3 0 [1] (int (length [1 :: u32_t])) = Some (int (length sl), sl, dt', ctr')
     \<and> file_blocks dt' x m' [k] \<and> unat (fm_flen m') = 3 \<and> bl_block_num k = sb_maxBlockNum (sb dt) \<and> ips_of k = [1, 0, 0]
     \<and> sb_maxBlockNum (sb dt') = sb_maxBlockNum (sb dt) + 1 \<and> keeps xs dt dt'
     \<and> wf_geom dt' \<and> bps dt' = bps dt \<and> unat (dt_size dt') \<le> 2 * unat (dt_size dt)"
    and "64 + 32 * ceil_bs (unat (0 :: u64_t) + unat (3 :: u64_t)) \<le> nsec dt * secsz dt"
proof -
  have fl: "unat (fm_flen m0) = 0" using x(1) ceil_bs_bounds(1) [of "unat (fm_flen m0)"] by (simp add: file_blocks_def)
  have C: "ceil_bs 3 = 1" by (simp add: ceil_bs_def)
  have "0 < nsec dt" using x(2) by (cases xs) (auto simp: file_at_def)
  then have "1 \<le> nsec dt" "512 \<le> secsz dt" using wf(2) by simp_all
  then have "1 * 512 \<le> nsec dt * secsz dt" by (rule mult_le_mono)
  then show room: "64 + 32 * ceil_bs (unat (0 :: u64_t) + unat (3 :: u64_t)) \<le> nsec dt * secsz dt" using C by simp
  have pre: "0 \<le> fm_flen m0" "unat (fm_flen m0) < 2 ^ 50" "unat (0 :: u64_t) + unat (3 :: u64_t) < 2 ^ 50"
    "[1 :: u32_t] \<noteq> []" "(0 :: int) \<le> 0" "0 + 3 * int (ceil_bs (unat (0 :: u64_t) + unat (3 :: u64_t))) < 2 ^ 31 - 3"
    using fl C by simp_all
  from c_write_runs [OF wf(1) calm_env_ok wf(3) x pre room, of 0] obtain sl dt' ctr' m' bs' where c:
    "c_write calm_env dt 0 x 0 3 0 [1] (int (length [1 :: u32_t])) = Some (int (length sl), sl, dt', ctr')"
    "file_blocks dt' x m' bs'" "unat (fm_flen m') = max (unat (fm_flen m0)) (unat (0 :: u64_t) + unat (3 :: u64_t))"
    "\<forall>j. length ([] :: file_block list) + j < length bs' \<longrightarrow>
      bl_block_num (bs' ! (length ([] :: file_block list) + j)) = sb_maxBlockNum (sb dt) + word_of_nat j"
    "sb_maxBlockNum (sb dt') = sb_maxBlockNum (sb dt) + word_of_nat (length bs' - length ([] :: file_block list))"
    "keeps xs dt dt'" "wf_geom dt'" "bps dt' = bps dt"
    "distinct [1 :: u32_t] \<longrightarrow> (\<forall>b\<in>set (drop (length ([] :: file_block list)) bs'). placed [1] b)"
    "unat (dt_size dt') \<le> 2 * unat (dt_size dt)" by blast
  have w3: "unat (fm_flen m') = 3" using c(3) fl by simp
  note w = c(1,2) w3 c(4,5) [simplified] c(6-8) c(9) [simplified] c(10)
  have "length bs' = 1" using w(2,3) C by (simp add: file_blocks_def)
  then obtain k where k: "bs' = [k]" by (auto simp: length_Suc_conv)
  show "\<exists>sl dt' ctr' m' k. c_write calm_env dt 0 x 0 3 0 [1] (int (length [1 :: u32_t])) = Some (int (length sl), sl, dt', ctr')
     \<and> file_blocks dt' x m' [k] \<and> unat (fm_flen m') = 3 \<and> bl_block_num k = sb_maxBlockNum (sb dt) \<and> ips_of k = [1, 0, 0]
     \<and> sb_maxBlockNum (sb dt') = sb_maxBlockNum (sb dt) + 1 \<and> keeps xs dt dt'
     \<and> wf_geom dt' \<and> bps dt' = bps dt \<and> unat (dt_size dt') \<le> 2 * unat (dt_size dt)"
    using w k written_block
    by (intro exI [of _ sl] exI [of _ dt'] exI [of _ ctr'] exI [of _ m'] exI [of _ k]) simp
qed

lemma rooted_write:
  assumes t: "two_rooted dt es pool a b" and sz: "unat (dt_size dt) < 2 ^ 29" and x: "x \<in> {fe_fb a, fe_fb b}"
    and bl: "blocks_at dt x []" and mx: "unat (sb_maxBlockNum (sb dt)) < 10"
  shows "\<exists>dt' m k. two_rooted dt' es pool a b \<and> file_blocks dt' x m [k] \<and> unat (fm_flen m) = 3
    \<and> bl_block_num k = sb_maxBlockNum (sb dt) \<and> ips_of k = [1, 0, 0]
    \<and> sb_maxBlockNum (sb dt') = sb_maxBlockNum (sb dt) + 1 \<and> unat (dt_size dt') \<le> 2 * unat (dt_size dt)
    \<and> (\<forall>y m bs. y \<in> {fe_fb a, fe_fb b} \<and> y \<noteq> x \<and> file_blocks dt y m bs \<longrightarrow> file_blocks dt' y m bs)"
proof -
  have h: "\<exists>q. length q \<le> 495 \<and> c_open calm_env dt q 0 0 0 = Some (sint y, dt) \<and> 0 \<le> sint y"
    if "y \<in> {fe_fb a, fe_fb b}" for y
  proof -
    from that two_rooted_handles [OF t] obtain z where "c_open calm_env dt [SLASH, z] 0 0 0 = Some (sint y, dt)" "0 \<le> sint y"
      by blast
    then show ?thesis by (intro exI [of _ "[SLASH, z]"]) simp
  qed
  from h [OF x] obtain p where p: "length p \<le> 495" "c_open calm_env dt p 0 0 0 = Some (sint x, dt)" "0 \<le> sint x" by blast
  have r: "rooted dt es pool" "fs_reach dt" using t by (simp_all add: two_rooted_def rooted_def)
  have sz': "unat (dt_size dt) < 1073741824" "unat (dt_size dt) < 2147483648" "unat (dt_size dt) < 2 ^ 30" using sz by simp_all
  from fs_reach_consistent [OF r(2)] obtain rt T where T: "tree rt T" "CfsTree.stored rt T dt" by (rule consistentE)
  note s = CfsTree.storedD [OF T(2)]
  from handle_blocks [OF T(1,2) calm_env_ok sz'(1) p] obtain u l where Tx: "T x = Some (Fil u l)" by blast
  obtain m0 where m0: "file_blocks dt x m0 []" using bl by (auto simp: blocks_at_def)
  obtain xs where xs: "file_at dt x xs" using m0 by (auto simp: file_blocks_def)
  note e = empty_file_write [OF s(1,2) sz'(2) m0 xs]
  from e(1) obtain sl dt' ctr' m' k where w:
    "c_write calm_env dt 0 x 0 3 0 [1] (int (length [1 :: u32_t])) = Some (int (length sl), sl, dt', ctr')"
    "file_blocks dt' x m' [k]" "unat (fm_flen m') = 3" "bl_block_num k = sb_maxBlockNum (sb dt)" "ips_of k = [1, 0, 0]"
    "sb_maxBlockNum (sb dt') = sb_maxBlockNum (sb dt) + 1" "keeps xs dt dt'"
    "wf_geom dt'" "bps dt' = bps dt" "unat (dt_size dt') \<le> 2 * unat (dt_size dt)" by blast
  have "fs_step dt dt'"
    using writes [OF calm_env_ok sz'(3) p _ _ _ _ e(2) _ w(1)] mx by (simp add: ceil_bs_def)
  then have reach: "fs_reach dt'" using called [OF r(2)] by blast
  have rt: "rt = 1" "get_entry (data dt) 0 = Some root_entry" using s(4) r(1) by (auto simp: rooted_def root_entry_def)
  then obtain q es' pool' where "T 1 = Some (Dir 1 q es' pool')" using treeD(1) [OF T(1)] by blast
  then have "set zs \<inter> set xs = {}" if "file_at dt 1 zs" for zs
    using s(6) [OF _ _ _ that xs] Tx by force
  moreover obtain m where m: "dir_at dt 1 m es pool" "permission_check 0 m opW \<noteq> 0" using r(1) by (auto simp: rooted_def)
  ultimately have "dir_at dt' 1 m es pool" using w(7) unfolding dir_at_def keeps_def by metis
  moreover have "set [0] \<inter> set xs = {}" using stored_chain [OF T(2) _ xs] Tx by simp
  then have "content dt' [0] = content dt [0]" using w(7) s(3) unfolding keeps_def by blast
  then have "get_entry (data dt') 0 = Some root_entry" using root_entry_kept [OF s(1) w(8,9)] rt(2) by simp
  ultimately have "rooted dt' es pool" using reach m(2) by (auto simp: rooted_def)
  then have "two_rooted dt' es pool a b" using t w(10) sz by (simp add: two_rooted_def)
  moreover have "file_blocks dt' y m bs" if y: "y \<in> {fe_fb a, fe_fb b} \<and> y \<noteq> x \<and> file_blocks dt y m bs" for y m bs
  proof (rule file_blocks_kept [OF _ w(7)])
    fix zs assume "file_at dt y zs"
    moreover from y h obtain q where "length q \<le> 495" "c_open calm_env dt q 0 0 0 = Some (sint y, dt)" "0 \<le> sint y" by blast
    with y handles_separate [OF r(2) calm_env_ok sz'(3) p] have "separate dt x y" by blast
    ultimately show "set zs \<inter> set xs = {}" using xs unfolding separate_def by blast
  qed (use y in simp)
  ultimately show ?thesis
    using w(2-6,10) by (intro exI [of _ dt'] exI [of _ m'] exI [of _ k]) simp
qed

text \<open>
  C4. Files are isolated, through the whole system: take a disk below 1 GiB that a history of calls
  has left, a file on it that a path of at most 495 characters opens, and data nodes that
  together with the disk represent its bytes. When a client writes a range from an offset in
  the first 16 MiB, inside or at the end of the bytes, to an end inside the blocks of the
  file, the disk that \<open>c_write\<close> leaves is again one of a history, and after \<open>sbp_write\<close>, answered
  by the control node as \<open>__sendrep\<close> does, disk and data nodes represent the bytes with the
  range replaced, while every other file that such a path opens and that was represented still
  consists of the bytes it had. The other limits are those of \<open>file_of\<close> -- block numbers below 10,
  which a data node can name, and copies of the full 16 MiB --, a file below 128 TiB, at least
  one data node, counters of nodes and blocks that do not overflow, and a session in order
  (\<open>session_ok\<close>: user, password and code fit, no \<open>malloc\<close> fails, and what is left on the
  stack where a reply is received holds no line feed).
\<close>
theorem writes_stay_in_their_file:
  fixes f :: u32_t
  assumes reach: "fs_reach dt" "malloc_ok Ec" "unat (dt_size dt) < 2 ^ 30" "unat (sb_maxBlockNum (sb dt)) < 2 ^ 63"
    and h: "length p \<le> 495" "c_open Ec dt p oflags mode user = Some (sint f, dt)" "0 \<le> sint f"
    and img: "file_of w dt f bytes" "length bytes < 2 ^ 47"
    and range: "unat (fd_offset d) < BS" "unat (fd_offset d) \<le> length bytes" "0 < len"
      "unat (fd_offset d) + unat len \<le> ceil_bs (length bytes) * BS" "unat len \<le> length ub"
    and place: "ns \<noteq> []" "0 \<le> ctr" "ctr + 3 * int (ceil_bs (length bytes)) < 2 ^ 31 - 3"
    and c: "session_ok E stack (fd_auth_code d) c" "fds_get c fd = Some (Some d)" "fd_type d = T_FILE"
  shows "\<exists>es dt' ctr'.
      wrap_c_write Ec dt ctr f (fd_offset d) len (comma_join (map get_dnode_hostname ns)) uid
        = Some (PyBytes (concat (map enc_bent es)), dt', ctr')
    \<and> fs_reach dt'
    \<and> (\<forall>ctl. ctl (head_bytes (list_request (lit ''WRITE'') d len c)) \<in> list_answers es \<longrightarrow>
        (\<exists>c' w'. sbp_write E stack (cluster_peer E stack junk ctl) fd ub len c w = Some (int (unat len), c', w')
          \<and> file_of w' dt' f (patch (unat (fd_offset d)) (take (unat len) ub) bytes)
          \<and> (\<forall>q flags md usr (g :: u32_t) gbytes. length q \<le> 495
               \<and> c_open Ec dt q flags md usr = Some (sint g, dt) \<and> 0 \<le> sint g \<and> g \<noteq> f
               \<and> file_of w dt g gbytes \<longrightarrow> file_of w' dt' g gbytes)))"
proof -
  have sz: "unat (dt_size dt) < 2147483648" using reach(3) by simp
  from file_write_others [OF img(1) reach(2) sz img(2) range place c, of uid junk] obtain es dt' ctr' n sl where
    g: "wrap_c_write Ec dt ctr f (fd_offset d) len (comma_join (map get_dnode_hostname ns)) uid
        = Some (PyBytes (concat (map enc_bent es)), dt', ctr')"
    "c_write Ec dt ctr f (fd_offset d) len uid (rev ns) (int (length (rev ns))) = Some (n, sl, dt', ctr')"
    "\<forall>ctl. ctl (head_bytes (list_request (lit ''WRITE'') d len c)) \<in> list_answers es \<longrightarrow>
        (\<exists>c' w'. sbp_write E stack (cluster_peer E stack junk ctl) fd ub len c w = Some (int (unat len), c', w')
          \<and> file_of w' dt' f (patch (unat (fd_offset d)) (take (unat len) ub) bytes)
          \<and> (\<forall>gb gbytes. separate dt f gb \<and> file_of w dt gb gbytes \<longrightarrow> file_of w' dt' gb gbytes)
          \<and> fds_get c' fd = Some (Some (d\<lparr>fd_offset := fd_offset d + len\<rparr>)) \<and> same_login c c')" by blast
  have "rev ns \<noteq> []" using place(1) by simp
  then have "fs_reach dt'"
    using called [OF reach(1) write_is_step [OF reach(2,3) h img range(4) _ place(2,3) reach(4) g(2)]] by simp
  show ?thesis
  proof (rule exI [of _ es], rule exI [of _ dt'], rule exI [of _ ctr'], intro conjI g(1) \<open>fs_reach dt'\<close> allI impI)
    fix ctl assume "ctl (head_bytes (list_request (lit ''WRITE'') d len c)) \<in> list_answers es"
    with g(3) obtain c' w' where w: "sbp_write E stack (cluster_peer E stack junk ctl) fd ub len c w = Some (int (unat len), c', w')"
      "file_of w' dt' f (patch (unat (fd_offset d)) (take (unat len) ub) bytes)"
      "\<forall>gb gbytes. separate dt f gb \<and> file_of w dt gb gbytes \<longrightarrow> file_of w' dt' gb gbytes" by blast
    have "file_of w' dt' g' gbytes" if "length q \<le> 495" "c_open Ec dt q flags md usr = Some (sint g', dt)"
      "0 \<le> sint g'" "g' \<noteq> f" "file_of w dt g' gbytes" for q flags md usr g' gbytes
      using w(3) handles_separate [OF reach(1-3) h that(1-4)] that(5) by blast
    with w(1,2) show "\<exists>c' w'. sbp_write E stack (cluster_peer E stack junk ctl) fd ub len c w = Some (int (unat len), c', w')
          \<and> file_of w' dt' f (patch (unat (fd_offset d)) (take (unat len) ub) bytes)
          \<and> (\<forall>q flags md usr (g :: u32_t) gbytes. length q \<le> 495
               \<and> c_open Ec dt q flags md usr = Some (sint g, dt) \<and> 0 \<le> sint g \<and> g \<noteq> f
               \<and> file_of w dt g gbytes \<longrightarrow> file_of w' dt' g gbytes)" by blast
  qed
qed

definition two_block_cluster :: cluster where
  "two_block_cluster = \<lparr>cl_mtu = 1459, cl_nodes =
     [1 \<mapsto> small_node\<lparr>bm_files := [block_path 0 \<mapsto> fill 70, block_path 1 \<mapsto> fill 90]\<rparr>]\<rparr>"

lemma one_block_file:
  assumes "wf_geom dt" and "file_blocks dt x m [k]" and "unat (fm_flen m) = 3" and "ips_of k = [1, 0, 0]"
    and "bl_block_num k = n" and "n = 0 \<and> v = 70 \<or> n = 1 \<and> v = 90"
  shows "file_of two_block_cluster dt x (take 3 (fill v))"
proof -
  have "node_block two_block_cluster 1 n = Some (fill v)"
    using assms(6) by (auto simp: node_block_def two_block_cluster_def block_of_def block_path_inj)
  then have "list_all2 (copies two_block_cluster) [k] [fill v]"
    using assms(4,5) by (simp add: copies_def length_fill)
  with assms(1-3,5,6) show ?thesis
    unfolding file_of_def by (intro conjI exI [of _ m] exI [of _ "[k]"] exI [of _ "[fill v]"]) auto
qed

lemma two_written_files:
  "\<exists>dt es pool a b. two_rooted dt es pool a b
     \<and> file_of two_block_cluster dt (fe_fb a) (take 3 (fill 70)) \<and> file_of two_block_cluster dt (fe_fb b) (take 3 (fill 90))
     \<and> sb_maxBlockNum (sb dt) = 2"
proof -
  from two_rooted_ex obtain dt0 es pool a b where 0: "two_rooted dt0 es pool a b" "sb_maxBlockNum (sb dt0) = 0"
    "unat (dt_size dt0) \<le> 2 ^ 20" "blocks_at dt0 (fe_fb a) []" "blocks_at dt0 (fe_fb b) []" by blast
  from rooted_write [OF 0(1) _ _ 0(4)] 0(2,3) obtain dt1 m1 k1 where 1: "two_rooted dt1 es pool a b"
    "file_blocks dt1 (fe_fb a) m1 [k1]" "unat (fm_flen m1) = 3" "bl_block_num k1 = 0" "ips_of k1 = [1, 0, 0]"
    "sb_maxBlockNum (sb dt1) = 1" "unat (dt_size dt1) \<le> 2 * unat (dt_size dt0)"
    "\<forall>y m bs. y \<in> {fe_fb a, fe_fb b} \<and> y \<noteq> fe_fb a \<and> file_blocks dt0 y m bs \<longrightarrow> file_blocks dt1 y m bs" by auto
  have neq: "fe_fb a \<noteq> fe_fb b" using 0(1) by (simp add: two_rooted_def)
  from 0(5) obtain mb where mb: "file_blocks dt0 (fe_fb b) mb []" "unat (fm_flen mb) < 2 ^ 50" by (auto simp: blocks_at_def)
  then have "file_blocks dt1 (fe_fb b) mb []" using 1(8) neq by simp
  with mb(2) have b1: "blocks_at dt1 (fe_fb b) []" unfolding blocks_at_def by (intro exI [of _ mb] exI [of _ "[]"]) simp
  from rooted_write [OF 1(1) _ _ b1] 0(3) 1(6,7) obtain dt2 m2 k2 where 2: "two_rooted dt2 es pool a b"
    "file_blocks dt2 (fe_fb b) m2 [k2]" "unat (fm_flen m2) = 3" "bl_block_num k2 = 1" "ips_of k2 = [1, 0, 0]"
    "sb_maxBlockNum (sb dt2) = 2"
    "\<forall>y m bs. y \<in> {fe_fb a, fe_fb b} \<and> y \<noteq> fe_fb b \<and> file_blocks dt1 y m bs \<longrightarrow> file_blocks dt2 y m bs" by auto
  have "consistent dt2" using 2(1) fs_reach_consistent by (simp add: two_rooted_def rooted_def)
  then have "wf_geom dt2" using CfsTree.storedD(1) by (auto elim: consistentE)
  then have b: "file_of two_block_cluster dt2 (fe_fb b) (take 3 (fill 90))"
    using one_block_file [OF _ 2(2,3,5,4), of 90] by simp
  have "file_blocks dt2 (fe_fb a) m1 [k1]" using 2(7) 1(2) neq by simp
  with \<open>wf_geom dt2\<close> have "file_of two_block_cluster dt2 (fe_fb a) (take 3 (fill 70))"
    using one_block_file [OF _ _ 1(3,5,4), of dt2 "fe_fb a" 70] by simp
  with 2(1,6) b show ?thesis by blast
qed

theorem writes_stay_in_their_file_witness:
  "\<exists>dt w (f :: u32_t) (g :: u32_t) es dt' ctr' c' w'. fs_reach dt \<and> g \<noteq> f
    \<and> wrap_c_write calm_env dt 0 f 0 3 (comma_join (map get_dnode_hostname [1])) 5
        = Some (PyBytes (concat (map enc_bent es)), dt', ctr') \<and> fs_reach dt'
    \<and> sbp_write calm_env (replicate 4096 7) (cluster_peer calm_env (replicate 4096 7) [] (\<lambda>_. list_answer es))
        0 [65, 66, 67] 3 small_client w = Some (3, c', w')
    \<and> file_of w dt g (take 3 (fill 90)) \<and> file_of w' dt' f [65, 66, 67] \<and> file_of w' dt' g (take 3 (fill 90))"
proof -
  obtain dt es pool a b where d: "two_rooted dt es pool a b"
     "file_of two_block_cluster dt (fe_fb a) (take 3 (fill 70))" "file_of two_block_cluster dt (fe_fb b) (take 3 (fill 90))"
     "sb_maxBlockNum (sb dt) = 2" using two_written_files by blast
  note h = two_rooted_handles [OF d(1)]
  have t: "fs_reach dt" "unat (dt_size dt) < 2 ^ 30" "unat (sb_maxBlockNum (sb dt)) < 2 ^ 63" "fe_fb b \<noteq> fe_fb a"
    using d(1,4) by (auto simp: two_rooted_def rooted_def)
  have l: "length (take 3 (fill 70)) = 3" by (simp add: length_fill)
  have o: "unat (fd_offset small_fd) = 0" "fd_offset small_fd = 0" by (simp_all add: small_fd_def new_fd_def)
  have fd: "fds_get small_client 0 = Some (Some small_fd)" "fd_type small_fd = T_FILE" "fd_auth_code small_fd = []"
    by (simp_all add: small_client_def init_client_def fds_get_def small_fd_def new_fd_def MAX_FILE_OPEN_def)
  have side: "length (take 3 (fill 70)) < 2 ^ 47" "unat (fd_offset small_fd) < BS"
    "unat (fd_offset small_fd) \<le> length (take 3 (fill 70))" "0 < (3 :: u64_t)"
    "unat (fd_offset small_fd) + unat (3 :: u64_t) \<le> ceil_bs (length (take 3 (fill 70))) * BS"
    "unat (3 :: u64_t) \<le> length [65, 66, 67 :: u8_t]" "[1 :: u32_t] \<noteq> []" "(0 :: int) \<le> 0"
    "(0 :: int) + 3 * int (ceil_bs (length (take 3 (fill 70)))) < 2 ^ 31 - 3"
    unfolding l by (simp_all add: o ceil_bs_def)
  have ses: "session_ok calm_env (replicate 4096 7) (fd_auth_code small_fd) small_client" using small_session fd(3) by simp
  from writes_stay_in_their_file [OF t(1) calm_env_ok t(2,3) _ h(1,2) d(2) side ses fd(1,2), of 5 "[]"] obtain es' dt' ctr' where
    w: "wrap_c_write calm_env dt 0 (fe_fb a) 0 3 (comma_join (map get_dnode_hostname [1])) 5
        = Some (PyBytes (concat (map enc_bent es')), dt', ctr')" "fs_reach dt'"
    "\<forall>ctl. ctl (head_bytes (list_request (lit ''WRITE'') small_fd 3 small_client)) \<in> list_answers es' \<longrightarrow>
        (\<exists>c' w'. sbp_write calm_env (replicate 4096 7) (cluster_peer calm_env (replicate 4096 7) [] ctl) 0 [65, 66, 67] 3
            small_client two_block_cluster = Some (int (unat (3 :: u64_t)), c', w')
          \<and> file_of w' dt' (fe_fb a) (patch 0 (take (unat (3 :: u64_t)) [65, 66, 67]) (take 3 (fill 70)))
          \<and> (\<forall>q flags md usr (g :: u32_t) gbytes. length q \<le> 495
               \<and> c_open calm_env dt q flags md usr = Some (sint g, dt) \<and> 0 \<le> sint g \<and> g \<noteq> fe_fb a
               \<and> file_of two_block_cluster dt g gbytes \<longrightarrow> file_of w' dt' g gbytes))" unfolding o by auto
  from w(3) [rule_format, of "\<lambda>_. list_answer es'", OF list_answer_sent] obtain c' w' where
    v: "sbp_write calm_env (replicate 4096 7) (cluster_peer calm_env (replicate 4096 7) [] (\<lambda>_. list_answer es')) 0 [65, 66, 67] 3
            small_client two_block_cluster = Some (int (unat (3 :: u64_t)), c', w')"
      "file_of w' dt' (fe_fb a) (patch 0 (take (unat (3 :: u64_t)) [65, 66, 67]) (take 3 (fill 70)))"
      "\<forall>q flags md usr (g :: u32_t) gbytes. length q \<le> 495
               \<and> c_open calm_env dt q flags md usr = Some (sint g, dt) \<and> 0 \<le> sint g \<and> g \<noteq> fe_fb a
               \<and> file_of two_block_cluster dt g gbytes \<longrightarrow> file_of w' dt' g gbytes" by blast
  have "length [SLASH, 98] \<le> 495" by simp
  with v(3) h(3,4) t(4) d(3) have "file_of w' dt' (fe_fb b) (take 3 (fill 90))" by blast
  moreover have "patch 0 (take (unat (3 :: u64_t)) [65, 66, 67]) (take 3 (fill 70)) = [65, 66, 67]"
    by (simp add: patch_def length_fill)
  ultimately show ?thesis using t(1,4) w(1,2) v(1,2) d(3)
    by (intro exI [of _ dt] exI [of _ two_block_cluster] exI [of _ "fe_fb a"] exI [of _ "fe_fb b"] exI [of _ es']
        exI [of _ dt'] exI [of _ ctr'] exI [of _ c'] exI [of _ w']) simp
qed

end
