(* ===== verification/CfsList.thy ===== *)
theory CfsList
  imports CfsCreate
begin

text \<open>
  Reading the file system: listing a directory with \<open>c_opendir\<close> and \<open>c_readdir\<close>, and the
  attributes that \<open>c_stat\<close> reports.
\<close>

unbundle bit_operations_syntax

lemma takeWhile_take: "takeWhile P (take n xs) = take n (takeWhile P xs)"
  by (induction xs arbitrary: n) (auto simp: take_Cons' split: if_splits)

lemma length_takeWhile_drop: "x \<in> set xs \<Longrightarrow> length (takeWhile (\<lambda>y. y \<noteq> x) xs) < length xs"
  by (induction xs) auto

lemma strncpy_at_cstr:
  assumes "cstr_at b off = Some s" and "0 < n"
  shows "strncpy_at b off n = Some (take (n - 1) s)"
proof -
  from assms(1) have o: "off < length b" "0 \<in> set (drop off b)"
    and s: "s = takeWhile (\<lambda>x. x \<noteq> 0) (drop off b)" by (auto simp: cstr_at_def split: if_splits)
  have "length s < length (drop off b)"
    unfolding s using length_takeWhile_drop [of 0 "drop off b"] o(2) by simp
  then have "off + length s < length b" by simp
  then show ?thesis
    using assms(2) by (simp add: strncpy_at_def takeWhile_take flip: s) (simp add: min_def)
qed

text \<open>The number of an entry times 16 wraps at 64 bits.\<close>

lemma entry_offset: "unat (k * szof_entry :: u64_t) = 16 * (unat k mod 2 ^ 60)"
proof -
  have "unat (k * szof_entry) = (unat k * 16) mod (2 ^ 60 * 16)" by (simp add: unat_word_ariths)
  then show ?thesis unfolding mod_mult_mult2 by simp
qed

lemma c_readdir_entry:
  fixes k :: u64_t
  assumes wf: "wf_geom dt" and E: "malloc_ok E" and d: "dir_at dt fb m es pool"
  defines "j \<equiv> unat k mod 2 ^ 60"
  shows "c_readdir E dt fb k uid = (if j < length es
      then Some (0, Some (take 255 (ent_name pool (es ! j)), fe_type (es ! j)))
      else Some (- 1, None))"
proof -
  from d obtain xs rest where x: "file_at dt fb xs" "unat (fm_blocks m) = length xs"
    "content dt xs = enc_dir m es pool @ rest" "wf_dir m es pool" by (rule dir_atE [OF wf])
  have rm: "read_meta dt fb = Some m" using dir_at_reads(1) [OF wf d] .
  have k16: "unat (k * szof_entry) = 16 * j" unfolding j_def by (rule entry_offset)
  have cmp: "k * szof_entry \<ge> fm_strbase m \<longleftrightarrow> length es \<le> j"
    using x(4) k16 by (simp add: word_le_nat_alt wf_dir_def)
  show ?thesis
  proof (cases "j < length es")
    case True
    let ?e = "es ! j" and ?h = "enc_meta m @ enc_entries es"
    have g: "get_entry (content dt xs) (64 + 16 * j) = Some ?e"
      unfolding x(3) using get_entry_enc_dir [OF True] .
    have "named pool ?e" using x(4) True by (simp add: wf_dir_def)
    then obtain s where s: "cstr_at pool (unat (fe_name ?e)) = Some s" by (auto simp: named_def)
    have at: "64 + unat (fm_strbase m) + unat (fe_name ?e) = length ?h + unat (fe_name ?e)"
      using x(4) by (simp add: wf_dir_def)
    have "cstr_at (content dt xs) (64 + unat (fm_strbase m) + unat (fe_name ?e)) = Some s"
      unfolding at x(3) enc_dir_def using cstr_at_inside(1) [OF s, of ?h rest] by simp
    then have "strncpy_at (content dt xs) (64 + unat (fm_strbase m) + unat (fe_name ?e)) MAX_FILENAME
        = Some (take 255 s)"
      by (simp add: strncpy_at_cstr MAX_FILENAME_def)
    moreover have "ent_name pool ?e = s" using s by (simp add: ent_name_def)
    ultimately show ?thesis
      using True cmp g k16 by (simp add: c_readdir_def rm with_buf_content [OF wf E x(1,2)])
  next
    case False
    with cmp show ?thesis by (simp add: c_readdir_def rm)
  qed
qed

text \<open>
  C27. Listing a well-formed directory, when no \<open>malloc\<close> fails: for a user who may read it, \<open>c_opendir\<close> returns the first sector
  and the number of entries of the directory the path leads to, and \<open>c_readdir\<close> with that
  sector then returns, for each number below it, the name (cut to 255 bytes) and the type
  of that entry, and -1 from that number on, up to \<open>2 ^ 60\<close>; from there on the numbers count again
  from 0, since 16 times the number wraps at 64 bits. A user who may not read it gets -4.
\<close>
theorem listing_spec:
  assumes "wf_geom dt" and "malloc_ok E" and "c_lookup E dt path uid = Some (Inr d)"
    and "dir_at dt (fe_fb d) m es pool"
  shows "(permission_check uid m opR = 0 \<longrightarrow> c_opendir E dt path uid = Some (- 4, None))
     \<and> (permission_check uid m opR \<noteq> 0 \<longrightarrow> (\<exists>n. c_opendir E dt path uid = Some (sint (fe_fb d), Some n)
        \<and> unat n = length es
        \<and> (\<forall>k < n. c_readdir E dt (fe_fb d) k uid
             = Some (0, Some (take 255 (ent_name pool (es ! unat k)), fe_type (es ! unat k))))
        \<and> (\<forall>k \<ge> n. unat k < 2 ^ 60 \<longrightarrow> c_readdir E dt (fe_fb d) k uid = Some (- 1, None))
        \<and> (\<forall>k. c_readdir E dt (fe_fb d) k uid = c_readdir E dt (fe_fb d) (word_of_nat (unat k mod 2 ^ 60)) uid)))"
proof -
  have rm: "read_meta dt (fe_fb d) = Some m" using dir_at_reads(1) [OF assms(1,4)] .
  have wd: "wf_dir m es pool" using assms(4) by (auto simp: dir_at_def)
  define n where "n = fm_strbase m div szof_entry"
  have n: "unat n = length es" using wd by (simp add: n_def unat_div wf_dir_def)
  have "16 * length es < 2 ^ 64" using wd unat_lt_exp [of "fm_strbase m"] by (simp add: wf_dir_def)
  then have b: "unat n < 2 ^ 60" using n by simp
  have r: "c_readdir E dt (fe_fb d) k uid
      = Some (0, Some (take 255 (ent_name pool (es ! unat k)), fe_type (es ! unat k)))" if "k < n" for k
  proof -
    have "unat k < unat n" using that by (simp add: word_less_nat_alt)
    with b n c_readdir_entry [OF assms(1,2,4), of k uid] show ?thesis by simp
  qed
  have above: "c_readdir E dt (fe_fb d) k uid = Some (- 1, None)" if "n \<le> k" "unat k < 2 ^ 60" for k
    using that n c_readdir_entry [OF assms(1,2,4), of k uid] by (simp add: word_le_nat_alt)
  have wraps: "c_readdir E dt (fe_fb d) k uid = c_readdir E dt (fe_fb d) (word_of_nat (unat k mod 2 ^ 60)) uid" for k
  proof -
    have "unat k mod 2 ^ 60 < 2 ^ LENGTH(64)" by (rule less_trans [OF mod_less_divisor]) simp_all
    then have "unat (word_of_nat (unat k mod 2 ^ 60) :: u64_t) = unat k mod 2 ^ 60" by (rule unat_word_of_nat_fit)
    then show ?thesis by (simp add: c_readdir_entry [OF assms(1,2,4)])
  qed
  with r above show ?thesis
    using n assms(3) rm by (auto simp: c_opendir_def n_def [symmetric])
qed

theorem listing_spec_witness:
  "\<exists>n. c_opendir calm_env root_disk [SLASH] 5 = Some (1, Some n)
     \<and> c_readdir calm_env root_disk 1 2 5 = Some (0, Some ([97], S_FIL))"
proof -
  have l: "c_lookup calm_env root_disk [SLASH] 5 = Some (Inr root_entry)"
    using root_disk_root by (simp add: c_lookup_def)
  have p: "permission_check 5 root_meta opR \<noteq> 0"
    by (simp add: root_meta_def mini_meta_def permission_check_def opR_def opW_def mode_defs)
  have e: "length root_entries = 4" "ent_name root_pool (root_entries ! 2) = [97]"
    "fe_type (root_entries ! 2) = S_FIL"
    by (simp_all add: root_entries_def root_pool_def sample_entries_def sample_pool_def ent_name_def cstr_at_def)
  from listing_spec [OF in_useD(1) [OF root_disk_in_use] calm_env_ok l, of root_meta root_entries root_pool]
    root_dir_at p obtain n where "c_opendir calm_env root_disk [SLASH] 5 = Some (1, Some n)"
    "unat n = length root_entries"
    "\<forall>k < n. c_readdir calm_env root_disk 1 k 5
      = Some (0, Some (take 255 (ent_name root_pool (root_entries ! unat k)), fe_type (root_entries ! unat k)))"
    by (auto simp: root_facts root_entry_def)
  moreover from this(2) e(1) have "2 < n" by (simp add: word_less_nat_alt)
  ultimately show ?thesis using e by fastforce
qed

text \<open>
  \<open>c_stat\<close> reports the attributes of the file the path names -- size, times, owner and
  mode as its metadata has them -- to everybody who may read that file, and refuses with
  -4 otherwise; an unknown name gives -1.
\<close>
lemma c_stat_spec:
  assumes "wf_geom dt" and "malloc_ok E" and "in_dir E dt path uid nm parent"
    and "dir_at dt (fe_fb parent) m es pool"
    and "\<forall>e. ent_of pool es nm = Some e \<longrightarrow> read_meta dt (fe_fb e) = Some fm"
  shows "c_stat E dt path uid = (if ent_of pool es nm = None then Some (- 1, None)
     else if permission_check uid fm opR = 0 then Some (- 4, None)
     else Some (0, Some \<lparr>st_size = fm_flen fm, st_atime = fm_r_time fm, st_mtime = fm_w_time fm,
            st_ctime = fm_c_time fm, st_owner = fm_uid fm, st_mode = fm_flags fm\<rparr>))"
proof -
  note nz = in_dir_name [OF assms(3)]
  from assms(4) obtain xs rest where y: "file_at dt (fe_fb parent) xs" "unat (fm_blocks m) = length xs"
    "content dt xs = enc_dir m es pool @ rest" "wf_dir m es pool" by (rule dir_atE [OF assms(1)])
  have rm: "read_meta dt (fe_fb parent) = Some m" using dir_at_reads(1) [OF assms(1,4)] .
  note start = c_stat_def with_parent_in_dir [OF assms(3)] rm Option.bind.bind_lunit
    with_buf_content [OF assms(1,2) y(1,2)] y(3)
  show ?thesis
  proof (cases "ent_of pool es nm")
    case None
    with find_entry_by_name_ent(1) [OF y(4) nz None, of rest] show ?thesis unfolding start by simp
  next
    case (Some e)
    from find_entry_by_name_ent(2) [OF y(4) nz Some, of rest] obtain i where
      "find_entry_by_name (enc_dir m es pool @ rest) nm = Some (Some (64 + 16 * i))"
      "get_entry (enc_dir m es pool @ rest) (64 + 16 * i) = Some e" by blast
    with Some assms(5) show ?thesis unfolding start by simp
  qed
qed

end
