(* ===== verification/CfsMove.thy ===== *)
theory CfsMove
  imports CfsCreate
begin

text \<open>
  What \<open>c_move\<close> of \<open>c_node/fs/cfs.c\<close> does when source and destination lie in the same
  directory: the new name is not put behind the strings of the directory but at the
  position \<open>strlen\<close> of the buffer, which begins with the metadata.
\<close>

section \<open>The name over the metadata\<close>

text \<open>Bytes 16 to 39 of the metadata are the three times.\<close>

definition time_bytes :: "u64_t \<Rightarrow> u64_t \<Rightarrow> u64_t \<Rightarrow> buf" where
  "time_bytes c r w = enc_w 8 c @ enc_w 8 r @ enc_w 8 w"

definition with_times :: "file_meta \<Rightarrow> u64_t \<Rightarrow> u64_t \<Rightarrow> u64_t \<Rightarrow> file_meta" where
  "with_times m c r w = m\<lparr>fm_c_time := c, fm_r_time := r, fm_w_time := w\<rparr>"

lemma length_time_bytes [simp]: "length (time_bytes c r w) = 24"
  by (simp add: time_bytes_def)

lemma time_bytes_ex: assumes "length t = 24" shows "\<exists>c r w. t = time_bytes c r w"
proof (intro exI)
  have "take 8 t @ take 8 (drop 8 t) @ drop 16 t = t"
    using append_take_drop_id [of 8 "drop 8 t"] by simp
  moreover have "length (take 8 t) = 8" "length (take 8 (drop 8 t)) = 8" "length (drop 16 t) = 8"
    using assms by simp_all
  ultimately show "t = time_bytes (dec_w (take 8 t)) (dec_w (take 8 (drop 8 t))) (dec_w (drop 16 t))"
    by (simp add: time_bytes_def)
qed

lemma enc_meta_times: "\<exists>a z. length a = 16 \<and> (\<forall>c r w. enc_meta (with_times m c r w) = a @ time_bytes c r w @ z)"
  by (rule exI [of _ "enc_w 4 (fm_uid m) @ enc_w 4 (fm_count m) @ enc_w 8 (fm_flen m)"])
     (simp add: enc_meta_def with_times_def time_bytes_def)

lemma write_over_times:
  assumes "16 \<le> L" and "L + length d \<le> 40"
  shows "\<exists>c r w. wr (enc_dir m es pool @ rest) L d = Some (enc_dir (with_times m c r w) es pool @ rest)
    \<and> take (length d) (drop (L - 16) (time_bytes c r w)) = d"
proof -
  obtain a z where a: "length a = 16" "\<And>c r w. enc_meta (with_times m c r w) = a @ time_bytes c r w @ z"
    using enc_meta_times [of m] by blast
  let ?t = "time_bytes (fm_c_time m) (fm_r_time m) (fm_w_time m)"
  have m: "with_times m (fm_c_time m) (fm_r_time m) (fm_w_time m) = m" by (simp add: with_times_def)
  let ?t' = "take (L - 16) ?t @ d @ drop (L - 16 + length d) ?t"
  have "length ?t' = 24" using assms by simp
  then obtain c r w where t: "?t' = time_bytes c r w" using time_bytes_ex by blast
  have "enc_dir m es pool @ rest = a @ ?t @ (z @ enc_entries es @ pool @ rest)"
    using a(2) [of "fm_c_time m" "fm_r_time m" "fm_w_time m"] by (simp add: enc_dir_def m)
  then have "wr (enc_dir m es pool @ rest) L d = Some (a @ ?t' @ z @ enc_entries es @ pool @ rest)"
    using assms a(1) by (simp add: wr_def)
  moreover have "a @ ?t' @ z @ enc_entries es @ pool @ rest = enc_dir (with_times m c r w) es pool @ rest"
    unfolding t by (simp add: enc_dir_def a(2))
  moreover have "take (length d) (drop (L - 16) (time_bytes c r w)) = d"
    unfolding t [symmetric] using assms by simp
  ultimately show ?thesis by metis
qed

section \<open>The buffer\<close>

lemma put_entry_enc_dir:
  assumes "i < length es"
  shows "put_entry (enc_dir m es pool @ rest) (64 + 16 * i) e = Some (enc_dir m (es[i := e]) pool @ rest)"
proof -
  have "enc_dir m es pool @ rest = (enc_meta m @ enc_entries (take i es)) @ enc_entry (es ! i)
      @ (enc_entries (drop (Suc i) es) @ pool @ rest)"
    using id_take_nth_drop [OF assms] by (metis append.assoc enc_dir_def enc_entries_simps(2,3))
  then show ?thesis
    using entry.put_enc_append [of "enc_meta m @ enc_entries (take i es)" "es ! i"] assms
    by (simp add: enc_dir_def upd_conv_take_nth_drop)
qed

lemma upd_meta_enc_dir: "upd_meta (enc_dir m es pool @ rest) f = Some (enc_dir (f m) es pool @ rest)"
  by (simp add: upd_meta_def enc_dir_def meta.get_enc_head meta.put_enc_head)

text \<open>The metadata and the entries that \<open>move_same\<close> writes back.\<close>

definition moved_meta :: "file_meta \<Rightarrow> buf \<Rightarrow> u64_t \<Rightarrow> u64_t \<Rightarrow> u64_t \<Rightarrow> file_meta" where
  "moved_meta m nm c r w = (with_times m c r w)\<lparr>fm_strlen := fm_strlen m + (word_of_nat (length nm) + 1),
     fm_flen := fm_flen m + (word_of_nat (length nm) + 1)\<rparr>"

definition moved_entries :: "file_meta \<Rightarrow> file_entry list \<Rightarrow> nat \<Rightarrow> file_entry list" where
  "moved_entries m es i = es[i := (es ! i)\<lparr>fe_name := fm_strlen m\<rparr>]"

lemma move_same_buffer:
  assumes wd: "wf_dir m es pool" and i: "i < length es"
    and l: "16 \<le> length pool" "length pool + length nm + 1 \<le> 40"
  shows "\<exists>c r w. move_same E dt fb (enc_dir m es pool @ rest) (64 + 16 * i) nm
      = do { dt \<leftarrow> do_writefile E dt fb (enc_dir (moved_meta m nm c r w) (moved_entries m es i) pool @ rest)
               (fm_flen (moved_meta m nm c r w)); Some (0, dt) }
    \<and> take (length nm + 1) (drop (length pool - 16) (time_bytes c r w)) = nm @ [0]"
proof -
  let ?m1 = "m\<lparr>fm_w_time := now E\<rparr>"
  have L: "unat (fm_strlen m) = length pool" using wd by (simp add: wf_dir_def)
  from write_over_times [of "length pool" "nm @ [0]" ?m1 es pool rest] l obtain c r w where
    w: "wr (enc_dir ?m1 es pool @ rest) (length pool) (nm @ [0])
        = Some (enc_dir (with_times ?m1 c r w) es pool @ rest)"
    and t: "take (length nm + 1) (drop (length pool - 16) (time_bytes c r w)) = nm @ [0]" by auto
  have "move_same E dt fb (enc_dir m es pool @ rest) (64 + 16 * i) nm
      = do { dt \<leftarrow> do_writefile E dt fb (enc_dir (moved_meta m nm c r w) (moved_entries m es i) pool @ rest)
               (fm_flen (moved_meta m nm c r w)); Some (0, dt) }"
    by (simp add: move_same_def upd_meta_enc_dir get_meta_enc_dir L w get_entry_enc_dir [OF i]
        put_entry_enc_dir [OF i] moved_meta_def moved_entries_def with_times_def)
  with t show ?thesis by blast
qed

text \<open>
  The entry now names what stands behind the strings; everybody else keeps his name. \<open>behind\<close>
  are as many bytes as the new name takes.
\<close>

lemma wf_dir_moved:
  assumes wd: "wf_dir m es pool" and i: "i < length es" and n: "length behind = length nm + 1"
    and z: "0 \<in> set behind" and fit: "unat (fm_flen m) + length nm + 1 < 2 ^ 64"
  shows "wf_dir (moved_meta m nm c r w) (moved_entries m es i) (pool @ behind)"
    and "map (ent_name (pool @ behind)) (moved_entries m es i)
      = (map (ent_name pool) es)[i := takeWhile (\<lambda>b. b \<noteq> 0) behind]"
proof -
  let ?e = "(es ! i)\<lparr>fe_name := fm_strlen m\<rparr>"
  have w: "unat (fm_strbase m) = 16 * length es" "unat (fm_strlen m) = length pool"
    "unat (fm_flen m) = 64 + 16 * length es + length pool" "\<forall>e\<in>set es. named pool e"
    using wd by (auto simp: wf_dir_def)
  have k: "unat (word_of_nat (length nm) + 1 :: u64_t) = length nm + 1"
    using fit unat_word_of_nat_fit [of "length nm + 1", where 'a = 64] by (simp only: of_nat_add of_nat_1) simp
  have new: "cstr_at (pool @ behind) (unat (fe_name ?e)) = Some (takeWhile (\<lambda>b. b \<noteq> 0) behind)"
    using z w(2) by (cases behind) (simp_all add: cstr_at_def)
  have "named (pool @ behind) e" if "e \<in> set (moved_entries m es i)" for e
    using that new w(4) named_append set_update_subset_insert [of es i ?e]
    by (auto simp: moved_entries_def named_def)
  moreover have "unat (fm_flen m + (word_of_nat (length nm) + 1)) = unat (fm_flen m) + (length nm + 1)"
    "unat (fm_strlen m + (word_of_nat (length nm) + 1)) = unat (fm_strlen m) + (length nm + 1)"
    using fit w(2,3) k by (simp_all add: unat_add_fit)
  ultimately show "wf_dir (moved_meta m nm c r w) (moved_entries m es i) (pool @ behind)"
    using w n by (simp add: wf_dir_def moved_meta_def moved_entries_def with_times_def)
  have "map (ent_name (pool @ behind)) es = map (ent_name pool) es"
    using w(4) named_append by (intro map_cong) auto
  moreover have "ent_name (pool @ behind) ?e = takeWhile (\<lambda>b. b \<noteq> 0) behind"
    using new by (simp only: ent_name_def option.sel)
  ultimately show "map (ent_name (pool @ behind)) (moved_entries m es i)
      = (map (ent_name pool) es)[i := takeWhile (\<lambda>b. b \<noteq> 0) behind]"
    by (simp only: moved_entries_def map_update)
qed

section \<open>Renaming\<close>

text \<open>The buffer of the directory has one sector more than the directory.\<close>

lemma with_buf_extra:
  assumes "wf_geom dt" and "malloc_ok E" and "file_at dt fb xs" and "unat (fm_blocks m) = length xs"
  shows "\<exists>junk. \<forall>fail k. with_buf E dt fb m 1 fail k = k (content dt xs @ junk)"
proof -
  have "distinct xs" "set xs \<subseteq> {..<nsec dt}" using assms(3) chain_distinct by (auto simp: file_at_def)
  then have n: "length xs \<le> nsec dt" by (metis card_mono distinct_card finite_lessThan card_lessThan)
  have "unat (dt_size dt) = unat (sb_totSecNum (sb dt)) * secsz dt" "nsec dt + 1 \<le> unat (sb_totSecNum (sb dt))"
    using assms(1) by (auto simp: wf_geom_def Let_def)
  then have "(length xs + 1) * secsz dt \<le> unat (dt_size dt)"
    using n mult_le_mono1 [of "length xs + 1" "unat (sb_totSecNum (sb dt))" "secsz dt"] by simp
  then have f: "(length xs + 1) * secsz dt < 4294967296" using unat_lt_exp [of "dt_size dt"] by simp
  have "length xs + 1 < 4294967296" using n wf_geomD(8) [OF assms(1)] by simp
  then have "unat (fm_blocks m + 1) = length xs + 1" using assms(4) by (simp add: unat_add_fit)
  then have u: "unat ((fm_blocks m + 1) * bps dt) = (length xs + 1) * secsz dt" using f by (simp add: unat_mult_fit)
  obtain b where b: "malloc E ((length xs + 1) * secsz dt) = Some b" "length b = (length xs + 1) * secsz dt"
    using assms(2) by (rule malloc_okE)
  then have "do_readfile dt fb b = Some (content dt xs @ drop (length xs * secsz dt) b)"
    using do_readfile_file [OF assms(1,3), of b] f by simp
  with b(1) u show ?thesis by (auto simp: with_buf_def)
qed

lemma c_move_within:
  assumes "in_dir E dt src uid nm parent" and "in_dir E dt dst uid nm' parent"
    and "read_meta dt (fe_fb parent) = Some m" and "permission_check uid m opW \<noteq> 0"
    and "\<forall>(fail :: int \<Rightarrow> int \<times> dtree) k. with_buf E dt (fe_fb parent) m 1 fail k = k b"
    and "find_entry_by_name b nm = Some (Some off)" and "find_entry_by_name b nm' = Some None"
    and "get_entry b off = Some e" and "read_meta dt (fe_fb e) = Some m'"
  shows "c_move E dt src dst uid = move_same E dt (fe_fb parent) b off nm'"
proof -
  obtain p where "get_filename_from_path dst = Some p" using assms(2) by (auto simp: in_dir_def)
  then show ?thesis
    using assms(4-9) by (simp add: c_move_def with_parent_in_dir [OF assms(1)] with_parent_in_dir [OF assms(2)] assms(3))
qed

lemma ent_of_None: "ent_of pool es s = None \<longleftrightarrow> s \<notin> set (map (ent_name pool) es)"
  by (auto simp: ent_of_def find_None_iff)

text \<open>
  C39. Renaming within a directory on a disk below 2 GiB, by a user who may write it, from a name it
  has to one it does not have, when no \<open>malloc\<close> fails: when its strings take 16 bytes or more, end with the new name before byte 40, and
  its sectors hold behind them as many bytes as the new name takes, a NUL among them, \<open>c_move\<close>
  returns 0, but the new name is in the times of the directory's metadata, and the entry has as
  its name the string that happened to stand behind the strings -- the empty name, when the
  bytes are zero. So the new name is found only if that string is the new name, and, when
  no two entries have the same name, the old name only if it is the old one. The other
  entries keep their names, and files that share no sector with the directory are as before.
\<close>

theorem c_move_loses_the_name:
  assumes wf: "wf_geom dt" and E: "malloc_ok E" and sz: "unat (dt_size dt) < 2147483648"
    and src: "in_dir E dt src uid nm parent" and dst: "in_dir E dt dst uid nm' parent"
    and xs: "file_at dt (fe_fb parent) xs" "unat (fm_blocks m) = length xs"
      "content dt xs = enc_dir m es pool @ behind @ rest"
    and wd: "wf_dir m es pool" and perm: "permission_check uid m opW \<noteq> 0"
    and ent: "ent_of pool es nm = Some e" "ent_of pool es nm' = None" "file_at dt (fe_fb e) zs"
    and len: "16 \<le> length pool" "length pool + length nm' + 1 \<le> 40"
    and behind: "length behind = length nm' + 1" "0 \<in> set behind"
  shows "\<exists>dt' i c r w. c_move E dt src dst uid = Some (0, dt') \<and> i < length es \<and> es ! i = e
     \<and> dir_at dt' (fe_fb parent) (moved_meta m nm' c r w) (moved_entries m es i) (pool @ behind)
     \<and> map (ent_name (pool @ behind)) (moved_entries m es i)
         = (map (ent_name pool) es)[i := takeWhile (\<lambda>b. b \<noteq> 0) behind]
     \<and> take (length nm' + 1) (drop (length pool - 16) (time_bytes c r w)) = nm' @ [0]
     \<and> (ent_of (pool @ behind) (moved_entries m es i) nm' \<noteq> None \<longleftrightarrow> takeWhile (\<lambda>b. b \<noteq> 0) behind = nm')
     \<and> (distinct (map (ent_name pool) es) \<longrightarrow>
          (ent_of (pool @ behind) (moved_entries m es i) nm \<noteq> None \<longleftrightarrow> takeWhile (\<lambda>b. b \<noteq> 0) behind = nm))
     \<and> keeps xs dt dt'"
proof -
  let ?d = "enc_dir m es pool"
  obtain junk where buf: "\<forall>(fail :: int \<Rightarrow> int \<times> dtree) k. with_buf E dt (fe_fb parent) m 1 fail k = k (?d @ behind @ rest @ junk)"
    using with_buf_extra [OF wf E xs(1,2)] xs(3) by auto
  have rm: "read_meta dt (fe_fb parent) = Some m"
    using file_read_meta [OF wf xs(1), of m] xs(3) by (simp add: enc_dir_def)
  obtain me where me: "read_meta dt (fe_fb e) = Some me" using file_has_meta [OF wf ent(3)] by blast
  from find_entry_by_name_ent(2) [OF wd in_dir_name [OF src] ent(1), of "behind @ rest @ junk"] obtain i where
    i: "i < length es" "es ! i = e"
    "find_entry_by_name (?d @ behind @ rest @ junk) nm = Some (Some (64 + 16 * i))"
    "get_entry (?d @ behind @ rest @ junk) (64 + 16 * i) = Some e" by blast
  note none = find_entry_by_name_ent(1) [OF wd in_dir_name [OF dst] ent(2), of "behind @ rest @ junk"]
  from move_same_buffer [OF wd i(1) len, of E dt "fe_fb parent" "behind @ rest @ junk"] obtain c r w where
    mv: "move_same E dt (fe_fb parent) (?d @ behind @ rest @ junk) (64 + 16 * i) nm'
      = do { dt \<leftarrow> do_writefile E dt (fe_fb parent) (enc_dir (moved_meta m nm' c r w) (moved_entries m es i) pool
               @ behind @ rest @ junk) (fm_flen (moved_meta m nm' c r w)); Some (0, dt) }"
    and t: "take (length nm' + 1) (drop (length pool - 16) (time_bytes c r w)) = nm' @ [0]" by blast
  let ?m = "moved_meta m nm' c r w" and ?es = "moved_entries m es i"
  have shift: "enc_dir ?m ?es pool @ behind @ rest @ junk = enc_dir ?m ?es (pool @ behind) @ rest @ junk"
    by (simp add: enc_dir_def)
  have lx: "length (?d @ behind @ rest) = length xs * secsz dt"
    using length_content [OF wf, of xs] xs(1,3) by (auto simp: file_at_def)
  note fit = file_at_fit [OF wf xs(1)]
  have flen: "unat (fm_flen m) + length nm' + 1 \<le> length xs * secsz dt"
    using lx wd behind(1) by (simp add: wf_dir_def)
  then have "unat (fm_flen m) + length nm' + 1 < 2 ^ 64" using fit by simp
  note wd' = wf_dir_moved [OF wd i(1) behind this]
  have "length (enc_dir ?m ?es (pool @ behind)) = length (?d @ behind)" by (simp add: moved_entries_def)
  then have "length xs * secsz dt \<le> length (enc_dir ?m ?es (pool @ behind) @ rest @ junk)" using lx by simp
  moreover have "unat (fm_flen ?m) \<le> length xs * secsz dt"
    using wd'(1) [of c r w] lx by (simp add: wf_dir_def moved_entries_def)
  moreover have "unat (fm_blocks ?m) = length xs" using xs(2) by (simp add: moved_meta_def with_times_def)
  ultimately obtain dt' ys where w: "do_writefile E dt (fe_fb parent) (enc_dir ?m ?es (pool @ behind) @ rest @ junk) (fm_flen ?m) = Some dt'"
    "dir_at dt' (fe_fb parent) ?m ?es (pool @ behind)" "upd (set xs \<union> set ys) dt dt'"
    "\<forall>y\<in>set ys. y \<in> set xs \<or> (y < nsec dt \<longrightarrow> fat_p dt ! y = FREESEC)"
    using write_dir_back [OF wf E sz xs(1) _ wd'(1) [of c r w], of "rest @ junk"] by blast
  have "c_move E dt src dst uid = Some (0, dt')"
    unfolding c_move_within [OF src dst rm perm buf i(3) none i(4) me] mv shift w(1) Option.bind.bind_lunit ..
  moreover have "keeps xs dt dt'" using w(3,4) by (rule keeps_upd)
  moreover
  let ?stray = "takeWhile (\<lambda>b. b \<noteq> 0) behind" and ?names = "map (ent_name pool) es"
  have names: "set (map (ent_name (pool @ behind)) ?es) = set (?names[i := ?stray])" using wd'(2) by simp
  have il: "i < length ?names" using i(1) by simp
  have "nm' \<notin> set ?names" using ent(2) by (simp add: ent_of_None)
  then have "nm' \<in> set (?names[i := ?stray]) \<longleftrightarrow> ?stray = nm'"
    using set_update_memI [OF il] set_update_subset_insert [of ?names i ?stray] by blast
  then have new: "ent_of (pool @ behind) ?es nm' \<noteq> None \<longleftrightarrow> ?stray = nm'" using names by (simp add: ent_of_None)
  have "ent_name pool e = nm" using ent(1) by (auto simp: ent_of_def find_Some_iff)
  then have "?names ! i = nm" using i(1,2) by simp
  then have "nm \<in> set (?names[i := ?stray]) \<longleftrightarrow> ?stray = nm" if "distinct ?names"
    using set_update_distinct [OF that il, of ?stray] by auto
  then have old: "distinct ?names \<Longrightarrow> ent_of (pool @ behind) ?es nm \<noteq> None \<longleftrightarrow> ?stray = nm"
    using names by (simp add: ent_of_None)
  ultimately show ?thesis using i(1,2) w(2) wd'(2) t new old by blast
qed

text \<open>A disk whose root directory has one file with a name of ten characters, for the witness.\<close>

definition long_name :: buf where "long_name = [97, 98, 99, 100, 101, 102, 103, 104, 105, 106]"
definition long_pool :: buf where "long_pool = [46, 0, 46, 46, 0] @ long_name @ [0]"
definition long_meta :: file_meta where
  "long_meta = mini_meta\<lparr>fm_flen := 128, fm_strbase := 48, fm_strlen := 16\<rparr>"

definition long_disk :: dtree where
  "long_disk = root_disk\<lparr>data := pad512 (enc_entry root_entry) @ pad512 (enc_dir long_meta sample_entries long_pool)
     @ pad512 (enc_meta mini_meta) @ zeros 5632\<rparr>"

lemma long_lengths: "length (enc_dir long_meta sample_entries long_pool) = 128"
    "length (pad512 (enc_entry root_entry)) = 512"
    "length (pad512 (enc_dir long_meta sample_entries long_pool)) = 512"
    "length (pad512 (enc_meta mini_meta)) = 512"
  by (simp_all add: length_pad512 sample_entries_def long_pool_def long_name_def)

lemma long_disk_wf: "wf_geom long_disk"
  by (auto simp: wf_geom_def Let_def long_disk_def root_disk_def nth_append nth_Cons' long_lengths)

lemma long_disk_file: "x \<in> {1, 2} \<Longrightarrow> unat fb = x \<Longrightarrow> file_at long_disk fb [x]"
  using small_neq_ENDSEC [of fb] by (auto simp: file_at_def long_disk_def root_disk_def nth_append nth_Cons')

lemma long_disk_content: "content long_disk [1] = enc_dir long_meta sample_entries long_pool @ [0, 0] @ zeros 382"
proof -
  have z: "zeros 384 = [0, 0] @ zeros 382" by (simp add: zeros_def numeral_eq_Suc)
  have "content long_disk [1] = pad512 (enc_dir long_meta sample_entries long_pool)"
    by (simp add: sector_def long_disk_def root_disk_def long_lengths)
  then show ?thesis using long_lengths(1) z by (simp add: pad512_def)
qed

lemma long_facts: "wf_dir long_meta sample_entries long_pool"
    "ent_of long_pool sample_entries long_name = Some (sample_entries ! 2)"
    "ent_of long_pool sample_entries [98] = None" "unat (fm_blocks long_meta) = 1"
    "permission_check 5 long_meta opW \<noteq> 0" "unat (dt_size long_disk) < 2147483648"
    "map (ent_name long_pool) sample_entries = [[46], [46, 46], long_name]"
  by (auto simp: wf_dir_def long_meta_def mini_meta_def sample_entries_def long_pool_def long_name_def named_def
      cstr_at_def ent_of_def ent_name_def permission_check_def opW_def opR_def mode_defs long_disk_def root_disk_def)

lemma long_in_dir: "in_dir calm_env long_disk (SLASH # long_name) 5 long_name root_entry"
    "in_dir calm_env long_disk [SLASH, 98] 5 [98] root_entry"
proof -
  have "get_entry (data long_disk) 0 = Some root_entry"
    by (simp add: long_disk_def pad512_def entry.get_enc_head)
  then show "in_dir calm_env long_disk (SLASH # long_name) 5 long_name root_entry"
    "in_dir calm_env long_disk [SLASH, 98] 5 [98] root_entry"
    by (simp_all add: in_dir_def get_filename_from_path_def gf_scan.simps cstr_def c_lookup_def root_entry_def
        Let_def long_name_def)
qed

theorem c_move_loses_the_name_witness:
  "\<exists>dt' i m. c_move calm_env long_disk (SLASH # long_name) [SLASH, 98] 5 = Some (0, dt')
     \<and> dir_at dt' 1 m (moved_entries long_meta sample_entries i) (long_pool @ [0, 0])
     \<and> map (ent_name (long_pool @ [0, 0])) (moved_entries long_meta sample_entries i) = [[46], [46, 46], []]
     \<and> ent_of (long_pool @ [0, 0]) (moved_entries long_meta sample_entries i) [98] = None
     \<and> ent_of (long_pool @ [0, 0]) (moved_entries long_meta sample_entries i) long_name = None"
proof -
  have r: "fe_fb root_entry = 1" "fe_fb (sample_entries ! 2) = 2"
    by (simp_all add: root_facts(2) sample_entries_def)
  have f: "file_at long_disk (fe_fb root_entry) [1]" "file_at long_disk (fe_fb (sample_entries ! 2)) [2]"
    using long_disk_file [of 1 1] long_disk_file [of 2 2] r by simp_all
  have l: "16 \<le> length long_pool" "length long_pool + length [98 :: u8_t] + 1 \<le> 40"
    "length [0, 0 :: u8_t] = length [98 :: u8_t] + 1" "0 \<in> set [0, 0 :: u8_t]"
    "unat (fm_blocks long_meta) = length [1 :: nat]"
    by (simp_all add: long_pool_def long_name_def long_facts(4))
  from c_move_loses_the_name [OF long_disk_wf calm_env_ok long_facts(6) long_in_dir f(1) l(5) long_disk_content
      long_facts(1,5,2,3) f(2) l(1-4)] obtain dt' i c q w where
    m: "c_move calm_env long_disk (SLASH # long_name) [SLASH, 98] 5 = Some (0, dt')" "i < length sample_entries"
    "sample_entries ! i = sample_entries ! 2"
    "dir_at dt' (fe_fb root_entry) (moved_meta long_meta [98] c q w) (moved_entries long_meta sample_entries i) (long_pool @ [0, 0])"
    "map (ent_name (long_pool @ [0, 0])) (moved_entries long_meta sample_entries i)
       = (map (ent_name long_pool) sample_entries)[i := takeWhile (\<lambda>b. b \<noteq> 0) [0, 0]]"
    "ent_of (long_pool @ [0, 0]) (moved_entries long_meta sample_entries i) [98] \<noteq> None
       \<longleftrightarrow> takeWhile (\<lambda>b. b \<noteq> 0) [0, 0 :: u8_t] = [98]"
    "distinct (map (ent_name long_pool) sample_entries) \<longrightarrow>
       (ent_of (long_pool @ [0, 0]) (moved_entries long_meta sample_entries i) long_name \<noteq> None
         \<longleftrightarrow> takeWhile (\<lambda>b. b \<noteq> 0) [0, 0 :: u8_t] = long_name)" by blast
  have "i = 2" using m(2,3) by (auto simp: sample_entries_def less_Suc_eq)
  moreover have "distinct (map (ent_name long_pool) sample_entries)" "long_name \<noteq> []"
    unfolding long_facts(7) by (simp_all add: long_name_def)
  ultimately show ?thesis using m(1,4-7) r(1) by (auto simp: long_facts(7))
qed

end
