(* ===== verification/CfsShape.thy ===== *)
theory CfsShape
  imports CfsOpsSpec CfsBlocks
begin

text \<open>
  The shape of the disk in memory: the sizes of its regions fit the superblock. Unlike the
  other invariants this one asks nothing of the contents -- chains, directories and block
  lists may be corrupt -- and nothing of the allocator: whatever an operation is given, when
  it returns, it leaves a disk of the right shape that has not shrunk.
\<close>

section \<open>Geometry\<close>

definition geometry :: "dtree \<Rightarrow> bool" where
  "geometry dt \<longleftrightarrow>
     (let B = secsz dt; tot = unat (sb_totSecNum (sb dt)); fs = unat (sb_fatSecNum (sb dt))
      in 64 \<le> B \<and> 4 dvd B \<and> unat (dt_size dt) = tot * B \<and> fs = (4 * tot + B - 1) div B
         \<and> fs + 1 < tot \<and> nsec dt = tot - 1 - fs \<and> 4 * length (fat_p dt) = fs * B
         \<and> length (data dt) = nsec dt * B)"

lemma wf_geom_geometry: "wf_geom dt \<Longrightarrow> geometry dt"
  by (simp add: wf_geom_def geometry_def Let_def)

text \<open>The same disk with the entries of the table that name no data sector marked free.\<close>

definition cleaned :: "dtree \<Rightarrow> u32_t list" where
  "cleaned dt = take (nsec dt) (fat_p dt) @ replicate (length (fat_p dt) - nsec dt) FREESEC"

lemma geometry_cleaned:
  assumes "geometry dt"
  shows "wf_geom (dt\<lparr>fat_p := cleaned dt\<rparr>)" and "length (cleaned dt) = length (fat_p dt)"
proof -
  let ?B = "secsz dt" and ?tot = "unat (sb_totSecNum (sb dt))" and ?fs = "unat (sb_fatSecNum (sb dt))"
  from assms have w: "64 \<le> ?B" "?fs = (4 * ?tot + ?B - 1) div ?B" "nsec dt = ?tot - 1 - ?fs"
    "4 * length (fat_p dt) = ?fs * ?B" by (simp_all add: geometry_def Let_def)
  have "4 * ?tot \<le> ?fs * ?B" using w(1,2) ceil_div_ge [of ?B "4 * ?tot"] by simp
  then have n: "nsec dt \<le> length (fat_p dt)" using w(3,4) by linarith
  then show l: "length (cleaned dt) = length (fat_p dt)" by (simp add: cleaned_def)
  have "cleaned dt ! i = FREESEC" if "nsec dt \<le> i" "i < length (fat_p dt)" for i
    using that n by (simp add: nth_append cleaned_def)
  with assms l show "wf_geom (dt\<lparr>fat_p := cleaned dt\<rparr>)" by (simp add: geometry_def wf_geom_def Let_def)
qed

definition grows :: "dtree \<Rightarrow> dtree \<Rightarrow> bool" where
  "grows dt dt' \<longleftrightarrow> (geometry dt \<longrightarrow>
     geometry dt' \<and> bps dt' = bps dt \<and> nsec dt \<le> nsec dt' \<and> dt_size dt \<le> dt_size dt')"

lemma grows_refl [simp]: "grows dt dt"
  by (simp add: grows_def)

lemma grows_trans [trans]: "grows dt dt1 \<Longrightarrow> grows dt1 dt2 \<Longrightarrow> grows dt dt2"
  by (auto simp: grows_def)

lemma grows_fat: "length f = length (fat_p dt) \<Longrightarrow> grows dt (dt\<lparr>fat_p := f\<rparr>)"
  by (simp add: grows_def geometry_def Let_def)

lemma grows_data: "length d = length (data dt) \<Longrightarrow> grows dt (dt\<lparr>data := d\<rparr>)"
  by (simp add: grows_def geometry_def Let_def)

lemma grows_count: "grows dt (dt\<lparr>sb := (sb dt)\<lparr>sb_maxBlockNum := n\<rparr>\<rparr>)"
  by (simp add: grows_def geometry_def Let_def)

text \<open>Memory that \<open>malloc\<close> hands out is as long as asked for; it may hand out none.\<close>

definition malloc_sane :: "env \<Rightarrow> bool" where
  "malloc_sane E \<longleftrightarrow> (\<forall>n b. malloc E n = Some b \<longrightarrow> length b = n)"

lemma malloc_ok_sane: "malloc_ok E \<Longrightarrow> malloc_sane E"
  unfolding malloc_ok_def malloc_sane_def by (metis option.inject)

section \<open>Growing\<close>

lemma extend_other_table:
  assumes "extend E (dt\<lparr>fat_p := f\<rparr>) n = Some (0, d)" and "length f = length (fat_p dt)"
  shows "\<exists>d'. extend E dt n = Some (0, d') \<and> sb d' = sb d \<and> dt_size d' = dt_size d
    \<and> length (data d') = length (data d) \<and> length (fat_p d') = length (fat_p d)"
  using assms
  by (auto simp: extend_def Let_def split: if_splits option.splits elim!: bindE)

lemma extend_other_env: "malloc E' (unat n) = malloc E (unat n) \<Longrightarrow> extend E' dt n = extend E dt n"
  by (simp add: extend_def Let_def)

lemma extend_grows:
  assumes "malloc_sane E" and "extend E dt (ucast (dt_size dt * 2)) = Some (r, dt')"
  shows "grows dt dt'"
proof (cases "geometry dt")
  case g: True
  let ?n = "ucast (dt_size dt * 2) :: u64_t"
  have nz: "bps dt \<noteq> 0" using g by (auto simp: geometry_def Let_def)
  consider (big) "2147483648 \<le> unat (dt_size dt)" | (none) "unat (dt_size dt) < 2147483648" "malloc E (unat ?n) = None"
    | (some) b where "unat (dt_size dt) < 2147483648" "malloc E (unat ?n) = Some b" by fastforce
  then show ?thesis
  proof cases
    case big
    have "unat (dt_size dt * 2) = unat (dt_size dt) * 2 - 4294967296"
      using big unat_lt_exp [of "dt_size dt"] by (simp add: unat_word_ariths mod_if)
    then have "ucast (dt_size dt) \<ge> ?n"
      using unat_lt_exp [of "dt_size dt"] by (simp add: word_le_nat_alt unat_ucast_fit)
    then have "extend E dt ?n = Some (1, dt)" using nz by (simp add: extend_def Let_def)
    then show ?thesis using assms(2) by simp
  next
    case none
    then show ?thesis using assms(2) nz by (auto simp: extend_def Let_def split: if_splits)
  next
    case some
    define E' where "E' = \<lparr>now = now E, malloc = \<lambda>m. if m = unat ?n then Some b else Some (replicate m 0)\<rparr>"
    have ok: "malloc_ok E'" using assms(1) some(2) by (auto simp: E'_def malloc_ok_def malloc_sane_def)
    have same: "extend E' d ?n = extend E d ?n" for d 
      by (rule extend_other_env) (simp only: E'_def env.select_convs refl if_True some(2))
    note c = geometry_cleaned [OF g]
    from extend_ok [OF c(1) ok] some(1) same obtain d where
      d: "extend E (dt\<lparr>fat_p := cleaned dt\<rparr>) ?n = Some (0, d)" "upd {} (dt\<lparr>fat_p := cleaned dt\<rparr>) d" by auto
    from extend_other_table [OF d(1)] c(2) obtain d' where
      "extend E dt ?n = Some (0, d')" "sb d' = sb d" "dt_size d' = dt_size d"
      "length (data d') = length (data d)" "length (fat_p d') = length (fat_p d)" by auto
    then have e: "sb dt' = sb d" "dt_size dt' = dt_size d" "length (data dt') = length (data d)"
      "length (fat_p dt') = length (fat_p d)" using assms(2) by simp_all
    have "geometry dt'" using updD(1) [OF d(2), THEN wf_geom_geometry] e by (simp add: geometry_def)
    moreover have "dt_size dt \<le> dt_size d"
      using extend_size [OF d(1)] some(1) unat_mult_fit [of "dt_size dt" 2]
      by (simp add: word_le_nat_alt unat_ucast_fit)
    ultimately show ?thesis using e updD(2,3) [OF d(2)] by (simp add: grows_def)
  qed
qed (simp add: grows_def)


section \<open>Sectors\<close>

lemma reset_fat_length: assumes "reset_fat fb fat = Some fat'" shows "length fat' = length fat"
  using assms
proof (induction fb fat fat' rule: reset_fat.raw_induct [rotated, consumes 1])
  case (1 loop fb fat fat')
  from 1(2) 1(1) [of "fat ! unat fb" "fat[unat fb := FREESEC]" fat'] show ?case
    by (auto split: if_splits)
qed

lemma fat_set_length: "fat_set fat i v = Some fat' \<Longrightarrow> length fat' = length fat"
  by (auto simp: fat_set_def split: if_splits)

lemma find_free_grows:
  assumes "find_free E dt base = Some r" and "malloc_sane E" shows "grows dt (snd r)"
  using assms
proof (induction E dt base r rule: find_free.raw_induct [rotated, consumes 1])
  case (1 find E dt base r)
  from 1(2) obtain j where j: "next_free_fat base (fat_p dt) (sb_fatNum (sb dt)) = Some j"
    "(if j \<noteq> - 1 then Some (j, dt) else extend E dt (ucast (dt_size dt * 2)) \<bind> (\<lambda>(_, dt). find E dt base)) = Some r"
    by (rule bindE) simp
  show ?case
  proof (cases "j = - 1")
    case True
    with j(2) obtain ret dt1 where e: "extend E dt (ucast (dt_size dt * 2)) = Some (ret, dt1)"
      and f: "find E dt1 base = Some r" by (auto elim!: bindE)
    show ?thesis using extend_grows [OF 1(3) e] 1(1) [OF f 1(3)] by (rule grows_trans)
  qed (use j(2) in auto)
qed

lemma writefile_loop_grows:
  assumes "writefile_loop E B n dat dt i fb sz = Some dt'" and "malloc_sane E" shows "grows dt dt'"
  using assms
proof (induction E B n dat dt i fb sz dt' rule: writefile_loop.raw_induct [rotated, consumes 1])
  case (1 loop E B n dat dt i fb sz dt')
  show ?case
  proof (cases "i < n")
    case True
    with 1(2) obtain d fat where
      d: "length d = length (data dt)" "length fat = length (fat_p dt)"
      and rest: "(if n \<le> i + 1 then Some (dt\<lparr>data := d, fat_p := fat\<rparr>)
        else find_free E (dt\<lparr>data := d, fat_p := fat\<rparr>) fb \<bind> (\<lambda>(nxt, dt).
          fat_set (fat_p dt) fb nxt \<bind> (\<lambda>fat. loop E B n dat (dt\<lparr>fat_p := fat\<rparr>) (i + 1) nxt (sz - ucast B)))) = Some dt'"
      by (simp add: Let_def) (blast elim: bindE dest: wr_length fat_set_length)
    let ?dt1 = "dt\<lparr>data := d, fat_p := fat\<rparr>"
    have k: "grows dt ?dt1" using grows_trans [OF grows_data [OF d(1)] grows_fat] d(2) by simp
    show ?thesis
    proof (cases "n \<le> i + 1")
      case False
      with rest obtain nxt dt2 fat2 where f: "find_free E ?dt1 fb = Some (nxt, dt2)"
        "fat_set (fat_p dt2) fb nxt = Some fat2"
        "loop E B n dat (dt2\<lparr>fat_p := fat2\<rparr>) (i + 1) nxt (sz - ucast B) = Some dt'"
        by (auto elim!: bindE)
      note k
      also have "grows ?dt1 dt2" using find_free_grows [OF f(1) 1(3)] by simp
      also have "grows dt2 (dt2\<lparr>fat_p := fat2\<rparr>)" using fat_set_length [OF f(2)] by (rule grows_fat)
      also have "grows (dt2\<lparr>fat_p := fat2\<rparr>) dt'" using 1(1) [OF f(3) 1(3)] .
      finally show ?thesis .
    qed (use rest k in auto)
  qed (use 1(2) in auto)
qed

lemma do_writefile_grows: "do_writefile E dt fb dat sz = Some dt' \<Longrightarrow> malloc_sane E \<Longrightarrow> grows dt dt'"
  by (auto simp: do_writefile_def elim!: bindE
      intro: grows_trans [OF grows_fat writefile_loop_grows] dest: reset_fat_length)

lemma write_meta_grows: "write_meta dt fb m = Some dt' \<Longrightarrow> grows dt dt'"
  by (auto simp: write_meta_def dest!: meta.put_length intro: grows_data)

lemma initfile_grows: "initfile E dt uid mode = Some (r, fb, dt') \<Longrightarrow> malloc_sane E \<Longrightarrow> grows dt dt'"
  by (auto simp: initfile_def Let_def elim!: bindE split: option.splits if_splits
      dest!: find_free_grows writefile_loop_grows intro: grows_trans)

lemma initdir_grows: "initdir E dt uid p = Some (r, fb, dt') \<Longrightarrow> malloc_sane E \<Longrightarrow> grows dt dt'"
  by (auto simp: initdir_def Let_def elim!: bindE split: option.splits if_splits
      dest!: find_free_grows writefile_loop_grows intro: grows_trans)

section \<open>Operations\<close>

lemma with_parentE:
  assumes "with_parent E dt path uid noname lookup_err notdir fail k = Some x"
  obtains e where "x = fail e" | filename parent where "k filename parent = Some x"
  using with_parent_fail [OF assms] that by blast

lemma with_bufE:
  assumes "with_buf E dt fb meta extra fail k = Some x"
  obtains "x = fail (- 9)" | b where "k b = Some x"
  using with_buf_fail [OF assms] that by blast

lemmas opE = with_parentE with_bufE bindE
lemmas op_splits = option.splits sum.splits if_splits

lemma free_grows: "reset_fat fb (fat_p dt) = Some f \<Longrightarrow> grows dt (dt\<lparr>fat_p := f\<rparr>)"
  by (intro grows_fat reset_fat_length)

lemma c_open_grows: "c_open E dt path fl mode uid = Some (r, dt') \<Longrightarrow> malloc_sane E \<Longrightarrow> grows dt dt'"
  by (auto simp: c_open_def Let_def elim!: opE split: op_splits
      dest!: initfile_grows do_writefile_grows) (blast intro: grows_trans)+

lemma c_mkdir_grows: "c_mkdir E dt path uid = Some (r, dt') \<Longrightarrow> malloc_sane E \<Longrightarrow> grows dt dt'"
  by (auto simp: c_mkdir_def Let_def elim!: opE split: op_splits
      dest!: initdir_grows do_writefile_grows) (blast intro: grows_trans)+

lemma c_rmdir_grows: "c_rmdir E dt path uid = Some (r, dt') \<Longrightarrow> malloc_sane E \<Longrightarrow> grows dt dt'"
  by (auto simp: c_rmdir_def Let_def elim!: opE split: op_splits)
    (blast intro: grows_trans free_grows do_writefile_grows)+

lemma c_remove_grows: "c_remove E dt path uid = Some (r, dt') \<Longrightarrow> malloc_sane E \<Longrightarrow> grows dt dt'"
  by (auto simp: c_remove_def Let_def elim!: opE split: op_splits)
    (blast intro: grows_trans free_grows do_writefile_grows)+

lemma c_chown_grows: "c_chown E dt path newuid uid = Some (r, dt') \<Longrightarrow> grows dt dt'"
  by (auto simp: c_chown_def Let_def elim!: opE split: op_splits) (blast intro: write_meta_grows)+

lemma c_chmod_grows: "c_chmod E dt path mode uid = Some (r, dt') \<Longrightarrow> grows dt dt'"
  by (auto simp: c_chmod_def Let_def elim!: opE split: op_splits) (blast intro: write_meta_grows)+

lemma c_move_grows: "c_move E dt src dst uid = Some (r, dt') \<Longrightarrow> malloc_sane E \<Longrightarrow> grows dt dt'"
  by (auto simp: c_move_def move_same_def move_across_def Let_def elim!: opE split: op_splits
      dest!: do_writefile_grows) (blast intro: grows_trans)+

lemma alloc_block_grows: "alloc_block dt ctr ips mx = Some (b, dt', ctr') \<Longrightarrow> grows dt dt'"
  by (auto simp: alloc_block_def Let_def grows_count elim!: bindE)

lemma new_piece_grows:
  "new_piece ips iplen len n (buf, dt, ctr) i = Some ((buf', dt', ctr'), s) \<Longrightarrow> grows dt dt'"
  by (auto simp: new_piece_def Let_def elim!: bindE dest!: alloc_block_grows)

lemma new_pieces_grows:
  "pieces (new_piece ips iplen len n) (buf, dt, ctr) is = Some ((buf', dt', ctr'), ss) \<Longrightarrow> grows dt dt'"
proof (induction "is" arbitrary: buf dt ctr ss)
  case (Cons i "is")
  from Cons.prems obtain b1 d1 c1 s ss' where
    "new_piece ips iplen len n (buf, dt, ctr) i = Some ((b1, d1, c1), s)"
    "pieces (new_piece ips iplen len n) (b1, d1, c1) is = Some ((buf', dt', ctr'), ss')"
    by (auto elim!: bindE)
  then show ?case using Cons.IH new_piece_grows grows_trans by blast
qed simp

lemma write_list_grows:
  "write_list ips iplen offset len bn nbn (buf, dt, ctr) = Some ((buf', dt', ctr'), ss) \<Longrightarrow> grows dt dt'"
  by (auto simp: write_list_def Let_def elim!: bindE split: if_splits dest!: new_pieces_grows)

lemma c_write_grows:
  assumes "c_write E dt ctr fb offset len uid ips iplen = Some (n, ss, dt', ctr')" and "malloc_sane E"
  shows "grows dt dt'"
  using assms
  by (auto simp: c_write_def Let_def elim!: bindE split: if_splits option.splits
      dest!: write_list_grows do_writefile_grows) (blast intro: grows_trans)+

text \<open>The operations that change the disk, as the control node calls them.\<close>

inductive operation :: "env \<Rightarrow> dtree \<Rightarrow> dtree \<Rightarrow> bool" where
  "c_open E dt path fl mode uid = Some (r, dt') \<Longrightarrow> operation E dt dt'"
| "c_mkdir E dt path uid = Some (r, dt') \<Longrightarrow> operation E dt dt'"
| "c_rmdir E dt path uid = Some (r, dt') \<Longrightarrow> operation E dt dt'"
| "c_remove E dt path uid = Some (r, dt') \<Longrightarrow> operation E dt dt'"
| "c_move E dt src dst uid = Some (r, dt') \<Longrightarrow> operation E dt dt'"
| "c_chown E dt path newuid uid = Some (r, dt') \<Longrightarrow> operation E dt dt'"
| "c_chmod E dt path mode8 uid = Some (r, dt') \<Longrightarrow> operation E dt dt'"
| "c_write E dt ctr fb offset len uid ips iplen = Some (n, ss, dt', ctr') \<Longrightarrow> operation E dt dt'"

lemma operation_grows: "operation E dt dt' \<Longrightarrow> malloc_sane E \<Longrightarrow> grows dt dt'"
  by (induction rule: operation.induct)
     (simp_all add: c_open_grows c_mkdir_grows c_rmdir_grows c_remove_grows c_move_grows c_chown_grows
       c_chmod_grows c_write_grows)

text \<open>Any number of calls, one after the other; the state of the allocator may differ from call to call.\<close>

inductive session :: "dtree \<Rightarrow> dtree \<Rightarrow> bool" where
  session_none: "session dt dt"
| session_call: "session dt dt1 \<Longrightarrow> malloc_sane E \<Longrightarrow> operation E dt1 dt2 \<Longrightarrow> session dt dt2"

lemma session_grows: "session dt dt' \<Longrightarrow> grows dt dt'"
  by (induction rule: session.induct) (auto intro: grows_trans operation_grows)

text \<open>
  C14. The shape of the disk is a type of all operations: on any image whose regions have the
  sizes its superblock says -- its chains, directories and block lists may be corrupt -- and
  with an allocator that may fail, any sequence of calls of \<open>c_open\<close>, \<open>c_mkdir\<close>, \<open>c_rmdir\<close>,
  \<open>c_remove\<close>, \<open>c_move\<close>, \<open>c_chown\<close>, \<open>c_chmod\<close> and \<open>c_write\<close> that return, on whatever arguments and
  with whatever results, leaves such an image, with the same sector size and no fewer sectors.
\<close>

theorem operations_keep_shape:
  assumes "geometry dt" and "session dt dt'"
  shows "geometry dt' \<and> bps dt' = bps dt \<and> nsec dt \<le> nsec dt' \<and> dt_size dt \<le> dt_size dt'"
  using session_grows [OF assms(2)] assms(1) by (simp add: grows_def)

text \<open>A corrupt image, for the witness: the chain of its one sector is a cycle.\<close>

definition cyclic_disk :: dtree where
  "cyclic_disk = tiny_disk\<lparr>fat_p := 0 # replicate 127 FREESEC\<rparr>"

lemma cyclic_disk_chmod: "\<exists>dt'. c_chmod calm_env cyclic_disk [SLASH] 7 0 = Some (0, dt')"
proof -
  have d: "data cyclic_disk = replicate 512 0" "bps cyclic_disk = BYTSPERSEC"
    by (simp_all add: cyclic_disk_def tiny_disk_def)
  have z: "dec_w (slice 8 4 (replicate 16 0)) = (0 :: u32_t)" by code_simp
  obtain e where e: "get_entry (data cyclic_disk) 0 = Some e" "fe_fb e = 0"
    unfolding d by (simp add: get_at_def rd_def dec_entry_def z)
  obtain m where m: "read_meta cyclic_disk 0 = Some m"
    by (simp add: read_meta_def get_at_def rd_def d)
  have "\<exists>dt'. write_meta cyclic_disk 0 m' = Some dt'" for m'
    by (simp add: write_meta_def d meta.put_some)
  then obtain f where "write_meta cyclic_disk 0 m' = Some (f m')" for m' by metis
  with e m show ?thesis by (simp add: c_chmod_def c_lookup_def own_check_def)
qed

theorem operations_keep_shape_witness:
  "\<exists>dt'. c_chmod calm_env cyclic_disk [SLASH] 7 0 = Some (0, dt') \<and> geometry dt' \<and> bps dt' = 512"
proof -
  have g: "geometry cyclic_disk" "bps cyclic_disk = 512"
    using wf_geom_geometry [OF tiny_disk_wf]
    by (simp_all add: cyclic_disk_def geometry_def Let_def) (simp_all add: tiny_disk_def BYTSPERSEC_def)
  obtain dt' where c: "c_chmod calm_env cyclic_disk [SLASH] 7 0 = Some (0, dt')"
    using cyclic_disk_chmod by blast
  have "session cyclic_disk dt'"
    using session_call [OF session_none malloc_ok_sane [OF calm_env_ok] operation.intros(7) [OF c]] .
  from operations_keep_shape [OF g(1) this] g(2) c show ?thesis by auto
qed

end
