(* ===== verification/ClientFdsSpec.thy ===== *)
theory ClientFdsSpec
  imports ClientFds ClusterSpec
begin

text \<open>
  The client's table of open files, for every behaviour of the control node: which slot
  \<open>sbp_open\<close> takes, what it puts there, and what becomes of it.
\<close>

section \<open>Requests and the table\<close>

lemma exchange_session:
  "exchange E stack P w c host port es = Some (r, c', w') \<Longrightarrow> same_session c c'"
  by (auto simp: exchange_def Let_def elim!: bindE split: option.splits sum.splits if_splits prod.splits)

lemma call_fds: "call E stack P w c es = Some (r, c', w') \<Longrightarrow> fds c' = fds c"
  unfolding call_def by (drule exchange_session, drule same_session_fields) simp

lemma fds_errs [simp]: "fds (note_errs E es c) = fds c" "fds (not_ok E head c) = fds c"
  by (simp_all add: note_errs_def not_ok_def)

lemma fds_get_errs [simp]: "fds_get (note_errs E es c) i = fds_get c i" "fds_get (not_ok E head c) i = fds_get c i"
  by (simp_all add: fds_get_def)

lemma fds_setE:
  assumes "fds_set c fd x = Some c'"
  obtains "0 \<le> fd" "nat fd < length (fds c)" "fds c' = (fds c)[nat fd := x]"
  using assms by (auto simp: fds_set_def split: if_splits)

text \<open>Closing: confirmed, the table stays as it is; otherwise the slot is emptied, if anything.\<close>

lemma close_table:
  assumes "sbp_close E stack P fd w c = Some (r, c', w')"
  shows "r = 0 \<and> fds c' = fds c \<and> (\<exists>d. fds_get c fd = Some (Some d))
    \<or> r = - 1 \<and> (fds c' = fds c \<or> 0 \<le> fd \<and> fds c' = (fds c)[nat fd := None])"
  using assms unfolding sbp_close_def
  by (auto elim!: bindE fds_setE dest!: call_fds split: if_splits option.splits reply.splits)

lemma slot_loop_some:
  "slot_loop fs k = Some i \<Longrightarrow> \<exists>j<length fs. i = k + j \<and> fs ! j = None \<and> None \<notin> set (take j fs)"
proof (induction fs k rule: slot_loop.induct)
  case (3 d fs k)
  then obtain j where "j < length fs" "i = Suc k + j" "fs ! j = None" "None \<notin> set (take j fs)" by auto
  then show ?case by (intro exI [of _ "Suc j"]) simp
qed auto

lemma get_slot_cases:
  assumes "get_slot E c = (fd, c')"
  obtains (slot) i where "fd = int i" "c' = c" "i < length (fds c)" "fds c ! i = None" "None \<notin> set (take i (fds c))"
  | (full) "fd = - 1" "fds c' = fds c"
  using assms slot_loop_some [of "fds c" 0] by (auto simp: get_slot_def split: option.splits)

text \<open>What \<open>sbp_open\<close> leaves in the slot it took.\<close>

definition opened :: "buf \<Rightarrow> u32_t \<Rightarrow> sbp_filedesc \<Rightarrow> bool" where
  "opened filename oflag d \<longleftrightarrow> fd_filename d = filename \<and> fd_oflag d = oflag \<and> fd_offset d = 0 \<and> fd_type d = T_FILE"

lemma open_reply_opened:
  "open_reply head (new_fd\<lparr>fd_filename := filename, fd_oflag := oflag, fd_type := T_FILE\<rparr>) = Some (Inr d)
    \<Longrightarrow> opened filename oflag d"
  by (auto simp: open_reply_def opened_def new_fd_def Let_def elim!: bindE split: option.splits if_splits)

text \<open>At most the slot changed.\<close>

definition touched :: "int \<Rightarrow> sbp_filedesc option list \<Rightarrow> sbp_filedesc option list \<Rightarrow> bool" where
  "touched slot fs fs' \<longleftrightarrow> fs' = fs \<or> 0 \<le> slot \<and> (\<exists>x. fs' = fs[nat slot := x])"

lemma touched_intros [simp]: "touched slot fs fs" "0 \<le> slot \<Longrightarrow> touched slot fs (fs[nat slot := x])"
  by (auto simp: touched_def)

lemma copy_name_short:
  assumes "copy_name E filename = Some (Some nm)" and "malloc_ok E"
  shows "nm = filename \<and> length filename < 8"
proof -
  obtain b where b: "malloc E szof_size_t = Some b" "length b = szof_size_t" using assms(2) by (rule malloc_okE)
  then show ?thesis
    using assms(1) by (auto simp: copy_name_def wr_def szof_size_t_def elim!: bindE split: if_splits)
qed

lemma open_table:
  assumes "sbp_open E stack P filename oflag mode w c = Some (fd, c', w')" and "malloc_ok E"
    and "get_slot E c = (slot, c0)"
  shows "(fd = - 1 \<or> fd = slot \<and> 0 \<le> slot \<and> length filename < 8
        \<and> (\<exists>d. opened filename oflag d \<and> fds c' = (fds c0)[nat slot := Some d]))
    \<and> touched slot (fds c0) (fds c')"
  using assms(1) unfolding sbp_open_def assms(3) Let_def split
  by (auto elim!: bindE fds_setE dest!: call_fds copy_name_short [OF _ assms(2)] close_table open_reply_opened
      split: if_splits option.splits reply.splits sum.splits) blast

section \<open>The properties\<close>

text \<open>
  C29. Opening, whatever the control node answers: \<open>sbp_open\<close> returns -1 or the first free
  slot of the table, which then holds the name and the flags of the file, with the offset at
  0; the slots in use do not change, on failure neither. A descriptor is returned only for
  names of less than eight characters: a longer one does not fit the copy the code
  allocates, and the behaviour is undefined.
\<close>

theorem sbp_open_spec:
  assumes "sbp_open E stack P filename oflag mode w c = Some (fd, c', w')" and "malloc_ok E"
  shows "(fd = - 1 \<or> 0 \<le> fd \<and> nat fd < length (fds c) \<and> fds c ! nat fd = None \<and> None \<notin> set (take (nat fd) (fds c))
      \<and> length filename < 8
      \<and> (\<exists>d. fds c' = (fds c)[nat fd := Some d] \<and> fd_filename d = filename \<and> fd_oflag d = oflag
          \<and> fd_offset d = 0 \<and> fd_type d = T_FILE))
    \<and> (\<forall>i<length (fds c). fds c ! i \<noteq> None \<longrightarrow> fds c' ! i = fds c ! i)"
proof -
  obtain slot c0 where g: "get_slot E c = (slot, c0)" by (cases "get_slot E c")
  note o = open_table [OF assms g]
  show ?thesis
  proof (cases rule: get_slot_cases [OF g])
    case (1 i)
    then have "fds c' ! j = fds c ! j" if "fds c ! j \<noteq> None" for j
      using o that by (cases "j = i") (auto simp: touched_def)
    then show ?thesis using o 1 by (auto simp: opened_def)
  next
    case 2
    then show ?thesis using o by (auto simp: touched_def)
  qed
qed

section \<open>Opening and closing, again and again\<close>

text \<open>
  A client that only opens and closes files, each time with success, while the control node
  answers as it likes.
\<close>

inductive cycles :: "env \<Rightarrow> buf \<Rightarrow> 'w peer \<Rightarrow> nat \<Rightarrow> client \<Rightarrow> bool" for E stack P where
  start: "cycles E stack P 0 init_client"
| again: "cycles E stack P n c \<Longrightarrow> sbp_open E stack P filename oflag mode w c = Some (fd, c1, w1) \<Longrightarrow> 0 \<le> fd \<Longrightarrow>
    sbp_close E stack P fd w2 c1 = Some (0, c2, w3) \<Longrightarrow> cycles E stack P (Suc n) c2"

inductive_cases cyclesE: "cycles E stack P n c"

definition free_slots :: "client \<Rightarrow> nat" where
  "free_slots c = length (filter (\<lambda>x. x = None) (fds c))"

lemma free_slots_taken:
  "i < length fs \<Longrightarrow> fs ! i = None \<Longrightarrow>
    Suc (length (filter (\<lambda>x. x = None) (fs[i := Some d]))) = length (filter (\<lambda>x. x = None) fs)"
proof (induction fs arbitrary: i)
  case (Cons x fs)
  then show ?case by (cases i) auto
qed simp

lemma open_takes_slot:
  assumes "sbp_open E stack P filename oflag mode w c = Some (fd, c', w')" and "malloc_ok E" and "0 \<le> fd"
  shows "Suc (free_slots c') = free_slots c"
proof -
  obtain slot c0 where g: "get_slot E c = (slot, c0)" by (cases "get_slot E c")
  show ?thesis
    using open_table [OF assms(1,2) g] assms(3) free_slots_taken
    by (cases rule: get_slot_cases [OF g]) (auto simp: free_slots_def)
qed

lemma close_keeps_slots:
  "sbp_close E stack P fd w c = Some (0, c', w') \<Longrightarrow> free_slots c' = free_slots c"
  using close_table [of E stack P fd w c 0 c' w'] by (simp add: free_slots_def)

text \<open>
  C30. Descriptors run out: a successful \<open>sbp_close\<close> does not give its slot back, so after \<open>n\<close> files
  opened and closed one after the other, the table has lost \<open>n\<close> of its 4096 slots, and no client
  can do it more than 4096 times.
\<close>

theorem descriptors_run_out:
  assumes "cycles E stack P n c" and "malloc_ok E"
  shows "n + free_slots c = 4096"
  using assms(1)
proof induction
  case start
  then show ?case by (simp add: free_slots_def init_client_def MAX_FILE_OPEN_def)
next
  case again
  then show ?case using open_takes_slot [OF _ assms(2)] close_keeps_slots by (metis add_Suc add_Suc_right)
qed

section \<open>A control node that opens and closes\<close>

text \<open>For the witnesses: one reply, with a descriptor in it, to every request.\<close>

definition granted :: sbpfs_head where
  "granted = \<lparr>hd_len = 0, hd_title = REQUEST_OK,
     hd_entrys = [(CONTENT_LEN, sdec 0), (FILE_DESC, sdec 5), (AUTH_CODE, [])]\<rparr>"

abbreviation generous :: "cluster peer" where
  "generous \<equiv> cluster_peer calm_env (replicate 4096 7) [] (\<lambda>_. head_bytes granted)"

lemma granted_good: "good_reply granted []"
proof -
  have "plain_head granted"
    using plain_sdec [of 0] plain_sdec [of 5] REQUEST_OK_plain
    by (simp add: plain_head_def granted_def plain_entries_def CONTENT_LEN_bytes FILE_DESC_def AUTH_CODE_def lit_def)
      (simp add: plain_def)
  moreover have "announces granted 0"
    unfolding granted_def using announces_reply [OF REQUEST_OK_plain(1,2), of 0 0] by simp
  moreover have "length (head_bytes granted) \<le> BUF_SIZE"
    by (simp add: head_bytes_def granted_def entry_bytes_def sdec_def udec.simps CONTENT_LEN_bytes FILE_DESC_def
        AUTH_CODE_def REQUEST_OK_def lit_def BUF_SIZE_def)
  ultimately show ?thesis by (simp add: good_reply_def granted_def REQUEST_OK_def lit_def)
qed

lemma generous_call:
  assumes c: "session_ok calm_env (replicate 4096 7) [] c" and es: "length es \<le> 30"
    "length (concat (map entry_bytes es)) < 2 ^ 30"
  shows "\<exists>rec c'. call calm_env (replicate 4096 7) generous w c es
      = Some (Reply (granted\<lparr>hd_len := word_of_nat (length (head_bytes granted))\<rparr>) rec, c', w) \<and> same_session c c'"
proof -
  have c': "length (replicate 4096 (7 :: u8_t)) = BUF_SIZE" "10 \<notin> set (replicate 4096 (7 :: u8_t))"
    "fits (sbp_user c) (sbp_pass c) []" using c by (simp_all add: session_ok_def)
  define q where "q = \<lparr>hd_len = 0, hd_title = PROTOCOL,
     hd_entrys = (USER, lit ''Client_'' @ sbp_user c) # (PASS, sbp_pass c) # es\<rparr>"
  have q: "request_head (sbp_user c) (sbp_pass c) es = Some q"
    using c'(3) by (simp add: request_head_def q_def fits_def TRAN_USERNAME_LEN_def MAX_USERNAME_LEN_def)
  have l: "length (hd_entrys q) \<le> 32" "length (head_bytes q) < 2 ^ 31"
    using es c'(3)
    by (simp_all add: q_def head_bytes_def entry_bytes_def length_names fits_def MAX_USERNAME_LEN_def
        MAX_PASSWORD_LEN_def lit_def)
  have up: "p_connect generous w (sbp_host c) CNODE_SERVICE_PORT = Inr kernel"
    "p_answer generous w (sbp_host c) CNODE_SERVICE_PORT (head_bytes q) = (stream (cl_mtu w) (head_bytes granted @ []), w)"
    by (simp_all add: cluster_peer_def)
  show ?thesis
    unfolding call_def using exchange_reply [OF calm_env_ok c' q l up granted_good] by blast
qed

lemma granted_values:
  "is_ok (granted\<lparr>hd_len := x\<rparr>)"
  "get_head_entry_value (granted\<lparr>hd_len := x\<rparr>) FILE_DESC = Some (sdec 5)"
  "get_head_entry_value (granted\<lparr>hd_len := x\<rparr>) AUTH_CODE = Some []"
  by (simp_all add: is_ok_def granted_def starts_prefix get_head_entry_value_def FILE_DESC_def AUTH_CODE_def
      CONTENT_LEN_bytes lit_def)

lemma generous_open:
  assumes "session_ok calm_env (replicate 4096 7) [] c" and "get_slot calm_env c = (int i, c)" and "i < length (fds c)"
  shows "\<exists>c1. sbp_open calm_env (replicate 4096 7) generous [97] 1 0 w c = Some (int i, c1, w)
    \<and> same_login c c1 \<and> fds c1 = (fds c)[i := Some (new_fd\<lparr>fd_server_fd := 5, fd_oflag := 1, fd_type := T_FILE, fd_filename := [97]\<rparr>)]"
proof -
  let ?es = "args (lit ''OPEN'') [[97], zdec 8 (sint (1 :: u32_t)), zdec 4 (int (unat (0 :: u16_t)))]"
  have "length ?es \<le> 30" "length (concat (map entry_bytes ?es)) < 2 ^ 30"
    by (simp_all add: args_def no_content_def entry_bytes_def zdec_def zpad_def udec.simps lit_def length_names
        Arg0_def Arg1_def Arg2_def CONTENT_LEN_bytes METHOD_def ARGC_def)
  then obtain r c' where c': "call calm_env (replicate 4096 7) generous w c ?es
      = Some (Reply (granted\<lparr>hd_len := word_of_nat (length (head_bytes granted))\<rparr>) r, c', w)" "same_session c c'"
    using generous_call [OF assms(1)] by blast
  have f: "fds c' = fds c" using same_session_fields [OF c'(2)] by simp
  have n: "copy_name calm_env [97] = Some (Some [97])"
    by (simp add: copy_name_def calm_env_def szof_size_t_def mem_simps)
  have m: "malloc calm_env k \<noteq> None" for k by (simp add: calm_env_def)
  have o: "open_reply (granted\<lparr>hd_len := x\<rparr>) d = Some (Inr (d\<lparr>fd_server_fd := 5, fd_auth_code := []\<rparr>))" for x d
    by (simp add: open_reply_def granted_values atoll_sdec AUTH_CODE_LEN_def)
  show ?thesis
    using c'(1) assms(3) m same_login_session [OF c'(2)]
    by (auto simp: sbp_open_def assms(2) granted_values n o fds_set_def f same_login_def new_fd_def split: option.splits)
qed

lemma generous_close:
  assumes "session_ok calm_env (replicate 4096 7) [] c" and "fds_get c fd = Some (Some d)" and "fd_server_fd d = 5"
  shows "\<exists>c'. sbp_close calm_env (replicate 4096 7) generous fd w c = Some (0, c', w)"
proof -
  let ?es = "args (lit ''CLOSE'') [sdec (sint (5 :: u64_t))]"
  have "length ?es \<le> 30" "length (concat (map entry_bytes ?es)) < 2 ^ 30"
    by (simp_all add: args_def no_content_def entry_bytes_def sdec_def udec.simps lit_def length_names
        Arg0_def Arg1_def Arg2_def CONTENT_LEN_bytes METHOD_def ARGC_def)
  then obtain r c' where c': "call calm_env (replicate 4096 7) generous w c ?es
      = Some (Reply (granted\<lparr>hd_len := word_of_nat (length (head_bytes granted))\<rparr>) r, c', w)"
    using generous_call [OF assms(1)] by blast
  have "\<not> fd < 0" using assms(2) by (simp add: fds_get_def split: if_splits)
  then show ?thesis using c' assms(2,3) by (simp add: sbp_close_def granted_values)
qed

lemma init_session: "session_ok calm_env (replicate 4096 7) [] init_client"
  using small_session by (simp add: session_ok_def small_client_def)

lemma init_slot: "get_slot calm_env init_client = (int 0, init_client)" "0 < length (fds init_client)"
proof -
  have "slot_loop (replicate (Suc n) None) 0 = Some 0" for n by simp
  from this [of 4095] show "get_slot calm_env init_client = (int 0, init_client)"
    by (simp add: get_slot_def init_client_def MAX_FILE_OPEN_def)
  show "0 < length (fds init_client)" by (simp add: init_client_def MAX_FILE_OPEN_def)
qed

theorem sbp_open_spec_witness:
  "\<exists>c'. sbp_open calm_env (replicate 4096 7) generous [97] 1 0 small_cluster init_client = Some (0, c', small_cluster)
    \<and> fds init_client ! 0 = None
    \<and> (\<exists>d. fds c' = (fds init_client)[0 := Some d] \<and> fd_filename d = [97] \<and> fd_oflag d = 1)"
proof -
  obtain c' where c': "sbp_open calm_env (replicate 4096 7) generous [97] 1 0 small_cluster init_client
      = Some (0, c', small_cluster)"
    using generous_open [OF init_session init_slot, of small_cluster] by auto
  from sbp_open_spec [OF this calm_env_ok] this show ?thesis by auto
qed

theorem descriptors_run_out_witness:
  "\<exists>c. cycles calm_env (replicate 4096 7) generous 1 c \<and> free_slots c = 4095"
proof -
  obtain c1 where c1: "sbp_open calm_env (replicate 4096 7) generous [97] 1 0 small_cluster init_client
      = Some (int 0, c1, small_cluster)" "same_login init_client c1"
    "fds c1 = (fds init_client)[0 := Some (new_fd\<lparr>fd_server_fd := 5, fd_oflag := 1, fd_type := T_FILE, fd_filename := [97]\<rparr>)]"
    using generous_open [OF init_session init_slot] by blast
  have "fds_get c1 (int 0) = Some (Some (new_fd\<lparr>fd_server_fd := 5, fd_oflag := 1, fd_type := T_FILE, fd_filename := [97]\<rparr>))"
    using init_slot(2) by (simp add: fds_get_def c1(3))
  from generous_close [OF same_login_session_ok [OF c1(2) init_session] this] obtain c2 where
    "sbp_close calm_env (replicate 4096 7) generous (int 0) small_cluster c1 = Some (0, c2, small_cluster)"
    by auto
  then have "cycles calm_env (replicate 4096 7) generous (Suc 0) c2"
    using c1(1) by (intro cycles.again [OF cycles.start]) auto
  with descriptors_run_out [OF this calm_env_ok] show ?thesis by (intro exI [of _ c2]) simp
qed

end
