(* ===== verification/ClientPy.thy ===== *)
theory ClientPy
  imports LibCfs ClientBlocks
begin

text \<open>
  The Python bindings of the client (\<open>libpy/sbpfs_py.c\<close>): each calls one function of \<open>libc/\<close>
  and makes a Python value of what it returns. Parsing of the arguments is left to Python;
  the functions here take the parsed values, at the widths of the format strings (a mode of
  \<open>sbp_open\<close> is a byte there). A Python string has no NUL.
\<close>

section \<open>Session\<close>

text \<open>\<open>Py_BuildValue("i", \<dots>)\<close> takes an \<open>int\<close>.\<close>

definition as_int :: "int \<Rightarrow> py" where
  "as_int r = PyInt (sint (word_of_int r :: u32_t))"

definition wrap_sbp_login :: "buf \<Rightarrow> buf \<Rightarrow> client \<Rightarrow> py \<times> client" where
  "wrap_sbp_login username password c = map_prod PyInt id (sbp_login username password c)"

definition wrap_sbp_sethost :: "buf \<Rightarrow> client \<Rightarrow> py \<times> client" where
  "wrap_sbp_sethost hostname c = map_prod PyInt id (sbp_sethost hostname c)"

text \<open>
  The result of \<open>sbp_getUandP\<close> is not looked at. When there is no memory for the name, both
  pointers are null and become \<open>None\<close>; when there is none for the password, the name was
  freed and is used all the same.
\<close>

definition wrap_sbp_getUandP :: "env \<Rightarrow> client \<Rightarrow> py option" where
  "wrap_sbp_getUandP E c = do {
     u \<leftarrow> sbp_getusername E c;
     case u of
       None \<Rightarrow> Some (PyDict [(lit ''username'', PyNone), (lit ''password'', PyNone)])
     | Some usr \<Rightarrow> do {
         p \<leftarrow> sbp_getpassword E c;
         case p of
           None \<Rightarrow> None
         | Some pass \<Rightarrow> Some (PyDict [(lit ''username'', PyBytes usr), (lit ''password'', PyBytes pass)])
       }
   }"

definition wrap_sbp_perror :: "buf \<Rightarrow> client \<Rightarrow> py \<times> buf list \<times> client" where
  "wrap_sbp_perror str c = (let (out, tr) = sbp_perror str (err_trace c) in (PyNone, out, c\<lparr>err_trace := tr\<rparr>))"

section \<open>Operations with a result code\<close>

definition coded :: "(int \<times> client \<times> 'w) option \<Rightarrow> (py \<times> client \<times> 'w) option" where
  "coded r = map_option (map_prod PyInt id) r"

definition wrap_sbp_chmod ::
  "env \<Rightarrow> buf \<Rightarrow> 'w peer \<Rightarrow> buf \<Rightarrow> u16_t \<Rightarrow> 'w \<Rightarrow> client \<Rightarrow> (py \<times> client \<times> 'w) option" where
  "wrap_sbp_chmod E stack P filename mode w c = coded (sbp_chmod E stack P filename mode w c)"

definition wrap_sbp_chown ::
  "env \<Rightarrow> buf \<Rightarrow> 'w peer \<Rightarrow> buf \<Rightarrow> buf \<Rightarrow> 'w \<Rightarrow> client \<Rightarrow> (py \<times> client \<times> 'w) option" where
  "wrap_sbp_chown E stack P filename username w c = coded (sbp_chown E stack P filename username w c)"

definition wrap_sbp_open ::
  "env \<Rightarrow> buf \<Rightarrow> 'w peer \<Rightarrow> buf \<Rightarrow> u32_t \<Rightarrow> u8_t \<Rightarrow> 'w \<Rightarrow> client \<Rightarrow> (py \<times> client \<times> 'w) option" where
  "wrap_sbp_open E stack P filename oflag mode w c = coded (sbp_open E stack P filename oflag (ucast mode) w c)"

definition wrap_sbp_opendir :: "env \<Rightarrow> buf \<Rightarrow> 'w peer \<Rightarrow> buf \<Rightarrow> 'w \<Rightarrow> client \<Rightarrow> (py \<times> client \<times> 'w) option" where
  "wrap_sbp_opendir E stack P filename w c = coded (sbp_opendir E stack P filename w c)"

definition wrap_sbp_remove :: "env \<Rightarrow> buf \<Rightarrow> 'w peer \<Rightarrow> buf \<Rightarrow> 'w \<Rightarrow> client \<Rightarrow> (py \<times> client \<times> 'w) option" where
  "wrap_sbp_remove E stack P filename w c = coded (sbp_remove E stack P filename w c)"

definition wrap_sbp_mkdir :: "env \<Rightarrow> buf \<Rightarrow> 'w peer \<Rightarrow> buf \<Rightarrow> 'w \<Rightarrow> client \<Rightarrow> (py \<times> client \<times> 'w) option" where
  "wrap_sbp_mkdir E stack P filename w c = coded (sbp_mkdir E stack P filename w c)"

definition wrap_sbp_rmdir :: "env \<Rightarrow> buf \<Rightarrow> 'w peer \<Rightarrow> buf \<Rightarrow> 'w \<Rightarrow> client \<Rightarrow> (py \<times> client \<times> 'w) option" where
  "wrap_sbp_rmdir E stack P filename w c = coded (sbp_rmdir E stack P filename w c)"

definition wrap_sbp_move ::
  "env \<Rightarrow> buf \<Rightarrow> 'w peer \<Rightarrow> buf \<Rightarrow> buf \<Rightarrow> 'w \<Rightarrow> client \<Rightarrow> (py \<times> client \<times> 'w) option" where
  "wrap_sbp_move E stack P dst src w c = coded (sbp_move E stack P dst src w c)"

definition wrap_sbp_seek :: "u64_t \<Rightarrow> u64_t \<Rightarrow> client \<Rightarrow> (py \<times> client) option" where
  "wrap_sbp_seek fd offset c = map_option (map_prod as_int id) (sbp_seek (sint fd) offset c)"

text \<open>Closing gives \<open>None\<close>, whatever happened.\<close>

definition wrap_sbp_close :: "env \<Rightarrow> buf \<Rightarrow> 'w peer \<Rightarrow> u32_t \<Rightarrow> 'w \<Rightarrow> client \<Rightarrow> (py \<times> client \<times> 'w) option" where
  "wrap_sbp_close E stack P fd w c =
     map_option (map_prod (\<lambda>_. PyNone) id) (sbp_close E stack P (sint fd) w c)"

definition wrap_sbp_closedir :: "env \<Rightarrow> buf \<Rightarrow> 'w peer \<Rightarrow> u32_t \<Rightarrow> 'w \<Rightarrow> client \<Rightarrow> (py \<times> client \<times> 'w) option" where
  "wrap_sbp_closedir E stack P dirfd w c =
     map_option (map_prod (\<lambda>_. PyNone) id) (sbp_closedir E stack P (sint dirfd) w c)"

section \<open>Directory entries and attributes\<close>

text \<open>
  Behind the 256 characters of the name lies padding of a static object, which is zero: the
  length of the name is at most 256.
\<close>

definition wrap_sbp_readdir :: "env \<Rightarrow> buf \<Rightarrow> 'w peer \<Rightarrow> u32_t \<Rightarrow> 'w \<Rightarrow> client \<Rightarrow> (py \<times> client \<times> 'w) option" where
  "wrap_sbp_readdir E stack P fd w c = do {
     (result, c, w) \<leftarrow> sbp_readdir E stack P (sint fd) w c;
     case result of
       None \<Rightarrow> Some (PyNone, c, w)
     | Some r \<Rightarrow> Some (PyTuple [PyInt (int (unat (d_offset r))),
         PyBytes (if d_type r = T_DIR then lit ''directory'' else lit ''file''),
         PyBytes (takeWhile (\<lambda>b. b \<noteq> 0) (d_name r))], c, w)
   }"

definition wrap_sbp_stat :: "env \<Rightarrow> buf \<Rightarrow> 'w peer \<Rightarrow> buf \<Rightarrow> 'w \<Rightarrow> client \<Rightarrow> (py \<times> client \<times> 'w) option" where
  "wrap_sbp_stat E stack P filename w c = do {
     (ret, c, w) \<leftarrow> sbp_stat E stack P filename w c;
     case ret of
       None \<Rightarrow> Some (PyNone, c, w)
     | Some s \<Rightarrow> Some (PyDict [
         (lit ''size'', PyInt (int (unat (fs_size s)))),
         (lit ''access_time'', PyInt (int (unat (fs_atime s)))),
         (lit ''modify_time'', PyInt (int (unat (fs_mtime s)))),
         (lit ''create_time'', PyInt (int (unat (fs_ctime s)))),
         (lit ''mode'', PyInt (int (unat (fs_mode s)))),
         (lit ''owner'', PyInt (sint (fs_owner s)))], c, w)
   }"

section \<open>Data\<close>

text \<open>
  Reading makes a string of the whole buffer of \<open>length\<close> bytes; the number of bytes that
  \<open>sbp_read\<close> returned is not used. \<open>Py_BuildValue\<close> takes the length of the string as an \<open>int\<close>, so
  it has to fit.
\<close>

definition wrap_sbp_read ::
  "env \<Rightarrow> buf \<Rightarrow> 'w peer \<Rightarrow> u32_t \<Rightarrow> u64_t \<Rightarrow> client \<Rightarrow> 'w \<Rightarrow> (py \<times> client \<times> 'w) option" where
  "wrap_sbp_read E stack P fd len c w = (case malloc E (unat len) of
       None \<Rightarrow> Some (PyNone, c, w)
     | Some rec_buf \<Rightarrow> do {
         (result, rec_buf, c, w) \<leftarrow> sbp_read E stack P (sint fd) rec_buf len c w;
         if 2 ^ 31 \<le> unat len then None else do {
           temp \<leftarrow> rd rec_buf 0 (unat len);
           Some (PyBytes temp, c, w)
         }
       })"

text \<open>
  Writing hands the string over with a length of its own, the third argument, which nobody
  compares with that of the string.
\<close>

definition wrap_sbp_write ::
  "env \<Rightarrow> buf \<Rightarrow> 'w peer \<Rightarrow> u32_t \<Rightarrow> buf \<Rightarrow> u64_t \<Rightarrow> client \<Rightarrow> 'w \<Rightarrow> (py \<times> client \<times> 'w) option" where
  "wrap_sbp_write E stack P fd send_buf len c w =
     map_option (map_prod as_int id) (sbp_write E stack P (sint fd) send_buf len c w)"

text \<open>\<open>sbp_test\<close> (\<open>libc/open.c\<close>) sends anything to any host; 8000 bytes of the reply are returned.\<close>

definition sbp_test ::
  "env \<Rightarrow> buf \<Rightarrow> 'w peer \<Rightarrow> buf \<Rightarrow> u64_t \<Rightarrow> buf \<Rightarrow> u32_t \<Rightarrow> client \<Rightarrow> 'w \<Rightarrow> (buf option \<times> client \<times> 'w) option" where
  "sbp_test E stack P dat len target port c w = do {
     (rec_buf, errs, w) \<leftarrow> sendrec_hostname E stack P w target (unat port) dat (unat len);
     let c = note_errs E errs c;
     case rec_buf of
       None \<Rightarrow> Some (None, c\<lparr>err_trace := snd (sbp_perror (lit ''TEST Failed'') (err_trace c))\<rparr>, w)
     | Some rec_buf \<Rightarrow> Some (Some rec_buf, c, w)
   }"

definition wrap_sbp_test ::
  "env \<Rightarrow> buf \<Rightarrow> 'w peer \<Rightarrow> buf \<Rightarrow> u64_t \<Rightarrow> buf \<Rightarrow> u32_t \<Rightarrow> client \<Rightarrow> 'w \<Rightarrow> (py \<times> client \<times> 'w) option" where
  "wrap_sbp_test E stack P str len target port c w = do {
     (result, c, w) \<leftarrow> sbp_test E stack P (str @ [0]) len target port c w;
     case result of
       None \<Rightarrow> Some (PyNone, c, w)
     | Some rec_buf \<Rightarrow> do { s \<leftarrow> rd rec_buf 0 8000; Some (PyBytes s, c, w) }
   }"

end
