(* ===== verification/ClientPySpec.thy ===== *)
theory ClientPySpec
  imports ClientPy WholeFile
begin

text \<open>
  What a Python program gets from the bindings of the client: a read hands out the whole
  buffer, the file's bytes in front.
\<close>

text \<open>
  C34. Reading from Python: with a file represented by the control node and its data nodes and
  open at an offset in its first 16 MiB, \<open>read(fd, length)\<close> returns, when the control node
  answers as \<open>__sendrep\<close> does with all or some of the nodes of each entry, a string of \<open>length\<close> bytes whatever is left of the file: first
  the bytes of the file from the offset on, then -- when the file ends before -- what the
  allocated memory happened to hold. Nothing tells the program how many bytes were read. The
  length is positive and below 2 GiB, the offset before the end of the file, the file below 256
  TiB with block numbers below 10, which a data node can name, and copies of the full 16 MiB
  (\<open>file_of\<close>), and the session is in order (\<open>session_ok\<close>: user, password and code fit, no
  \<open>malloc\<close> fails, and what is left on the stack where a reply is received holds no line feed).
\<close>

theorem python_read_pads:
  assumes "file_of w dt fb bytes" "malloc_ok Ec" "length bytes < 2 ^ 48"
    and "unat (fd_offset d) < BS" "unat (fd_offset d) < length bytes" "0 < len"
    and "session_ok E stack (fd_auth_code d) c" "fds_get c (sint fd) = Some (Some d)" "fd_type d = T_FILE"
    and "n = min (unat len) (length bytes - unat (fd_offset d))" "unat len < 2 ^ 31" "malloc E (unat len) = Some rec_buf"
  shows "\<exists>es. wrap_c_read Ec dt fb (fd_offset d) len uid = Some (PyBytes (concat (map enc_bent es)))
    \<and> (\<forall>ctl. ctl (head_bytes (list_request (lit ''READ'') d len c)) \<in> read_answers es \<longrightarrow>
        (\<exists>c'. wrap_sbp_read E stack (cluster_peer E stack junk ctl) fd len c w
            = Some (PyBytes (take n (drop (unat (fd_offset d)) bytes) @ drop n rec_buf), c', w)))"
proof -
  have "malloc_ok E" using assms(7) by (simp add: session_ok_def)
  then obtain b where "malloc E (unat len) = Some b" "length b = unat len" by (rule malloc_okE)
  then have l: "length rec_buf = unat len" using assms(12) by simp
  then have nl: "n \<le> length rec_buf" using assms(10) by simp
  let ?d = "take n (drop (unat (fd_offset d)) bytes)"
  have "length ?d = n" using assms(5,10) by simp
  then have p: "patch 0 ?d rec_buf = ?d @ drop n rec_buf" "length (?d @ drop n rec_buf) = unat len"
    using nl l by (simp_all add: patch_def)
  have "rd s 0 (length s) = Some s" for s by (simp add: rd_def)
  from this [of "?d @ drop n rec_buf"] have "rd (?d @ drop n rec_buf) 0 (unat len) = Some (?d @ drop n rec_buf)"
    unfolding p(2) .
  then have r: "\<exists>c'. wrap_sbp_read E stack P fd len c w = Some (PyBytes (?d @ drop n rec_buf), c', w)"
    if "sbp_read E stack P (sint fd) rec_buf len c w = Some (int n, patch 0 ?d rec_buf, c', w)" for P c'
    using that assms(11,12) unfolding p(1) by (simp add: wrap_sbp_read_def)
  show ?thesis
    using file_read_bytes [OF assms(1-10) nl, of uid junk] r by blast
qed

theorem python_read_pads_witness:
  "\<exists>es c'. wrap_sbp_read calm_env (replicate 4096 7)
        (cluster_peer calm_env (replicate 4096 7) [] (\<lambda>_. list_answer es)) 0 20000000 file_client full_cluster
      = Some (PyBytes (take 16777306 (drop 10 file_bytes) @ replicate 3222694 0), c', full_cluster)"
proof -
  have m: "malloc calm_env (unat (20000000 :: u64_t)) = Some (replicate 20000000 0)" by (simp add: calm_env_def)
  have n: "16777306 = min (unat (20000000 :: u64_t)) (length file_bytes - unat (fd_offset file_fd))"
    "unat (20000000 :: u64_t) < 2 ^ 31" "length file_bytes < 2 ^ 48" "unat (fd_offset file_fd) < length file_bytes"
    "(0 :: u64_t) < 20000000" "fds_get file_client (sint (0 :: u32_t)) = Some (Some file_fd)"
    using file_open(1) by (simp_all add: full_file(2) file_open(3))
  obtain es where "\<forall>ctl. ctl (head_bytes (list_request (lit ''READ'') file_fd 20000000 file_client)) \<in> read_answers es \<longrightarrow>
        (\<exists>c'. wrap_sbp_read calm_env (replicate 4096 7) (cluster_peer calm_env (replicate 4096 7) [] ctl) 0 20000000
            file_client full_cluster
          = Some (PyBytes (take 16777306 (drop (unat (fd_offset file_fd)) file_bytes)
              @ drop 16777306 (replicate 20000000 0)), c', full_cluster))"
    using python_read_pads [OF full_file(1) calm_env_ok n(3) file_range(1) n(4,5) file_session n(6) file_open(2) n(1,2) m,
        of 5 "[]"] by blast
  from this [rule_format, of "\<lambda>_. list_answer es", OF read_answer_sent] show ?thesis
    by (intro exI [of _ es]) (simp add: file_open(3))
qed

end
