(* ===== verification/NodeMain.thy ===== *)
theory NodeMain
  imports DNodeSpec CNodeReply
begin

text \<open>
  \<open>main\<close> of the data node (\<open>d_node/haha/d_node.c\<close>): it loads its list of blocks, announces
  them to the control node and then serves one connection after the other. What goes over
  the wire is compared with a reference: a map from block numbers to contents and one
  function per request.
\<close>

section \<open>The program\<close>

text \<open>
  What \<open>accept\<close> brings: nothing, or a connection, with whether its thread can be created, what
  \<open>send\<close> takes and what arrives. A thread that fails undefined takes the program down. Each
  thread is taken to end before the next connection arrives.
\<close>

datatype accepted = Refused | Accepted bool sends "event list"

definition szof_list_entry :: nat where "szof_list_entry = 40"

fun accept_loop ::
  "env \<Rightarrow> buf \<Rightarrow> buf \<Rightarrow> accepted list \<Rightarrow> blockman \<Rightarrow> (buf list \<times> blockman) option" where
  "accept_loop E stack junk [] st = Some ([], st)"
| "accept_loop E stack junk (Refused # conns) st = accept_loop E stack junk conns st"
| "accept_loop E stack junk (Accepted created ks es # conns) st =
     (if malloc E szof_list_entry = None \<or> \<not> created then accept_loop E stack junk conns st
      else do {
        (out, st) \<leftarrow> serve E stack junk ks es st;
        (outs, st) \<leftarrow> accept_loop E stack junk conns st;
        Some (out # outs, st)
      })"

text \<open>
  What the control node gets, and what the connections get; \<open>None\<close> for these when the socket
  cannot be set up, which ends the program.
\<close>

definition dnode_main ::
  "env \<Rightarrow> buf \<Rightarrow> buf \<Rightarrow> sends \<Rightarrow> (buf \<Rightarrow> event list) \<Rightarrow> bool \<Rightarrow> bool \<Rightarrow> bool \<Rightarrow> accepted list \<Rightarrow> blockman
    \<Rightarrow> (buf \<times> (buf list \<times> blockman) option) option" where
  "dnode_main E stack junk ks answer created bound listens conns st = do {
     st \<leftarrow> initlist st;
     (out, st) \<leftarrow> send_list E stack ks answer st;
     if \<not> created \<or> \<not> bound \<or> \<not> listens then Some (out, None) else do {
       r \<leftarrow> accept_loop E stack junk conns st;
       Some (out, Some r)
     }
   }"

section \<open>The list of blocks\<close>

definition padded :: "nat \<Rightarrow> buf \<Rightarrow> buf" where "padded n s = s @ replicate (n - length s) 0"

text \<open>The list file: a row with the number of blocks and one for each block.\<close>

definition list_rows :: "u64_t list \<Rightarrow> buf" where
  "list_rows bs = concat (map (\<lambda>b. padded BLOCKNAME (sdec (sint b))) bs)"

definition list_file :: "u64_t list \<Rightarrow> buf \<Rightarrow> buf" where
  "list_file bs rest = padded BLOCKNAME (sdec (int (length bs))) @ list_rows bs @ rest"

text \<open>The globals of the program, with room for 64 names.\<close>

definition node_globals :: "blockman \<Rightarrow> bool" where
  "node_globals st \<longleftrightarrow> length (bm_blocklist st) = 64 \<and> (\<forall>row\<in>set (bm_blocklist st). BLOCKNAME \<le> length row)
     \<and> 64 \<le> length (bm_blolist st)"

text \<open>A node that has a list file of \<open>bs\<close>, or none yet.\<close>

definition lists :: "blockman \<Rightarrow> u64_t list \<Rightarrow> bool" where
  "lists st bs \<longleftrightarrow> length bs \<le> 64 \<and>
     (case bm_files st BLOCKLISTPATH of None \<Rightarrow> bs = [] | Some c \<Rightarrow> \<exists>rest. c = list_file bs rest)"

lemma cstr_at_padded: "0 \<notin> set s \<Longrightarrow> length s < n \<Longrightarrow> cstr_at (padded n s) 0 = Some s"
  by (simp add: padded_def cstr_at_def takeWhile_append)

lemma no_NUL_sdec: "0 \<notin> set (sdec i)"
  using plain_sdec [of i] by (simp add: plain_def)

lemma length_padded: "length s \<le> n \<Longrightarrow> length (padded n s) = n"
  by (simp add: padded_def)

lemma length_row: "length (padded BLOCKNAME (sdec (sint (b :: u64_t)))) = 64"
  using length_sdec_word(1) [of b] by (simp add: length_padded BLOCKNAME_def)

lemma length_list_rows [simp]: "length (list_rows bs) = 64 * length bs"
  unfolding list_rows_def by (induction bs) (simp_all add: length_row del: length_padded)

lemma list_file_entry:
  assumes "i < length bs" and "length bs \<le> 64"
  shows "getlist_entry (list_file bs rest) i = Some (sdec (sint (bs ! i)), bs ! i)"
proof -
  let ?pre = "padded BLOCKNAME (sdec (int (length bs))) @ list_rows (take i bs)"
  let ?row = "padded BLOCKNAME (sdec (sint (bs ! i)))" and ?behind = "list_rows (drop (Suc i) bs) @ rest"
  have "length (sdec (int (length bs))) \<le> BLOCKNAME"
    using length_sdec [of "int (length bs)"] assms(2) by (simp add: BLOCKNAME_def)
  then have pre: "length ?pre = Suc i * BLOCKNAME"
    using assms(1) by (simp add: length_padded BLOCKNAME_def)
  have "list_rows bs = list_rows (take i bs) @ ?row @ list_rows (drop (Suc i) bs)"
    using arg_cong [OF id_take_nth_drop [OF assms(1)], of list_rows] by (simp add: list_rows_def)
  then have "list_file bs rest = ?pre @ ?row @ ?behind" by (simp add: list_file_def)
  moreover have "rd (?pre @ ?row @ ?behind) (length ?pre) BLOCKNAME = Some ?row"
    using length_row [of "bs ! i"] by (simp add: rd_def BLOCKNAME_def)
  ultimately have r: "rd (list_file bs rest) (Suc i * BLOCKNAME) BLOCKNAME = Some ?row" using pre by simp
  have "length (sdec (sint (bs ! i))) < BLOCKNAME"
    using length_sdec_word(1) [of "bs ! i"] by (simp add: BLOCKNAME_def)
  note c = cstr_at_padded [OF no_NUL_sdec this]
  show ?thesis unfolding getlist_entry_def r using sdec64_roundtrip [of "bs ! i"] by (auto simp: c)
qed

lemma node_globals_upd:
  assumes "node_globals st" and "wr (bm_blocklist st ! i) 0 d = Some row" and "i < 64"
  shows "node_globals (st\<lparr>bm_blocklist := (bm_blocklist st)[i := row], bm_blolist := (bm_blolist st)[j := x]\<rparr>)"
  using assms wr_length [OF assms(2)] by (auto simp: node_globals_def dest!: set_update_subset_insert [THEN subsetD])

lemma getlist_loop_reads:
  assumes "i + n = length bs" and "length bs \<le> 64" and "node_globals st" and "take i (bm_blolist st) = take i bs"
  shows "\<exists>st'. getlist_loop (list_file bs rest) i n st = Some st' \<and> node_globals st'
    \<and> bm_files st' = bm_files st \<and> bm_bnum st' = bm_bnum st \<and> take (length bs) (bm_blolist st') = bs"
  using assms
proof (induction n arbitrary: i st)
  case 0
  then show ?case by simp
next
  case (Suc n)
  have i: "i < length bs" "i < 64" using Suc.prems(1,2) by simp_all
  have b: "length (bm_blocklist st) = 64" "64 \<le> length (bm_blolist st)" "BLOCKNAME \<le> length (bm_blocklist st ! i)"
    using Suc.prems(3) i by (auto simp: node_globals_def)
  have "length (sdec (sint (bs ! i)) @ [0]) \<le> length (bm_blocklist st ! i)"
    using length_sdec_word(1) [of "bs ! i"] b(3) by (simp add: BLOCKNAME_def)
  then obtain row where row: "wr (bm_blocklist st ! i) 0 (sdec (sint (bs ! i)) @ [0]) = Some row" by (simp add: wr_def)
  let ?st = "st\<lparr>bm_blocklist := (bm_blocklist st)[i := row], bm_blolist := (bm_blolist st)[i := bs ! i]\<rparr>"
  have "take (Suc i) (bm_blolist ?st) = take (Suc i) bs"
    using Suc.prems(4) i b(2) by (simp add: take_Suc_conv_app_nth)
  from Suc.IH [OF _ Suc.prems(2) node_globals_upd [OF Suc.prems(3) row i(2)] this] Suc.prems(1)
  show ?case using i b row by (auto simp: list_file_entry [OF i(1) Suc.prems(2)])
qed

lemma getlist_reads:
  assumes "node_globals st" and "length bs \<le> 64" and "bm_files st BLOCKLISTPATH = Some (list_file bs rest)"
  shows "\<exists>st'. getlist st = Some (word_of_nat (length bs), st') \<and> node_globals st' \<and> bm_files st' = bm_files st
    \<and> bm_bnum st' = word_of_nat (length bs) \<and> take (length bs) (bm_blolist st') = bs"
proof -
  let ?n = "sdec (int (length bs))"
  have u: "length ?n \<le> 2" using length_udec [of "length bs" 2] assms(2) by (simp add: sdec_def)
  have "rd (list_file bs rest) 0 4 = Some (padded 4 ?n)"
    using u by (simp add: rd_def list_file_def padded_def BLOCKNAME_def take_append)
  moreover have "cstr_at (padded 4 ?n) 0 = Some ?n" using u by (intro cstr_at_padded no_NUL_sdec) simp
  moreover have "atoi ?n = Some (int (length bs))" using assms(2) by (intro atoi_sdec) simp_all
  moreover have "unat (word_of_nat (length bs) :: u64_t) = length bs" using assms(2) by (intro unat_word_of_nat_fit) simp
  moreover have "node_globals (st\<lparr>bm_bnum := word_of_nat (length bs)\<rparr>)" using assms(1) by (simp add: node_globals_def)
  from getlist_loop_reads [OF _ assms(2) this, of 0 "length bs" rest] obtain st' where
    "getlist_loop (list_file bs rest) 0 (length bs) (st\<lparr>bm_bnum := word_of_nat (length bs)\<rparr>) = Some st'"
    "node_globals st'" "bm_files st' = bm_files st" "bm_bnum st' = word_of_nat (length bs)"
    "take (length bs) (bm_blolist st') = bs" by auto
  ultimately show ?thesis by (simp add: getlist_def assms(3))
qed

text \<open>A list file that \<open>initlist\<close> has just made is all zeros, which reads as no blocks.\<close>

lemma getlist_fresh:
  assumes "bm_files st BLOCKLISTPATH = Some (replicate (6401 * 64) 0)"
  shows "getlist st = Some (0, st\<lparr>bm_bnum := 0\<rparr>)"
proof -
  have "rd (replicate (6401 * 64) 0) 0 4 = Some (replicate 4 (0 :: u8_t))" by (simp add: rd_def)
  moreover have "cstr_at (replicate 4 (0 :: u8_t)) 0 = Some []" by (simp add: cstr_at_def numeral_eq_Suc)
  moreover have "atoi [] = Some 0" by (simp add: atoi_def sval_def)
  ultimately show ?thesis unfolding getlist_def assms by simp
qed

lemma block_path_not_list: "block_path b \<noteq> BLOCKLISTPATH"
  by (simp add: block_path_def ROOTPATH_def BLOCKLISTPATH_def lit_def)

lemma initlist_lists:
  assumes "node_globals st" and "lists st bs"
  shows "\<exists>st1 st'. initlist st = Some st1 \<and> getlist st1 = Some (word_of_nat (length bs), st')
    \<and> block_of st' = block_of st \<and> bm_bnum st' = word_of_nat (length bs) \<and> take (length bs) (bm_blolist st') = bs"
proof (cases "bm_files st BLOCKLISTPATH")
  case None
  then have "bs = []" using assms(2) by (simp add: lists_def)
  with None getlist_fresh [of "st\<lparr>bm_files := (bm_files st)(BLOCKLISTPATH \<mapsto> replicate (6401 * 64) 0)\<rparr>"]
  show ?thesis by (auto simp: initlist_def block_of_def fun_eq_iff block_path_not_list)
next
  case (Some c)
  with assms(2) obtain rest where c: "length bs \<le> 64" "c = list_file bs rest" by (auto simp: lists_def)
  from getlist_reads [OF assms(1) c(1)] Some c(2) obtain st1 where st1:
    "getlist st = Some (word_of_nat (length bs), st1)" "node_globals st1" "bm_files st1 = bm_files st" by blast
  with getlist_reads [OF st1(2) c(1), of rest] Some c(2) show ?thesis
    by (auto simp: initlist_def block_of_def fun_eq_iff)
qed

section \<open>The announcement\<close>

definition list_head :: "u64_t list \<Rightarrow> sbpfs_head" where
  "list_head bs = reply_head PROTOCOL [(CONTENT_LEN, sdec (int (8 * length bs))), (USER, lit ''DNode_'' @ dname),
     (lit ''BlockNum'', sdec (int (length bs)))]"

definition announcement :: "u64_t list \<Rightarrow> buf" where
  "announcement bs = head_bytes (list_head bs) @ concat (map (enc_w 8) bs)"

lemma take_numbers: "take (8 * n) (concat (map (enc_w 8) xs)) = concat (map (enc_w 8) (take n xs))" for xs :: "u64_t list"
proof (induction xs arbitrary: n)
  case (Cons x xs)
  then show ?case by (cases n) simp_all
qed simp

lemma list_head_short: "length bs \<le> 64 \<Longrightarrow> length (head_bytes (list_head bs)) < 200"
  using length_sdec [of "int (8 * length bs)"] length_sdec [of "int (length bs)"]
  by (simp add: head_bytes_def list_head_def reply_head_def length_names) (simp add: lit_def dname_def)

lemma get_reply_ok:
  assumes "malloc_ok E" and "length stack = BUF_SIZE" and "10 \<notin> set stack"
    and "\<exists>rep \<in> sendrep []. pieces_of rep es"
  shows "get_reply E stack es = Some 0"
proof -
  from assms(4) obtain h where h: "ok_head h 0" "pieces_of (head_bytes h) es"
    by (auto elim: sendrep_head)
  then have p: "plain_head h" "announces h 0" "hd_title h = REQUEST_OK" "length (head_bytes h) \<le> BUF_SIZE"
    by (simp_all add: ok_head_def BUF_SIZE_def)
  from sbp_recv_whole [OF p(1) _ _ p(4) assms(1-3), of "[]"] p(2) h(2) obtain errs where
    r: "sbp_recv E stack es = Some (Some (head_bytes h @ [0]), errs, [])" by auto
  have "REQUEST_OK \<noteq> []" using REQUEST_OK_plain(3) by auto
  then obtain y where "byte_at (head_bytes h @ [0]) 0 = Some y" "y \<noteq> 0"
    using byte_at_head [of h "[0]"] REQUEST_OK_plain by (auto simp: p(3))
  then show ?thesis by (simp add: get_reply_def r decode_head_bytes [OF p(1) assms(1)] p(3))
qed

lemma send_list_announces:
  assumes E: "malloc_ok E" "length stack = BUF_SIZE" "10 \<notin> set stack" and ks: "ample ks"
    and answer: "\<And>wire. \<exists>rep \<in> sendrep []. pieces_of rep (answer wire)" and n: "length bs \<le> 64"
    and st: "getlist st = Some (word_of_nat (length bs), st')" "bm_bnum st' = word_of_nat (length bs)"
      "take (length bs) (bm_blolist st') = bs"
  shows "send_list E stack ks answer st = Some (announcement bs, st')"
proof -
  obtain k l ks' where k: "ks = k # l # ks'" "2 ^ 62 \<le> k" "2 ^ 62 \<le> l" using ks by (rule ampleE)
  let ?n = "word_of_nat (length bs) :: u64_t"
  have u: "unat (?n * 8) = 8 * length bs" "sint (?n * 8) = int (8 * length bs)" "sint ?n = int (length bs)"
  proof -
    have "?n * 8 = word_of_nat (8 * length bs)" by (simp add: mult.commute)
    then show "unat (?n * 8) = 8 * length bs" "sint (?n * 8) = int (8 * length bs)"
      using n by (simp_all only:) (rule unat_word_of_nat_fit sint_of_nat_fit, simp)+
    show "sint ?n = int (length bs)" using n by (intro sint_of_nat_fit) simp
  qed
  have h: "send_head E (k # l # ks') (list_head bs) = Some (Some (head_bytes (list_head bs), True, l # ks'))"
    using list_head_short [OF n] E(1) k(2) by (intro send_head_all) (simp_all add: list_head_def reply_head_def)
  let ?body = "concat (map (enc_w 8) (bm_blolist st'))"
  have t: "take (8 * length bs) ?body = concat (map (enc_w 8) bs)" by (simp add: take_numbers st(3))
  have "length (bm_blolist st') \<ge> length bs" using arg_cong [OF st(3), of length] by simp
  then have "8 * length bs \<le> length ?body" by (simp add: length_concat o_def sum_list_triv)
  then have b: "sbp_send_once (l # ks') ?body (8 * length bs) = Some (Inr (), concat (map (enc_w 8) bs), ks')"
    using sbp_send_once_all [of "8 * length bs" l ?body ks'] n k(3) by (simp add: t)
  show ?thesis
    using get_reply_ok [OF E answer] h b
    by (simp add: send_list_def st(1,2) u k(1) send_message_def announcement_def list_head_def)
qed

section \<open>The reference\<close>

text \<open>
  A store maps the numbers of blocks to their contents. A request reads, writes, or is one
  whose method the node does not know; the reply to each is a message.
\<close>

datatype request = Read u64_t u32_t u32_t | Write u64_t u32_t buf | Unknown

type_synonym store = "u64_t \<Rightarrow> buf option"

fun answer_to :: "store \<Rightarrow> request \<Rightarrow> buf" where
  "answer_to s (Read b off len) = (case s b of
     None \<Rightarrow> head_bytes (err_reply (lit ''read_block'') (lit ''cannot read block''))
   | Some c \<Rightarrow> head_bytes (sample_reply (unat len)) @ take (unat len) (drop (unat off) c))"
| "answer_to s (Write b off d) = head_bytes (sample_reply 0)"
| "answer_to s Unknown = []"

fun store_after :: "store \<Rightarrow> request \<Rightarrow> store" where
  "store_after s (Write b off d) = s(b := map_option (patch (unat off) d) (s b))"
| "store_after s _ = s"

fun run_store :: "store \<Rightarrow> request list \<Rightarrow> buf list \<times> store" where
  "run_store s [] = ([], s)"
| "run_store s (r # rs) = (let (outs, s') = run_store (store_after s r) rs in (answer_to s r # outs, s'))"

text \<open>Requests inside the blocks; a write needs its block, a read may miss it.\<close>

fun inside_store :: "store \<Rightarrow> request \<Rightarrow> bool" where
  "inside_store s (Read b off len) \<longleftrightarrow> unat b < 10 \<and> unat len < 2 ^ 31
     \<and> (case s b of None \<Rightarrow> True | Some c \<Rightarrow> unat off + unat len \<le> length c)"
| "inside_store s (Write b off d) \<longleftrightarrow> length d < 2 ^ 31
     \<and> (case s b of None \<Rightarrow> False | Some c \<Rightarrow> unat off + length d \<le> length c)"
| "inside_store s Unknown \<longleftrightarrow> True"

fun all_inside :: "store \<Rightarrow> request list \<Rightarrow> bool" where
  "all_inside s [] \<longleftrightarrow> True"
| "all_inside s (r # rs) \<longleftrightarrow> inside_store s r \<and> all_inside (store_after s r) rs"

text \<open>The bytes of a request as a client sends them, in any pieces, and a socket that takes the reply.\<close>

fun asks_for :: "request \<Rightarrow> event list \<Rightarrow> bool" where
  "asks_for (Read b off len) es \<longleftrightarrow> (\<exists>usr pass auth ent. fits usr pass auth
     \<and> be_block_id ent = b \<and> be_offset ent = off \<and> be_length ent = len
     \<and> pieces_of (head_bytes (block_head usr pass auth (lit ''READ'') ent 0)) es)"
| "asks_for (Write b off d) es \<longleftrightarrow> (\<exists>usr pass auth ent. fits usr pass auth
     \<and> be_block_id ent = b \<and> be_offset ent = off \<and> be_length ent = word_of_nat (length d)
     \<and> pieces_of (head_bytes (block_head usr pass auth (lit ''WRITE'') ent (length d)) @ d) es)"
| "asks_for Unknown es \<longleftrightarrow> (\<exists>h body. plain_head h \<and> hd_title h \<noteq> [] \<and> announces h (length body)
     \<and> length body < 2 ^ 62 \<and> length (head_bytes h) \<le> BUF_SIZE
     \<and> (\<forall>m. get_head_entry_value h METHOD = Some m \<longrightarrow> req_of m = 0) \<and> pieces_of (head_bytes h @ body) es)"

text \<open>The connections that come to be served carry the requests.\<close>

fun carry :: "accepted list \<Rightarrow> request list \<Rightarrow> bool" where
  "carry [] rs \<longleftrightarrow> rs = []"
| "carry (Refused # conns) rs \<longleftrightarrow> carry conns rs"
| "carry (Accepted created ks es # conns) rs \<longleftrightarrow> (if \<not> created then carry conns rs
     else case rs of [] \<Rightarrow> False | r # rs' \<Rightarrow> ample ks \<and> asks_for r es \<and> carry conns rs')"

lemma serve_unknown:
  assumes E: "malloc_ok E" "length stack = BUF_SIZE" "10 \<notin> set stack" and es: "asks_for Unknown es"
  shows "serve E stack junk ks es st = Some ([], st)"
proof -
  obtain h body where h: "plain_head h" "hd_title h \<noteq> []" "announces h (length body)" "length body < 2 ^ 62"
    "length (head_bytes h) \<le> BUF_SIZE" "\<And>m. get_head_entry_value h METHOD = Some m \<Longrightarrow> req_of m = 0"
    "pieces_of (head_bytes h @ body) es" using es by auto
  obtain errs where r: "sbp_recv E stack es = Some (Some (head_bytes h @ body @ [0]), errs, [])"
    using sbp_recv_whole [OF h(1,3-5) E h(7)] by blast
  obtain y where "byte_at (head_bytes h @ body @ [0]) 0 = Some y" "y \<noteq> 0"
    using byte_at_head [of h "body @ [0]"] h(1,2) by (auto simp: plain_head_def)
  moreover have "parse_req (h\<lparr>hd_len := x\<rparr>) rec = Some None" for x rec
  proof -
    have "get_head_entry_value (h\<lparr>hd_len := x\<rparr>) METHOD = get_head_entry_value h METHOD"
      by (simp add: get_head_entry_value_def)
    with h(6) show ?thesis by (cases "get_head_entry_value h METHOD") (simp_all add: parse_req_def)
  qed
  ultimately show ?thesis by (simp add: serve_def r decode_head_bytes [OF h(1) E(1)])
qed

text \<open>One connection, as the reference has it.\<close>

lemma serve_refines:
  assumes E: "malloc_ok E" "length stack = BUF_SIZE" "10 \<notin> set stack"
    and ks: "ample ks" and r: "asks_for r es" "inside_store (block_of st) r"
  shows "\<exists>st'. serve E stack junk ks es st = Some (answer_to (block_of st) r, st')
    \<and> block_of st' = store_after (block_of st) r"
proof (cases r)
  case Unknown
  with serve_unknown [OF E] r(1) show ?thesis by simp
next
  case (Read b off len)
  then obtain usr pass auth ent where a: "fits usr pass auth"
    "be_block_id ent = b" "be_offset ent = off" "be_length ent = len"
    "pieces_of (head_bytes (block_head usr pass auth (lit ''READ'') ent 0)) es" using r(1) by auto
  have "serve E stack junk ks es st = process_req E junk ks st \<lparr>le_req = 1, le_offset = off,
     le_length = len, le_block_num = b, le_data_length = 0, le_data = []\<rparr>"
    using serve_block [OF a(1) quiet_names(10) _ _ E, of "[]" ent es] a(2-5)
    by (simp add: req_of_methods length_methods)
  then show ?thesis
    using r(2) process_read_found [OF _ _ _ E(1) ks] process_read_missing [OF _ _ E(1) ks]
    by (cases "block_of st b") (auto simp: Read process_req_def)
next
  case (Write b off d)
  then obtain usr pass auth ent where a: "fits usr pass auth"
    "be_block_id ent = b" "be_offset ent = off" "be_length ent = word_of_nat (length d)"
    "pieces_of (head_bytes (block_head usr pass auth (lit ''WRITE'') ent (length d)) @ d) es" using r(1) by auto
  from r(2) Write obtain c where c: "block_of st b = Some c" "length d < 2 ^ 31" "unat off + length d \<le> length c"
    by (auto split: option.splits)
  have len: "unat (word_of_nat (length d) :: u32_t) = length d" using c(2) by (intro unat_word_of_nat_fit) simp
  have "serve E stack junk ks es st = process_req E junk ks st \<lparr>le_req = 2, le_offset = off,
     le_length = word_of_nat (length d), le_block_num = b, le_data_length = word_of_nat (length d), le_data = d @ [0]\<rparr>"
    using serve_block [OF a(1) quiet_names(11) _ _ E, of d ent es] a(2-5) c(2)
    by (simp add: req_of_methods length_methods)
  moreover from process_write_found [OF _ _ _ E(1) ks, of st "\<lparr>le_req = 2, le_offset = off,
     le_length = word_of_nat (length d), le_block_num = b, le_data_length = word_of_nat (length d), le_data = d @ [0]\<rparr>" c junk]
    c len obtain st' where "process_write E junk ks st \<lparr>le_req = 2, le_offset = off,
     le_length = word_of_nat (length d), le_block_num = b, le_data_length = word_of_nat (length d), le_data = d @ [0]\<rparr>
      = Some (head_bytes (sample_reply 0), st')" "block_of st' = (block_of st)(b \<mapsto> patch (unat off) d c)" by auto
  ultimately show ?thesis using c(1) by (simp add: Write process_req_def)
qed

lemma accept_loop_refines:
  assumes E: "malloc_ok E" "length stack = BUF_SIZE" "10 \<notin> set stack"
  shows "carry conns rs \<Longrightarrow> all_inside (block_of st) rs \<Longrightarrow>
    \<exists>st'. accept_loop E stack junk conns st = Some (fst (run_store (block_of st) rs), st')
      \<and> block_of st' = snd (run_store (block_of st) rs)"
proof (induction conns rs arbitrary: st rule: carry.induct)
  case (3 created ks es conns rs)
  obtain d where m: "malloc E szof_list_entry = Some d" using E(1) by (rule malloc_okE)
  show ?case
  proof (cases created)
    case False
    with 3 m show ?thesis by simp
  next
    case True
    with "3.prems" obtain r rs' where r: "rs = r # rs'" "ample ks" "asks_for r es" "carry conns rs'"
      "inside_store (block_of st) r" "all_inside (store_after (block_of st) r) rs'"
      by (cases rs) auto
    from serve_refines [OF E r(2,3,5)] obtain st1 where st1:
      "serve E stack junk ks es st = Some (answer_to (block_of st) r, st1)" "block_of st1 = store_after (block_of st) r" by blast
    from "3.IH"(2) [of r rs' st1] True r st1 m show ?thesis by (auto simp: Let_def split: prod.splits)
  qed
qed simp_all

section \<open>Properties\<close>

lemma one_piece: "msg \<noteq> [] \<Longrightarrow> pieces_of msg [Data msg]"
  unfolding pieces_of_def by (intro exI [of _ "[msg]"]) simp

lemma head_not_empty: "head_bytes h \<noteq> []"
  by (simp add: head_bytes_def)

text \<open>A node that holds block 3, and connections that read it, write to it, and read again.\<close>

definition listed_node :: blockman where
  "listed_node = \<lparr>bm_files = [block_path 3 \<mapsto> [1, 2, 3, 4], BLOCKLISTPATH \<mapsto> list_file [3] []], bm_dirs = [],
     bm_blocklist = replicate 64 (replicate 64 0), bm_blolist = replicate 64 0, bm_bnum = 0\<rparr>"

lemma listed_node_facts:
  "node_globals listed_node" "lists listed_node [3]" "block_of listed_node = [3 \<mapsto> [1, 2, 3, 4]]"
  by (auto simp: node_globals_def lists_def listed_node_def BLOCKNAME_def block_of_def fun_eq_iff
      block_path_not_list block_path_inj)

definition request_bytes :: "buf \<Rightarrow> u32_t \<Rightarrow> u32_t \<Rightarrow> buf \<Rightarrow> buf" where
  "request_bytes meth off len body = head_bytes (block_head [] [] [] meth
     \<lparr>be_block_id = 3, be_offset = off, be_length = len, be_d_nodes = (0, 0, 0), be_preserved = 0\<rparr> (length body)) @ body"

definition three_conns :: "accepted list" where
  "three_conns = [Accepted True [2 ^ 62, 2 ^ 62] [Data (request_bytes (lit ''READ'') 1 2 [])], Refused,
     Accepted True [2 ^ 62, 2 ^ 62] [Data (request_bytes (lit ''WRITE'') 2 1 [9])],
     Accepted False [] [], Accepted True [2 ^ 62, 2 ^ 62] [Data (request_bytes (lit ''READ'') 1 2 [])]]"

lemma three_conns_carry: "carry three_conns [Read 3 1 2, Write 3 2 [9], Read 3 1 2]"
proof -
  let ?ent = "\<lambda>off len. \<lparr>be_block_id = 3, be_offset = off, be_length = len, be_d_nodes = (0, 0, 0), be_preserved = 0\<rparr>"
  have f: "fits [] [] []" by (simp add: fits_def quiet_def MAX_USERNAME_LEN_def CONTENT_LEN_bytes starts_Cons)
  have "request_bytes meth off len body \<noteq> []" for meth off len body
    by (simp add: request_bytes_def head_not_empty)
  note p = one_piece [OF this]
  have "asks_for (Read 3 1 2) [Data (request_bytes (lit ''READ'') 1 2 [])]"
    unfolding asks_for.simps using p [of "lit ''READ''" 1 2 "[]"] f
    by (intro exI [of _ "[] :: buf"] exI [of _ "?ent 1 2"]) (simp add: request_bytes_def)
  moreover have "asks_for (Write 3 2 [9]) [Data (request_bytes (lit ''WRITE'') 2 1 [9])]"
    unfolding asks_for.simps using p [of "lit ''WRITE''" 2 1 "[9]"] f
    by (intro exI [of _ "[] :: buf"] exI [of _ "?ent 2 1"]) (simp add: request_bytes_def)
  ultimately show ?thesis by (simp add: three_conns_def ample_def del: asks_for.simps)
qed

text \<open>
  C8. The data node as a whole is equivalent to a map from block numbers to contents: started on
  its files, \<open>main\<close> announces to the control node exactly the blocks of its list file, and when
  that answers as \<open>__sendok\<close> does, the connections the node then accepts get, one after the
  other, the bytes the reference gives for their requests -- the range of a block as it is
  after the writes so far, a success for a write, an error when a block is read that it does
  not have, nothing for an unknown method --, however the messages are cut into pieces and
  whatever connections fail in between; at the end its block files hold what the reference
  does. The requests are those the node can take: they are made as the client
  library makes them, blocks read have numbers below 10, a range of a block lies inside it and
  is below 2 GiB, and only blocks it has are written. The list file names at most 64 blocks, the
  sockets take each message at once, no \<open>malloc\<close> fails, and what is left on the stack where a
  message is received holds no line feed.
\<close>
theorem node_main_refines:
  assumes "malloc_ok E" and "length stack = BUF_SIZE" and "10 \<notin> set stack" and "ample ks"
    and "\<And>wire. \<exists>rep \<in> sendrep []. pieces_of rep (answer wire)"
    and "node_globals st" and "lists st bs" and "carry conns rs" and "all_inside (block_of st) rs"
  shows "\<exists>st'. dnode_main E stack junk ks answer True True True conns st
      = Some (announcement bs, Some (fst (run_store (block_of st) rs), st'))
    \<and> block_of st' = snd (run_store (block_of st) rs)"
proof -
  from initlist_lists [OF assms(6,7)] obtain st1 st2 where s: "initlist st = Some st1"
    "getlist st1 = Some (word_of_nat (length bs), st2)" "block_of st2 = block_of st"
    "bm_bnum st2 = word_of_nat (length bs)" "take (length bs) (bm_blolist st2) = bs" by blast
  have "length bs \<le> 64" using assms(7) by (simp add: lists_def)
  from send_list_announces [OF assms(1-5) this s(2,4,5)] accept_loop_refines [OF assms(1-3,8), of st2 junk] assms(9) s(3)
  show ?thesis by (auto simp: dnode_main_def s(1))
qed

lemma hello_answer: "\<exists>rep \<in> sendrep []. pieces_of rep [Data (user_first [])]"
proof -
  have "user_first [] \<noteq> []" by (simp add: user_first_def gen_head_bytes head_not_empty)
  then show ?thesis by (intro bexI [OF one_piece user_first_sent])
qed

theorem node_main_refines_witness:
  "\<exists>st'. dnode_main calm_env (replicate 4096 7) [] [2 ^ 62, 2 ^ 62] (\<lambda>_. [Data (user_first [])])
      True True True three_conns listed_node
      = Some (announcement [3], Some ([head_bytes (sample_reply 2) @ [2, 3], head_bytes (sample_reply 0),
          head_bytes (sample_reply 2) @ [2, 9]], st'))
    \<and> block_of st' = [3 \<mapsto> [1, 2, 9, 4]]"
  using node_main_refines [OF calm_env_ok _ _ _ hello_answer listed_node_facts(1,2) three_conns_carry,
      of "replicate 4096 7" "[2 ^ 62, 2 ^ 62]" "[]"]
  by (simp add: listed_node_facts(3) ample_def BUF_SIZE_def patch_def)

end
