(* ===== verification/OldBlockMan.thy ===== *)
theory OldBlockMan
  imports BlockMan
begin

text \<open>
  The block files of the older data node (\<open>d_node/blockman.c\<close>), which \<open>d_node/haha/blockman.c\<close>
  grew out of. It keeps its own names for the files, reads into the global \<open>databuf\<close> and counts
  the blocks in an \<open>int\<close>; the directories of the blocks have to exist. \<open>junk\<close> is what a local
  array happens to hold. What the two share is taken from \<open>BlockMan\<close>: the arrays \<open>p\<close> and \<open>numc\<close>,
  the files of the host, and the loop of \<open>deletelist\<close>, which is the same text.
\<close>

definition listpath :: buf where "listpath = lit ''/home/cxy/blocklist''"
definition rootpath :: buf where "rootpath = lit ''/home/cxy/''"

record oldman =
  om_files :: "buf \<Rightarrow> buf option"
  om_dirs :: "buf list"
  om_blocklist :: "buf list"
  om_bnum :: int
  om_databuf :: buf

section \<open>Reading and writing a block\<close>

definition getpath :: "u64_t \<Rightarrow> buf option" where
  "getpath blocknum = do {
     p \<leftarrow> sprintf_p2 (udec (unat (blocknum mod 100)));
     q \<leftarrow> sprintf_p2 (sdec (sint blocknum));
     Some (rootpath @ p @ lit ''/'' @ q)
   }"

text \<open>
  An offset from 2 to the 63 on is negative for \<open>fseek\<close>. The buffer is printed as a string,
  so there has to be a NUL in it.
\<close>

definition readblock :: "oldman \<Rightarrow> u64_t \<Rightarrow> u64_t \<Rightarrow> u64_t \<Rightarrow> (int \<times> oldman) option" where
  "readblock st blocknum offset len = do {
     path \<leftarrow> getpath blocknum;
     case om_files st path of
       None \<Rightarrow> Some (- 1, st)
     | Some contents \<Rightarrow>
         if sint offset < 0 then Some (- 1, st) else do {
           databuf \<leftarrow> wr (om_databuf st) 0 (fread_at contents (unat offset) (unat len));
           _ \<leftarrow> cstr_at databuf 0;
           Some (0, st\<lparr>om_databuf := databuf\<rparr>)
         }
   }"

definition addlist :: "buf \<Rightarrow> oldman \<Rightarrow> u64_t \<Rightarrow> (int \<times> oldman) option" where
  "addlist junk st blocknum = do {
     s \<leftarrow> sprintf_p2 (sdec (sint blocknum));
     p \<leftarrow> wr (take 2 junk) 0 (s @ [0]);
     if om_bnum st < 0 \<or> int (length (om_blocklist st)) \<le> om_bnum st then None else do {
       row \<leftarrow> wr (om_blocklist st ! nat (om_bnum st)) 0 (s @ [0]);
       let st = st\<lparr>om_blocklist := (om_blocklist st)[nat (om_bnum st) := row], om_bnum := om_bnum st + 1\<rparr>;
       blist \<leftarrow> om_files st listpath;
       numc \<leftarrow> sprintf_numc junk (sdec (om_bnum st));
       name \<leftarrow> rd p 0 BLOCKNAME;
       Some (0, st\<lparr>om_files := (om_files st)(listpath \<mapsto>
         fwrite_at (fwrite_at blist 0 numc) (nat (om_bnum st) * BLOCKNAME) name)\<rparr>)
     }
   }"

text \<open>A new block is 16384 copies of an array of 1024 bytes, of which seven are initialised.\<close>

definition createblock :: "buf \<Rightarrow> oldman \<Rightarrow> u64_t \<Rightarrow> (int \<times> oldman) option" where
  "createblock junk st blocknum = do {
     path \<leftarrow> getpath blocknum;
     p \<leftarrow> sprintf_p2 (udec (unat (blocknum mod 100)));
     if rootpath @ p \<notin> set (om_dirs st) then None else do {
       buf \<leftarrow> wr (take 1024 junk) 0 (lit ''567890'' @ [0]);
       let st = st\<lparr>om_files := (om_files st)(path \<mapsto> concat (replicate (1024 * 16) buf))\<rparr>;
       (_, st) \<leftarrow> addlist junk st blocknum;
       Some (0, st)
     }
   }"

text \<open>When the file still cannot be opened, the null stream is used.\<close>

definition writeblock :: "buf \<Rightarrow> oldman \<Rightarrow> u64_t \<Rightarrow> u64_t \<Rightarrow> u64_t \<Rightarrow> buf \<Rightarrow> (int \<times> oldman) option" where
  "writeblock junk st blocknum offset len dat = do {
     path \<leftarrow> getpath blocknum;
     st \<leftarrow> (if om_files st path = None then map_option snd (createblock junk st blocknum) else Some st);
     contents \<leftarrow> om_files st path;
     if sint offset < 0 then Some (- 1, st) else do {
       d \<leftarrow> rd dat 0 (unat len);
       Some (0, st\<lparr>om_files := (om_files st)(path \<mapsto> fwrite_at contents (unat offset) d)\<rparr>)
     }
   }"

section \<open>The list of blocks\<close>

fun getlist_loop :: "buf \<Rightarrow> nat \<Rightarrow> nat \<Rightarrow> oldman \<Rightarrow> oldman option" where
  "getlist_loop blist i 0 st = Some st"
| "getlist_loop blist i (Suc n) st = do {
     temp \<leftarrow> rd blist (Suc i * BLOCKNAME) BLOCKNAME;
     s \<leftarrow> cstr_at temp 0;
     if length (om_blocklist st) \<le> i then None else do {
       row \<leftarrow> wr (om_blocklist st ! i) 0 (s @ [0]);
       getlist_loop blist (Suc i) n (st\<lparr>om_blocklist := (om_blocklist st)[i := row]\<rparr>)
     }
   }"

definition getlist :: "oldman \<Rightarrow> (int \<times> oldman) option" where
  "getlist st = do {
     blist \<leftarrow> om_files st listpath;
     numc \<leftarrow> rd blist 0 4;
     s \<leftarrow> cstr_at numc 0;
     bnum \<leftarrow> atoi s;
     st \<leftarrow> getlist_loop blist 0 (nat bnum) (st\<lparr>om_bnum := bnum\<rparr>);
     Some (0, st)
   }"

definition initlist :: "buf \<Rightarrow> oldman \<Rightarrow> oldman option" where
  "initlist junk st = do {
     buf \<leftarrow> wr (take 64 junk) 0 (lit ''0000'' @ [0]);
     contents \<leftarrow> om_files st listpath;
     Some (st\<lparr>om_files := (om_files st)(listpath \<mapsto> fwrite_at contents 0 (concat (replicate 6401 buf)))\<rparr>)
   }"

definition deletelist :: "buf \<Rightarrow> oldman \<Rightarrow> u64_t \<Rightarrow> (int \<times> oldman) option" where
  "deletelist junk st blocknum = do {
     p \<leftarrow> sprintf_p2 (sdec (sint blocknum));
     (rows, bnum, del) \<leftarrow> deletelist_loop p 0 (om_blocklist st) (nat (om_bnum st)) None;
     blist \<leftarrow> om_files st listpath;
     delnum \<leftarrow> del;
     numc \<leftarrow> sprintf_numc junk (sdec (int bnum));
     name \<leftarrow> rd (rows ! delnum) 0 BLOCKNAME;
     Some (0, st\<lparr>om_blocklist := rows, om_bnum := int bnum,
       om_files := (om_files st)(listpath \<mapsto>
         fwrite_at (fwrite_at blist 0 numc) (Suc delnum * BLOCKNAME) name)\<rparr>)
   }"

definition deleteblock :: "buf \<Rightarrow> oldman \<Rightarrow> u64_t \<Rightarrow> (int \<times> oldman) option" where
  "deleteblock junk st blocknum = do {
     path \<leftarrow> getpath blocknum;
     let st = (if om_files st path = None then st else st\<lparr>om_files := (om_files st)(path := None)\<rparr>);
     (_, st) \<leftarrow> deletelist junk st blocknum;
     Some (0, st)
   }"

end
