(* ===== verification/OldNode.thy ===== *)
theory OldNode
  imports OldBlockMan NetIO
begin

text \<open>
  The older data node (\<open>d_node/tcpserver.c\<close>), superseded by \<open>d_node/haha\<close>: one thread per
  connection receives a request, decodes its head, reads or writes a block and builds a reply.
  Several of its steps use variables that were never set, or pointers to arrays of functions
  that have returned; such a use is \<open>None\<close>, as everywhere. Ending the process (\<open>exit\<close>) is a
  result of its own.
\<close>

section \<open>State\<close>

text \<open>A \<open>char *\<close> of a head: null, not set or pointing to a dead array, or a string.\<close>

datatype str = Null | Dangling | Str buf

fun deref :: "str \<Rightarrow> buf option" where
  "deref (Str s) = Some s"
| "deref _ = None"

datatype 'a proc = Exit | Returns 'a

text \<open>The fields \<open>head_len\<close> and \<open>data\<close> are written but not read.\<close>

record old_head =
  oh_title :: str
  oh_entry_num :: int
  oh_entrys :: "(str \<times> str) list"

record oldnode =
  on_man :: oldman
  on_head :: old_head
  on_req_len :: u64_t
  on_send_buf :: str

definition BUF_SIZE :: nat where "BUF_SIZE = 8192"

section \<open>Receiving\<close>

text \<open>
  How much is missing of a message of which 8192 bytes are there. The text behind
  \<open>Content-Length\<close> is converted with the colon in front.
\<close>

definition get_missing_len :: "buf \<Rightarrow> int option" where
  "get_missing_len buf = do {
     header_end \<leftarrow> strstr buf HEADER_FLAG;
     case header_end of
       None \<Rightarrow> Some (- 1)
     | Some h \<Rightarrow> do {
         content_len_start \<leftarrow> strstr buf CONTENT_LEN;
         case content_len_start of
           None \<Rightarrow> Some (- 1)
         | Some s \<Rightarrow> do {
             content_len_end \<leftarrow> strstr (drop s buf) CRLF;
             case content_len_end of
               None \<Rightarrow> Some (- 1)
             | Some e \<Rightarrow> if e < 14 \<or> 64 \<le> e - 14 then None else do {
                 content_length \<leftarrow> atoll (take (e - 14) (drop (s + 14) buf));
                 Some (sint (word_of_int content_length + word_of_nat (h + 4) - word_of_nat BUF_SIZE :: u64_t))
               }
           }
       }
   }"

text \<open>
  \<open>numbytes\<close> is unsigned, so a failing \<open>recv\<close> is not noticed: \<open>-1\<close> becomes the largest number.
  \<open>stack\<close> is what the array \<open>buf\<close> holds. The second \<open>recv\<close> reads behind the first bytes.
\<close>

fun got :: "buf option \<Rightarrow> buf" where
  "got None = []"
| "got (Some d) = d"

definition numbytes_of :: "buf option \<Rightarrow> u64_t" where
  "numbytes_of r = (if r = None then - 1 else word_of_nat (length (got r)))"

definition recinfo :: "env \<Rightarrow> buf \<Rightarrow> event list \<Rightarrow> buf proc option" where
  "recinfo E stack es = (case recv BUF_SIZE es of (r, es) \<Rightarrow> do {
       buf \<leftarrow> wr (take BUF_SIZE stack @ [0]) 0 (got r);
       let numbytes = numbytes_of r;
       if numbytes < word_of_nat BUF_SIZE then
         (case malloc E (unat numbytes + 1) of None \<Rightarrow> Some Exit
          | Some rec_buf \<Rightarrow> do {
              first \<leftarrow> rd buf 0 (unat numbytes);
              rec_buf \<leftarrow> wr rec_buf 0 first;
              rec_buf \<leftarrow> wr rec_buf (unat numbytes) [0];
              Some (Returns rec_buf)
            })
       else do {
         missing \<leftarrow> get_missing_len buf;
         let missing_bytes = (word_of_int missing :: u64_t);
         case malloc E (unat (missing_bytes + numbytes + 1)) of None \<Rightarrow> Some Exit
         | Some rec_buf \<Rightarrow> do {
             first \<leftarrow> rd buf 0 (unat numbytes);
             rec_buf \<leftarrow> wr rec_buf 0 first;
             let (r2, _) = recv (unat missing_bytes) es;
             rec_buf \<leftarrow> wr rec_buf (unat numbytes) (got r2);
             if numbytes_of r2 \<noteq> missing_bytes then Some Exit else do {
               rec_buf \<leftarrow> wr rec_buf (unat (missing_bytes + word_of_nat BUF_SIZE)) [0];
               Some (Returns rec_buf)
             }
           }
       }
     })"

section \<open>Heads of requests\<close>

text \<open>
  The cursor is set to the first line separator itself, where the loop finds it again and
  stops; going round the loop would use \<open>i\<close>, which is not set. \<open>sizeof(data)\<close> is 8.
\<close>

definition decode_head :: "env \<Rightarrow> buf \<Rightarrow> old_head \<Rightarrow> (int \<times> old_head) option" where
  "decode_head E data head = do {
     found \<leftarrow> strstr data HEADER_FLAG;
     header_end \<leftarrow> found;
     let header_len = header_end + 4;
     _ \<leftarrow> malloc E (header_len + 1);
     let hdata = take header_len data @ [0];
     let head = head\<lparr>oh_title := Str (takeWhile (\<lambda>b. b \<noteq> 0) hdata)\<rparr>;
     found \<leftarrow> strstr hdata CRLF;
     case found of
       None \<Rightarrow> Some (- 1, head)
     | Some prev \<Rightarrow> do {
         nxt \<leftarrow> strstr (drop prev hdata) CRLF;
         case nxt of
           None \<Rightarrow> Some (- 1, head)
         | Some n \<Rightarrow> if n \<noteq> 0 then None else do {
             let rest = (8 - word_of_nat header_len :: u64_t);
             databuffer \<leftarrow> malloc E (unat (rest + 1));
             databuffer \<leftarrow> wr databuffer (unat rest) [0];
             d \<leftarrow> rd data header_end (unat rest);
             _ \<leftarrow> wr databuffer 0 d;
             Some (0, head)
           }
       }
   }"

text \<open>The loop over the entries never steps to the next one.\<close>

partial_function (option) entry_loop :: "old_head \<Rightarrow> buf \<Rightarrow> nat \<Rightarrow> str option" where
  "entry_loop head entry i =
     (if int i < oh_entry_num head then
        if length (oh_entrys head) \<le> i then None else do {
          name \<leftarrow> deref (fst (oh_entrys head ! i));
          if name = entry then Some (snd (oh_entrys head ! i)) else entry_loop head entry i
        }
      else Some Null)"

definition get_head_entry_value :: "old_head \<Rightarrow> buf \<Rightarrow> str option" where
  "get_head_entry_value head entry = entry_loop head entry 0"

section \<open>Heads of replies\<close>

text \<open>The value of the entry is an array of the function that has returned.\<close>

definition read_head :: "int \<Rightarrow> old_head" where
  "read_head status = \<lparr>oh_title = Str (if status < 0 then lit ''SBPFS ERR'' else lit ''SBPFS OK''), oh_entry_num = 1,
     oh_entrys = (Str CONTENT_LEN, Dangling) # replicate 31 (Dangling, Dangling)\<rparr>"

definition write_head :: "int \<Rightarrow> old_head" where
  "write_head status = \<lparr>oh_title = Str (if status < 0 then lit ''SBPFS ERR'' else lit ''SBPFS OK''), oh_entry_num = 1,
     oh_entrys = (Str CONTENT_LEN, Dangling) # replicate 31 (Dangling, Dangling)\<rparr>"

definition report_head :: old_head where
  "report_head = \<lparr>oh_title = Str (lit ''SBPFS OK''), oh_entry_num = 3,
     oh_entrys = [(Str (lit ''USER''), Str []), (Str (lit ''USER''), Str []), (Str (lit ''Block_num''), Dangling)]
       @ replicate 29 (Dangling, Dangling)\<rparr>"

definition entry_at :: "old_head \<Rightarrow> nat \<Rightarrow> (buf \<times> buf) option" where
  "entry_at head i =
     (if length (oh_entrys head) \<le> i then None else do {
        n \<leftarrow> deref (fst (oh_entrys head ! i));
        v \<leftarrow> deref (snd (oh_entrys head ! i));
        Some (n, v)
      })"

text \<open>
  \<open>build_headr\<close> and \<open>build_headw\<close> send the first entry only; the first copies the global
  \<open>databuf\<close> behind the head, with a NUL for which the object has no room. The result is the
  return value and \<open>send_buf\<close>.
\<close>

definition build_headr :: "env \<Rightarrow> buf \<Rightarrow> old_head \<Rightarrow> str \<Rightarrow> (int \<times> str) option" where
  "build_headr E databuf head send_buf =
     (if int MAX_ENTRY_IN_HEAD < oh_entry_num head then Some (- 1, send_buf) else do {
        title \<leftarrow> deref (oh_title head);
        (n, v) \<leftarrow> entry_at head 0;
        s \<leftarrow> cstr_at databuf 0;
        case malloc E (length title + 2 + (length n + length v + 4) + 2 + length s) of
          None \<Rightarrow> Some (- 1, Null)
        | Some data \<Rightarrow> do {
            (data, cp) \<leftarrow> put_field data 0 title 13 10;
            (data, cp) \<leftarrow> put_field data cp n 58 32;
            (data, cp) \<leftarrow> put_field data cp v 13 10;
            data \<leftarrow> wr data cp CRLF;
            data \<leftarrow> wr data (cp + 2) (s @ [0]);
            Some (0, Str data)
          }
      })"

definition build_headw :: "env \<Rightarrow> old_head \<Rightarrow> str \<Rightarrow> (int \<times> str) option" where
  "build_headw E head send_buf =
     (if int MAX_ENTRY_IN_HEAD < oh_entry_num head then Some (- 1, send_buf) else do {
        title \<leftarrow> deref (oh_title head);
        (n, v) \<leftarrow> entry_at head 0;
        case malloc E (length title + 2 + (length n + length v + 4) + 2) of
          None \<Rightarrow> Some (- 1, Null)
        | Some data \<Rightarrow> do {
            (data, cp) \<leftarrow> put_field data 0 title 13 10;
            (data, cp) \<leftarrow> put_field data cp n 58 32;
            (data, cp) \<leftarrow> put_field data cp v 13 10;
            data \<leftarrow> wr data cp CRLF;
            Some (0, Str data)
          }
      })"

text \<open>The report of the list has all entries of the head, and 64 bytes per block of the list.\<close>

fun entries_upto :: "old_head \<Rightarrow> nat \<Rightarrow> (buf \<times> buf) list option" where
  "entries_upto head 0 = Some []"
| "entries_upto head (Suc i) = do {
     es \<leftarrow> entries_upto head i;
     e \<leftarrow> entry_at head i;
     Some (es @ [e])
   }"

definition build_headp :: "env \<Rightarrow> oldman \<Rightarrow> old_head \<Rightarrow> str \<Rightarrow> (int \<times> str) option" where
  "build_headp E man head send_buf =
     (if int MAX_ENTRY_IN_HEAD < oh_entry_num head then Some (- 1, send_buf) else do {
        title \<leftarrow> deref (oh_title head);
        es \<leftarrow> entries_upto head (nat (oh_entry_num head));
        let listlen = (word_of_int (64 * om_bnum man) :: u64_t);
        let total_len = head_total es (word_of_nat (length title) + 2) + 2 + listlen;
        case malloc E (unat total_len) of
          None \<Rightarrow> Some (- 1, Null)
        | Some data \<Rightarrow> do {
            (data, cp) \<leftarrow> put_field data 0 title 13 10;
            (data, cp) \<leftarrow> put_entries es data cp;
            data \<leftarrow> wr data cp CRLF;
            l \<leftarrow> rd (concat (om_blocklist man)) 0 (unat listlen);
            data \<leftarrow> wr data (cp + 2) l;
            Some (0, Str data)
          }
      })"

section \<open>Requests\<close>

text \<open>
  Connecting succeeds or ends the process. \<open>sendinfo\<close> calls \<open>send\<close> once; \<open>took\<close> is what the
  kernel takes, and \<open>sizeof(send_buf)\<close> is 8.
\<close>

definition ConnectServer :: "bool \<Rightarrow> unit proc" where
  "ConnectServer reachable = (if reachable then Returns () else Exit)"

definition sendinfo :: "int \<Rightarrow> buf \<Rightarrow> nat \<Rightarrow> nat \<Rightarrow> int option" where
  "sendinfo took data off len = do {
     _ \<leftarrow> rd data off len;
     Some (if min took (int len) \<noteq> int len then - 1 else 0)
   }"

text \<open>\<open>reportwrite\<close> passes the cursor, which by then is at the end of the object.\<close>

definition reportwrite :: "env \<Rightarrow> bool \<Rightarrow> int \<Rightarrow> u64_t \<Rightarrow> int proc option" where
  "reportwrite E reachable took blocknum = (case ConnectServer reachable of Exit \<Rightarrow> Some Exit
     | Returns _ \<Rightarrow>
         let title = lit ''WRITE_OK''; name = lit ''Blocknum''; blnum = sdec (sint blocknum);
             total_len = length title + 2 + (length name + length blnum + 4) + 2
         in (case malloc E total_len of None \<Rightarrow> Some (Returns (- 1))
             | Some result_report \<Rightarrow> do {
                 (result_report, cp) \<leftarrow> put_field result_report 0 title 13 10;
                 (result_report, cp) \<leftarrow> put_field result_report cp name 58 32;
                 (result_report, cp) \<leftarrow> put_field result_report cp blnum 13 10;
                 result_report \<leftarrow> wr result_report cp CRLF;
                 _ \<leftarrow> sendinfo took result_report (cp + 2) total_len;
                 Some (Returns 0)
               }))"

text \<open>
  In the branch that writes, the address handed to \<open>reportwrite\<close> is a variable that was
  never set. \<open>dat\<close> is the request as it came, with its head.
\<close>

definition ana_head :: "env \<Rightarrow> buf \<Rightarrow> oldnode \<Rightarrow> buf \<Rightarrow> (int \<times> oldnode) option" where
  "ana_head E junk st dat = do {
     blocknumc \<leftarrow> get_head_entry_value (on_head st) (lit ''Arg0'');
     offsetc \<leftarrow> get_head_entry_value (on_head st) (lit ''Arg1'');
     lengthc \<leftarrow> get_head_entry_value (on_head st) (lit ''Arg2'');
     b \<leftarrow> deref blocknumc; blocknum \<leftarrow> atoll b;
     l \<leftarrow> deref lengthc; len \<leftarrow> atoll l;
     let req_len = (word_of_int len :: u64_t);
     let st = st\<lparr>on_req_len := req_len\<rparr>;
     p \<leftarrow> deref offsetc; offset \<leftarrow> atoll p;
     headmethod \<leftarrow> get_head_entry_value (on_head st) (lit ''method'');
     if headmethod = Null then Some (- 1, st) else do {
       m \<leftarrow> deref headmethod;
       if m = lit ''READ'' then do {
         (succeed, man) \<leftarrow> readblock (on_man st) (word_of_int blocknum) (word_of_int offset) req_len;
         let head = read_head succeed;
         (_, send_buf) \<leftarrow> build_headr E (om_databuf man) head (on_send_buf st);
         Some (0, st\<lparr>on_man := man, on_head := head, on_send_buf := send_buf\<rparr>)
       } else if m = lit ''WRITE'' then do {
         (succeed, man) \<leftarrow> writeblock junk (on_man st) (word_of_int blocknum) (word_of_int offset) req_len dat;
         let head = write_head succeed;
         _ \<leftarrow> build_headw E head (on_send_buf st);
         None
       } else Some (0, st)
     }
   }"

text \<open>
  The thread of a connection. \<open>recinfo\<close> has closed the socket, so sending the reply fails,
  which is not looked at.
\<close>

definition sbp_recv :: "env \<Rightarrow> buf \<Rightarrow> buf \<Rightarrow> event list \<Rightarrow> oldnode \<Rightarrow> oldnode proc option" where
  "sbp_recv E stack junk es st = do {
     received \<leftarrow> recinfo E stack es;
     case received of Exit \<Rightarrow> Some Exit
     | Returns rec_buf \<Rightarrow> do {
         (_, head) \<leftarrow> decode_head E rec_buf (on_head st);
         (_, st) \<leftarrow> ana_head E junk (st\<lparr>on_head := head\<rparr>) rec_buf;
         Some (Returns st)
       }
   }"

definition reportlist :: "env \<Rightarrow> buf \<Rightarrow> bool \<Rightarrow> int \<Rightarrow> event list \<Rightarrow> oldnode \<Rightarrow> (int \<times> oldnode) proc option" where
  "reportlist E stack reachable took es st = do {
     (_, man) \<leftarrow> getlist (on_man st);
     case ConnectServer reachable of Exit \<Rightarrow> Some Exit
     | Returns _ \<Rightarrow> do {
         (_, send_buf) \<leftarrow> build_headp E man report_head (on_send_buf st);
         let st = st\<lparr>on_man := man, on_head := report_head, on_send_buf := send_buf\<rparr>;
         b \<leftarrow> deref send_buf;
         _ \<leftarrow> sendinfo took b 0 8;
         received \<leftarrow> recinfo E stack es;
         case received of Exit \<Rightarrow> Some Exit
         | Returns rec_buf \<Rightarrow> do {
             s \<leftarrow> cstr_at rec_buf 0;
             Some (Returns (if s = lit ''SBPFS_OK'' then 0 else - 1, st))
           }
       }
   }"

text \<open>\<open>main\<close> up to its accept loop; \<open>listening\<close> is whether the socket could be set up.\<close>

definition main_start :: "env \<Rightarrow> buf \<Rightarrow> buf \<Rightarrow> bool \<Rightarrow> bool \<Rightarrow> int \<Rightarrow> event list \<Rightarrow> oldnode \<Rightarrow> oldnode proc option" where
  "main_start E stack junk listening reachable took es st = do {
     (_, man) \<leftarrow> writeblock junk (on_man st) 3263 3 3 (lit ''abc'' @ [0]);
     (_, man) \<leftarrow> writeblock junk man 3363 3 4 (lit ''abcd'' @ [0]);
     (_, man) \<leftarrow> writeblock junk man 3463 3 3 (lit ''abc'' @ [0]);
     (_, man) \<leftarrow> readblock man 3263 3 3;
     (_, man) \<leftarrow> readblock man 3363 3 4;
     if \<not> listening then Some Exit else do {
       reported \<leftarrow> reportlist E stack reachable took es (st\<lparr>on_man := man\<rparr>);
       case reported of Exit \<Rightarrow> Some Exit | Returns (_, st) \<Rightarrow> Some (Returns st)
     }
   }"

end
