(* ===== verification/OldNodeSpec.thy ===== *)
theory OldNodeSpec
  imports OldNode
begin

text \<open>
  What the older data node computes: a reply without data is built as the library builds its
  heads, but no request gets as far as that.
\<close>

section \<open>Building a head\<close>

lemma entry_at_Str:
  "oh_entrys head = (Str n, Str v) # es \<Longrightarrow> entry_at head 0 = Some (n, v)"
  by (simp add: entry_at_def)

text \<open>\<open>build_headw\<close> writes byte for byte the head that \<open>make_head\<close> of the library makes.\<close>

lemma build_headw_bytes:
  assumes "oh_title head = Str t" and "oh_entrys head = (Str n, Str v) # es" and "oh_entry_num head \<le> 32"
    and "malloc_ok E"
  shows "build_headw E head sb = Some (0, Str (head_bytes \<lparr>hd_len = 0, hd_title = t, hd_entrys = [(n, v)]\<rparr>))"
proof -
  let ?es = "n @ SEP @ v @ CRLF"
  let ?n = "length t + 2 + (length n + length v + 4) + 2"
  obtain d where d: "malloc E ?n = Some d" "length d = ?n" using assms(4) by (rule malloc_okE)
  let ?a1 = "t @ CRLF" and ?r1 = "drop (length t + 2) d"
  let ?a2 = "?a1 @ ?es" and ?r2 = "drop (length ?es) ?r1"
  have l: "length t + 2 \<le> length d" "length ?es \<le> length ?r1" "length ?r2 = 2" using d(2) by simp_all
  have 1: "put_field d 0 t 13 10 = Some (?a1 @ ?r1, length ?a1)"
    using put_field_exact [OF l(1), of "[]"] by simp
  have "put_entries [(n, v)] (?a1 @ ?r1) (length ?a1) = Some (?a2 @ ?r2, length ?a2)"
    using put_entries_exact [of "[(n, v)]" ?r1 ?a1] l(2) by simp
  then have 2: "do { (data, cp) \<leftarrow> put_field (?a1 @ ?r1) (length ?a1) n 58 32; put_field data cp v 13 10 }
      = Some (?a2 @ ?r2, length ?a2)" by (auto simp: bind_eq_Some_conv)
  have w: "length r = 2 \<Longrightarrow> wr (a @ r) (length a) CRLF = Some (a @ CRLF)" for a r :: buf
    by (simp add: wr_def)
  note 3 = w [OF l(3), of ?a2]
  have "build_headw E head sb = do {
      (data, cp) \<leftarrow> put_field d 0 t 13 10;
      (data, cp) \<leftarrow> do { (data, cp) \<leftarrow> put_field data cp n 58 32; put_field data cp v 13 10 };
      data \<leftarrow> wr data cp CRLF;
      Some (0, Str data) }"
    using assms(1,3) d(1) entry_at_Str [OF assms(2)]
    by (simp add: build_headw_def MAX_ENTRY_IN_HEAD_def split_def)
  also have "\<dots> = Some (0, Str (?a2 @ CRLF))"
    unfolding 1 Option.bind.bind_lunit prod.case 2 3 ..
  finally show ?thesis by (simp add: head_bytes_def)
qed

section \<open>Requests\<close>

text \<open>Only the first entry is ever compared: when it has another name, the loop does not end.\<close>

lemma entry_loop_first:
  assumes "entry_loop h entry i = Some r" and "int i < oh_entry_num h"
  shows "fst (oh_entrys h ! i) = Str entry"
  using assms
proof (induction h entry i r rule: entry_loop.raw_induct [rotated, consumes 1])
  case (1 loop h entry i r)
  then show ?case by (cases "fst (oh_entrys h ! i)") (auto split: if_splits)
qed

lemma get_head_entry_value_first:
  assumes "get_head_entry_value h entry = Some r"
  shows "r = Null \<or> fst (oh_entrys h ! 0) = Str entry"
proof (cases "0 < oh_entry_num h")
  case True
  then show ?thesis using assms entry_loop_first [of h entry 0 r] by (simp add: get_head_entry_value_def)
next
  case False
  then have "get_head_entry_value h entry = Some Null"
    by (simp add: get_head_entry_value_def entry_loop.simps)
  then show ?thesis using assms by simp
qed

lemma ana_head_undefined: "ana_head E junk st dat = None"
proof (rule ccontr)
  assume "ana_head E junk st dat \<noteq> None"
  then obtain b p s s' where
    "get_head_entry_value (on_head st) (lit ''Arg0'') = Some b" "deref b = Some s"
    "get_head_entry_value (on_head st) (lit ''Arg1'') = Some p" "deref p = Some s'"
    unfolding ana_head_def by (auto simp: Let_def elim!: bindE)
  then show False
    using get_head_entry_value_first [of "on_head st" "lit ''Arg0''" b]
      get_head_entry_value_first [of "on_head st" "lit ''Arg1''" p]
    by (auto simp: lit_def)
qed

lemma main_start_undefined: "main_start E stack junk listening reachable took es st = None"
proof -
  have "OldBlockMan.getpath 3263 = None"
    by code_simp
  then show ?thesis by (simp add: main_start_def writeblock_def)
qed

text \<open>
  C36. The older data node answers nobody: \<open>main\<close> is undefined before it listens, because its
  first self-test writes a block whose number does not fit the array \<open>getpath\<close> prints it to.
  And whatever state a thread finds, whatever bytes it receives: it ends the process or is
  undefined, but it never comes to the end of a request -- \<open>decode_head\<close> enters no entry, and
  of the entries there are \<open>get_head_entry_value\<close> only ever compares the first.
\<close>

theorem old_node_answers_nobody:
  "main_start E stack junk listening reachable took es st = None \<and>
   (sbp_recv E stack junk es st = None \<or> sbp_recv E stack junk es st = Some Exit)"
proof -
  have "sbp_recv E stack junk es st \<noteq> Some (Returns st')" for st'
    by (auto simp: sbp_recv_def ana_head_undefined elim!: bindE split: proc.splits)
  then show ?thesis using main_start_undefined by (metis option.exhaust proc.exhaust)
qed

end
