(* ===== verification/Spec2Isabelle.thy ===== *)
theory Spec2Isabelle
  imports Isolation CfsList CfsMove CfsShape ClientFdsSpec ClientPySpec BlockRace NodeMain OldNodeSpec
begin

text \<open>
  SBPFS, a distributed file system: this library models the C code of its three programs and
  proves what they compute.

  \<^bold>\<open>The parts and how they interact.\<close> A control node keeps one file system image in memory
  (\<open>c_node/fs/cfs.c\<close>): directories, and for each file the list of the blocks its data lie in, with
  the addresses of the data nodes that hold copies. Clients (\<open>libc/\<close>) send it text requests,
  one connection each; for reading and writing it answers with block entries, and the
  client then talks to the data nodes (\<open>d_node/haha/\<close>), which keep each block in a file.
  All messages have a text head (\<open>libc/lib.c\<close>) and a body whose length the head announces.
  The dispatch of requests on the control node is Python (\<open>c_node/CNode.py\<close>) and enters as a
  parameter: the answer to a request, in the form in which that program sends it (\<open>CNodeReply\<close>).

  \<^bold>\<open>Conventions.\<close> A C object is a list of bytes (\<open>buf\<close>); access outside it, use of an
  uninitialised value and the like are the result \<open>None\<close>, so a theorem with \<open>Some\<close> on its
  right-hand side includes that the code stays inside its objects. Error returns are values:
  \<open>Inl\<close>, an inner \<open>None\<close>, or the C return code. Integers have the width of the code. The
  environment \<open>env\<close> is the clock and \<open>malloc\<close>, which may fail; \<open>free\<close> is left out.

  \<^bold>\<open>The theories.\<close>
  \<^item> \<open>Prelude\<close>: bytes, bounds-checked access, words, the locale \<open>layout\<close> for the byte layout of
    structs (interpreted for every struct that is stored or sent), C strings, \<open>env\<close>.
  \<^item> \<open>CfsTypes\<close>: the structs and constants of \<open>cfs.h\<close>. \<open>CfsUtil\<close>: permissions, placement of
    blocks, path splitting. \<open>CfsFat\<close>: the table of sectors, \<open>extend\<close>, reading and writing whole
    files. \<open>CfsDir\<close>: entries of a directory and path lookup. \<open>CfsMk\<close>: formatting, loading, saving.
    \<open>CfsOps\<close>: the operations on paths. \<open>CfsBlocks\<close>: the block lists, \<open>c_read\<close> and \<open>c_write\<close>.
  \<^item> \<open>CfsGeom\<close> and \<open>CfsFiles\<close>: chains of sectors, their disjointness, what reading and writing a
    file do to it and to the others. \<open>CfsDirSpec\<close>: a directory as a map from names to entries,
    refined by linking, removing and finding. \<open>CfsPath\<close>: lookup follows the path. \<open>CfsOpsSpec\<close>,
    \<open>CfsCreate\<close>, \<open>CfsList\<close>: the operations, every branch, on a disk that satisfies the
    invariants. \<open>CfsBlocksSpec\<close>, \<open>CfsWriteSpec\<close>: which blocks a read or write names.
    \<open>CfsShape\<close>: the sizes of the regions of the disk, a type that every operation keeps on any
    image, however corrupt, and whatever the allocator does.
    \<open>CfsMove\<close>: renaming within a directory, which loses the new name.
  \<^item> \<open>CfsTree\<close>: a disk as a tree of directories and files, each with its own sectors (\<open>tree\<close>,
    \<open>stored\<close>) and its own blocks (\<open>own_blocks\<close>). \<open>CfsReach\<close>: formatting makes such a disk and every
    operation keeps it one, whatever it returns. \<open>CfsGetBlocks\<close>: the block numbers of a file by
    its path. \<open>CfsHistory\<close>: the histories of a disk as a step relation (\<open>fs_step\<close>, \<open>fs_reach\<close>),
    with what holds of every disk a history reaches: it stores a tree, calls stay inside
    their buffers, and two files share no block.
  \<^item> \<open>SbpStr\<close>: string functions of the C library. \<open>Head\<close>, \<open>HeadSpec\<close>: heads, made and read
    back. \<open>NetIO\<close>, \<open>NetSpec\<close>: sending and receiving over a socket that takes and delivers any
    number of bytes at a time. \<open>Address\<close>: names of data nodes. \<open>CNodeReply\<close>: the replies of
    the control node, \<open>__sendrep\<close> of \<open>c_node/CNode.py\<close> with \<open>gen_head\<close> of \<open>util/parse.py\<close>: a head
    with its user and the length, in either order, and the body.
  \<^item> \<open>Client\<close>, \<open>ClientFds\<close>: login, one request per operation, open files (\<open>libc/login.c\<close>, \<open>open.c\<close>,
    \<open>dir.c\<close> and the one-request files). \<open>ClientBlocks\<close>: \<open>libc/read_write.c\<close>.
    \<open>ClientFdsSpec\<close>: opening, and the table of descriptors that fills up. \<open>ClientPy\<close>,
    \<open>ClientPySpec\<close>: the Python bindings (\<open>libpy/sbpfs_py.c\<close>) and what a read through them gives.
    \<open>ClientBlocksSpec\<close>: the locale \<open>block_server\<close>, what the client needs of a data node, and what
    follows for reading and writing through replicas.
  \<^item> \<open>BlockMan\<close>, \<open>BlockManSpec\<close>: block files (\<open>d_node/haha/blockman.c\<close>). \<open>DNode\<close>, \<open>DNodeSpec\<close>: the
    server (\<open>d_node/haha/d_node.c\<close>) and its answers to the client's requests. \<open>NodeMain\<close>: its \<open>main\<close>,
    which is equivalent to a map from block numbers to contents.
    \<open>Cluster\<close>, \<open>ClusterSpec\<close>: both sides together; data nodes that run the model of the server
    interpret \<open>block_server\<close>, and \<open>sbp_read\<close> and \<open>sbp_write\<close> are followed to the block files.
    \<open>BlockRace\<close>: the threads of a data node, which share the global \<open>path\<close>: an interleaving
    that mixes blocks, when a read is right nevertheless, and that all threads finish, with
    the bytes of some block that was asked for.
  \<^item> \<open>OldBlockMan\<close>, \<open>OldNode\<close>, \<open>OldNodeSpec\<close>: the older data node (\<open>d_node/blockman.c\<close>,
    \<open>d_node/tcpserver.c\<close>), which cannot answer a request.
  \<^item> \<open>LibCfs\<close>: the Python bindings of the file system (\<open>c_node/fs/libcfs.c\<close>). \<open>EndToEnd\<close>: the send
    blocks of \<open>c_read\<close> are the block entries of the client, and a file is read from the image
    of the control node through the data nodes into the client's buffer. \<open>FileImage\<close>,
    \<open>WholeFile\<close>: the bytes a file stands for, on both kinds of nodes (\<open>file_of\<close>); writing and
    reading them back from end to end. \<open>Isolation\<close>: on a disk of a history a write through one file leaves
    every other file as it is, on the disk and on the data nodes.

  \<^bold>\<open>Bounds and loops.\<close> There is no fuel. Loops of the code that need not end -- the search for a
  free sector, which repeats while the disk cannot grow, and the loops along chains of
  sectors, which do not end on a cyclic table -- are \<open>partial_function\<close>s, not returning being
  \<open>None\<close>; that they return is part of the theorems about them. All other loops are total
  functions with a measure (bytes left to arrive, lines left, sectors left). The heads of
  requests to data nodes stay below 500 bytes, the receive buffer has 4096; the theorems on
  transfers ask for bodies below 2 GiB (the code computes lengths as \<open>int\<close>), those on block
  lists for files below 16 PiB or 256 TiB (the number of blocks is an \<open>int\<close>, the length of a
  list of entries too).

  \<^bold>\<open>Not modelled.\<close> Freeing of memory; messages on the terminal; the socket and resolver calls
  (a parameter: \<open>peer\<close>) and with them the accept loop of the older node; threads other than in \<open>BlockRace\<close>
  (\<open>accept_loop\<close> serves one connection after the other);
  the Python programs, and the parsing of arguments by Python. \<open>d_node/haha\<close> has copies of
  \<open>lib.c\<close> and \<open>sbp_perror.c\<close> of \<open>libc/\<close>: they are modelled once, except for the functions that
  differ (\<open>sbp_send_once\<close>, \<open>dnode_hostname_signed\<close>).

  \<^bold>\<open>Limits.\<close> The theorems across programs are about what a data node can name: it prints block
  numbers into two bytes, so that blocks from 10 on are undefined there (\<open>file_of\<close>, \<open>nameable\<close>);
  every copy has its full 16 MiB, the offset is in the first 16 MiB of the file (behind it
  \<open>c_read\<close> and \<open>c_write\<close> compute a wrong first length), a write stays inside the blocks the
  file has (a data node cannot make a new one), and what is left on the stack where a message is
  received holds no line feed (\<open>session_ok\<close>). A step of a history is a call that a careful control node makes: memory is there,
  the disk is below 1 GiB, paths have at most 495 characters, \<open>c_write\<close> gets a handle that
  \<open>c_open\<close> returns at the time, and a range the disk has room for. Two operations are kept out
  because they break the tree: \<open>c_move\<close>, whose effect within a directory is in \<open>CfsMove\<close> and
  between directories is modelled (\<open>c_move\<close>) but has only the theorem of \<open>CfsShape\<close>, and \<open>c_rmdir\<close>
  on \<open>.\<close> or \<open>..\<close>. That the data nodes delete the blocks of a removed file is the work of the
  Python program, which asks \<open>c_getblocks\<close> for them.
\<close>

end
